(* ===== verification/Prelude.thy ===== *)
theory Prelude
  imports Main "HOL-Library.AList" "HOL-Library.Char_ord" "HOL-Library.List_Lexorder"
    "HOL-Library.Product_Lexorder"
begin

text \<open>
  Shared vocabulary of the development: results of fallible code, Python dictionaries as
  association lists in insertion order, Python's stable \<open>sorted\<close>, and the generic lemmas and
  collections of facts the component theories draw on. Nothing here models a file of the
  repository; every component theory imports it.
\<close>

section \<open>Collections of facts\<close>

named_theorems dict_simps "equations of the dictionary operations"
named_theorems py_simps "equations of the Python value operations"
named_theorems store_defs "definitions of the store operations, for unfolding a whole handler"

section \<open>Results of fallible code\<close>

text \<open>
  A call that may raise returns \<open>Inl e\<close> for the exception and \<open>Inr v\<close> for the value. The source
  raises few kinds of exception in the parts modelled here; the message is kept, because callers
  return it to their own callers. \<open>DatabaseError\<close> stands for the errors of the Postgres driver.
\<close>

datatype py_exn =
    ValueError string
  | TypeError string
  | KeyError string
  | OverflowError string
  | RuntimeError string
  | AttributeError string
  | ArithmeticError string
  | DatabaseError string
  | DataDomainBoundaryError string
  | HTTPException nat string

type_synonym 'a result = "py_exn + 'a"

definition bind_res :: "'a result \<Rightarrow> ('a \<Rightarrow> 'b result) \<Rightarrow> 'b result" where
  "bind_res r f = (case r of Inl e \<Rightarrow> Inl e | Inr v \<Rightarrow> f v)"

lemma bind_res_simps [simp]:
  "bind_res (Inl e) f = Inl e"
  "bind_res (Inr v) f = f v"
  by (simp_all add: bind_res_def)

lemma bind_res_Inr_iff:
  "bind_res r f = Inr v \<longleftrightarrow> (\<exists>u. r = Inr u \<and> f u = Inr v)"
  by (cases r) simp_all

lemma bind_res_split:
  "P (bind_res r f) \<longleftrightarrow> (\<forall>e. r = Inl e \<longrightarrow> P (Inl e)) \<and> (\<forall>u. r = Inr u \<longrightarrow> P (f u))"
  by (cases r) simp_all

fun map_res :: "('a \<Rightarrow> 'b result) \<Rightarrow> 'a list \<Rightarrow> 'b list result" where
  "map_res f [] = Inr []"
| "map_res f (x # xs) = bind_res (f x) (\<lambda>y. bind_res (map_res f xs) (\<lambda>ys. Inr (y # ys)))"

lemma map_res_length: "map_res f xs = Inr ys \<Longrightarrow> length ys = length xs"
  by (induction xs arbitrary: ys) (auto simp: bind_res_Inr_iff)

section \<open>Dictionaries\<close>

text \<open>
  A Python dictionary keeps its keys in insertion order, and an assignment to a key that is
  present changes its value in place. That is \<^const>\<open>AList.update\<close> of the library, and deletion is
  \<^const>\<open>AList.delete\<close>; iteration over \<open>.values()\<close> or \<open>.items()\<close> walks the list. A dictionary is
  well formed when its keys are distinct.
\<close>

type_synonym ('k, 'v) dict = "('k \<times> 'v) list"

abbreviation dict_get :: "('k, 'v) dict \<Rightarrow> 'k \<Rightarrow> 'v option" where
  "dict_get \<equiv> map_of"

abbreviation dict_set :: "'k \<Rightarrow> 'v \<Rightarrow> ('k, 'v) dict \<Rightarrow> ('k, 'v) dict" where
  "dict_set \<equiv> AList.update"

abbreviation dict_del :: "'k \<Rightarrow> ('k, 'v) dict \<Rightarrow> ('k, 'v) dict" where
  "dict_del \<equiv> AList.delete"

definition dict_has :: "'k \<Rightarrow> ('k, 'v) dict \<Rightarrow> bool" where
  "dict_has k d = (map_of d k \<noteq> None)"

definition dict_setdefault :: "'k \<Rightarrow> 'v \<Rightarrow> ('k, 'v) dict \<Rightarrow> ('k, 'v) dict" where
  "dict_setdefault k v d = (case map_of d k of None \<Rightarrow> d @ [(k, v)] | Some _ \<Rightarrow> d)"

definition dict_update :: "('k, 'v) dict \<Rightarrow> ('k, 'v) dict \<Rightarrow> ('k, 'v) dict" where
  "dict_update d e = fold (\<lambda>(k, v). AList.update k v) e d"

definition dict_wf :: "('k, 'v) dict \<Rightarrow> bool" where
  "dict_wf d = distinct (map fst d)"

lemma dict_get_set [simp, dict_simps]:
  "map_of (AList.update k v d) k' = (if k' = k then Some v else map_of d k')"
  by (simp add: update_conv')

lemma dict_get_del [simp, dict_simps]:
  "map_of (AList.delete k d) k' = (if k' = k then None else map_of d k')"
  by (simp add: delete_conv')

lemma dict_get_setdefault [dict_simps]:
  "map_of (dict_setdefault k v d) k' =
     (if k' = k then Some (case map_of d k of None \<Rightarrow> v | Some u \<Rightarrow> u) else map_of d k')"
  by (auto simp: dict_setdefault_def map_add_def split: option.splits)

lemma dict_get_update:
  assumes "dict_wf e"
  shows "map_of (dict_update d e) k = (case map_of e k of Some v \<Rightarrow> Some v | None \<Rightarrow> map_of d k)"
  using assms
proof (induction e arbitrary: d)
  case Nil
  then show ?case by (simp add: dict_update_def)
next
  case (Cons p e)
  obtain j v where p: "p = (j, v)" by force
  from Cons.prems have wf: "dict_wf e" and j: "map_of e j = None"
    by (auto simp: dict_wf_def p map_of_eq_None_iff)
  have "map_of (dict_update d (p # e)) k = map_of (dict_update (AList.update j v d) e) k"
    by (simp add: dict_update_def p)
  also have "\<dots> = (case map_of e k of Some u \<Rightarrow> Some u | None \<Rightarrow> map_of (AList.update j v d) k)"
    using Cons.IH [OF wf] by simp
  finally show ?case
    using j by (cases "k = j") (simp_all add: p split: option.split)
qed

lemma dict_wf_Nil [simp]: "dict_wf []"
  by (simp add: dict_wf_def)

lemma dict_wf_set [simp, intro]: "dict_wf d \<Longrightarrow> dict_wf (AList.update k v d)"
  by (simp add: dict_wf_def distinct_update)

lemma dict_wf_del [simp, intro]: "dict_wf d \<Longrightarrow> dict_wf (AList.delete k d)"
  by (simp add: dict_wf_def distinct_delete)

lemma dict_wf_setdefault [simp, intro]: "dict_wf d \<Longrightarrow> dict_wf (dict_setdefault k v d)"
  by (auto simp: dict_wf_def dict_setdefault_def map_of_eq_None_iff split: option.splits)

lemma dict_wf_update [simp, intro]: "dict_wf d \<Longrightarrow> dict_wf (dict_update d e)"
  by (induction e arbitrary: d) (auto simp: dict_update_def split: prod.splits)

lemma set_dict_set:
  "dict_wf d \<Longrightarrow> set (AList.update k v d) = insert (k, v) {p \<in> set d. fst p \<noteq> k}"
proof (induction d)
  case (Cons p d)
  then show ?case
    by (cases p) (auto simp: dict_wf_def image_iff)
qed simp

lemma dict_set_fresh: "map_of d k = None \<Longrightarrow> AList.update k v d = d @ [(k, v)]"
  by (induction d) (auto split: if_splits)

lemma dict_set_same: "dict_wf d \<Longrightarrow> map_of d k = Some v \<Longrightarrow> AList.update k v d = d"
  by (induction d) (auto simp: dict_wf_def split: if_splits)

lemma keys_dict_set_present: "map_of d k = Some u \<Longrightarrow> map fst (AList.update k v d) = map fst d"
  by (induction d) (auto split: if_splits)

lemma length_dict_set_fresh [simp]:
  "map_of d k = None \<Longrightarrow> length (AList.update k v d) = Suc (length d)"
  by (simp add: dict_set_fresh)

lemma length_dict_set_present:
  "map_of d k = Some u \<Longrightarrow> length (AList.update k v d) = length d"
  by (induction d) (auto split: if_splits)

lemma map_of_in_values: "map_of d k = Some v \<Longrightarrow> v \<in> set (map snd d)"
  by (force dest: map_of_SomeD)

lemma values_dict_set:
  "set (map snd (AList.update k v d)) \<subseteq> insert v (set (map snd d))"
  by (induction d) auto

text \<open>A property of every stored value.\<close>

definition dict_all :: "('v \<Rightarrow> bool) \<Rightarrow> ('k, 'v) dict \<Rightarrow> bool" where
  "dict_all P d = list_all (\<lambda>(k, v). P v) d"

lemma dict_all_Nil [simp]: "dict_all P []"
  by (simp add: dict_all_def)

lemma dict_all_get: "dict_all P d \<Longrightarrow> map_of d k = Some v \<Longrightarrow> P v"
  by (auto simp: dict_all_def list_all_iff dest!: map_of_SomeD)

lemma dict_all_set [simp, intro]: "dict_all P d \<Longrightarrow> P v \<Longrightarrow> dict_all P (AList.update k v d)"
  by (induction d) (auto simp: dict_all_def)

lemma dict_all_del [simp, intro]: "dict_all P d \<Longrightarrow> dict_all P (AList.delete k d)"
  by (induction d) (auto simp: dict_all_def)

lemma dict_all_append [simp]: "dict_all P (d @ e) \<longleftrightarrow> dict_all P d \<and> dict_all P e"
  by (simp add: dict_all_def)

lemma dict_all_Cons [simp]: "dict_all P ((k, v) # d) \<longleftrightarrow> P v \<and> dict_all P d"
  by (simp add: dict_all_def)

lemma map_of_dict_update_some: "map_of d k \<noteq> None \<Longrightarrow> map_of (dict_update d e) k \<noteq> None"
  by (induction e arbitrary: d) (auto simp: dict_update_def split: prod.splits)

section \<open>Python's stable sort\<close>

text \<open>
  \<open>sorted(xs, key=k)\<close> is stable, and so is \<^const>\<open>sort_key\<close>. With \<open>reverse=True\<close> Python still keeps
  the original order of equal elements, which is the reversal of a stable sort of the reversal.
\<close>

definition sorted_by :: "('a \<Rightarrow> 'b::linorder) \<Rightarrow> 'a list \<Rightarrow> 'a list" where
  "sorted_by k xs = sort_key k xs"

definition sorted_by_desc :: "('a \<Rightarrow> 'b::linorder) \<Rightarrow> 'a list \<Rightarrow> 'a list" where
  "sorted_by_desc k xs = rev (sort_key k (rev xs))"

lemma set_sorted_by [simp]: "set (sorted_by k xs) = set xs"
  by (simp add: sorted_by_def)

lemma length_sorted_by [simp]: "length (sorted_by k xs) = length xs"
  by (simp add: sorted_by_def)

lemma sorted_sorted_by: "sorted (map k (sorted_by k xs))"
  by (simp add: sorted_by_def)

lemma distinct_sorted_by [simp]: "distinct (sorted_by k xs) = distinct xs"
  by (simp add: sorted_by_def)

lemma set_sorted_by_desc [simp]: "set (sorted_by_desc k xs) = set xs"
  by (simp add: sorted_by_desc_def)

lemma length_sorted_by_desc [simp]: "length (sorted_by_desc k xs) = length xs"
  by (simp add: sorted_by_desc_def)

lemma sorted_sorted_by_desc: "sorted (rev (map k (sorted_by_desc k xs)))"
  by (simp add: sorted_by_desc_def rev_map)

section \<open>Lists\<close>

fun find_first :: "('a \<Rightarrow> bool) \<Rightarrow> 'a list \<Rightarrow> 'a option" where
  "find_first p [] = None"
| "find_first p (x # xs) = (if p x then Some x else find_first p xs)"

lemma find_first_SomeD: "find_first p xs = Some x \<Longrightarrow> x \<in> set xs \<and> p x"
  by (induction xs) (auto split: if_splits)

lemma find_first_None_iff: "find_first p xs = None \<longleftrightarrow> (\<forall>x \<in> set xs. \<not> p x)"
  by (induction xs) auto

lemma find_first_append:
  "find_first p (xs @ ys) = (case find_first p xs of Some x \<Rightarrow> Some x | None \<Rightarrow> find_first p ys)"
  by (induction xs) auto

lemma find_first_map:
  "(\<And>x. x \<in> set xs \<Longrightarrow> p (f x) = p x) \<Longrightarrow> find_first p (map f xs) = map_option f (find_first p xs)"
  by (induction xs) auto

text \<open>The last \<open>n\<close> elements, Python's \<open>xs[-n:]\<close> for a positive \<open>n\<close>.\<close>

definition take_last :: "nat \<Rightarrow> 'a list \<Rightarrow> 'a list" where
  "take_last n xs = drop (length xs - n) xs"

lemma length_take_last: "length (take_last n xs) = min n (length xs)"
  by (simp add: take_last_def)

lemma set_take_last: "set (take_last n xs) \<subseteq> set xs"
  by (simp add: take_last_def set_drop_subset)

lemma sum_list_filter_split:
  "sum_list (map f xs) = sum_list (map f (filter P xs)) + sum_list (map f (filter (\<lambda>x. \<not> P x) xs))"
  for f :: "'a \<Rightarrow> int"
  by (induction xs) auto

lemma filter_map_untouched:
  assumes "\<And>x. x \<in> set xs \<Longrightarrow> P (f x) = P x" and "\<And>x. x \<in> set xs \<Longrightarrow> P x \<Longrightarrow> f x = x"
  shows "filter P (map f xs) = filter P xs"
  using assms by (induction xs) auto

end
