(* ===== verification/PyText.thy ===== *)
theory PyText
  imports Prelude
begin

text \<open>
  The part of Python's \<open>str\<close> and of its numeric literals that the repository uses. A string is a
  list of \<open>char\<close>, read as Latin-1 code points, so \<open>strip\<close>, \<open>lower\<close> and \<open>isdigit\<close> follow CPython on
  that range. Numeric literals are read the way \<open>int(str)\<close> and \<open>decimal.Decimal(str)\<close> read them.
\<close>

section \<open>Characters\<close>

abbreviation ord_char :: "char \<Rightarrow> nat" where
  "ord_char c \<equiv> of_char c"

definition is_space :: "char \<Rightarrow> bool" where
  "is_space c = (let n = ord_char c in
     9 \<le> n \<and> n \<le> 13 \<or> 28 \<le> n \<and> n \<le> 32 \<or> n = 133 \<or> n = 160)"

definition is_dec_digit :: "char \<Rightarrow> bool" where
  "is_dec_digit c = (48 \<le> ord_char c \<and> ord_char c \<le> (57::nat))"

text \<open>\<open>str.isdigit\<close> also accepts the superscript digits of Latin-1.\<close>

definition is_digit_char :: "char \<Rightarrow> bool" where
  "is_digit_char c = (is_dec_digit c \<or> ord_char c \<in> {178, 179, 185::nat})"

definition lower_char :: "char \<Rightarrow> char" where
  "lower_char c = (let n = ord_char c in
     if 65 \<le> n \<and> n \<le> 90 \<or> 192 \<le> n \<and> n \<le> 222 \<and> n \<noteq> 215 then char_of (n + 32) else c)"

definition digit_val :: "char \<Rightarrow> nat" where
  "digit_val c = ord_char c - 48"

definition digit_char :: "nat \<Rightarrow> char" where
  "digit_char d = char_of (48 + d)"

lemma ord_digit_char [simp]: "d < 10 \<Longrightarrow> ord_char (digit_char d) = (48 + d :: nat)"
  by (simp add: digit_char_def of_char_mod_256)

lemma digit_val_char [simp]: "d < 10 \<Longrightarrow> digit_val (digit_char d) = d"
  by (simp add: digit_val_def)

lemma is_dec_digit_char [simp]: "d < 10 \<Longrightarrow> is_dec_digit (digit_char d)"
  by (simp add: is_dec_digit_def)

section \<open>Strings\<close>

definition lstrip :: "string \<Rightarrow> string" where
  "lstrip s = dropWhile is_space s"

definition strip :: "string \<Rightarrow> string" where
  "strip s = rev (dropWhile is_space (rev (dropWhile is_space s)))"

definition lower :: "string \<Rightarrow> string" where
  "lower s = map lower_char s"

fun startswith :: "string \<Rightarrow> string \<Rightarrow> bool" where
  "startswith s [] = True"
| "startswith [] (p # ps) = False"
| "startswith (c # s) (p # ps) = (c = p \<and> startswith s ps)"

text \<open>\<open>needle in hay\<close> and \<open>hay.find(needle)\<close>.\<close>

fun contains :: "string \<Rightarrow> string \<Rightarrow> bool" where
  "contains [] n = (n = [])"
| "contains (c # s) n = (startswith (c # s) n \<or> contains s n)"

fun find_sub :: "string \<Rightarrow> string \<Rightarrow> nat option" where
  "find_sub [] n = (if n = [] then Some 0 else None)"
| "find_sub (c # s) n = (if startswith (c # s) n then Some 0 else map_option Suc (find_sub s n))"

text \<open>\<open>s.split(sep)\<close> for a separator of one character.\<close>

fun split_on :: "char \<Rightarrow> string \<Rightarrow> string list" where
  "split_on d [] = [[]]"
| "split_on d (c # s) =
     (if c = d then [] # split_on d s
      else (case split_on d s of [] \<Rightarrow> [[c]] | w # ws \<Rightarrow> (c # w) # ws))"

fun replace_char :: "char \<Rightarrow> string \<Rightarrow> string \<Rightarrow> string" where
  "replace_char d r [] = []"
| "replace_char d r (c # s) = (if c = d then r @ replace_char d r s else c # replace_char d r s)"

fun join :: "string \<Rightarrow> string list \<Rightarrow> string" where
  "join sep [] = []"
| "join sep [w] = w"
| "join sep (w # v # ws) = w @ sep @ join sep (v # ws)"

lemma startswith_append [simp]: "startswith (p @ s) p"
  by (induction p) auto

lemma startswith_iff: "startswith s p \<longleftrightarrow> take (length p) s = p"
  by (induction s p rule: startswith.induct) auto

lemma split_on_nonempty: "split_on d s \<noteq> []"
  by (induction s) (auto split: list.splits)

lemma split_on_no_sep: "d \<notin> set s \<Longrightarrow> split_on d s = [s]"
  by (induction s) auto

lemma split_on_append: "d \<notin> set s \<Longrightarrow> split_on d (s @ d # t) = s # split_on d t"
  by (induction s) auto

lemma replace_char_absent: "d \<notin> set s \<Longrightarrow> replace_char d r s = s"
  by (induction s) auto

lemma replace_char_append:
  "replace_char d r (s @ t) = replace_char d r s @ replace_char d r t"
  by (induction s) auto

definition stripped :: "string \<Rightarrow> bool" where
  "stripped s = (strip s = s)"

lemma dropWhile_hd: "xs = [] \<or> \<not> p (hd xs) \<Longrightarrow> dropWhile p xs = xs"
  by (cases xs) auto

lemma last_dropWhile: "dropWhile p xs \<noteq> [] \<Longrightarrow> last (dropWhile p xs) = last xs"
  by (induction xs) (auto split: if_splits)

lemma strip_hd_last:
  assumes "s = [] \<or> \<not> is_space (hd s) \<and> \<not> is_space (last s)"
  shows "strip s = s"
proof -
  have "dropWhile is_space s = s" and "dropWhile is_space (rev s) = rev s"
    using assms by (auto intro!: dropWhile_hd simp: hd_rev)
  then show ?thesis by (simp add: strip_def)
qed

lemma strip_strip [simp]: "strip (strip s) = strip s"
proof (rule strip_hd_last)
  define t where "t = dropWhile is_space s"
  define u where "u = dropWhile is_space (rev t)"
  have s: "strip s = rev u" by (simp add: strip_def t_def u_def)
  show "strip s = [] \<or> \<not> is_space (hd (strip s)) \<and> \<not> is_space (last (strip s))"
  proof (cases "u = []")
    case False
    then have t: "t \<noteq> []" by (auto simp: u_def)
    from False have "\<not> is_space (hd u)" by (simp add: u_def hd_dropWhile)
    moreover from t have "\<not> is_space (hd t)" by (simp add: t_def hd_dropWhile)
    moreover from False t have "last u = hd t"
      using last_dropWhile [of is_space "rev t"] by (simp add: u_def last_rev)
    ultimately show ?thesis using False by (simp add: s hd_rev last_rev)
  qed (simp add: s)
qed

lemma strip_stripped [simp, intro]: "stripped (strip s)"
  by (simp add: stripped_def)

section \<open>The environment\<close>

text \<open>The process environment, as \<open>os.getenv\<close> reads it.\<close>

type_synonym environ = "string \<Rightarrow> string option"

definition getenv :: "environ \<Rightarrow> string \<Rightarrow> string \<Rightarrow> string" where
  "getenv env k dflt = (case env k of Some v \<Rightarrow> v | None \<Rightarrow> dflt)"

end
