(* ===== verification/PyNum.thy ===== *)
theory PyNum
  imports PyText Complex_Main
begin

text \<open>
  Numbers as text: \<open>str(int)\<close>, \<open>int(str)\<close> and \<open>decimal.Decimal(str)\<close>, with the round trip between
  the first two. The limits CPython puts on very long literals (4300 digits for \<open>int\<close>, the exponent
  range of \<open>Decimal\<close>) are not modelled. A decimal is its exact value.
\<close>

section \<open>Integers\<close>

fun str_nat :: "nat \<Rightarrow> string" where
  "str_nat n = (if n < 10 then [digit_char n] else str_nat (n div 10) @ [digit_char (n mod 10)])"

declare str_nat.simps [simp del]

definition str_int :: "int \<Rightarrow> string" where
  "str_int i = (if i < 0 then CHR ''-'' # str_nat (nat (- i)) else str_nat (nat i))"

definition nat_of_digits :: "string \<Rightarrow> nat" where
  "nat_of_digits s = foldl (\<lambda>a c. 10 * a + digit_val c) 0 s"

text \<open>The digits of an \<open>int\<close> literal: groups of digits with one underscore between two groups.\<close>

fun scan_int :: "bool \<Rightarrow> nat \<Rightarrow> string \<Rightarrow> nat option" where
  "scan_int p a [] = (if p then Some a else None)"
| "scan_int p a (c # s) =
     (if is_dec_digit c then scan_int True (10 * a + digit_val c) s
      else if c = CHR ''_'' \<and> p then scan_int False a s
      else None)"

definition parse_int :: "string \<Rightarrow> int option" where
  "parse_int s = (case strip s of
       [] \<Rightarrow> None
     | c # r \<Rightarrow>
         if c = CHR ''-'' then map_option (\<lambda>n. - int n) (scan_int False 0 r)
         else if c = CHR ''+'' then map_option int (scan_int False 0 r)
         else map_option int (scan_int False 0 (c # r)))"

lemma str_nat_nonempty [simp]: "str_nat n \<noteq> []"
  by (subst str_nat.simps) simp

lemma str_nat_digits: "c \<in> set (str_nat n) \<Longrightarrow> is_dec_digit c"
proof (induction n rule: str_nat.induct)
  case (1 n)
  then show ?case
    by (cases "n < 10") (auto simp: str_nat.simps [of n])
qed

lemma scan_int_append:
  "(\<And>c. c \<in> set s \<Longrightarrow> is_dec_digit c) \<Longrightarrow> s \<noteq> [] \<Longrightarrow>
   scan_int p a (s @ t) = scan_int True (foldl (\<lambda>a c. 10 * a + digit_val c) a s) t"
proof (induction s arbitrary: p a)
  case (Cons c s)
  have c: "is_dec_digit c" and s: "\<And>d. d \<in> set s \<Longrightarrow> is_dec_digit d"
    using Cons.prems by auto
  show ?case
  proof (cases "s = []")
    case False
    with Cons.IH [OF s] c show ?thesis by simp
  qed (simp add: c)
qed simp

lemma nat_of_digits_str_nat [simp]: "nat_of_digits (str_nat n) = n"
proof (induction n rule: str_nat.induct)
  case (1 n)
  then show ?case
    by (cases "n < 10") (simp_all add: str_nat.simps [of n] nat_of_digits_def)
qed

lemma scan_int_str_nat [simp]: "scan_int False 0 (str_nat n) = Some n"
proof -
  have "scan_int False 0 (str_nat n @ []) = scan_int True (nat_of_digits (str_nat n)) []"
    unfolding nat_of_digits_def by (rule scan_int_append) (auto dest: str_nat_digits)
  then show ?thesis by simp
qed

lemma dec_digit_not_space: "is_dec_digit c \<Longrightarrow> \<not> is_space c"
  by (auto simp: is_dec_digit_def is_space_def Let_def)

lemma dec_digit_not_sign: "is_dec_digit c \<Longrightarrow> c \<noteq> CHR ''-'' \<and> c \<noteq> CHR ''+'' \<and> c \<noteq> CHR ''_''"
  by (auto simp: is_dec_digit_def)

lemma strip_str_nat [simp]: "strip (str_nat n) = str_nat n"
proof (rule strip_hd_last)
  have "hd (str_nat n) \<in> set (str_nat n)" and "last (str_nat n) \<in> set (str_nat n)"
    by simp_all
  then show "str_nat n = [] \<or> \<not> is_space (hd (str_nat n)) \<and> \<not> is_space (last (str_nat n))"
    using dec_digit_not_space str_nat_digits by metis
qed

lemma strip_minus_str_nat [simp]: "strip (CHR ''-'' # str_nat n) = CHR ''-'' # str_nat n"
proof (rule strip_hd_last)
  have "\<not> is_space (last (str_nat n))"
    by (rule dec_digit_not_space, rule str_nat_digits [of _ n]) simp
  then show "CHR ''-'' # str_nat n = [] \<or>
      \<not> is_space (hd (CHR ''-'' # str_nat n)) \<and> \<not> is_space (last (CHR ''-'' # str_nat n))"
    by (auto simp: is_space_def [of "CHR ''-''"])
qed

lemma parse_int_str_nat [simp]: "parse_int (str_nat n) = Some (int n)"
proof -
  obtain c r where cr: "str_nat n = c # r" by (cases "str_nat n") auto
  then have "is_dec_digit c" using str_nat_digits [of c n] by simp
  then have "c \<noteq> CHR ''-''" and "c \<noteq> CHR ''+''" by (auto dest: dec_digit_not_sign)
  moreover have "scan_int False 0 (c # r) = Some n" by (simp flip: cr)
  moreover have "strip (c # r) = c # r" using strip_str_nat [of n] by (simp add: cr)
  ultimately show ?thesis
    by (simp add: parse_int_def cr del: scan_int.simps)
qed

lemma parse_int_str_int [simp]: "parse_int (str_int i) = Some i"
proof (cases "i < 0")
  case True
  then show ?thesis by (simp add: str_int_def parse_int_def)
qed (simp add: str_int_def)

lemma str_int_inj: "str_int i = str_int j \<Longrightarrow> i = j"
  by (metis option.inject parse_int_str_int)

lemma str_nat_inj [simp]: "str_nat m = str_nat n \<longleftrightarrow> m = n"
  by (metis nat_of_digits_str_nat)

lemma str_int_nonempty [simp]: "str_int i \<noteq> []"
  by (simp add: str_int_def)

section \<open>Decimal literals\<close>

datatype dec_lit = DecFin rat | DecInf | DecNaN

definition scale10 :: "nat \<Rightarrow> int \<Rightarrow> rat" where
  "scale10 m e = (if 0 \<le> e then of_nat m * 10 ^ nat e else of_nat m / 10 ^ nat (- e))"

definition parse_exponent :: "string \<Rightarrow> int option" where
  "parse_exponent s = (case s of
       [] \<Rightarrow> Some 0
     | c # r \<Rightarrow>
         if c = CHR ''e'' \<or> c = CHR ''E'' then
           (let neg = (case r of d # _ \<Rightarrow> d = CHR ''-'' | [] \<Rightarrow> False);
                t = (case r of d # q \<Rightarrow> if d = CHR ''-'' \<or> d = CHR ''+'' then q else r | [] \<Rightarrow> [])
            in if t \<noteq> [] \<and> list_all is_dec_digit t
               then Some (if neg then - int (nat_of_digits t) else int (nat_of_digits t))
               else None)
         else None)"

definition parse_unsigned_decimal :: "string \<Rightarrow> dec_lit option" where
  "parse_unsigned_decimal s =
     (let l = lower s in
      if l = ''inf'' \<or> l = ''infinity'' then Some DecInf
      else if startswith l ''nan'' \<and> list_all is_dec_digit (drop 3 l) then Some DecNaN
      else if startswith l ''snan'' \<and> list_all is_dec_digit (drop 4 l) then Some DecNaN
      else
        (let ip = takeWhile is_dec_digit s; r = dropWhile is_dec_digit s;
             dot = (r \<noteq> [] \<and> hd r = CHR ''.'');
             fp = (if dot then takeWhile is_dec_digit (tl r) else []);
             q = (if dot then dropWhile is_dec_digit (tl r) else r)
         in if ip = [] \<and> fp = [] then None
            else map_option (\<lambda>e. DecFin (scale10 (nat_of_digits (ip @ fp)) (e - int (length fp))))
                   (parse_exponent q)))"

definition parse_decimal :: "string \<Rightarrow> dec_lit option" where
  "parse_decimal s =
     (let t = filter (\<lambda>c. c \<noteq> CHR ''_'') (strip s) in
      case t of
        [] \<Rightarrow> None
      | c # r \<Rightarrow>
          if c = CHR ''-'' then
            map_option (\<lambda>d. case d of DecFin q \<Rightarrow> DecFin (- q) | x \<Rightarrow> x) (parse_unsigned_decimal r)
          else if c = CHR ''+'' then parse_unsigned_decimal r
          else parse_unsigned_decimal t)"

lemma takeWhile_all: "(\<And>c. c \<in> set s \<Longrightarrow> p c) \<Longrightarrow> takeWhile p s = s \<and> dropWhile p s = []"
  by (induction s) auto

lemma lower_digits: "(\<And>c. c \<in> set s \<Longrightarrow> is_dec_digit c) \<Longrightarrow> lower s = s"
proof (induction s)
  case (Cons c s)
  then have "is_dec_digit c" by simp
  then have "lower_char c = c" by (auto simp: lower_char_def is_dec_digit_def Let_def)
  with Cons show ?case by (simp add: lower_def)
qed (simp add: lower_def)

lemma parse_unsigned_decimal_str_nat [simp]:
  "parse_unsigned_decimal (str_nat n) = Some (DecFin (of_nat n))"
proof -
  have d: "\<And>c. c \<in> set (str_nat n) \<Longrightarrow> is_dec_digit c" by (rule str_nat_digits)
  have low: "lower (str_nat n) = str_nat n" by (rule lower_digits) (rule d)
  obtain c r where cr: "str_nat n = c # r" by (cases "str_nat n") auto
  then have c: "is_dec_digit c" using d by simp
  then have "c \<noteq> CHR ''i''" "c \<noteq> CHR ''n''" "c \<noteq> CHR ''s''" by (auto simp: is_dec_digit_def)
  then have "\<not> (str_nat n = ''inf'' \<or> str_nat n = ''infinity'')"
    "\<not> startswith (str_nat n) ''nan''" "\<not> startswith (str_nat n) ''snan''"
    by (auto simp: cr)
  moreover have tw: "takeWhile is_dec_digit (str_nat n) = str_nat n"
    and dw: "dropWhile is_dec_digit (str_nat n) = []"
    using takeWhile_all [of "str_nat n" is_dec_digit] d by auto
  ultimately show ?thesis
    unfolding parse_unsigned_decimal_def low Let_def tw dw
    by (simp add: parse_exponent_def scale10_def)
qed

lemma filter_underscore_str_nat [simp]:
  "filter (\<lambda>c. c \<noteq> CHR ''_'') (str_nat n) = str_nat n"
  by (rule filter_True) (auto dest!: str_nat_digits dec_digit_not_sign)

lemma parse_decimal_str_int [simp]: "parse_decimal (str_int i) = Some (DecFin (of_int i))"
proof (cases "i < 0")
  case True
  then show ?thesis
    by (simp add: str_int_def parse_decimal_def of_nat_nat)
next
  case False
  obtain c r where cr: "str_nat (nat i) = c # r" by (cases "str_nat (nat i)") auto
  then have "is_dec_digit c" using str_nat_digits [of c "nat i"] by simp
  then have c: "c \<noteq> CHR ''-''" "c \<noteq> CHR ''+''" by (auto dest: dec_digit_not_sign)
  have "filter (\<lambda>c. c \<noteq> CHR ''_'') (strip (str_nat (nat i))) = c # r"
    by (simp add: cr [symmetric])
  with c have "parse_decimal (str_nat (nat i)) = parse_unsigned_decimal (str_nat (nat i))"
    unfolding parse_decimal_def Let_def by (simp only: cr list.case if_False)
  with False show ?thesis by (simp add: str_int_def of_nat_nat)
qed

section \<open>Rounding\<close>

text \<open>
  \<open>quantize(Decimal("1"), ROUND_HALF_UP)\<close> rounds half away from zero; \<open>int(x)\<close> truncates.
\<close>

definition round_half_up :: "rat \<Rightarrow> int" where
  "round_half_up q = (if 0 \<le> q then \<lfloor>q + 1 / 2\<rfloor> else - \<lfloor>- q + 1 / 2\<rfloor>)"

definition trunc_rat :: "rat \<Rightarrow> int" where
  "trunc_rat q = (if 0 \<le> q then \<lfloor>q\<rfloor> else - \<lfloor>- q\<rfloor>)"

text \<open>\<open>quantize(Decimal("0.01"), ROUND_HALF_UP)\<close>.\<close>

definition q2 :: "rat \<Rightarrow> rat" where
  "q2 q = of_int (round_half_up (100 * q)) / 100"

lemma round_half_up_int [simp]: "round_half_up (of_int i) = i"
proof -
  have "\<lfloor>of_int j + 1 / 2 :: rat\<rfloor> = j" for j by linarith
  from this [of i] this [of "- i"] show ?thesis by (simp add: round_half_up_def)
qed

lemma round_half_up_minus [simp]: "round_half_up (- q) = - round_half_up q"
proof (cases "q = 0")
  case True
  have "\<lfloor>1 / 2 :: rat\<rfloor> = 0" by linarith
  with True show ?thesis by (simp add: round_half_up_def)
qed (auto simp: round_half_up_def)

lemma round_half_up_close: "\<bar>of_int (round_half_up q) - q\<bar> \<le> 1 / 2"
  unfolding round_half_up_def by (cases "0 \<le> q"; simp only: if_True if_False; linarith)

lemma round_half_up_mono: "p \<le> q \<Longrightarrow> round_half_up p \<le> round_half_up q"
proof -
  assume pq: "p \<le> q"
  have neg: "r < 0 \<Longrightarrow> round_half_up r \<le> 0" for r
    unfolding round_half_up_def by (simp only: if_False not_le [symmetric]; linarith)
  have pos: "0 \<le> r \<Longrightarrow> 0 \<le> round_half_up r" for r
    unfolding round_half_up_def by (simp only: if_True; linarith)
  show ?thesis
  proof (cases "0 \<le> p")
    case True
    with pq show ?thesis by (simp add: round_half_up_def floor_mono)
  next
    case p: False
    show ?thesis
    proof (cases "0 \<le> q")
      case True
      with p show ?thesis using neg [of p] pos [of q] by simp
    next
      case False
      with p pq show ?thesis by (simp add: round_half_up_def floor_mono)
    qed
  qed
qed

lemma round_half_up_nonneg: "0 \<le> q \<Longrightarrow> 0 \<le> round_half_up q"
  using round_half_up_mono [of 0 q] round_half_up_int [of 0] by simp

lemma q2_mono: "p \<le> q \<Longrightarrow> q2 p \<le> q2 q"
  by (simp add: q2_def round_half_up_mono divide_right_mono)

lemma q2_0 [simp]: "q2 0 = 0"
  using round_half_up_int [of 0] by (simp add: q2_def)

lemma q2_1 [simp]: "q2 1 = 1"
  using round_half_up_int [of 100] by (simp add: q2_def)

lemma q2_close: "\<bar>q2 q - q\<bar> \<le> 1 / 200"
  using round_half_up_close [of "100 * q"] by (simp add: q2_def abs_if split: if_splits)

text \<open>\<open>to_integral_value()\<close> and \<open>quantize(...)\<close> in the default context round half to even.\<close>

definition round_half_even :: "rat \<Rightarrow> int" where
  "round_half_even q = (let n = \<lfloor>q\<rfloor>; f = q - of_int n in
     if f < 1 / 2 then n else if 1 / 2 < f then n + 1 else if even n then n else n + 1)"

lemma round_half_even_int [simp]: "round_half_even (of_int i) = i"
  by (simp add: round_half_even_def)

lemma round_half_even_close: "\<bar>of_int (round_half_even q) - q\<bar> \<le> 1 / 2"
proof -
  define n where "n = \<lfloor>q\<rfloor>"
  have bounds: "of_int n \<le> q" "q < of_int n + 1" unfolding n_def by linarith+
  consider "round_half_even q = n" "q - of_int n \<le> 1 / 2"
    | "round_half_even q = n + 1" "1 / 2 \<le> q - of_int n"
    unfolding round_half_even_def Let_def n_def [symmetric]
    by (cases "q - of_int n < 1 / 2"; cases "1 / 2 < q - of_int n"; cases "even n") auto
  then show ?thesis
  proof cases
    case 1
    then show ?thesis using bounds by (simp only: abs_le_iff) linarith
  next
    case 2
    then show ?thesis using bounds by (simp only: abs_le_iff of_int_add of_int_1) linarith
  qed
qed

lemma round_half_even_between:
  assumes "of_int a \<le> q" and "q \<le> of_int b"
  shows "a \<le> round_half_even q \<and> round_half_even q \<le> b"
proof -
  have c: "of_int (round_half_even q) \<le> q + 1 / 2" "q - 1 / 2 \<le> of_int (round_half_even q)"
    using round_half_even_close [of q] by linarith+
  show ?thesis
  proof
    show "a \<le> round_half_even q" using c(2) assms(1) by linarith
    show "round_half_even q \<le> b" using c(1) assms(2) by linarith
  qed
qed

end
