(* ===== verification/PyVal.thy ===== *)
theory PyVal
  imports PyNum
begin

text \<open>
  The JSON-shaped Python values the stores and the event payloads carry (\<open>dict[str, Any]\<close>): \<open>None\<close>,
  booleans, integers, floats, strings, lists and dictionaries with string keys. A float is carried
  by its \<open>repr\<close>, which determines it; its number is the value of that literal. With them come the
  built-ins the code applies to such values: truth (\<open>x or y\<close>), \<open>str\<close>, \<open>repr\<close>, \<open>int\<close>, \<open>==\<close>, and
  \<open>dict.get\<close>. \<open>deepcopy\<close> is the identity, since values here are immutable.
\<close>

section \<open>Values\<close>

datatype pyval =
    PyNone
  | PyBool bool
  | PyInt int
  | PyFloat string
  | PyStr string
  | PyList "pyval list"
  | PyDict "(string \<times> pyval) list"

type_synonym pydict = "(string, pyval) dict"

definition float_num :: "string \<Rightarrow> rat option" where
  "float_num r = (case parse_decimal r of Some (DecFin q) \<Rightarrow> Some q | _ \<Rightarrow> None)"

text \<open>\<open>bool(x)\<close>.\<close>

fun truthy :: "pyval \<Rightarrow> bool" where
  "truthy PyNone = False"
| "truthy (PyBool b) = b"
| "truthy (PyInt i) = (i \<noteq> 0)"
| "truthy (PyFloat r) = (float_num r \<noteq> Some 0)"
| "truthy (PyStr s) = (s \<noteq> [])"
| "truthy (PyList xs) = (xs \<noteq> [])"
| "truthy (PyDict d) = (d \<noteq> [])"

text \<open>\<open>x or y\<close>.\<close>

definition py_or :: "pyval \<Rightarrow> pyval \<Rightarrow> pyval" where
  "py_or x y = (if truthy x then x else y)"

text \<open>\<open>d.get(k)\<close> and \<open>d.get(k, v)\<close>.\<close>

definition get :: "pydict \<Rightarrow> string \<Rightarrow> pyval" where
  "get d k = (case map_of d k of None \<Rightarrow> PyNone | Some v \<Rightarrow> v)"

definition get_or :: "pydict \<Rightarrow> string \<Rightarrow> pyval \<Rightarrow> pyval" where
  "get_or d k v = (case map_of d k of None \<Rightarrow> v | Some u \<Rightarrow> u)"

fun is_dict :: "pyval \<Rightarrow> bool" where
  "is_dict (PyDict d) = True"
| "is_dict _ = False"

text \<open>\<open>x if isinstance(x, dict) else {}\<close>.\<close>

fun dict_or_empty :: "pyval \<Rightarrow> pydict" where
  "dict_or_empty (PyDict d) = d"
| "dict_or_empty _ = []"

section \<open>Text of a value\<close>

definition hex_digit :: "nat \<Rightarrow> char" where
  "hex_digit d = (if d < 10 then char_of (48 + d) else char_of (87 + d))"

text \<open>One character inside a string literal that is quoted with \<open>q\<close>.\<close>

definition repr_char :: "char \<Rightarrow> char \<Rightarrow> string" where
  "repr_char q c = (let n = ord_char c in
     if c = q \<or> c = CHR 0x5C then [CHR 0x5C, c]
     else if n = 9 then [CHR 0x5C, CHR ''t'']
     else if n = 10 then [CHR 0x5C, CHR ''n'']
     else if n = 13 then [CHR 0x5C, CHR ''r'']
     else if n < 32 \<or> 127 \<le> n \<and> n \<le> 160 \<or> n = 173
     then [CHR 0x5C, CHR ''x'', hex_digit (n div 16), hex_digit (n mod 16)]
     else [c])"

definition repr_str :: "string \<Rightarrow> string" where
  "repr_str s =
     (let q = (if CHR 0x27 \<in> set s \<and> CHR 0x22 \<notin> set s then CHR 0x22 else CHR 0x27)
      in [q] @ concat (map (repr_char q) s) @ [q])"

fun repr :: "pyval \<Rightarrow> string"
  and repr_list :: "pyval list \<Rightarrow> string"
  and repr_items :: "(string \<times> pyval) list \<Rightarrow> string" where
  "repr PyNone = ''None''"
| "repr (PyBool b) = (if b then ''True'' else ''False'')"
| "repr (PyInt i) = str_int i"
| "repr (PyFloat r) = r"
| "repr (PyStr s) = repr_str s"
| "repr (PyList xs) = ''['' @ repr_list xs @ '']''"
| "repr (PyDict d) = ''{'' @ repr_items d @ ''}''"
| "repr_list [] = []"
| "repr_list (x # xs) = repr x @ (if xs = [] then [] else '', '' @ repr_list xs)"
| "repr_items [] = []"
| "repr_items ((k, v) # d) =
     repr_str k @ '': '' @ repr v @ (if d = [] then [] else '', '' @ repr_items d)"

text \<open>\<open>str(x)\<close>.\<close>

definition py_str :: "pyval \<Rightarrow> string" where
  "py_str v = (case v of PyStr s \<Rightarrow> s | _ \<Rightarrow> repr v)"

lemma py_str_simps [simp, py_simps]:
  "py_str PyNone = ''None''"
  "py_str (PyBool b) = (if b then ''True'' else ''False'')"
  "py_str (PyInt i) = str_int i"
  "py_str (PyFloat r) = r"
  "py_str (PyStr s) = s"
  "py_str (PyList xs) = ''['' @ repr_list xs @ '']''"
  "py_str (PyDict d) = ''{'' @ repr_items d @ ''}''"
  by (simp_all add: py_str_def)

text \<open>\<open>str(d.get(k) or default).strip()\<close>, the idiom of every store.\<close>

definition str_or :: "pydict \<Rightarrow> string \<Rightarrow> string \<Rightarrow> string" where
  "str_or d k dflt = py_str (py_or (get d k) (PyStr dflt))"

section \<open>Numbers\<close>

text \<open>\<open>int(x)\<close>.\<close>

fun py_int :: "pyval \<Rightarrow> int result" where
  "py_int PyNone = Inl (TypeError ''int() argument must be a string or a real number'')"
| "py_int (PyBool b) = Inr (if b then 1 else 0)"
| "py_int (PyInt i) = Inr i"
| "py_int (PyFloat r) = (case parse_decimal r of
       Some (DecFin q) \<Rightarrow> Inr (trunc_rat q)
     | Some DecInf \<Rightarrow> Inl (OverflowError ''cannot convert float infinity to integer'')
     | _ \<Rightarrow> Inl (ValueError ''cannot convert float NaN to integer''))"
| "py_int (PyStr s) = (case parse_int s of
       Some i \<Rightarrow> Inr i
     | None \<Rightarrow> Inl (ValueError ''invalid literal for int() with base 10''))"
| "py_int (PyList xs) = Inl (TypeError ''int() argument must be a string or a real number'')"
| "py_int (PyDict d) = Inl (TypeError ''int() argument must be a string or a real number'')"

section \<open>Equality\<close>

text \<open>
  \<open>x == y\<close>: booleans are the integers 0 and 1, numbers compare by value, and dictionaries compare
  without regard to the order of their keys.
\<close>

definition num_of :: "pyval \<Rightarrow> rat option" where
  "num_of v = (case v of
       PyBool b \<Rightarrow> Some (if b then 1 else 0)
     | PyInt i \<Rightarrow> Some (of_int i)
     | PyFloat r \<Rightarrow> float_num r
     | _ \<Rightarrow> None)"

definition is_inf :: "pyval \<Rightarrow> bool" where
  "is_inf v = (case v of PyFloat r \<Rightarrow> parse_decimal r = Some DecInf | _ \<Rightarrow> False)"

definition num_eq :: "pyval \<Rightarrow> pyval \<Rightarrow> bool" where
  "num_eq x y =
     (case (num_of x, num_of y) of
        (Some p, Some q) \<Rightarrow> p = q
      | _ \<Rightarrow> is_inf x \<and> is_inf y \<and> x = y)"

fun py_eq :: "pyval \<Rightarrow> pyval \<Rightarrow> bool"
  and py_eq_list :: "pyval list \<Rightarrow> pyval list \<Rightarrow> bool"
  and py_eq_items :: "(string \<times> pyval) list \<Rightarrow> (string \<times> pyval) list \<Rightarrow> bool" where
  "py_eq PyNone y = (y = PyNone)"
| "py_eq (PyStr s) y = (y = PyStr s)"
| "py_eq (PyList xs) y = (case y of PyList ys \<Rightarrow> py_eq_list xs ys | _ \<Rightarrow> False)"
| "py_eq (PyDict d) y =
     (case y of PyDict e \<Rightarrow> length d = length e \<and> py_eq_items d e | _ \<Rightarrow> False)"
| "py_eq (PyBool b) y = num_eq (PyBool b) y"
| "py_eq (PyInt i) y = num_eq (PyInt i) y"
| "py_eq (PyFloat r) y = num_eq (PyFloat r) y"
| "py_eq_list [] ys = (ys = [])"
| "py_eq_list (x # xs) ys = (case ys of [] \<Rightarrow> False | y # zs \<Rightarrow> py_eq x y \<and> py_eq_list xs zs)"
| "py_eq_items [] e = True"
| "py_eq_items ((k, v) # d) e =
     ((case map_of e k of None \<Rightarrow> False | Some u \<Rightarrow> py_eq v u) \<and> py_eq_items d e)"

text \<open>
  Well-formed values: every dictionary inside has distinct keys and no float is a NaN. On these
  equality is reflexive, which is what makes a resent event equal to the stored one.
\<close>

fun val_wf :: "pyval \<Rightarrow> bool"
  and vals_wf :: "pyval list \<Rightarrow> bool"
  and items_wf :: "(string \<times> pyval) list \<Rightarrow> bool" where
  "val_wf (PyFloat r) = (float_num r \<noteq> None \<or> parse_decimal r = Some DecInf)"
| "val_wf (PyList xs) = vals_wf xs"
| "val_wf (PyDict d) = (dict_wf d \<and> items_wf d)"
| "val_wf PyNone = True"
| "val_wf (PyBool b) = True"
| "val_wf (PyInt i) = True"
| "val_wf (PyStr s) = True"
| "vals_wf [] = True"
| "vals_wf (x # xs) = (val_wf x \<and> vals_wf xs)"
| "items_wf [] = True"
| "items_wf ((k, v) # d) = (val_wf v \<and> items_wf d)"

lemma items_wf_iff: "items_wf d \<longleftrightarrow> (\<forall>(k, v) \<in> set d. val_wf v)"
  by (induction d) auto

lemma num_eq_refl: "val_wf v \<Longrightarrow> num_of v \<noteq> None \<or> is_inf v \<Longrightarrow> num_eq v v"
  by (auto simp: num_eq_def split: option.splits)

lemma num_of_float: "val_wf (PyFloat r) \<Longrightarrow> num_of (PyFloat r) \<noteq> None \<or> is_inf (PyFloat r)"
  by (auto simp: num_of_def is_inf_def)

lemma py_eq_items_sub:
  assumes "dict_wf e" and "set d \<subseteq> set e" and "\<And>k v. (k, v) \<in> set d \<Longrightarrow> py_eq v v"
  shows "py_eq_items d e"
  using assms(2,3)
proof (induction d)
  case (Cons p d)
  obtain k v where p: "p = (k, v)" by force
  have "map_of e k = Some v"
    using assms(1) Cons.prems(1) by (simp add: p dict_wf_def)
  moreover have "py_eq v v" and "py_eq_items d e"
    using Cons.prems by (auto simp: p intro!: Cons.IH)
  ultimately show ?case by (simp add: p)
qed simp

lemma py_eq_refl:
  "val_wf v \<Longrightarrow> py_eq v v"
  "vals_wf xs \<Longrightarrow> py_eq_list xs xs"
  "items_wf d \<Longrightarrow> (k, u) \<in> set d \<Longrightarrow> py_eq u u"
proof (induction v and xs and d arbitrary: and and k u rule: val_wf_vals_wf_items_wf.induct)
  case (1 r)
  then show ?case using num_of_float num_eq_refl by simp
next
  case (3 d)
  then show ?case by (auto intro: py_eq_items_sub)
qed (auto simp: num_eq_def num_of_def)

section \<open>Dictionaries of values\<close>

lemma get_simps [simp, py_simps]:
  "get [] k = PyNone"
  "get ((k', v) # d) k = (if k' = k then v else get d k)"
  by (simp_all add: get_def)

lemma get_set [simp, py_simps]:
  "get (AList.update k v d) k' = (if k' = k then v else get d k')"
  by (simp add: get_def)

lemma get_setdefault [py_simps]:
  "get (dict_setdefault k v d) k' =
     (if k' = k then (case map_of d k of None \<Rightarrow> v | Some u \<Rightarrow> u) else get d k')"
  by (simp add: get_def dict_get_setdefault split: option.splits)

lemma get_update:
  "dict_wf e \<Longrightarrow> get (dict_update d e) k = (case map_of e k of Some v \<Rightarrow> v | None \<Rightarrow> get d k)"
  by (simp add: get_def dict_get_update split: option.splits)

end
