(* ===== verification/Provenance.thy ===== *)
theory Provenance
  imports PyVal
begin

text \<open>
  \<^verbatim>\<open>src/shelfwise_runtime/provenance.py\<close> (trust boundaries of records) and the page bound of
  \<^verbatim>\<open>src/shelfwise_storage/pagination.py\<close>. \<open>normalize_domain\<close> is called at every store boundary; the
  lemmas say it returns exactly the four domain names and is idempotent.
\<close>

section \<open>Data domains\<close>

datatype data_domain = OPERATIONAL_TWIN | WORLD_SIMULATION | TRAINING_FIXTURE | TWIN_SCENARIO

fun domain_value :: "data_domain \<Rightarrow> string" where
  "domain_value OPERATIONAL_TWIN = ''operational_twin''"
| "domain_value WORLD_SIMULATION = ''world_simulation''"
| "domain_value TRAINING_FIXTURE = ''training_fixture''"
| "domain_value TWIN_SCENARIO = ''twin_scenario''"

definition all_domains :: "data_domain list" where
  "all_domains = [OPERATIONAL_TWIN, WORLD_SIMULATION, TRAINING_FIXTURE, TWIN_SCENARIO]"

text \<open>\<open>DataDomain(s)\<close>.\<close>

definition domain_of :: "string \<Rightarrow> data_domain result" where
  "domain_of s = (case find_first (\<lambda>d. domain_value d = s) all_domains of
       Some d \<Rightarrow> Inr d
     | None \<Rightarrow> Inl (ValueError (s @ '' is not a valid DataDomain'')))"

definition normalize_domain :: "pyval \<Rightarrow> data_domain \<Rightarrow> string result" where
  "normalize_domain v dflt =
     (let candidate = lower (strip (py_str (py_or v (PyStr (domain_value dflt)))))
      in if candidate \<in> set (map domain_value all_domains) then Inr candidate
         else Inl (ValueError (''unsupported data_domain: '' @ repr_str candidate)))"

definition training_domains :: "string list" where
  "training_domains = [domain_value WORLD_SIMULATION, domain_value TRAINING_FIXTURE]"

definition require_training_domain :: "pyval \<Rightarrow> string result" where
  "require_training_domain v =
     bind_res (normalize_domain v TRAINING_FIXTURE) (\<lambda>domain.
       if domain \<notin> set training_domains
       then Inl (ValueError (''training dataset cannot consume data_domain='' @ repr_str domain @
              ''; export a reviewed training fixture instead''))
       else Inr domain)"

lemma domain_value_inj [simp]: "domain_value d = domain_value e \<longleftrightarrow> d = e"
  by (cases d; cases e) simp_all

lemma domain_of_value [simp]: "domain_of (domain_value d) = Inr d"
  by (cases d) (simp_all add: domain_of_def all_domains_def)

lemma domain_of_Inr: "domain_of s = Inr d \<Longrightarrow> s = domain_value d"
  by (auto simp: domain_of_def all_domains_def split: if_splits)

lemma domain_value_nonempty [simp]: "domain_value d \<noteq> []"
  by (cases d) simp_all

lemma lower_strip_domain_value [simp]: "lower (strip (domain_value d)) = domain_value d"
  by (cases d; simp only: domain_value.simps; code_simp)

lemma normalize_domain_value [simp]: "normalize_domain (PyStr (domain_value d)) dflt = Inr (domain_value d)"
  by (cases d) (simp_all add: normalize_domain_def py_or_def all_domains_def
      lower_strip_domain_value [of OPERATIONAL_TWIN, simplified]
      lower_strip_domain_value [of WORLD_SIMULATION, simplified]
      lower_strip_domain_value [of TRAINING_FIXTURE, simplified]
      lower_strip_domain_value [of TWIN_SCENARIO, simplified])

lemma normalize_domain_None [simp]: "normalize_domain PyNone dflt = Inr (domain_value dflt)"
proof -
  have "normalize_domain PyNone dflt = normalize_domain (PyStr (domain_value dflt)) dflt"
    by (simp add: normalize_domain_def py_or_def)
  then show ?thesis by simp
qed

lemma normalize_domain_Inr:
  "normalize_domain v dflt = Inr s \<Longrightarrow> \<exists>d. s = domain_value d"
  by (auto simp: normalize_domain_def Let_def all_domains_def split: if_splits)
    (metis domain_value.simps)+

lemma normalize_domain_idem:
  "normalize_domain v dflt = Inr s \<Longrightarrow> normalize_domain (PyStr s) dflt' = Inr s"
  using normalize_domain_Inr by force

lemma require_training_domain_sound:
  "require_training_domain v = Inr s \<Longrightarrow> s \<in> {''world_simulation'', ''training_fixture''}"
  by (auto simp: require_training_domain_def training_domains_def bind_res_Inr_iff split: if_splits)

section \<open>Page bounds\<close>

definition default_max_limit :: int where
  "default_max_limit = 500"

definition validate_limit :: "int \<Rightarrow> unit result" where
  "validate_limit limit =
     (if limit \<le> 0 \<or> limit > default_max_limit
      then Inl (ValueError (''limit must be between 1 and '' @ str_int default_max_limit))
      else Inr ())"

lemma validate_limit_Inr: "validate_limit n = Inr () \<longleftrightarrow> 0 < n \<and> n \<le> 500"
  by (auto simp: validate_limit_def default_max_limit_def)

end
