(* ===== verification/PyTime.thy ===== *)
theory PyTime
  imports PyNum
begin

text \<open>
  \<open>datetime.datetime\<close> as the repository uses it: the fields of a wall clock and the UTC offset of
  its time zone in microseconds (\<open>None\<close> for a naive value), printed by \<open>isoformat()\<close> and read by
  \<open>fromisoformat\<close> (CPython 3.11: basic and extended calendar dates, optional fraction and offset;
  the ISO week-date forms are rejected here). The round trip of the two is what lets an event cross
  the bus as text.
\<close>

record datetime =
  dt_year :: nat
  dt_month :: nat
  dt_day :: nat
  dt_hour :: nat
  dt_minute :: nat
  dt_second :: nat
  dt_micro :: nat
  dt_offset :: "int option"

definition leap_year :: "nat \<Rightarrow> bool" where
  "leap_year y = (y mod 4 = 0 \<and> (y mod 100 \<noteq> 0 \<or> y mod 400 = 0))"

definition days_in_month :: "nat \<Rightarrow> nat \<Rightarrow> nat" where
  "days_in_month y m =
     (if m = 2 then (if leap_year y then 29 else 28)
      else if m \<in> {4, 6, 9, 11} then 30 else 31)"

definition day_us :: int where
  "day_us = 86400000000"

definition valid_date :: "nat \<Rightarrow> nat \<Rightarrow> nat \<Rightarrow> bool" where
  "valid_date y m d = (1 \<le> y \<and> y \<le> 9999 \<and> 1 \<le> m \<and> m \<le> 12 \<and> 1 \<le> d \<and> d \<le> days_in_month y m)"

definition valid_time :: "nat \<Rightarrow> nat \<Rightarrow> nat \<Rightarrow> nat \<Rightarrow> bool" where
  "valid_time h m s u = (h < 24 \<and> m < 60 \<and> s < 60 \<and> u < 1000000)"

definition valid_offset :: "int option \<Rightarrow> bool" where
  "valid_offset z = (case z of None \<Rightarrow> True | Some o' \<Rightarrow> - day_us < o' \<and> o' < day_us)"

definition valid_datetime :: "datetime \<Rightarrow> bool" where
  "valid_datetime t =
     (valid_date (dt_year t) (dt_month t) (dt_day t) \<and>
      valid_time (dt_hour t) (dt_minute t) (dt_second t) (dt_micro t) \<and>
      valid_offset (dt_offset t))"

section \<open>Printing\<close>

definition two :: "nat \<Rightarrow> string" where
  "two n = [digit_char (n div 10 mod 10), digit_char (n mod 10)]"

definition four :: "nat \<Rightarrow> string" where
  "four n = two (n div 100) @ two (n mod 100)"

definition six :: "nat \<Rightarrow> string" where
  "six n = two (n div 10000) @ two (n div 100 mod 100) @ two (n mod 100)"

definition iso_time :: "nat \<Rightarrow> nat \<Rightarrow> nat \<Rightarrow> nat \<Rightarrow> string" where
  "iso_time h m s u =
     two h @ '':'' @ two m @ '':'' @ two s @ (if u = 0 then [] else ''.'' @ six u)"

text \<open>The offset prints its seconds only when they are not zero.\<close>

definition iso_offset :: "int \<Rightarrow> string" where
  "iso_offset z =
     (let a = nat \<bar>z\<bar>; u = a mod 1000000; t = a div 1000000;
          s = t mod 60; m = t div 60 mod 60; h = t div 3600
      in (if z < 0 then ''-'' else ''+'') @ two h @ '':'' @ two m @
         (if s = 0 \<and> u = 0 then [] else '':'' @ two s @ (if u = 0 then [] else ''.'' @ six u)))"

definition isoformat :: "datetime \<Rightarrow> string" where
  "isoformat t =
     four (dt_year t) @ ''-'' @ two (dt_month t) @ ''-'' @ two (dt_day t) @ ''T'' @
     iso_time (dt_hour t) (dt_minute t) (dt_second t) (dt_micro t) @
     (case dt_offset t of None \<Rightarrow> [] | Some z \<Rightarrow> iso_offset z)"

section \<open>Reading\<close>

definition parse2 :: "string \<Rightarrow> (nat \<times> string) option" where
  "parse2 s = (case s of
       a # b # r \<Rightarrow>
         if is_dec_digit a \<and> is_dec_digit b then Some (10 * digit_val a + digit_val b, r) else None
     | _ \<Rightarrow> None)"

definition parse_fraction :: "string \<Rightarrow> nat option" where
  "parse_fraction s = (case s of
       [] \<Rightarrow> Some 0
     | c # r \<Rightarrow>
         if (c = CHR ''.'' \<or> c = CHR '','') \<and> r \<noteq> [] \<and> list_all is_dec_digit r
         then (let f = take 6 r in Some (nat_of_digits f * 10 ^ (6 - length f)))
         else None)"

definition parse_hms :: "string \<Rightarrow> (nat \<times> nat \<times> nat \<times> nat) option" where
  "parse_hms s =
     Option.bind (parse2 s) (\<lambda>(h, r).
       if r = [] then Some (h, 0, 0, 0)
       else
         (let sep = (hd r = CHR '':'') in
          Option.bind (parse2 (if sep then tl r else r)) (\<lambda>(m, r2).
            if r2 = [] then Some (h, m, 0, 0)
            else if sep \<and> hd r2 \<noteq> CHR '':'' then None
            else Option.bind (parse2 (if sep then tl r2 else r2)) (\<lambda>(sec, r3).
              map_option (\<lambda>u. (h, m, sec, u)) (parse_fraction r3)))))"

definition is_tz_mark :: "char \<Rightarrow> bool" where
  "is_tz_mark c = (c = CHR ''+'' \<or> c = CHR ''-'' \<or> c = CHR ''Z'')"

definition hms_us :: "nat \<Rightarrow> nat \<Rightarrow> nat \<Rightarrow> nat \<Rightarrow> int" where
  "hms_us h m s u = ((int h * 60 + int m) * 60 + int s) * 1000000 + int u"

definition parse_tz :: "string \<Rightarrow> int option option" where
  "parse_tz s = (case s of
       [] \<Rightarrow> Some None
     | c # r \<Rightarrow>
         if c = CHR ''Z'' then (if r = [] then Some (Some 0) else None)
         else if length r \<in> {0, 1, 3} then None
         else (case parse_hms r of
                 None \<Rightarrow> None
               | Some (h, m, sec, u) \<Rightarrow>
                   (let a = hms_us h m sec u; z = (if c = CHR ''-'' then - a else a)
                    in if valid_offset (Some z) then Some (Some z) else None)))"

definition parse_date :: "string \<Rightarrow> ((nat \<times> nat \<times> nat) \<times> string) option" where
  "parse_date s =
     Option.bind (parse2 s) (\<lambda>(c, r). Option.bind (parse2 r) (\<lambda>(y, r1).
       (let sep = (r1 \<noteq> [] \<and> hd r1 = CHR ''-'') in
        Option.bind (parse2 (if sep then tl r1 else r1)) (\<lambda>(m, r2).
          if sep \<and> (r2 = [] \<or> hd r2 \<noteq> CHR ''-'') then None
          else Option.bind (parse2 (if sep then tl r2 else r2)) (\<lambda>(d, r3).
            Some ((100 * c + y, m, d), r3))))))"

definition fromisoformat :: "string \<Rightarrow> datetime option" where
  "fromisoformat s =
     Option.bind (parse_date s) (\<lambda>((y, m, d), r).
       Option.bind
         (if r = [] \<or> tl r = [] then Some ((0, 0, 0, 0), None)
          else (let t = tl r; hms = takeWhile (\<lambda>c. \<not> is_tz_mark c) t;
                    tz = dropWhile (\<lambda>c. \<not> is_tz_mark c) t
                in Option.bind (parse_hms hms) (\<lambda>x. map_option (\<lambda>z. (x, z)) (parse_tz tz))))
         (\<lambda>((h, mi, sec, u), z).
            if valid_date y m d \<and> valid_time h mi sec u
            then Some \<lparr>dt_year = y, dt_month = m, dt_day = d, dt_hour = h, dt_minute = mi,
                       dt_second = sec, dt_micro = u, dt_offset = z\<rparr>
            else None))"

section \<open>Round trip\<close>

lemma parse2_two [simp]: "n < 100 \<Longrightarrow> parse2 (two n @ r) = Some (n, r)"
  by (simp add: parse2_def two_def)

lemma parse2_two' [simp]: "n < 100 \<Longrightarrow> parse2 (two n) = Some (n, [])"
  using parse2_two [of n "[]"] by simp

lemma two_digits: "c \<in> set (two n) \<Longrightarrow> is_dec_digit c"
  by (auto simp: two_def)

lemma six_digits: "c \<in> set (six n) \<Longrightarrow> is_dec_digit c"
  by (auto simp: six_def dest: two_digits)

lemma base100: "n = 10000 * (n div 10000) + (100 * (n div 100 mod 100) + n mod 100)" for n :: nat
proof -
  have "n div 10000 = n div 100 div 100" by (simp add: div_mult2_eq [symmetric])
  then show ?thesis
    using div_mult_mod_eq [of "n div 100" 100] div_mult_mod_eq [of n 100] by linarith
qed

lemma base60: "n = (n div 3600 * 60 + n div 60 mod 60) * 60 + n mod 60" for n :: nat
proof -
  have "n div 3600 = n div 60 div 60" by (simp add: div_mult2_eq [symmetric])
  then show ?thesis
    using div_mult_mod_eq [of "n div 60" 60] div_mult_mod_eq [of n 60] by simp
qed

lemma six_val: "n < 1000000 \<Longrightarrow> nat_of_digits (six n) = n"
  using base100 [of n] by (simp add: nat_of_digits_def six_def two_def)

lemma parse_fraction_six [simp]:
  assumes "n < 1000000"
  shows "parse_fraction (''.'' @ six n) = Some n"
proof -
  have l: "length (six n) = 6" by (simp add: six_def two_def)
  have "list_all is_dec_digit (six n)"
    by (auto simp: list_all_iff dest: six_digits)
  moreover have "six n \<noteq> []" using l by auto
  ultimately show ?thesis
    using assms l by (simp add: parse_fraction_def six_val)
qed

lemma parse_fraction_Nil [simp]: "parse_fraction [] = Some 0"
  by (simp add: parse_fraction_def)

lemma parse_hms_full:
  assumes "h < 100" "m < 100" "s < 100" "u < 1000000"
  shows "parse_hms (two h @ '':'' @ two m @ '':'' @ two s @ (if u = 0 then [] else ''.'' @ six u))
    = Some (h, m, s, u)"
proof (cases "u = 0")
  case True
  with assms show ?thesis by (simp add: parse_hms_def)
next
  case False
  then show ?thesis
    using assms parse_fraction_six [of u] by (simp add: parse_hms_def)
qed

lemma parse_hms_iso_time:
  "valid_time h m s u \<Longrightarrow> parse_hms (iso_time h m s u) = Some (h, m, s, u)"
  unfolding iso_time_def by (rule parse_hms_full) (simp_all add: valid_time_def)

lemma parse_hms_short: "h < 100 \<Longrightarrow> m < 100 \<Longrightarrow> parse_hms (two h @ '':'' @ two m) = Some (h, m, 0, 0)"
  by (simp add: parse_hms_def)

lemma parse_tz_signed:
  assumes "parse_hms r = Some (h, m, s, u)" and "length r \<notin> {0, 1, 3}" and "valid_offset (Some z)"
    and "hms_us h m s u = \<bar>z\<bar>"
  shows "parse_tz ((if z < 0 then ''-'' else ''+'') @ r) = Some (Some z)"
  using assms by (cases "z < 0") (simp_all add: parse_tz_def)

lemma parse_tz_iso_offset:
  assumes "valid_offset (Some z)"
  shows "parse_tz (iso_offset z) = Some (Some z)"
proof -
  define a where "a = nat \<bar>z\<bar>"
  define u t where "u = a mod 1000000" and "t = a div 1000000"
  define s m h where "s = t mod 60" and "m = t div 60 mod 60" and "h = t div 3600"
  have "a < 86400000000" using assms by (auto simp: a_def valid_offset_def day_us_def)
  then have t: "t < 86400" by (simp add: t_def)
  then have b: "h < 100" "m < 100" "s < 100" "u < 1000000"
    by (simp_all add: h_def m_def s_def u_def)
  have "t = (h * 60 + m) * 60 + s" unfolding h_def m_def s_def by (rule base60)
  moreover have "t * 1000000 + u = a" unfolding u_def t_def by simp
  ultimately have "((h * 60 + m) * 60 + s) * 1000000 + u = a" by simp
  then have eq: "hms_us h m s u = \<bar>z\<bar>"
    unfolding a_def hms_us_def by (simp add: nat_eq_iff2 ac_simps flip: of_nat_mult of_nat_add)
  let ?body = "two h @ '':'' @ two m @
      (if s = 0 \<and> u = 0 then [] else '':'' @ two s @ (if u = 0 then [] else ''.'' @ six u))"
  have io: "iso_offset z = (if z < 0 then ''-'' else ''+'') @ ?body"
    by (simp add: iso_offset_def Let_def a_def u_def t_def s_def m_def h_def)
  have "parse_hms ?body = Some (h, m, s, u)"
  proof (cases "s = 0 \<and> u = 0")
    case True
    then show ?thesis using parse_hms_short b by simp
  next
    case False
    then have "?body = two h @ '':'' @ two m @ '':'' @ two s @ (if u = 0 then [] else ''.'' @ six u)"
      by (simp only: if_False)
    then show ?thesis using parse_hms_full [OF b] by (simp only:)
  qed
  moreover have "length ?body \<notin> {0, 1, 3}" by (simp add: two_def)
  ultimately show ?thesis
    unfolding io by (intro parse_tz_signed [OF _ _ assms eq])
qed

lemma dec_digit_not_tz: "is_dec_digit c \<Longrightarrow> \<not> is_tz_mark c"
  by (auto simp: is_dec_digit_def is_tz_mark_def)

lemma iso_time_no_tz: "c \<in> set (iso_time h m s u) \<Longrightarrow> \<not> is_tz_mark c"
proof -
  assume "c \<in> set (iso_time h m s u)"
  then have "is_dec_digit c \<or> c = CHR '':'' \<or> c = CHR ''.''"
    by (auto simp: iso_time_def split: if_splits dest: two_digits six_digits)
  then show ?thesis by (auto dest: dec_digit_not_tz) (auto simp: is_tz_mark_def)
qed

lemma iso_offset_head: "\<exists>c r. iso_offset z = c # r \<and> is_tz_mark c"
  by (simp add: iso_offset_def Let_def is_tz_mark_def)

lemma parse_date_iso:
  assumes "y \<le> 9999" "m < 100" "d < 100"
  shows "parse_date (four y @ ''-'' @ two m @ ''-'' @ two d @ r) = Some ((y, m, d), r)"
  using assms by (simp add: parse_date_def four_def)

lemma fromisoformat_isoformat [simp]:
  assumes "valid_datetime t"
  shows "fromisoformat (isoformat t) = Some t"
proof -
  let ?time = "iso_time (dt_hour t) (dt_minute t) (dt_second t) (dt_micro t)"
  let ?tz = "case dt_offset t of None \<Rightarrow> [] | Some z \<Rightarrow> iso_offset z"
  have vd: "valid_date (dt_year t) (dt_month t) (dt_day t)"
    and vt: "valid_time (dt_hour t) (dt_minute t) (dt_second t) (dt_micro t)"
    and vo: "valid_offset (dt_offset t)"
    using assms by (auto simp: valid_datetime_def)
  have date: "parse_date (isoformat t) =
      Some ((dt_year t, dt_month t, dt_day t), ''T'' @ ?time @ ?tz)"
    unfolding isoformat_def
    using vd by (intro parse_date_iso) (auto simp: valid_date_def days_in_month_def split: if_splits)
  have nt: "\<And>c. c \<in> set ?time \<Longrightarrow> \<not> is_tz_mark c" by (rule iso_time_no_tz)
  have tz0: "?tz = [] \<or> is_tz_mark (hd ?tz)"
  proof (cases "dt_offset t")
    case (Some z)
    then show ?thesis using iso_offset_head [of z] by auto
  qed simp
  have tw: "takeWhile (\<lambda>c. \<not> is_tz_mark c) (?time @ ?tz) = ?time"
    and dw: "dropWhile (\<lambda>c. \<not> is_tz_mark c) (?time @ ?tz) = ?tz"
    using nt tz0 by (cases ?tz; simp add: takeWhile_append dropWhile_append)+
  have hms: "parse_hms ?time =
      Some (dt_hour t, dt_minute t, dt_second t, dt_micro t)"
    using vt by (rule parse_hms_iso_time)
  have tz: "parse_tz ?tz = Some (dt_offset t)"
    using vo by (cases "dt_offset t") (simp_all add: parse_tz_iso_offset, simp add: parse_tz_def)
  have ne: "?time @ ?tz \<noteq> []" by (simp add: iso_time_def two_def)
  show ?thesis
    unfolding fromisoformat_def date
    using ne vd vt
    by (simp only: Option.bind.simps prod.case append.simps list.sel tw dw hms tz Let_def
        option.map list.distinct simp_thms if_False) simp
qed

text \<open>The printed form never contains a \<open>Z\<close>, so the code's \<open>replace("Z", "+00:00")\<close> leaves it alone.\<close>

lemma isoformat_no_Z: "CHR ''Z'' \<notin> set (isoformat t)"
proof -
  have two: "CHR ''Z'' \<notin> set (two n)" for n
    using two_digits [of "CHR ''Z''" n] by (auto simp: is_dec_digit_def)
  then have "CHR ''Z'' \<notin> set (four n)" and "CHR ''Z'' \<notin> set (six n)" for n
    by (simp_all add: four_def six_def)
  with two show ?thesis
    by (simp add: isoformat_def iso_time_def iso_offset_def Let_def split: option.split)
qed

end
