(* ===== verification/Contracts.thy ===== *)
theory Contracts
  imports Provenance PyTime
begin

text \<open>
  \<^verbatim>\<open>src/shelfwise_contracts/__init__.py\<close>: money in minor units, the event every component
  exchanges, and the evidence and decision shapes. \<open>Decimal\<close> amounts are exact rationals: the
  28-digit context of Python's \<open>decimal\<close> is not modelled. The identity fields of an event are
  strings, as the dataclass declares; wire data with another type there is rejected by
  \<open>typed_str\<close>, which stands for the annotation.
\<close>

section \<open>Money\<close>

record money =
  minor_units :: int
  currency :: string

definition zar :: "rat \<Rightarrow> money" where
  "zar rand = \<lparr>minor_units = round_half_up (rand * 100), currency = ''ZAR''\<rparr>"

definition amount :: "money \<Rightarrow> rat" where
  "amount m = of_int (minor_units m) / 100"

definition same_currency :: "money \<Rightarrow> money \<Rightarrow> unit result" where
  "same_currency a b =
     (if currency a \<noteq> currency b
      then Inl (ValueError (''currency mismatch: '' @ currency a @ '' vs '' @ currency b))
      else Inr ())"

definition money_add :: "money \<Rightarrow> money \<Rightarrow> money result" where
  "money_add a b = bind_res (same_currency a b) (\<lambda>_.
     Inr \<lparr>minor_units = minor_units a + minor_units b, currency = currency a\<rparr>)"

definition money_sub :: "money \<Rightarrow> money \<Rightarrow> money result" where
  "money_sub a b = bind_res (same_currency a b) (\<lambda>_.
     Inr \<lparr>minor_units = minor_units a - minor_units b, currency = currency a\<rparr>)"

definition money_mul :: "money \<Rightarrow> rat \<Rightarrow> money" where
  "money_mul a f = \<lparr>minor_units = round_half_up (of_int (minor_units a) * f), currency = currency a\<rparr>"

text \<open>\<open>str(self.amount)\<close>: two decimals, always.\<close>

definition amount_str :: "int \<Rightarrow> string" where
  "amount_str c =
     (let a = nat \<bar>c\<bar> in (if c < 0 then ''-'' else []) @ str_nat (a div 100) @ ''.'' @ two (a mod 100))"

definition money_to_dict :: "money \<Rightarrow> pydict" where
  "money_to_dict m =
     [(''minor_units'', PyInt (minor_units m)), (''currency'', PyStr (currency m)),
      (''amount'', PyStr (amount_str (minor_units m)))]"

definition money_str :: "money \<Rightarrow> string" where
  "money_str m = currency m @ '' '' @ amount_str (minor_units m)"

lemma zar_amount: "currency m = ''ZAR'' \<Longrightarrow> zar (amount m) = m"
  by (simp add: zar_def amount_def)

lemma money_add_sub: "money_add a b = Inr s \<Longrightarrow> money_sub s b = Inr a"
  by (auto simp: money_add_def money_sub_def same_currency_def bind_res_Inr_iff split: if_splits)

lemma money_mul_error:
  "\<bar>of_int (minor_units (money_mul m f)) - of_int (minor_units m) * f\<bar> \<le> 1 / 2"
  using round_half_up_close [of "of_int (minor_units m) * f"] by (simp add: money_mul_def)

lemma money_mul_nonneg: "0 \<le> minor_units m \<Longrightarrow> 0 \<le> f \<Longrightarrow> 0 \<le> minor_units (money_mul m f)"
  by (simp add: money_mul_def round_half_up_nonneg)

lemma nat_of_digits_append_two:
  "b < 100 \<Longrightarrow> nat_of_digits (str_nat a @ two b) = 100 * a + b"
  using nat_of_digits_str_nat [of a] by (simp add: nat_of_digits_def two_def)

lemma parse_unsigned_amount:
  assumes "b < 100"
  shows "parse_unsigned_decimal (str_nat a @ ''.'' @ two b) = Some (DecFin (of_nat (100 * a + b) / 100))"
proof -
  obtain c r where cr: "str_nat a = c # r" by (cases "str_nat a") auto
  then have c: "is_dec_digit c" using str_nat_digits [of c a] by simp
  have lc: "lower_char c = c" using c by (auto simp: lower_char_def is_dec_digit_def Let_def)
  have ne: "c \<noteq> CHR ''i''" "c \<noteq> CHR ''n''" "c \<noteq> CHR ''s''" using c by (auto simp: is_dec_digit_def)
  have dot: "\<not> is_dec_digit (CHR ''.'')" by (simp add: is_dec_digit_def)
  have tw: "takeWhile is_dec_digit (str_nat a @ ''.'' @ two b) = str_nat a"
    and dw: "dropWhile is_dec_digit (str_nat a @ ''.'' @ two b) = ''.'' @ two b"
    using str_nat_digits [of _ a] dot by (simp_all add: takeWhile_append dropWhile_append)
  have tw2: "takeWhile is_dec_digit (two b) = two b" and dw2: "dropWhile is_dec_digit (two b) = []"
    using takeWhile_all [of "two b" is_dec_digit] two_digits [of _ b] by auto
  have low: "lower (str_nat a @ ''.'' @ two b) = c # lower (r @ ''.'' @ two b)"
    by (simp add: cr lower_def lc)
  show ?thesis
    unfolding parse_unsigned_decimal_def low Let_def tw dw
    using assms ne
    by (simp add: tw2 dw2 parse_exponent_def scale10_def nat_of_digits_append_two) (simp add: two_def)
qed

lemma parse_amount_str: "parse_decimal (amount_str c) = Some (DecFin (of_int c / 100))"
proof -
  define a where "a = nat \<bar>c\<bar>"
  let ?body = "str_nat (a div 100) @ ''.'' @ two (a mod 100)"
  have body: "parse_unsigned_decimal ?body = Some (DecFin (of_nat a / 100))"
    using parse_unsigned_amount [of "a mod 100" "a div 100"] by simp
  obtain d r where dr: "str_nat (a div 100) = d # r" by (cases "str_nat (a div 100)") auto
  then have d: "is_dec_digit d" using str_nat_digits [of d "a div 100"] by simp
  have last: "\<not> is_space (last (two (a mod 100)))"
    by (rule dec_digit_not_space, rule two_digits [of _ "a mod 100"]) (simp add: two_def)
  then have lastb: "\<not> is_space (last ?body)" by (simp add: two_def)
  have nu: "\<And>x. x \<in> set ?body \<Longrightarrow> x \<noteq> CHR ''_''"
    using str_nat_digits two_digits dec_digit_not_sign by fastforce
  show ?thesis
  proof (cases "c < 0")
    case True
    then have "amount_str c = CHR ''-'' # ?body" by (simp add: amount_str_def a_def Let_def)
    moreover have "strip (CHR ''-'' # ?body) = CHR ''-'' # ?body"
      by (rule strip_hd_last) (use lastb in \<open>auto simp: is_space_def [of "CHR ''-''"]\<close>)
    moreover have "filter (\<lambda>x. x \<noteq> CHR ''_'') (CHR ''-'' # ?body) = CHR ''-'' # ?body"
      using nu by (intro filter_True) auto
    moreover have "of_nat a = (- of_int c :: rat)" using True by (simp add: a_def of_nat_nat)
    ultimately show ?thesis using body by (simp add: parse_decimal_def del: filter.simps)
  next
    case False
    then have am: "amount_str c = ?body" by (simp add: amount_str_def a_def Let_def)
    have "strip ?body = ?body"
      by (rule strip_hd_last) (use lastb d dec_digit_not_space in \<open>auto simp: dr\<close>)
    moreover have "filter (\<lambda>x. x \<noteq> CHR ''_'') ?body = ?body" using nu by (intro filter_True) auto
    moreover have "d \<noteq> CHR ''-''" "d \<noteq> CHR ''+''" using dec_digit_not_sign [OF d] by auto
    moreover have "of_nat a = (of_int c :: rat)" using False by (simp add: a_def of_nat_nat)
    ultimately show ?thesis using body unfolding am
      by (simp add: parse_decimal_def dr del: filter.simps)
  qed
qed

section \<open>Events\<close>

datatype event_type = SCAN | SALE | COLD_CHAIN_ALERT | STOCK_UPDATE | EXPIRY_ENTRY
  | SUPPLIER_UPDATE | SHIPMENT | RECALL_NOTICE | INVENTORY_EXCEPTION

fun event_type_value :: "event_type \<Rightarrow> string" where
  "event_type_value SCAN = ''scan''"
| "event_type_value SALE = ''sale''"
| "event_type_value COLD_CHAIN_ALERT = ''cold_chain_alert''"
| "event_type_value STOCK_UPDATE = ''stock_update''"
| "event_type_value EXPIRY_ENTRY = ''expiry_entry''"
| "event_type_value SUPPLIER_UPDATE = ''supplier_update''"
| "event_type_value SHIPMENT = ''shipment''"
| "event_type_value RECALL_NOTICE = ''recall_notice''"
| "event_type_value INVENTORY_EXCEPTION = ''inventory_exception''"

definition all_event_types :: "event_type list" where
  "all_event_types = [SCAN, SALE, COLD_CHAIN_ALERT, STOCK_UPDATE, EXPIRY_ENTRY, SUPPLIER_UPDATE,
     SHIPMENT, RECALL_NOTICE, INVENTORY_EXCEPTION]"

datatype event_source = API | MANUAL | POS_CSV | SCANNER | WMS_CSV

fun event_source_value :: "event_source \<Rightarrow> string" where
  "event_source_value API = ''api''"
| "event_source_value MANUAL = ''manual''"
| "event_source_value POS_CSV = ''pos_csv''"
| "event_source_value SCANNER = ''scanner''"
| "event_source_value WMS_CSV = ''wms_csv''"

definition all_event_sources :: "event_source list" where
  "all_event_sources = [API, MANUAL, POS_CSV, SCANNER, WMS_CSV]"

text \<open>\<open>EventType(v)\<close> and \<open>EventSource(v)\<close>: only the string of a member is accepted.\<close>

definition event_type_of :: "pyval \<Rightarrow> event_type result" where
  "event_type_of v = (case find_first (\<lambda>t. PyStr (event_type_value t) = v) all_event_types of
       Some t \<Rightarrow> Inr t
     | None \<Rightarrow> Inl (ValueError (repr v @ '' is not a valid EventType'')))"

definition event_source_of :: "pyval \<Rightarrow> event_source result" where
  "event_source_of v = (case find_first (\<lambda>t. PyStr (event_source_value t) = v) all_event_sources of
       Some t \<Rightarrow> Inr t
     | None \<Rightarrow> Inl (ValueError (repr v @ '' is not a valid EventSource'')))"

record event =
  ev_id :: string
  ev_type :: event_type
  ev_ts :: datetime
  ev_actor :: string
  ev_payload :: pydict
  ev_source :: event_source
  ev_tenant_id :: string
  ev_data_domain :: data_domain
  ev_correlation_id :: string
  ev_causation_id :: "string option"
  ev_schema_version :: string

text \<open>\<open>_datetime\<close>: a naive timestamp is taken as UTC.\<close>

definition parse_ts :: "pyval \<Rightarrow> datetime result" where
  "parse_ts v = (case v of
       PyStr s \<Rightarrow>
         (case fromisoformat (replace_char (CHR ''Z'') ''+00:00'' s) of
            None \<Rightarrow> Inl (ValueError (''Invalid isoformat string: '' @ repr_str s))
          | Some t \<Rightarrow> Inr (if dt_offset t = None then t\<lparr>dt_offset := Some 0\<rparr> else t))
     | _ \<Rightarrow> Inl (ValueError ''event ts must be an ISO datetime''))"

definition typed_str :: "string \<Rightarrow> pyval \<Rightarrow> string result" where
  "typed_str field v = (case v of PyStr s \<Rightarrow> Inr s | _ \<Rightarrow> Inl (TypeError (field @ '' is not a str'')))"

definition typed_opt_str :: "string \<Rightarrow> pyval \<Rightarrow> string option result" where
  "typed_opt_str field v = (case v of
       PyNone \<Rightarrow> Inr None
     | PyStr s \<Rightarrow> Inr (Some s)
     | _ \<Rightarrow> Inl (TypeError (field @ '' is not a str or None'')))"

definition require_nonempty :: "string \<Rightarrow> string \<Rightarrow> unit result" where
  "require_nonempty field s =
     (if s = [] then Inl (ValueError (''event '' @ field @ '' is required'')) else Inr ())"

text \<open>
  \<open>Event.__post_init__\<close>, on the raw field values the constructor is given: required fields, then the
  payload shape, the timestamp, the enumerations, and the two provenance rules (the payload may not
  name another domain, and a synthetic payload is never operational).
\<close>

definition payload_domain_check :: "pydict \<Rightarrow> data_domain \<Rightarrow> unit result" where
  "payload_domain_check payload dm =
     (case get payload ''data_domain'' of
        PyNone \<Rightarrow> Inr ()
      | v \<Rightarrow> bind_res (normalize_domain v dm) (\<lambda>s. bind_res (domain_of s) (\<lambda>d.
          if d \<noteq> dm
          then Inl (ValueError ''event payload data_domain conflicts with event data_domain'')
          else Inr ())))"

definition synthetic_check :: "pydict \<Rightarrow> data_domain \<Rightarrow> unit result" where
  "synthetic_check payload dm =
     (if dm = OPERATIONAL_TWIN \<and>
         (get payload ''synthetic'' = PyBool True \<or> get payload ''synthetic_probe'' = PyBool True)
      then Inl (ValueError ''synthetic event payload requires a non-operational data_domain'')
      else Inr ())"

definition post_init ::
  "string \<Rightarrow> pyval \<Rightarrow> pyval \<Rightarrow> string \<Rightarrow> pyval \<Rightarrow> pyval \<Rightarrow> string \<Rightarrow> pyval \<Rightarrow> string \<Rightarrow>
   string option \<Rightarrow> string \<Rightarrow> event result" where
  "post_init i ty ts actor payload src tenant dm corr caus schema =
     bind_res (require_nonempty ''id'' i) (\<lambda>_.
     bind_res (require_nonempty ''actor'' actor) (\<lambda>_.
     bind_res (require_nonempty ''tenant_id'' tenant) (\<lambda>_.
     bind_res (case payload of PyDict p \<Rightarrow> Inr p
               | _ \<Rightarrow> Inl (ValueError ''event payload must be an object'')) (\<lambda>p.
     bind_res (parse_ts ts) (\<lambda>t.
     bind_res (event_type_of ty) (\<lambda>et.
     bind_res (event_source_of src) (\<lambda>es.
     bind_res (normalize_domain dm OPERATIONAL_TWIN) (\<lambda>ds.
     bind_res (domain_of ds) (\<lambda>d.
     bind_res (payload_domain_check p d) (\<lambda>_.
     bind_res (synthetic_check p d) (\<lambda>_.
       Inr \<lparr>ev_id = i, ev_type = et, ev_ts = t, ev_actor = actor, ev_payload = p,
            ev_source = es, ev_tenant_id = tenant, ev_data_domain = d,
            ev_correlation_id = (if corr = [] then i else corr),
            ev_causation_id = caus, ev_schema_version = schema\<rparr>)))))))))))"

definition required_event_fields :: "string list" where
  "required_event_fields = [''actor'', ''id'', ''payload'', ''ts'', ''type'']"

text \<open>
  \<open>Event.parse_wire\<close>. Keys outside the schema are dropped before the constructor sees them, so only
  the eleven named fields are read.
\<close>

definition parse_wire :: "pyval \<Rightarrow> event result" where
  "parse_wire v = (case v of
       PyDict data \<Rightarrow>
         (let missing = filter (\<lambda>k. \<not> dict_has k data) required_event_fields in
          if missing \<noteq> []
          then Inl (ValueError (''event missing fields: '' @ repr (PyList (map PyStr missing))))
          else
            bind_res (typed_str ''id'' (get data ''id'')) (\<lambda>i.
            bind_res (typed_str ''actor'' (get data ''actor'')) (\<lambda>actor.
            bind_res (typed_str ''tenant_id'' (get_or data ''tenant_id'' (PyStr ''default''))) (\<lambda>tenant.
            bind_res (typed_str ''correlation_id'' (get_or data ''correlation_id'' (PyStr []))) (\<lambda>corr.
            bind_res (typed_opt_str ''causation_id'' (get data ''causation_id'')) (\<lambda>caus.
            bind_res (typed_str ''schema_version'' (get_or data ''schema_version'' (PyStr ''v1''))) (\<lambda>schema.
              post_init i (get data ''type'') (get data ''ts'') actor (get data ''payload'')
                (get_or data ''source'' (PyStr (event_source_value API))) tenant
                (get_or data ''data_domain'' (PyStr (domain_value OPERATIONAL_TWIN)))
                corr caus schema)))))))
     | _ \<Rightarrow> Inl (ValueError ''event must be an object''))"

text \<open>\<open>Event.to_dict\<close>; \<open>deepcopy_json\<close> of a payload whose keys are strings is the payload.\<close>

definition event_to_dict :: "event \<Rightarrow> pydict" where
  "event_to_dict e =
     [(''id'', PyStr (ev_id e)),
      (''type'', PyStr (event_type_value (ev_type e))),
      (''ts'', PyStr (isoformat (ev_ts e))),
      (''actor'', PyStr (ev_actor e)),
      (''payload'', PyDict (ev_payload e)),
      (''source'', PyStr (event_source_value (ev_source e))),
      (''tenant_id'', PyStr (ev_tenant_id e)),
      (''data_domain'', PyStr (domain_value (ev_data_domain e))),
      (''correlation_id'', PyStr (ev_correlation_id e)),
      (''causation_id'', (case ev_causation_id e of None \<Rightarrow> PyNone | Some c \<Rightarrow> PyStr c)),
      (''schema_version'', PyStr (ev_schema_version e))]"

definition to_cloudevent :: "event \<Rightarrow> pydict" where
  "to_cloudevent e =
     [(''specversion'', PyStr ''1.0''),
      (''id'', PyStr (ev_id e)),
      (''type'', PyStr (''shelfwise.'' @ event_type_value (ev_type e))),
      (''source'', PyStr (''shelfwise://'' @ event_source_value (ev_source e) @ ''/'' @ ev_actor e)),
      (''subject'', PyStr (ev_actor e)),
      (''time'', PyStr (isoformat (ev_ts e))),
      (''datacontenttype'', PyStr ''application/json''),
      (''data'', PyDict (ev_payload e)),
      (''tenantid'', PyStr (ev_tenant_id e)),
      (''datadomain'', PyStr (domain_value (ev_data_domain e))),
      (''correlationid'', PyStr (ev_correlation_id e)),
      (''causationid'', (case ev_causation_id e of None \<Rightarrow> PyNone | Some c \<Rightarrow> PyStr c)),
      (''schema'', PyStr (ev_schema_version e))]"

text \<open>The invariant the constructor establishes.\<close>

definition event_wf :: "event \<Rightarrow> bool" where
  "event_wf e \<longleftrightarrow>
     ev_id e \<noteq> [] \<and> ev_actor e \<noteq> [] \<and> ev_tenant_id e \<noteq> [] \<and> ev_correlation_id e \<noteq> [] \<and>
     valid_datetime (ev_ts e) \<and> dt_offset (ev_ts e) \<noteq> None \<and>
     payload_domain_check (ev_payload e) (ev_data_domain e) = Inr () \<and>
     synthetic_check (ev_payload e) (ev_data_domain e) = Inr ()"

lemma event_type_of_value [simp]: "event_type_of (PyStr (event_type_value t)) = Inr t"
  by (cases t) (simp_all add: event_type_of_def all_event_types_def)

lemma event_source_of_value [simp]: "event_source_of (PyStr (event_source_value t)) = Inr t"
  by (cases t) (simp_all add: event_source_of_def all_event_sources_def)

lemma fromisoformat_valid: "fromisoformat s = Some t \<Longrightarrow> valid_datetime t"
  by (auto simp: fromisoformat_def valid_datetime_def Let_def bind_eq_Some_conv parse_tz_def
      valid_offset_def day_us_def split: if_splits list.splits option.splits prod.splits)

lemma parse_ts_isoformat [simp]:
  "valid_datetime t \<Longrightarrow> dt_offset t \<noteq> None \<Longrightarrow> parse_ts (PyStr (isoformat t)) = Inr t"
  by (simp add: parse_ts_def replace_char_absent isoformat_no_Z)

lemma parse_ts_wf: "parse_ts v = Inr t \<Longrightarrow> valid_datetime t \<and> dt_offset t \<noteq> None"
  by (auto simp: parse_ts_def valid_datetime_def valid_offset_def day_us_def
      split: pyval.splits option.splits if_splits dest!: fromisoformat_valid)

lemma require_nonempty_Inr [simp]: "require_nonempty f s = Inr u \<longleftrightarrow> s \<noteq> []"
  by (simp add: require_nonempty_def)

lemma post_init_wf: "post_init i ty ts actor payload src tenant dm corr caus schema = Inr e \<Longrightarrow> event_wf e"
  by (auto simp: post_init_def event_wf_def bind_res_Inr_iff dest: parse_ts_wf split: if_splits)

lemma parse_wire_event_wf: "parse_wire v = Inr e \<Longrightarrow> event_wf e"
  by (auto simp: parse_wire_def Let_def bind_res_Inr_iff dest: post_init_wf
      split: pyval.splits if_splits)

lemma has_to_dict: "filter (\<lambda>k. \<not> dict_has k (event_to_dict e)) required_event_fields = []"
  by (simp add: required_event_fields_def event_to_dict_def dict_has_def)

lemma post_init_of_wf:
  assumes "event_wf e"
  shows "post_init (ev_id e) (PyStr (event_type_value (ev_type e))) (PyStr (isoformat (ev_ts e)))
     (ev_actor e) (PyDict (ev_payload e)) (PyStr (event_source_value (ev_source e)))
     (ev_tenant_id e) (PyStr (domain_value (ev_data_domain e)))
     (ev_correlation_id e) (ev_causation_id e) (ev_schema_version e) = Inr e"
  using assms by (simp add: post_init_def event_wf_def require_nonempty_def)

lemma parse_wire_to_dict:
  assumes "event_wf e"
  shows "parse_wire (PyDict (event_to_dict e)) = Inr e"
proof -
  have "parse_wire (PyDict (event_to_dict e)) =
    post_init (ev_id e) (PyStr (event_type_value (ev_type e))) (PyStr (isoformat (ev_ts e)))
     (ev_actor e) (PyDict (ev_payload e)) (PyStr (event_source_value (ev_source e)))
     (ev_tenant_id e) (PyStr (domain_value (ev_data_domain e)))
     (ev_correlation_id e) (ev_causation_id e) (ev_schema_version e)"
    unfolding parse_wire_def Let_def pyval.case has_to_dict
    by (simp add: event_to_dict_def get_or_def typed_str_def typed_opt_str_def split: option.split)
  then show ?thesis using post_init_of_wf [OF assms] by simp
qed

section \<open>Evidence and decisions\<close>

datatype risk_tier = LOW | MEDIUM | HIGH

fun risk_value :: "risk_tier \<Rightarrow> string" where
  "risk_value LOW = ''low''"
| "risk_value MEDIUM = ''medium''"
| "risk_value HIGH = ''high''"

datatype agent_name = INVENTORY | SALES | COLD_CHAIN | EXPIRY | DEMAND | PROCUREMENT
  | OPPORTUNITY | SIMULATION | CRITIC | EXECUTIVE

fun agent_value :: "agent_name \<Rightarrow> string" where
  "agent_value INVENTORY = ''inventory''"
| "agent_value SALES = ''sales''"
| "agent_value COLD_CHAIN = ''cold_chain''"
| "agent_value EXPIRY = ''expiry''"
| "agent_value DEMAND = ''demand''"
| "agent_value PROCUREMENT = ''procurement''"
| "agent_value OPPORTUNITY = ''opportunity''"
| "agent_value SIMULATION = ''simulation''"
| "agent_value CRITIC = ''critic''"
| "agent_value EXECUTIVE = ''executive''"

record source_ref =
  sr_kind :: string
  sr_ref :: string
  sr_locator :: "string option"

definition opt_str :: "string option \<Rightarrow> pyval" where
  "opt_str x = (case x of None \<Rightarrow> PyNone | Some s \<Rightarrow> PyStr s)"

definition source_ref_to_dict :: "source_ref \<Rightarrow> pydict" where
  "source_ref_to_dict r =
     [(''kind'', PyStr (sr_kind r)), (''ref'', PyStr (sr_ref r)), (''locator'', opt_str (sr_locator r))]"

text \<open>\<open>SourceRef.__str__\<close>: an empty locator counts as none.\<close>

definition source_ref_str :: "source_ref \<Rightarrow> string" where
  "source_ref_str r = (case sr_locator r of
       Some l \<Rightarrow> if l = [] then sr_ref r else sr_ref r @ ''#'' @ l
     | None \<Rightarrow> sr_ref r)"

record recommended_action =
  ra_type :: string
  ra_params :: pydict
  ra_risk_tier :: risk_tier

definition action_to_dict :: "recommended_action \<Rightarrow> pydict" where
  "action_to_dict a =
     [(''type'', PyStr (ra_type a)), (''params'', PyDict (ra_params a)),
      (''risk_tier'', PyStr (risk_value (ra_risk_tier a)))]"

record evidence_object =
  eo_agent :: agent_name
  eo_conclusion :: string
  eo_supporting_data :: "pyval list"
  eo_confidence :: string
  eo_recommended_action :: recommended_action
  eo_sources :: "source_ref list"
  eo_requires_human_review :: bool

definition must_review :: "evidence_object \<Rightarrow> bool" where
  "must_review x = (eo_requires_human_review x \<or> ra_risk_tier (eo_recommended_action x) = HIGH)"

definition evidence_to_dict :: "evidence_object \<Rightarrow> pydict" where
  "evidence_to_dict x =
     [(''agent'', PyStr (agent_value (eo_agent x))),
      (''conclusion'', PyStr (eo_conclusion x)),
      (''supporting_data'', PyList (eo_supporting_data x)),
      (''confidence'', PyStr (eo_confidence x)),
      (''recommended_action'', PyDict (action_to_dict (eo_recommended_action x))),
      (''sources'', PyList (map (\<lambda>r. PyDict (source_ref_to_dict r)) (eo_sources x))),
      (''requires_human_review'', PyBool (eo_requires_human_review x))]"

datatype decision_status = PENDING | APPROVED | REJECTED

fun status_value :: "decision_status \<Rightarrow> string" where
  "status_value PENDING = ''pending''"
| "status_value APPROVED = ''approved''"
| "status_value REJECTED = ''rejected''"

record decision =
  dc_id :: string
  dc_status :: decision_status
  dc_action :: recommended_action
  dc_caused_by :: "string list"
  dc_summary :: string

definition decision_to_dict :: "decision \<Rightarrow> pydict" where
  "decision_to_dict d =
     [(''id'', PyStr (dc_id d)), (''status'', PyStr (status_value (dc_status d))),
      (''action'', PyDict (action_to_dict (dc_action d))),
      (''caused_by'', PyList (map PyStr (dc_caused_by d))),
      (''summary'', PyStr (dc_summary d))]"

section \<open>A concrete event, for witnesses\<close>

definition example_ts :: datetime where
  "example_ts = \<lparr>dt_year = 2026, dt_month = 7, dt_day = 20, dt_hour = 8, dt_minute = 30,
     dt_second = 0, dt_micro = 0, dt_offset = Some 0\<rparr>"

definition example_event :: event where
  "example_event = \<lparr>ev_id = ''evt_1'', ev_type = SALE, ev_ts = example_ts, ev_actor = ''till_4'',
     ev_payload = [(''sku'', PyStr ''4011''), (''quantity'', PyInt 2), (''location_id'', PyStr ''s1'')],
     ev_source = API, ev_tenant_id = ''local'', ev_data_domain = OPERATIONAL_TWIN,
     ev_correlation_id = ''evt_1'', ev_causation_id = None, ev_schema_version = ''v1''\<rparr>"

lemma example_event_wf: "event_wf example_event"
  by (simp add: event_wf_def example_event_def example_ts_def valid_datetime_def valid_date_def
      valid_time_def valid_offset_def day_us_def days_in_month_def payload_domain_check_def
      synthetic_check_def)

section \<open>Properties\<close>

text \<open>
  C38. The wire form of an event loses nothing: what \<open>Event.to_dict\<close> prints, \<open>Event.parse_wire\<close>
  reads back as the same event, for every event the constructor accepts. The bus stores the printed
  form and the worker parses it, so this is what makes the worker handle the event that was
  published.
\<close>

theorem event_wire_roundtrip:
  assumes "event_wf e"
  shows "parse_wire (PyDict (event_to_dict e)) = Inr e"
  using assms by (rule parse_wire_to_dict)

theorem event_wire_roundtrip_witness:
  "event_wf example_event \<and> parse_wire (PyDict (event_to_dict example_event)) = Inr example_event"
  using event_wire_roundtrip [OF example_event_wf] example_event_wf by simp



text \<open>
  Money survives its printed form: the \<open>amount\<close> string of an event or a report, read back as a
  decimal and converted with \<open>Money.zar\<close>, is the same number of cents.
\<close>

theorem money_amount_roundtrip:
  "\<exists>q. parse_decimal (amount_str c) = Some (DecFin q) \<and> minor_units (zar q) = c"
proof -
  have "minor_units (zar (of_int c / 100)) = c" by (simp add: zar_def)
  then show ?thesis using parse_amount_str [of c] by blast
qed

end
