(* ===== verification/EventBus.thy ===== *)
theory EventBus
  imports Contracts "HOL-Library.Multiset"
begin

text \<open>
  The event bus (\<open>src/shelfwise_backend/event_bus.py\<close>): the in-memory bus with its retry budget and
  dead-letter queue, the stream naming and the bounds taken from the environment. The consumer's
  side, deliveries that are not yet acknowledged, is not a field of the bus; the step relation
  \<open>bus_step\<close> adds it, together with the history of deliveries, so that conservation of messages and
  the retry bound can be stated. The Redis bus is a client of a server that is not in the
  repository; only its configuration is modelled.
\<close>

section \<open>Configuration\<close>

definition reclaim_margin_seconds :: int where
  "reclaim_margin_seconds = 120"

definition request_budget_seconds :: "environ \<Rightarrow> int" where
  "request_budget_seconds env =
     (case parse_int (getenv env ''SHELFWISE_REQUEST_TIMEOUT_SECONDS'' ''120'') of
        Some n \<Rightarrow> max 1 n | None \<Rightarrow> 120)"

definition stale_consumer_idle_ms :: "environ \<Rightarrow> int" where
  "stale_consumer_idle_ms env =
     (let floor_seconds = request_budget_seconds env + reclaim_margin_seconds;
          raw = strip (getenv env ''SHELFWISE_WORKER_RECLAIM_IDLE_SECONDS'' []);
          configured = (if raw \<noteq> []
                        then (case parse_int raw of Some n \<Rightarrow> n | None \<Rightarrow> floor_seconds)
                        else floor_seconds)
      in max configured floor_seconds * 1000)"

definition default_event_stream_maxlen :: int where
  "default_event_stream_maxlen = 10000"

definition min_event_stream_maxlen :: int where
  "min_event_stream_maxlen = 100"

definition max_event_stream_maxlen :: int where
  "max_event_stream_maxlen = 1000000"

definition bound_event_stream_maxlen :: "int \<Rightarrow> int" where
  "bound_event_stream_maxlen v = min (max v min_event_stream_maxlen) max_event_stream_maxlen"

definition event_stream_maxlen :: "environ \<Rightarrow> string option \<Rightarrow> int" where
  "event_stream_maxlen env raw =
     (let v = (case raw of None \<Rightarrow> getenv env ''SHELFWISE_EVENT_STREAM_MAXLEN'' [] | Some r \<Rightarrow> r);
          parsed = (if strip v \<noteq> []
                    then (case parse_int (strip v) of
                            Some n \<Rightarrow> n | None \<Rightarrow> default_event_stream_maxlen)
                    else default_event_stream_maxlen)
      in bound_event_stream_maxlen parsed)"

definition stream_name :: "string \<Rightarrow> string" where
  "stream_name tenant_id =
     (let t = (if strip tenant_id \<noteq> [] then strip tenant_id else ''default'')
      in ''shelfwise:events:'' @ t)"

section \<open>The in-memory bus\<close>

record bus_message =
  msg_id :: string
  msg_stream :: string
  msg_event :: pydict

record event_bus =
  bus_max_retries :: int
  bus_messages :: "bus_message list"
  bus_pending :: "bus_message list"
  bus_acked :: "string list"
  bus_dead :: "bus_message list"
  bus_counts :: "(string, int) dict"

definition bus_init :: "int \<Rightarrow> event_bus" where
  "bus_init max_retries = \<lparr>bus_max_retries = max 1 max_retries, bus_messages = [],
     bus_pending = [], bus_acked = [], bus_dead = [], bus_counts = []\<rparr>"

definition mem_id :: "nat \<Rightarrow> string" where
  "mem_id n = ''mem-'' @ str_nat n"

definition bus_publish :: "event \<Rightarrow> event_bus \<Rightarrow> event_bus \<times> string" where
  "bus_publish e b =
     (let mid = mem_id (length (bus_messages b) + 1);
          m = \<lparr>msg_id = mid, msg_stream = stream_name (ev_tenant_id e), msg_event = event_to_dict e\<rparr>
      in (b\<lparr>bus_messages := bus_messages b @ [m], bus_pending := bus_pending b @ [m],
            bus_counts := dict_set mid 0 (bus_counts b)\<rparr>, mid))"

text \<open>The loop over the deque: the first message of the stream, and the queue without it.\<close>

fun take_first :: "('a \<Rightarrow> bool) \<Rightarrow> 'a list \<Rightarrow> ('a \<times> 'a list) option" where
  "take_first p [] = None"
| "take_first p (x # xs) =
     (if p x then Some (x, xs) else map_option (\<lambda>(y, ys). (y, x # ys)) (take_first p xs))"

definition wants :: "string option \<Rightarrow> bus_message \<Rightarrow> bool" where
  "wants stream m = (case stream of None \<Rightarrow> True | Some s \<Rightarrow> msg_stream m = s)"

definition delivery_count :: "event_bus \<Rightarrow> string \<Rightarrow> int \<Rightarrow> int" where
  "delivery_count b mid dflt = (case dict_get (bus_counts b) mid of Some n \<Rightarrow> n | None \<Rightarrow> dflt)"

definition bus_consume_one :: "string option \<Rightarrow> event_bus \<Rightarrow> event_bus \<times> bus_message option" where
  "bus_consume_one stream b = (case take_first (wants stream) (bus_pending b) of
       None \<Rightarrow> (b, None)
     | Some (m, rest) \<Rightarrow>
         (b\<lparr>bus_pending := rest,
            bus_counts := dict_set (msg_id m) (delivery_count b (msg_id m) 0 + 1) (bus_counts b)\<rparr>,
          Some m))"

definition ack_key :: "string \<Rightarrow> string \<Rightarrow> string" where
  "ack_key stream mid = stream @ '':'' @ mid"

definition bus_ack :: "string \<Rightarrow> string \<Rightarrow> event_bus \<Rightarrow> event_bus" where
  "bus_ack stream mid b =
     b\<lparr>bus_acked := bus_acked b @ [ack_key stream mid], bus_counts := dict_del mid (bus_counts b)\<rparr>"

definition bus_nack :: "string \<Rightarrow> string \<Rightarrow> event_bus \<Rightarrow> event_bus \<times> bool" where
  "bus_nack stream mid b = (case find_first (\<lambda>m. msg_id m = mid) (bus_messages b) of
       None \<Rightarrow> (b, False)
     | Some source \<Rightarrow>
         if delivery_count b mid 1 \<ge> bus_max_retries b
         then (b\<lparr>bus_dead := bus_dead b @ [source], bus_counts := dict_del mid (bus_counts b)\<rparr>, True)
         else (b\<lparr>bus_pending := bus_pending b @ [source]\<rparr>, False))"

definition bus_reclaim_stale :: "string option \<Rightarrow> int option \<Rightarrow> event_bus \<Rightarrow> event_bus \<times> int" where
  "bus_reclaim_stale stream min_idle_ms b = (b, 0)"

definition bus_list :: "event_bus \<Rightarrow> bus_message list" where
  "bus_list b = rev (bus_messages b)"

record bus_stats =
  st_messages_total :: nat
  st_pending :: nat
  st_acked :: nat
  st_dead_letter :: nat
  st_streams :: "string list"

definition bus_stats_of :: "string option \<Rightarrow> event_bus \<Rightarrow> bus_stats" where
  "bus_stats_of tenant b =
     (let stream = (case tenant of Some t \<Rightarrow> (if t \<noteq> [] then Some (stream_name t) else None) | None \<Rightarrow> None);
          keep = wants stream;
          acked = filter (\<lambda>k. case stream of None \<Rightarrow> True | Some s \<Rightarrow> startswith k (s @ '':'')) (bus_acked b)
      in \<lparr>st_messages_total = length (filter keep (bus_messages b)),
          st_pending = length (filter keep (bus_pending b)),
          st_acked = length acked,
          st_dead_letter = length (filter keep (bus_dead b)),
          st_streams = sorted_by id (remdups (map msg_stream (filter keep (bus_messages b))))\<rparr>)"

definition bus_clear :: "event_bus \<Rightarrow> event_bus" where
  "bus_clear b = b\<lparr>bus_messages := [], bus_pending := [], bus_acked := [], bus_dead := [], bus_counts := []\<rparr>"

section \<open>The bus and its consumers\<close>

text \<open>
  Messages handed to a consumer and not yet settled are in flight. \<open>sys_deliveries\<close> counts every
  delivery of a message for the whole history; the bus itself forgets its counter when the message
  is acknowledged or dead-lettered.
\<close>

record bus_sys =
  sys_bus :: event_bus
  sys_flight :: "bus_message list"
  sys_done :: "bus_message list"
  sys_deliveries :: "string \<Rightarrow> nat"

definition sys_init :: "int \<Rightarrow> bus_sys" where
  "sys_init r = \<lparr>sys_bus = bus_init r, sys_flight = [], sys_done = [], sys_deliveries = (\<lambda>_. 0)\<rparr>"

inductive bus_step :: "bus_sys \<Rightarrow> bus_sys \<Rightarrow> bool" where
  publish: "bus_publish e (sys_bus s) = (b', mid) \<Longrightarrow> bus_step s (s\<lparr>sys_bus := b'\<rparr>)"
| deliver: "bus_consume_one stream (sys_bus s) = (b', Some m) \<Longrightarrow>
    bus_step s (s\<lparr>sys_bus := b', sys_flight := m # sys_flight s,
      sys_deliveries := (sys_deliveries s)(msg_id m := Suc (sys_deliveries s (msg_id m)))\<rparr>)"
| ack: "m \<in> set (sys_flight s) \<Longrightarrow>
    bus_step s (s\<lparr>sys_bus := bus_ack (msg_stream m) (msg_id m) (sys_bus s),
      sys_flight := remove1 m (sys_flight s), sys_done := m # sys_done s\<rparr>)"
| nack: "m \<in> set (sys_flight s) \<Longrightarrow> bus_nack (msg_stream m) (msg_id m) (sys_bus s) = (b', dl) \<Longrightarrow>
    bus_step s (s\<lparr>sys_bus := b', sys_flight := remove1 m (sys_flight s)\<rparr>)"

inductive_cases bus_stepE: "bus_step s s'"

inductive bus_reachable :: "int \<Rightarrow> bus_sys \<Rightarrow> bool" for r where
  start: "bus_reachable r (sys_init r)"
| step: "bus_reachable r s \<Longrightarrow> bus_step s s' \<Longrightarrow> bus_reachable r s'"

section \<open>Lemmas on the queue operations\<close>

lemma take_first_SomeD:
  "take_first p xs = Some (x, rest) \<Longrightarrow>
   \<exists>us vs. xs = us @ x # vs \<and> rest = us @ vs \<and> p x \<and> (\<forall>u \<in> set us. \<not> p u)"
proof (induction xs arbitrary: rest)
  case (Cons y ys)
  show ?case
  proof (cases "p y")
    case True
    then show ?thesis using Cons.prems by (intro exI [of _ "[]"] exI [of _ rest]) auto
  next
    case False
    then obtain r where r: "take_first p ys = Some (x, r)" "rest = y # r"
      using Cons.prems by auto
    from Cons.IH [OF r(1)] obtain us vs where
      "ys = us @ x # vs" "r = us @ vs" "p x" "\<forall>u \<in> set us. \<not> p u" by blast
    then show ?thesis using r(2) False by (intro exI [of _ "y # us"] exI [of _ vs]) auto
  qed
qed simp

lemma take_first_None_iff: "take_first p xs = None \<longleftrightarrow> (\<forall>x \<in> set xs. \<not> p x)"
  by (induction xs) auto

lemma take_first_mset:
  "take_first p xs = Some (x, rest) \<Longrightarrow> mset xs = add_mset x (mset rest)"
  by (drule take_first_SomeD) auto

lemma mem_id_inj [simp]: "mem_id m = mem_id n \<longleftrightarrow> m = n"
  by (simp add: mem_id_def)

text \<open>Message ids are the running numbers, so they are distinct and the next one is new.\<close>

definition ids_ok :: "event_bus \<Rightarrow> bool" where
  "ids_ok b \<longleftrightarrow> map msg_id (bus_messages b) = map mem_id [1..<length (bus_messages b) + 1]"

lemma ids_ok_distinct: "ids_ok b \<Longrightarrow> distinct (map msg_id (bus_messages b))"
  by (simp add: ids_ok_def distinct_map inj_on_def)

lemma ids_ok_inj:
  "ids_ok b \<Longrightarrow> m \<in> set (bus_messages b) \<Longrightarrow> n \<in> set (bus_messages b) \<Longrightarrow> msg_id m = msg_id n \<Longrightarrow> m = n"
  using ids_ok_distinct by (metis distinct_map inj_onD)

lemma ids_ok_fresh: "ids_ok b \<Longrightarrow> mem_id (length (bus_messages b) + 1) \<notin> msg_id ` set (bus_messages b)"
proof -
  assume "ids_ok b"
  then have "msg_id ` set (bus_messages b) = mem_id ` set [1..<length (bus_messages b) + 1]"
    unfolding ids_ok_def by (metis list.set_map)
  then show ?thesis by auto
qed

lemma ids_ok_find:
  "ids_ok b \<Longrightarrow> m \<in> set (bus_messages b) \<Longrightarrow> find_first (\<lambda>x. msg_id x = msg_id m) (bus_messages b) = Some m"
  by (cases "find_first (\<lambda>x. msg_id x = msg_id m) (bus_messages b)")
    (auto simp: find_first_None_iff dest!: find_first_SomeD intro: ids_ok_inj)

section \<open>The invariant of the bus\<close>

text \<open>
  Every published message is in exactly one place: waiting, in flight, acknowledged or
  dead-lettered. A waiting or in-flight message has a counter that agrees with the deliveries so
  far; a waiting message has attempts left; a dead-lettered one has used them all.
\<close>

definition attempts_ok :: "event_bus \<Rightarrow> (string \<Rightarrow> nat) \<Rightarrow> bus_message \<Rightarrow> bool" where
  "attempts_ok b dv m \<longleftrightarrow> 0 < dv (msg_id m) \<and> int (dv (msg_id m)) \<le> bus_max_retries b"

definition counted :: "event_bus \<Rightarrow> (string \<Rightarrow> nat) \<Rightarrow> bus_message \<Rightarrow> bool" where
  "counted b dv m \<longleftrightarrow> dict_get (bus_counts b) (msg_id m) = Some (int (dv (msg_id m)))"

definition bus_inv :: "bus_sys \<Rightarrow> bool" where
  "bus_inv s \<longleftrightarrow>
     ids_ok (sys_bus s) \<and> 1 \<le> bus_max_retries (sys_bus s) \<and>
     mset (bus_messages (sys_bus s)) = mset (bus_pending (sys_bus s)) + mset (sys_flight s) +
       mset (sys_done s) + mset (bus_dead (sys_bus s)) \<and>
     bus_acked (sys_bus s) = map (\<lambda>m. ack_key (msg_stream m) (msg_id m)) (rev (sys_done s)) \<and>
     (\<forall>m \<in> set (bus_pending (sys_bus s)). counted (sys_bus s) (sys_deliveries s) m \<and>
        int (sys_deliveries s (msg_id m)) < bus_max_retries (sys_bus s)) \<and>
     (\<forall>m \<in> set (sys_flight s). counted (sys_bus s) (sys_deliveries s) m \<and>
        attempts_ok (sys_bus s) (sys_deliveries s) m) \<and>
     (\<forall>m \<in> set (sys_done s). attempts_ok (sys_bus s) (sys_deliveries s) m) \<and>
     (\<forall>m \<in> set (bus_dead (sys_bus s)). int (sys_deliveries s (msg_id m)) = bus_max_retries (sys_bus s)) \<and>
     (\<forall>i. i \<notin> msg_id ` set (bus_messages (sys_bus s)) \<longrightarrow> sys_deliveries s i = 0)"

lemma bus_inv_init: "bus_inv (sys_init r)"
  by (simp add: bus_inv_def sys_init_def bus_init_def ids_ok_def)

text \<open>The places are disjoint, as message ids.\<close>

lemma places_disjoint:
  assumes "ids_ok b" and "mset (bus_messages b) = A + add_mset m B" and "x \<in># A + B"
  shows "msg_id x \<noteq> msg_id m"
proof
  assume eq: "msg_id x = msg_id m"
  have "x \<in> set (bus_messages b)" "m \<in> set (bus_messages b)"
    using assms(2,3) by (auto simp: set_mset_mset [symmetric] simp del: set_mset_mset)
  with eq ids_ok_inj [OF assms(1)] have "x = m" by blast
  then have "count (mset (bus_messages b)) m \<ge> 2"
    using assms(2,3) by (auto simp: not_in_iff [symmetric] Suc_le_eq count_greater_zero_iff)
  moreover have "distinct (bus_messages b)"
    using ids_ok_distinct [OF assms(1)] by (simp add: distinct_map)
  ultimately show False by (simp add: distinct_count_atmost_1 split: if_splits)
qed

lemma bus_inv_publish:
  assumes "bus_inv s" and "bus_publish e (sys_bus s) = (b', mid)"
  shows "bus_inv (s\<lparr>sys_bus := b'\<rparr>)"
proof -
  let ?b = "sys_bus s"
  have fresh: "mid \<notin> msg_id ` set (bus_messages ?b)"
    using assms ids_ok_fresh [of ?b] by (auto simp: bus_inv_def bus_publish_def Let_def)
  have sub: "set (bus_pending ?b) \<union> set (sys_flight s) \<union> set (sys_done s) \<union> set (bus_dead ?b)
      = set (bus_messages ?b)"
    using assms(1) unfolding bus_inv_def by (metis set_mset_mset set_mset_union)
  then have ne: "msg_id m \<noteq> mid" if "m \<in> set (bus_pending ?b) \<union> set (sys_flight s)" for m
    using that fresh by force
  have "sys_deliveries s mid = 0" using assms(1) fresh by (simp add: bus_inv_def)
  then show ?thesis
    using assms ne
    by (auto simp: bus_inv_def bus_publish_def Let_def ids_ok_def counted_def attempts_ok_def)
qed

lemma bus_inv_deliver:
  assumes "bus_inv s" and "bus_consume_one stream (sys_bus s) = (b', Some m)"
  shows "bus_inv (s\<lparr>sys_bus := b', sys_flight := m # sys_flight s,
      sys_deliveries := (sys_deliveries s)(msg_id m := Suc (sys_deliveries s (msg_id m)))\<rparr>)"
proof -
  let ?b = "sys_bus s"
  obtain rest where t: "take_first (wants stream) (bus_pending ?b) = Some (m, rest)"
    and b': "b' = ?b\<lparr>bus_pending := rest,
      bus_counts := dict_set (msg_id m) (delivery_count ?b (msg_id m) 0 + 1) (bus_counts ?b)\<rparr>"
    using assms(2) by (auto simp: bus_consume_one_def split: option.splits prod.splits)
  from take_first_mset [OF t] have p: "mset (bus_pending ?b) = add_mset m (mset rest)" .
  then have inp: "m \<in> set (bus_pending ?b)" "set rest \<subseteq> set (bus_pending ?b)"
    by (auto simp: set_mset_mset [symmetric] simp del: set_mset_mset)
  have ok: "ids_ok ?b" and ms: "mset (bus_messages ?b) =
      mset rest + add_mset m (mset (sys_flight s) + mset (sys_done s) + mset (bus_dead ?b))"
    using assms(1) p by (simp_all add: bus_inv_def)
  have ne: "msg_id x \<noteq> msg_id m"
    if "x \<in> set rest \<union> set (sys_flight s) \<union> set (sys_done s) \<union> set (bus_dead ?b)" for x
    using places_disjoint [OF ok ms] that by auto
  have mem: "m \<in> set (bus_messages ?b)"
    using ms by (metis add_mset_add_single union_iff set_mset_mset multi_member_last)
  let ?s = "s\<lparr>sys_bus := b', sys_flight := m # sys_flight s,
      sys_deliveries := (sys_deliveries s)(msg_id m := Suc (sys_deliveries s (msg_id m)))\<rparr>"
  have same: "counted b' (sys_deliveries ?s) x = counted ?b (sys_deliveries s) x"
    "attempts_ok b' (sys_deliveries ?s) x = attempts_ok ?b (sys_deliveries s) x"
    if "msg_id x \<noteq> msg_id m" for x
    using that by (simp_all add: counted_def attempts_ok_def b')
  have "counted ?b (sys_deliveries s) m" "int (sys_deliveries s (msg_id m)) < bus_max_retries ?b"
    using assms(1) inp(1) by (simp_all add: bus_inv_def)
  then have new: "counted b' (sys_deliveries ?s) m" "attempts_ok b' (sys_deliveries ?s) m"
    by (simp_all add: counted_def attempts_ok_def b' delivery_count_def)
  have old: "bus_max_retries b' = bus_max_retries ?b" "bus_messages b' = bus_messages ?b"
    "bus_pending b' = rest" "bus_acked b' = bus_acked ?b" "bus_dead b' = bus_dead ?b"
    by (simp_all add: b')
  show ?thesis
    unfolding bus_inv_def
  proof (intro conjI)
    show "\<forall>x \<in> set (sys_flight ?s). counted (sys_bus ?s) (sys_deliveries ?s) x \<and>
        attempts_ok (sys_bus ?s) (sys_deliveries ?s) x"
      using new same ne assms(1) by (simp add: bus_inv_def)
    show "\<forall>x \<in> set (bus_pending (sys_bus ?s)). counted (sys_bus ?s) (sys_deliveries ?s) x \<and>
        int (sys_deliveries ?s (msg_id x)) < bus_max_retries (sys_bus ?s)"
      using same ne assms(1) inp(2) old by (auto simp: bus_inv_def)
  qed (use assms(1) ne mem ms same old in \<open>auto simp: bus_inv_def ids_ok_def\<close>)
qed

lemma flight_split:
  assumes "bus_inv s" and "m \<in> set (sys_flight s)"
  obtains F where "remove1 m (sys_flight s) = F" and "mset (sys_flight s) = add_mset m (mset F)"
    and "set F \<subseteq> set (sys_flight s)"
    and "mset (bus_messages (sys_bus s)) = mset (bus_pending (sys_bus s)) +
      add_mset m (mset F + mset (sys_done s) + mset (bus_dead (sys_bus s)))"
    and "\<forall>x \<in> set (bus_pending (sys_bus s)) \<union> set F. msg_id x \<noteq> msg_id m"
proof -
  define F where "F = remove1 m (sys_flight s)"
  have f: "mset (sys_flight s) = add_mset m (mset F)" using assms(2) by (simp add: F_def)
  have sub: "set F \<subseteq> set (sys_flight s)" unfolding F_def by (rule set_remove1_subset)
  have ok: "ids_ok (sys_bus s)" and ms: "mset (bus_messages (sys_bus s)) = mset (bus_pending (sys_bus s)) +
      add_mset m (mset F + mset (sys_done s) + mset (bus_dead (sys_bus s)))"
    using assms(1) f by (simp_all add: bus_inv_def)
  have "msg_id x \<noteq> msg_id m" if "x \<in> set (bus_pending (sys_bus s)) \<union> set F" for x
    using places_disjoint [OF ok ms, of x] that by auto
  with f sub ms show ?thesis using that F_def by blast
qed

lemma bus_inv_ack:
  assumes "bus_inv s" and "m \<in> set (sys_flight s)"
  shows "bus_inv (s\<lparr>sys_bus := bus_ack (msg_stream m) (msg_id m) (sys_bus s),
      sys_flight := remove1 m (sys_flight s), sys_done := m # sys_done s\<rparr>)"
proof -
  let ?b = "sys_bus s"
  obtain F where F: "remove1 m (sys_flight s) = F" "mset (sys_flight s) = add_mset m (mset F)"
    "set F \<subseteq> set (sys_flight s)"
    and ms: "mset (bus_messages ?b) =
      mset (bus_pending ?b) + add_mset m (mset F + mset (sys_done s) + mset (bus_dead ?b))"
    and ne: "\<forall>x \<in> set (bus_pending ?b) \<union> set F. msg_id x \<noteq> msg_id m"
    by (rule flight_split [OF assms(1,2)])
  show ?thesis
    using assms F(2,3) ne
    by (auto simp: F(1) bus_inv_def bus_ack_def ids_ok_def counted_def attempts_ok_def subset_iff)
qed

lemma bus_inv_nack:
  assumes "bus_inv s" and "m \<in> set (sys_flight s)"
    and "bus_nack (msg_stream m) (msg_id m) (sys_bus s) = (b', dl)"
  shows "bus_inv (s\<lparr>sys_bus := b', sys_flight := remove1 m (sys_flight s)\<rparr>)"
proof -
  let ?b = "sys_bus s"
  obtain F where F: "remove1 m (sys_flight s) = F" "mset (sys_flight s) = add_mset m (mset F)"
    "set F \<subseteq> set (sys_flight s)"
    and ms: "mset (bus_messages ?b) =
      mset (bus_pending ?b) + add_mset m (mset F + mset (sys_done s) + mset (bus_dead ?b))"
    and ne: "\<forall>x \<in> set (bus_pending ?b) \<union> set F. msg_id x \<noteq> msg_id m"
    by (rule flight_split [OF assms(1,2)])
  have mem: "m \<in> set (bus_messages ?b)"
    using ms by (metis union_iff set_mset_mset add_mset_add_single multi_member_last)
  have ok: "ids_ok ?b" using assms(1) by (simp add: bus_inv_def)
  have cnt: "delivery_count ?b (msg_id m) 1 = int (sys_deliveries s (msg_id m))"
    and le: "int (sys_deliveries s (msg_id m)) \<le> bus_max_retries ?b"
    using assms(1,2) by (simp_all add: bus_inv_def counted_def attempts_ok_def delivery_count_def)
  show ?thesis
  proof (cases "int (sys_deliveries s (msg_id m)) \<ge> bus_max_retries ?b")
    case True
    then have "b' = ?b\<lparr>bus_dead := bus_dead ?b @ [m], bus_counts := dict_del (msg_id m) (bus_counts ?b)\<rparr>"
      using assms(3) ids_ok_find [OF ok mem] cnt by (simp add: bus_nack_def)
    then show ?thesis
      using assms(1) True le ne F(2,3) by (auto simp: F(1) bus_inv_def ids_ok_def counted_def attempts_ok_def subset_iff)
  next
    case False
    then have "b' = ?b\<lparr>bus_pending := bus_pending ?b @ [m]\<rparr>"
      using assms(3) ids_ok_find [OF ok mem] cnt by (simp add: bus_nack_def)
    then show ?thesis
      using assms(1,2) False F(2,3) by (auto simp: F(1) bus_inv_def ids_ok_def counted_def attempts_ok_def subset_iff)
  qed
qed

lemma bus_step_inv: "bus_step s s' \<Longrightarrow> bus_inv s \<Longrightarrow> bus_inv s'"
  by (induction rule: bus_step.induct)
    (blast intro: bus_inv_publish bus_inv_deliver bus_inv_ack bus_inv_nack)+

lemma bus_step_retries: "bus_step s s' \<Longrightarrow> bus_max_retries (sys_bus s') = bus_max_retries (sys_bus s)"
  by (induction rule: bus_step.induct)
    (auto simp: bus_publish_def bus_consume_one_def bus_ack_def bus_nack_def Let_def
      split: option.splits if_splits)

lemma bus_reachable_inv:
  "bus_reachable r s \<Longrightarrow> bus_inv s \<and> bus_max_retries (sys_bus s) = max 1 r"
  by (induction rule: bus_reachable.induct)
    (auto simp: bus_inv_init bus_step_inv bus_step_retries, simp add: sys_init_def bus_init_def)

section \<open>The queue a worker relies on\<close>

text \<open>
  What a consumer may assume of a bus: taking a message removes exactly it from the waiting ones, an
  acknowledgement records it, and a refusal either returns it to the waiting ones or moves it to the
  dead letters, as the Boolean result says.
\<close>

locale delivery_queue =
  fixes inv :: "'q \<Rightarrow> bool"
    and waiting :: "'q \<Rightarrow> bus_message multiset"
    and dead :: "'q \<Rightarrow> bus_message multiset"
    and acked :: "'q \<Rightarrow> string list"
    and known :: "'q \<Rightarrow> bus_message set"
    and consume :: "string option \<Rightarrow> 'q \<Rightarrow> 'q \<times> bus_message option"
    and ack :: "string \<Rightarrow> string \<Rightarrow> 'q \<Rightarrow> 'q"
    and nack :: "string \<Rightarrow> string \<Rightarrow> 'q \<Rightarrow> 'q \<times> bool"
  assumes consume_idle:
      "inv q \<Longrightarrow> consume st q = (q', None) \<Longrightarrow> q' = q \<and> (\<forall>m \<in># waiting q. \<not> wants st m)"
    and consume_takes:
      "inv q \<Longrightarrow> consume st q = (q', Some m) \<Longrightarrow> inv q' \<and> wants st m \<and> m \<in> known q' \<and>
         waiting q = add_mset m (waiting q') \<and> dead q' = dead q \<and> acked q' = acked q"
    and ack_records:
      "inv q \<Longrightarrow> inv (ack s i q) \<and> waiting (ack s i q) = waiting q \<and> dead (ack s i q) = dead q \<and>
         acked (ack s i q) = acked q @ [ack_key s i]"
    and nack_returns:
      "inv q \<Longrightarrow> m \<in> known q \<Longrightarrow> nack (msg_stream m) (msg_id m) q = (q', dl) \<Longrightarrow>
         inv q' \<and> acked q' = acked q \<and>
         (if dl then waiting q' = waiting q \<and> dead q' = add_mset m (dead q)
          else waiting q' = add_mset m (waiting q) \<and> dead q' = dead q)"

definition bus_ok :: "event_bus \<Rightarrow> bool" where
  "bus_ok b \<longleftrightarrow> ids_ok b \<and> set (bus_pending b) \<subseteq> set (bus_messages b)"

lemma bus_consume_one_Some:
  assumes "bus_consume_one st b = (b', Some m)"
  obtains us vs where "bus_pending b = us @ m # vs" and "bus_pending b' = us @ vs"
    and "wants st m" and "\<forall>u \<in> set us. \<not> wants st u"
    and "bus_messages b' = bus_messages b" and "bus_dead b' = bus_dead b" and "bus_acked b' = bus_acked b"
  using assms that
  by (auto simp: bus_consume_one_def split: option.splits prod.splits dest!: take_first_SomeD)

lemma bus_consume_one_None:
  "bus_consume_one st b = (b', None) \<longleftrightarrow> b' = b \<and> (\<forall>m \<in> set (bus_pending b). \<not> wants st m)"
  by (auto simp: bus_consume_one_def take_first_None_iff split: option.splits prod.splits)
    (metis option.distinct(1) take_first_None_iff)

interpretation mem_bus: delivery_queue bus_ok "\<lambda>b. mset (bus_pending b)" "\<lambda>b. mset (bus_dead b)"
  bus_acked "\<lambda>b. set (bus_messages b)" bus_consume_one bus_ack bus_nack
proof (unfold_locales, goal_cases)
  case (1 q st q')
  then show ?case by (simp add: bus_consume_one_None)
next
  case (2 q st q' m)
  from 2(2) show ?case
    by (rule bus_consume_one_Some) (use 2(1) in \<open>auto simp: bus_ok_def ids_ok_def\<close>)
next
  case (3 q s i)
  then show ?case by (simp add: bus_ack_def bus_ok_def ids_ok_def)
next
  case (4 q m q' dl)
  then have "find_first (\<lambda>x. msg_id x = msg_id m) (bus_messages q) = Some m"
    by (intro ids_ok_find) (simp_all add: bus_ok_def)
  with 4 show ?case
    by (auto simp: bus_nack_def bus_ok_def ids_ok_def split: if_splits)
qed

section \<open>Properties\<close>

text \<open>A run of the bus with a budget of two deliveries, in which the only message fails twice.\<close>

definition demo_published :: bus_sys where
  "demo_published = (sys_init 2)\<lparr>sys_bus := fst (bus_publish example_event (bus_init 2))\<rparr>"

definition demo_deliver :: "bus_sys \<Rightarrow> bus_sys" where
  "demo_deliver s = (case bus_consume_one None (sys_bus s) of
       (b', Some m) \<Rightarrow> s\<lparr>sys_bus := b', sys_flight := m # sys_flight s,
          sys_deliveries := (sys_deliveries s)(msg_id m := Suc (sys_deliveries s (msg_id m)))\<rparr>
     | (b', None) \<Rightarrow> s)"

definition demo_fail :: "bus_sys \<Rightarrow> bus_sys" where
  "demo_fail s = (case sys_flight s of
       [] \<Rightarrow> s
     | m # _ \<Rightarrow> s\<lparr>sys_bus := fst (bus_nack (msg_stream m) (msg_id m) (sys_bus s)),
                   sys_flight := remove1 m (sys_flight s)\<rparr>)"

definition demo_end :: bus_sys where
  "demo_end = demo_fail (demo_deliver (demo_fail (demo_deliver demo_published)))"

lemma demo_deliver_reachable: "bus_reachable r s \<Longrightarrow> bus_reachable r (demo_deliver s)"
  by (auto simp: demo_deliver_def split: prod.split option.split
      intro: bus_reachable.step bus_step.deliver)

lemma demo_fail_reachable: "bus_reachable r s \<Longrightarrow> bus_reachable r (demo_fail s)"
proof (cases "sys_flight s")
  case (Cons m ms)
  assume "bus_reachable r s"
  moreover have "bus_step s (demo_fail s)"
    using bus_step.nack [of m s "fst (bus_nack (msg_stream m) (msg_id m) (sys_bus s))"
        "snd (bus_nack (msg_stream m) (msg_id m) (sys_bus s))"] Cons
    by (simp add: demo_fail_def)
  ultimately show ?thesis by (rule bus_reachable.step)
qed (simp add: demo_fail_def)

lemma demo_end_reachable: "bus_reachable 2 demo_end"
proof -
  have "bus_step (sys_init 2) demo_published"
    using bus_step.publish [of example_event "sys_init 2"]
    by (simp add: demo_published_def sys_init_def bus_publish_def Let_def)
  then have "bus_reachable 2 demo_published" by (rule bus_reachable.step [OF bus_reachable.start])
  then show ?thesis unfolding demo_end_def by (intro demo_fail_reachable demo_deliver_reachable)
qed

lemma demo_end_dead: "map msg_id (bus_dead (sys_bus demo_end)) = [mem_id 1] \<and> bus_pending (sys_bus demo_end) = []"
  by (simp add: demo_end_def demo_fail_def demo_deliver_def demo_published_def sys_init_def bus_init_def
      bus_publish_def bus_consume_one_def bus_nack_def wants_def delivery_count_def Let_def)

text \<open>
  C4. No message is lost and none is duplicated: in every state the bus and its consumers can reach,
  the published messages are exactly those waiting, in flight, acknowledged and dead-lettered, each
  in one place.
\<close>

theorem messages_are_conserved:
  assumes "bus_reachable r s"
  shows "mset (bus_messages (sys_bus s)) = mset (bus_pending (sys_bus s)) + mset (sys_flight s) +
      mset (sys_done s) + mset (bus_dead (sys_bus s)) \<and>
    distinct (map msg_id (bus_messages (sys_bus s)))"
  using bus_reachable_inv [OF assms] ids_ok_distinct by (simp add: bus_inv_def)

theorem messages_are_conserved_witness:
  "mset (bus_messages (sys_bus demo_end)) = mset (bus_pending (sys_bus demo_end)) +
     mset (sys_flight demo_end) + mset (sys_done demo_end) + mset (bus_dead (sys_bus demo_end)) \<and>
   distinct (map msg_id (bus_messages (sys_bus demo_end)))"
  by (rule messages_are_conserved [OF demo_end_reachable])

text \<open>
  C5. The retry budget is exact: no message is ever delivered more often than the budget, and a
  message is dead-lettered only after it was delivered exactly that many times.
\<close>

theorem retry_budget_is_exact:
  assumes "bus_reachable r s"
  shows "int (sys_deliveries s i) \<le> max 1 r \<and>
    (\<forall>m \<in> set (bus_dead (sys_bus s)). int (sys_deliveries s (msg_id m)) = max 1 r)"
proof -
  let ?b = "sys_bus s"
  have inv: "bus_inv s" and r: "bus_max_retries ?b = max 1 r" using bus_reachable_inv [OF assms] by auto
  have "int (sys_deliveries s i) \<le> bus_max_retries ?b"
  proof (cases "i \<in> msg_id ` set (bus_messages ?b)")
    case True
    then obtain m where m: "i = msg_id m" "m \<in># mset (bus_messages ?b)" by auto
    with inv have "m \<in> set (bus_pending ?b) \<union> set (sys_flight s) \<union> set (sys_done s) \<union> set (bus_dead ?b)"
      by (simp add: bus_inv_def)
    then show ?thesis using inv m(1) by (auto simp: bus_inv_def attempts_ok_def)
  next
    case False
    then show ?thesis using inv by (simp add: bus_inv_def)
  qed
  then show ?thesis using inv r by (simp add: bus_inv_def)
qed

theorem retry_budget_is_exact_witness:
  "int (sys_deliveries demo_end (mem_id 1)) = 2"
  using retry_budget_is_exact [OF demo_end_reachable, of "mem_id 1"] demo_end_dead
  by (auto simp: map_eq_Cons_conv)

text \<open>
  A live consumer is never robbed: whatever the environment says, the idle time after which a
  message may be reclaimed covers the whole request budget and the persistence margin.
\<close>

theorem reclaim_waits_for_the_budget:
  "stale_consumer_idle_ms env \<ge> (request_budget_seconds env + 120) * 1000 \<and> request_budget_seconds env \<ge> 1"
  by (auto simp: stale_consumer_idle_ms_def request_budget_seconds_def reclaim_margin_seconds_def Let_def
      max_def split: option.split)

text \<open>
  Delivery is first in, first out per stream: a consumer of a stream gets the oldest waiting
  message of that stream, the others keep their order, and it gets nothing only when none waits.
\<close>

theorem delivery_is_fifo:
  "case bus_consume_one st b of
     (b', None) \<Rightarrow> b' = b \<and> (\<forall>m \<in> set (bus_pending b). \<not> wants st m)
   | (b', Some m) \<Rightarrow> \<exists>us vs. bus_pending b = us @ m # vs \<and> bus_pending b' = us @ vs \<and>
       wants st m \<and> (\<forall>u \<in> set us. \<not> wants st u)"
proof (cases "bus_consume_one st b")
  case (Pair b' o')
  show ?thesis
  proof (cases o')
    case None
    then have "bus_consume_one st b = (b', None)" using Pair by simp
    then show ?thesis using bus_consume_one_None [of st b b'] by simp
  next
    case (Some m)
    then have "bus_consume_one st b = (b', Some m)" using Pair by simp
    then obtain us vs where "bus_pending b = us @ m # vs" "bus_pending b' = us @ vs" "wants st m"
      "\<forall>u \<in> set us. \<not> wants st u" by (rule bus_consume_one_Some)
    then show ?thesis using Pair Some by auto
  qed
qed

theorem delivery_is_fifo_witness:
  "let m1 = \<lparr>msg_id = ''1'', msg_stream = ''a'', msg_event = []\<rparr>;
       m2 = \<lparr>msg_id = ''2'', msg_stream = ''b'', msg_event = []\<rparr>;
       m3 = \<lparr>msg_id = ''3'', msg_stream = ''b'', msg_event = []\<rparr>
   in bus_pending (fst (bus_consume_one (Some ''b'') ((bus_init 3)\<lparr>bus_pending := [m1, m2, m3]\<rparr>))) = [m1, m3]"
  using delivery_is_fifo [where st = "Some ''b''" and b = "(bus_init 3)\<lparr>bus_pending :=
      [\<lparr>msg_id = ''1'', msg_stream = ''a'', msg_event = []\<rparr>,
       \<lparr>msg_id = ''2'', msg_stream = ''b'', msg_event = []\<rparr>,
       \<lparr>msg_id = ''3'', msg_stream = ''b'', msg_event = []\<rparr>]\<rparr>"]
  by (simp add: bus_consume_one_def wants_def bus_init_def Let_def)

end
