(* ===== verification/Storage.thy ===== *)
theory Storage
  imports PyNum
begin

text \<open>
  The shared Postgres layer (\<open>src/shelfwise_storage/postgres.py\<close>, \<open>rls.py\<close>): which tenant a database
  session is bound to, which roles it refuses to work with, and the generated row-level security
  statements. The driver and the server are not part of the repository: the stores' theories model
  the effect of the statements the code sends on a table that is a list of rows, seen through the
  policy \<open>tenant_id = current_setting('app.tenant_id')\<close>.
\<close>

section \<open>The tenant of a session\<close>

definition clean_tenant_id :: "string option \<Rightarrow> string result" where
  "clean_tenant_id v =
     (let t = strip (case v of Some s \<Rightarrow> s | None \<Rightarrow> []) in
      if t = [] then Inl (ValueError ''tenant_id is required'') else Inr t)"

definition default_tenant_id :: "environ \<Rightarrow> string result" where
  "default_tenant_id env =
     (let a = getenv env ''SHELFWISE_TENANT_ID'' []; b = getenv env ''TENANT_ID'' [] in
      clean_tenant_id (Some (if a \<noteq> [] then a else if b \<noteq> [] then b else ''local'')))"

text \<open>The context variable \<open>_TENANT_ID\<close> is the ambient tenant, \<open>None\<close> when unbound.\<close>

definition bind_tenant_context :: "string \<Rightarrow> string option result" where
  "bind_tenant_context t = bind_res (clean_tenant_id (Some t)) (\<lambda>c. Inr (Some c))"

definition current_tenant_id :: "environ \<Rightarrow> string option \<Rightarrow> string result" where
  "current_tenant_id env ctx = (case ctx of
       Some t \<Rightarrow> (if t \<noteq> [] then Inr t else default_tenant_id env)
     | None \<Rightarrow> default_tenant_id env)"

definition session_tenant :: "environ \<Rightarrow> string option \<Rightarrow> string option \<Rightarrow> string result" where
  "session_tenant env ctx t = (case t of
       Some s \<Rightarrow> (if s \<noteq> [] then clean_tenant_id (Some s) else current_tenant_id env ctx)
     | None \<Rightarrow> current_tenant_id env ctx)"

definition env_flag :: "environ \<Rightarrow> string \<Rightarrow> string \<Rightarrow> bool" where
  "env_flag env k dflt =
     (lower (strip (getenv env k dflt)) \<in> {''1'', ''true'', ''yes'', ''on''})"

definition auto_schema_enabled :: "environ \<Rightarrow> bool" where
  "auto_schema_enabled env = env_flag env ''SHELFWISE_AUTO_SCHEMA'' ''true''"

definition allow_superuser_db :: "environ \<Rightarrow> bool" where
  "allow_superuser_db env = env_flag env ''SHELFWISE_ALLOW_SUPERUSER_DB'' []"

definition pool_bound :: "environ \<Rightarrow> string \<Rightarrow> int \<Rightarrow> int" where
  "pool_bound env name dflt = (case parse_int (getenv env name (str_int dflt)) of
       Some n \<Rightarrow> max 1 n | None \<Rightarrow> dflt)"

record pg_role =
  rolname :: string
  rolsuper :: bool
  rolbypassrls :: bool

definition check_role_is_not_superuser :: "pg_role option \<Rightarrow> unit result" where
  "check_role_is_not_superuser row = (case row of
       None \<Rightarrow> Inr ()
     | Some r \<Rightarrow>
         if rolsuper r \<or> rolbypassrls r
         then Inl (RuntimeError (''Postgres role '' @ [CHR 0x27] @ rolname r @ [CHR 0x27] @
                '' is a superuser or has BYPASSRLS - tenant row-level-security policies would be '' @
                ''silently bypassed. Connect as a least-privilege application role (NOSUPERUSER '' @
                ''NOBYPASSRLS) instead; see the shelfwise_app role created in schema.sql. Set '' @
                ''SHELFWISE_ALLOW_SUPERUSER_DB=true to override for local debugging only.''))
         else Inr ())"

text \<open>The once-per-process check of an unpooled connection: the flag, and the role that was looked up.\<close>

definition verify_role_once :: "environ \<Rightarrow> pg_role option \<Rightarrow> bool \<Rightarrow> bool result" where
  "verify_role_once env row verified =
     (if verified then Inr True
      else if allow_superuser_db env then Inr True
      else bind_res (check_role_is_not_superuser row) (\<lambda>_. Inr True))"

section \<open>Row-level security statements\<close>

definition is_alnum :: "char \<Rightarrow> bool" where
  "is_alnum c =
     (let n = ord_char c in
      (48 \<le> n \<and> n \<le> 57) \<or> (65 \<le> n \<and> n \<le> 90) \<or> (97 \<le> n \<and> n \<le> 122) \<or>
      n \<in> {170, 178, 179, 181, 185, 186, 188, 189, 190} \<or> (192 \<le> n \<and> n \<noteq> 215 \<and> n \<noteq> 247))"

definition simple_identifier :: "string \<Rightarrow> bool" where
  "simple_identifier t =
     (let u = filter (\<lambda>c. c \<noteq> CHR ''_'') t in u \<noteq> [] \<and> list_all is_alnum u)"

definition tenant_scoped_tables :: "(string, string) dict" where
  "tenant_scoped_tables = map (\<lambda>t. (t, ''tenant_id''))
     [''shelfwise_decisions'', ''shelfwise_events'',
      ''shelfwise_inbound_records'', ''shelfwise_learning_thresholds'',
      ''shelfwise_learning_events'', ''cascade_runs'',
      ''cascade_steps'', ''shelfwise_model_runs'',
      ''shelfwise_evaluations'', ''shelfwise_prompt_versions'',
      ''shelfwise_writeback_tasks'', ''shelfwise_worldgen_runs'',
      ''shelfwise_product_state'', ''shelfwise_learned_patterns'',
      ''shelfwise_business_profile'', ''shelfwise_products'',
      ''shelfwise_product_variants'', ''shelfwise_product_identifiers'',
      ''shelfwise_chat_conversations'', ''shelfwise_chat_memory_items'',
      ''shelfwise_skill_manifests'', ''shelfwise_inventory_positions'',
      ''shelfwise_inventory_projection_receipts'', ''shelfwise_world_snapshot'',
      ''shelfwise_candidates'', ''shelfwise_candidate_history'',
      ''shelfwise_connector_cursors'', ''shelfwise_connector_credentials'',
      ''shelfwise_open_orders'', ''shelfwise_twin_entities'',
      ''shelfwise_twin_relationships'', ''shelfwise_twin_observations'',
      ''shelfwise_twin_property_state'', ''shelfwise_twin_calibrations'',
      ''shelfwise_twin_scenario_branches'', ''shelfwise_twin_onboarding_manifests'',
      ''shelfwise_work_accounts'', ''shelfwise_account_audit'',
      ''shelfwise_policy_confirmations'']"

definition tenant_rls_sql :: "string \<Rightarrow> string \<Rightarrow> string list result" where
  "tenant_rls_sql table column =
     (if \<not> simple_identifier table then Inl (ValueError ''table name must be a simple identifier'')
      else if \<not> simple_identifier column
      then Inl (ValueError ''tenant column must be a simple identifier'')
      else
        (let policy = table @ ''_tenant_isolation'';
             setting = ''current_setting('' @ [CHR 0x27] @ ''app.tenant_id'' @ [CHR 0x27] @ '', true)''
         in Inr [''alter table '' @ table @ '' enable row level security'',
                 ''alter table '' @ table @ '' force row level security'',
                 ''drop policy if exists '' @ policy @ '' on '' @ table,
                 ''create policy '' @ policy @ '' on '' @ table @ '' using ('' @ column @ '' = '' @ setting @
                   '') with check ('' @ column @ '' = '' @ setting @ '')'']))"

definition all_tenant_rls_sql :: "string list result" where
  "all_tenant_rls_sql =
     bind_res (map_res (\<lambda>(t, c). tenant_rls_sql t c) tenant_scoped_tables) (\<lambda>ss. Inr (concat ss))"

text \<open>The statements the connection is asked to execute, in order, up to an error.\<close>

fun apply_tenant_rls :: "string list \<Rightarrow> string list \<Rightarrow> (string list \<times> unit result)" where
  "apply_tenant_rls done_sql [] = (done_sql, Inr ())"
| "apply_tenant_rls done_sql (t # ts) = (case dict_get tenant_scoped_tables t of
       None \<Rightarrow> (done_sql, Inl (ValueError (''unknown tenant scoped table: '' @ t)))
     | Some c \<Rightarrow> (case tenant_rls_sql t c of
         Inl e \<Rightarrow> (done_sql, Inl e)
       | Inr ss \<Rightarrow> apply_tenant_rls (done_sql @ ss) ts))"

definition set_tenant_sql :: "string \<Rightarrow> (string \<times> string) result" where
  "set_tenant_sql t =
     (if strip t = [] then Inl (ValueError ''tenant_id is required'')
      else Inr (''select set_config('' @ [CHR 0x27] @ ''app.tenant_id'' @ [CHR 0x27] @ '', %s, true)'', strip t))"

section \<open>Lemmas\<close>

lemma clean_tenant_id_Inr: "clean_tenant_id v = Inr t \<Longrightarrow> t \<noteq> [] \<and> strip t = t"
  by (auto simp: clean_tenant_id_def Let_def split: if_splits option.splits)

lemma session_tenant_Inr:
  "session_tenant env ctx t = Inr s \<Longrightarrow> (\<And>c. ctx = Some c \<Longrightarrow> strip c = c) \<Longrightarrow> s \<noteq> [] \<and> strip s = s"
  by (auto simp: session_tenant_def current_tenant_id_def default_tenant_id_def Let_def
      split: option.splits if_splits dest!: clean_tenant_id_Inr)

lemma simple_identifier_chars: "simple_identifier t \<Longrightarrow> c \<in> set t \<Longrightarrow> is_alnum c \<or> c = CHR ''_''"
  by (auto simp: simple_identifier_def list_all_iff)

lemma tenant_scoped_tables_simple:
  "list_all (\<lambda>(t, c). simple_identifier t \<and> simple_identifier c) tenant_scoped_tables"
  by code_simp

lemma rls_statements_known:
  "dict_get tenant_scoped_tables t = Some c \<Longrightarrow> \<exists>ss. tenant_rls_sql t c = Inr ss \<and> length ss = 4"
  using tenant_scoped_tables_simple
  by (auto simp: tenant_rls_sql_def Let_def list_all_iff dest!: map_of_SomeD)

lemma apply_tenant_rls_ok:
  "\<forall>t \<in> set ts. dict_has t tenant_scoped_tables \<Longrightarrow>
   \<exists>out. apply_tenant_rls done_sql ts = (done_sql @ out, Inr ()) \<and> length out = 4 * length ts"
proof (induction ts arbitrary: done_sql)
  case (Cons t ts)
  then obtain c where c: "dict_get tenant_scoped_tables t = Some c" by (auto simp: dict_has_def)
  from rls_statements_known [OF this] obtain ss where ss: "tenant_rls_sql t c = Inr ss" "length ss = 4"
    by blast
  from Cons.IH [of "done_sql @ ss"] Cons.prems obtain out where
    "apply_tenant_rls (done_sql @ ss) ts = ((done_sql @ ss) @ out, Inr ())" "length out = 4 * length ts" by auto
  then show ?case using c ss by auto
qed simp

end
