(* ===== verification/EventStore.thy ===== *)
theory EventStore
  imports Contracts Storage
begin

text \<open>
  The event store (\<open>src/shelfwise_backend/event_store.py\<close>): the durable record of ingested events
  with its \<open>published\<close> flag, in memory and in Postgres. Both record an event once per
  (tenant, domain, id). The locale \<open>event_log\<close> is the contract the ingest pipeline relies on; both
  backends are instances of it.
\<close>

type_synonym event_key = "string \<times> string \<times> string"

definition event_key :: "event \<Rightarrow> event_key" where
  "event_key e = (ev_tenant_id e, domain_value (ev_data_domain e), ev_id e)"

definition es_domain :: "pyval \<Rightarrow> string result" where
  "es_domain v = normalize_domain v OPERATIONAL_TWIN"

section \<open>The in-memory store\<close>

record event_store =
  es_events :: "(event_key, pydict) dict"
  es_published :: "event_key list"

definition es_empty :: event_store where
  "es_empty = \<lparr>es_events = [], es_published = []\<rparr>"

definition stored_payload :: "string \<Rightarrow> event \<Rightarrow> pydict" where
  "stored_payload now e = dict_setdefault ''received_at'' (PyStr now) (event_to_dict e)"

definition es_record :: "string \<Rightarrow> event \<Rightarrow> event_store \<Rightarrow> event_store \<times> bool" where
  "es_record now e s =
     (if dict_has (event_key e) (es_events s) then (s, False)
      else (s\<lparr>es_events := dict_set (event_key e) (stored_payload now e) (es_events s)\<rparr>, True))"

definition es_is_published :: "string \<Rightarrow> pyval \<Rightarrow> string \<Rightarrow> event_store \<Rightarrow> bool result" where
  "es_is_published t dm i s = bind_res (es_domain dm) (\<lambda>d. Inr ((t, d, i) \<in> set (es_published s)))"

definition es_get :: "string \<Rightarrow> pyval \<Rightarrow> string \<Rightarrow> event_store \<Rightarrow> pydict option result" where
  "es_get t dm i s = bind_res (es_domain dm) (\<lambda>d. Inr (dict_get (es_events s) (t, d, i)))"

definition es_mark_published :: "string \<Rightarrow> pyval \<Rightarrow> string \<Rightarrow> event_store \<Rightarrow> event_store result" where
  "es_mark_published t dm i s =
     bind_res (es_domain dm) (\<lambda>d. Inr (s\<lparr>es_published := List.insert (t, d, i) (es_published s)\<rparr>))"

definition es_list :: "int \<Rightarrow> string option \<Rightarrow> pyval option \<Rightarrow> event_store \<Rightarrow> pydict list result" where
  "es_list limit tenant dm s =
     bind_res (validate_limit limit) (\<lambda>_.
     bind_res (case dm of None \<Rightarrow> Inr None | Some v \<Rightarrow> bind_res (es_domain v) (\<lambda>d. Inr (Some d)))
       (\<lambda>rd. Inr (rev (take_last (nat limit)
          (map snd (filter (\<lambda>((t, d, i), row).
             (tenant = None \<or> tenant = Some t) \<and> (rd = None \<or> rd = Some d)) (es_events s)))))))"

definition es_clear :: "event_store \<Rightarrow> event_store" where
  "es_clear s = s\<lparr>es_events := [], es_published := []\<rparr>"

section \<open>The Postgres store\<close>

record event_row =
  er_id :: string
  er_tenant :: string
  er_domain :: string
  er_type :: string
  er_ts :: string
  er_payload :: pydict
  er_received :: string
  er_published :: bool

type_synonym event_table = "event_row list"

definition er_key :: "event_row \<Rightarrow> event_key" where
  "er_key r = (er_tenant r, er_domain r, er_id r)"

text \<open>The session is bound to the stripped tenant; the row carries the tenant as the event has it.\<close>

definition er_visible :: "string \<Rightarrow> event_row \<Rightarrow> bool" where
  "er_visible t r = (er_tenant r = t)"

definition event_row_of :: "string \<Rightarrow> event \<Rightarrow> event_row" where
  "event_row_of now e = \<lparr>er_id = ev_id e, er_tenant = ev_tenant_id e,
     er_domain = domain_value (ev_data_domain e), er_type = event_type_value (ev_type e),
     er_ts = isoformat (ev_ts e), er_payload = dict_set ''received_at'' (PyStr now) (event_to_dict e),
     er_received = now, er_published = False\<rparr>"

definition pge_record :: "string \<Rightarrow> event \<Rightarrow> event_table \<Rightarrow> (event_table \<times> bool) result" where
  "pge_record now e tbl =
     bind_res (clean_tenant_id (Some (ev_tenant_id e))) (\<lambda>t.
       let r = event_row_of now e in
       if \<not> er_visible t r then Inl (DatabaseError ''new row violates row-level security policy'')
       else if er_key r \<in> er_key ` set tbl then Inr (tbl, False)
       else Inr (tbl @ [r], True))"

definition pge_select :: "string \<Rightarrow> string \<Rightarrow> string \<Rightarrow> string \<Rightarrow> event_table \<Rightarrow> event_row option" where
  "pge_select session t d i tbl =
     find_first (\<lambda>r. er_visible session r \<and> er_key r = (t, d, i)) tbl"

definition pge_is_published ::
  "environ \<Rightarrow> string option \<Rightarrow> string \<Rightarrow> pyval \<Rightarrow> string \<Rightarrow> event_table \<Rightarrow> bool result" where
  "pge_is_published env ctx t dm i tbl =
     bind_res (es_domain dm) (\<lambda>d. bind_res (session_tenant env ctx (Some t)) (\<lambda>session.
       Inr (case pge_select session t d i tbl of None \<Rightarrow> False | Some r \<Rightarrow> er_published r)))"

definition pge_get ::
  "environ \<Rightarrow> string option \<Rightarrow> string \<Rightarrow> pyval \<Rightarrow> string \<Rightarrow> event_table \<Rightarrow> pydict option result" where
  "pge_get env ctx t dm i tbl =
     bind_res (es_domain dm) (\<lambda>d. bind_res (session_tenant env ctx (Some t)) (\<lambda>session.
       Inr (map_option er_payload (pge_select session t d i tbl))))"

definition pge_mark_published ::
  "environ \<Rightarrow> string option \<Rightarrow> string \<Rightarrow> pyval \<Rightarrow> string \<Rightarrow> event_table \<Rightarrow> event_table result" where
  "pge_mark_published env ctx t dm i tbl =
     bind_res (es_domain dm) (\<lambda>d. bind_res (session_tenant env ctx (Some t)) (\<lambda>session.
       Inr (map (\<lambda>r. if er_visible session r \<and> er_key r = (t, d, i)
                     then r\<lparr>er_published := True\<rparr> else r) tbl)))"

definition pge_list ::
  "environ \<Rightarrow> string option \<Rightarrow> int \<Rightarrow> string option \<Rightarrow> pyval option \<Rightarrow> event_table \<Rightarrow> pydict list result" where
  "pge_list env ctx limit tenant dm tbl =
     bind_res (validate_limit limit) (\<lambda>_.
     bind_res (case dm of None \<Rightarrow> Inr [] | Some v \<Rightarrow> es_domain v) (\<lambda>rd.
     bind_res (session_tenant env ctx tenant) (\<lambda>session.
       let t = (case tenant of None \<Rightarrow> [] | Some t \<Rightarrow> t);
           keep = (\<lambda>r. er_visible session r \<and> (t \<noteq> [] \<longrightarrow> er_tenant r = t) \<and>
                       (rd \<noteq> [] \<longrightarrow> er_domain r = rd))
       in Inr (map er_payload (take (nat limit)
            (sorted_by_desc er_received (sorted_by er_id (filter keep tbl))))))))"

definition pge_clear :: "environ \<Rightarrow> string option \<Rightarrow> event_table \<Rightarrow> event_table result" where
  "pge_clear env ctx tbl =
     bind_res (session_tenant env ctx None) (\<lambda>session. Inr (filter (\<lambda>r. \<not> er_visible session r) tbl))"

section \<open>The contract of an event log\<close>

text \<open>A history of recordings, each with the time it arrives.\<close>

fun run_records ::
  "(string \<Rightarrow> event \<Rightarrow> 's \<Rightarrow> ('s \<times> bool) result) \<Rightarrow> (string \<times> event) list \<Rightarrow> 's \<Rightarrow> 's" where
  "run_records rec [] s = s"
| "run_records rec ((now, e) # xs) s =
     run_records rec xs (case rec now e s of Inr (s', new) \<Rightarrow> s' | Inl _ \<Rightarrow> s)"

definition first_for :: "event_key \<Rightarrow> (string \<times> event) list \<Rightarrow> pydict option" where
  "first_for k xs =
     map_option (\<lambda>(now, e). stored_payload now e) (find_first (\<lambda>(now, e). event_key e = k) xs)"

abbreviation ev_domain_arg :: "event \<Rightarrow> pyval" where
  "ev_domain_arg e \<equiv> PyStr (domain_value (ev_data_domain e))"

locale event_log =
  fixes inv :: "'s \<Rightarrow> bool"
    and ok :: "event \<Rightarrow> bool"
    and lookup :: "'s \<Rightarrow> event_key \<Rightarrow> pydict option"
    and published :: "'s \<Rightarrow> event_key \<Rightarrow> bool"
    and record_op :: "string \<Rightarrow> event \<Rightarrow> 's \<Rightarrow> ('s \<times> bool) result"
    and get_op :: "string \<Rightarrow> pyval \<Rightarrow> string \<Rightarrow> 's \<Rightarrow> pydict option result"
    and is_published_op :: "string \<Rightarrow> pyval \<Rightarrow> string \<Rightarrow> 's \<Rightarrow> bool result"
    and mark_op :: "string \<Rightarrow> pyval \<Rightarrow> string \<Rightarrow> 's \<Rightarrow> 's result"
  assumes record_spec: "inv s \<Longrightarrow> ok e \<Longrightarrow>
      \<exists>s'. record_op now e s = Inr (s', lookup s (event_key e) = None) \<and> inv s' \<and>
        lookup s' = (if lookup s (event_key e) = None
          then (lookup s)(event_key e \<mapsto> stored_payload now e) else lookup s) \<and>
        published s' = published s"
    and get_spec: "inv s \<Longrightarrow> ok e \<Longrightarrow>
      get_op (ev_tenant_id e) (ev_domain_arg e) (ev_id e) s = Inr (lookup s (event_key e))"
    and is_published_spec: "inv s \<Longrightarrow> ok e \<Longrightarrow>
      is_published_op (ev_tenant_id e) (ev_domain_arg e) (ev_id e) s = Inr (published s (event_key e))"
    and mark_spec: "inv s \<Longrightarrow> ok e \<Longrightarrow> lookup s (event_key e) \<noteq> None \<Longrightarrow>
      \<exists>s'. mark_op (ev_tenant_id e) (ev_domain_arg e) (ev_id e) s = Inr s' \<and> inv s' \<and>
        lookup s' = lookup s \<and> published s' = (published s)(event_key e := True)"
    and published_recorded: "inv s \<Longrightarrow> published s k \<Longrightarrow> lookup s k \<noteq> None"
begin

lemma record_again:
  assumes "inv s" and "ok e" and "lookup s (event_key e) \<noteq> None"
  shows "\<exists>s'. record_op now e s = Inr (s', False) \<and> inv s' \<and> lookup s' = lookup s \<and> published s' = published s"
  using record_spec [OF assms(1,2), of now] assms(3) by auto

lemma first_record_wins:
  assumes "inv s" and "list_all (\<lambda>(now, e). ok e) xs"
  shows "inv (run_records record_op xs s) \<and> published (run_records record_op xs s) = published s \<and>
    lookup (run_records record_op xs s) k =
      (case lookup s k of Some p \<Rightarrow> Some p | None \<Rightarrow> first_for k xs)"
  using assms
proof (induction xs arbitrary: s)
  case Nil
  then show ?case by (simp add: first_for_def split: option.split)
next
  case (Cons x xs)
  obtain now e where x: "x = (now, e)" by force
  then have ok: "ok e" and oks: "list_all (\<lambda>(now, e). ok e) xs" using Cons.prems(2) by auto
  from record_spec [OF Cons.prems(1) ok, of now] obtain s' where s':
    "record_op now e s = Inr (s', lookup s (event_key e) = None)" "inv s'" "published s' = published s"
    "lookup s' = (if lookup s (event_key e) = None
       then (lookup s)(event_key e \<mapsto> stored_payload now e) else lookup s)" by blast
  show ?case
    using Cons.IH [OF s'(2) oks] s' x by (auto simp: first_for_def split: option.split)
qed

end

section \<open>Both backends are event logs\<close>

lemma es_domain_value [simp]: "es_domain (PyStr (domain_value d)) = Inr (domain_value d)"
  by (simp add: es_domain_def)

definition es_ok :: "event_store \<Rightarrow> bool" where
  "es_ok s \<longleftrightarrow> dict_wf (es_events s) \<and> (\<forall>k \<in> set (es_published s). dict_get (es_events s) k \<noteq> None)"

interpretation mem_log: event_log es_ok "\<lambda>e. True" "\<lambda>s. dict_get (es_events s)" "\<lambda>s k. k \<in> set (es_published s)"
  "\<lambda>now e s. Inr (es_record now e s)" es_get es_is_published es_mark_published
proof (unfold_locales, goal_cases)
  case (1 s e now)
  then show ?case by (auto simp: es_record_def es_ok_def dict_has_def fun_eq_iff)
next
  case (4 s e)
  then show ?case by (auto simp: es_mark_published_def es_ok_def event_key_def fun_eq_iff)
qed (auto simp: es_get_def es_is_published_def event_key_def es_ok_def)

definition pge_ok :: "event_table \<Rightarrow> bool" where
  "pge_ok tbl \<longleftrightarrow> distinct (map er_key tbl)"

definition clean_event :: "event \<Rightarrow> bool" where
  "clean_event e \<longleftrightarrow> ev_tenant_id e \<noteq> [] \<and> strip (ev_tenant_id e) = ev_tenant_id e"

definition pge_lookup :: "event_table \<Rightarrow> event_key \<Rightarrow> event_row option" where
  "pge_lookup tbl k = find_first (\<lambda>r. er_key r = k) tbl"

lemma clean_event_session [simp]:
  "clean_event e \<Longrightarrow> session_tenant env ctx (Some (ev_tenant_id e)) = Inr (ev_tenant_id e)"
  "clean_event e \<Longrightarrow> clean_tenant_id (Some (ev_tenant_id e)) = Inr (ev_tenant_id e)"
  by (simp_all add: clean_event_def session_tenant_def clean_tenant_id_def)

lemma pge_select_lookup [simp]:
  "pge_select (ev_tenant_id e) (ev_tenant_id e) (domain_value (ev_data_domain e)) (ev_id e) tbl =
   pge_lookup tbl (event_key e)"
  unfolding pge_select_def pge_lookup_def event_key_def
  by (rule arg_cong [where f = "\<lambda>p. find_first p tbl"]) (auto simp: er_key_def er_visible_def fun_eq_iff)

lemma event_row_key [simp]: "er_key (event_row_of now e) = event_key e"
  by (simp add: er_key_def event_row_of_def event_key_def)

lemma event_row_payload [simp]: "er_payload (event_row_of now e) = stored_payload now e"
proof -
  have "dict_get (event_to_dict e) ''received_at'' = None" by (simp add: event_to_dict_def)
  then show ?thesis by (simp add: event_row_of_def stored_payload_def dict_setdefault_def dict_set_fresh)
qed

lemma pge_lookup_append: "pge_lookup (tbl @ [r]) k =
    (case pge_lookup tbl k of Some x \<Rightarrow> Some x | None \<Rightarrow> if er_key r = k then Some r else None)"
  by (induction tbl) (auto simp: pge_lookup_def)

lemma pge_lookup_map:
  "(\<And>r. er_key (f r) = er_key r) \<Longrightarrow> pge_lookup (map f tbl) k = map_option f (pge_lookup tbl k)"
  by (induction tbl) (auto simp: pge_lookup_def)

lemma pge_lookup_key: "pge_lookup tbl k = Some r \<Longrightarrow> er_key r = k"
  by (auto simp: pge_lookup_def dest: find_first_SomeD)

lemma pge_lookup_None: "pge_lookup tbl k = None \<longleftrightarrow> k \<notin> er_key ` set tbl"
  by (auto simp: pge_lookup_def find_first_None_iff)

definition pge_published :: "event_table \<Rightarrow> event_key \<Rightarrow> bool" where
  "pge_published tbl k = (case pge_lookup tbl k of None \<Rightarrow> False | Some r \<Rightarrow> er_published r)"

interpretation pg_log: event_log pge_ok clean_event "\<lambda>tbl k. map_option er_payload (pge_lookup tbl k)"
  pge_published pge_record "pge_get env ctx" "pge_is_published env ctx" "pge_mark_published env ctx"
  for env ctx
proof (unfold_locales, goal_cases)
  case (1 tbl e now)
  have vis: "er_visible (ev_tenant_id e) (event_row_of now e)" by (simp add: er_visible_def event_row_of_def)
  have unp: "er_published (event_row_of now e) = False" by (simp add: event_row_of_def)
  show ?case
  proof (cases "pge_lookup tbl (event_key e)")
    case None
    then have "event_key e \<notin> er_key ` set tbl" using pge_lookup_None [of tbl "event_key e"] by simp
    then show ?thesis
      using 1 None vis unp
      by (auto simp: pge_record_def pge_ok_def pge_lookup_append pge_published_def
          fun_eq_iff split: option.split)
  next
    case (Some r)
    then have "event_key e \<in> er_key ` set tbl" using pge_lookup_None [of tbl "event_key e"] by simp
    then show ?thesis using 1 vis Some by (simp add: pge_record_def)
  qed
next
  case (4 tbl e)
  define f where "f r = (if er_visible (ev_tenant_id e) r \<and> er_key r = event_key e
    then r\<lparr>er_published := True\<rparr> else r)" for r
  have key: "er_key (f r) = er_key r" and pay: "er_payload (f r) = er_payload r" for r
    by (simp_all add: f_def er_key_def)
  have hit: "er_published (f r) = (er_key r = event_key e \<or> er_published r)" for r
    by (auto simp: f_def er_visible_def er_key_def event_key_def)
  have "pge_mark_published env ctx (ev_tenant_id e) (ev_domain_arg e) (ev_id e) tbl = Inr (map f tbl)"
    using 4(2) by (simp add: pge_mark_published_def f_def event_key_def)
  moreover have "pge_ok (map f tbl)" using 4(1) key by (simp add: pge_ok_def o_def)
  moreover have "pge_published (map f tbl) = (pge_published tbl)(event_key e := True)"
    using 4(3) key hit by (auto simp: pge_published_def pge_lookup_map fun_eq_iff split: option.splits
        dest: pge_lookup_key)
  ultimately show ?case using key pay by (simp add: pge_lookup_map option.map_comp o_def)
qed (auto simp: pge_get_def pge_is_published_def pge_published_def split: option.splits)

section \<open>Properties\<close>

text \<open>
  The first record of an event wins, in both backends: after any history of recordings the stored
  payload of a (tenant, domain, id) is the one of the first event that carried it, and a replay or a
  conflicting event with the same identity neither replaces it nor touches the published flags.
\<close>

theorem first_event_record_wins:
  assumes "list_all (\<lambda>(now, e). clean_event e) xs"
  shows "dict_get (es_events (run_records (\<lambda>now e s. Inr (es_record now e s)) xs es_empty)) k = first_for k xs \<and>
    map_option er_payload (pge_lookup (run_records pge_record xs []) k) = first_for k xs"
proof -
  have "es_ok es_empty" by (simp add: es_ok_def es_empty_def)
  then have "dict_get (es_events (run_records (\<lambda>now e s. Inr (es_record now e s)) xs es_empty)) k = first_for k xs"
    using mem_log.first_record_wins [of es_empty xs k] by (simp add: es_empty_def list_all_iff)
  moreover have "map_option er_payload (pge_lookup (run_records pge_record xs []) k) = first_for k xs"
    using pg_log.first_record_wins [of "[]" xs k] assms by (simp add: pge_ok_def pge_lookup_def)
  ultimately show ?thesis ..
qed

lemma example_event_clean: "clean_event example_event"
  by (simp add: clean_event_def example_event_def) code_simp

theorem first_event_record_wins_witness:
  "map_option er_payload (pge_lookup (run_records pge_record
      [(''t1'', example_event), (''t2'', example_event)] []) (event_key example_event)) =
    Some (stored_payload ''t1'' example_event)"
  using first_event_record_wins [of "[(''t1'', example_event), (''t2'', example_event)]" "event_key example_event"]
    example_event_clean by (simp add: first_for_def)

end
