(* ===== verification/Inventory.thy ===== *)
theory Inventory
  imports PyVal Contracts "HOL-Library.Multiset"
begin

text \<open>
  The inventory position ledger (\<open>src/shelfwise_inventory/store.py\<close>): positions keyed by tenant, sku,
  location and bin, and the idempotent projection of stock updates and sales onto them. The in-memory
  store is modelled operation by operation, the Postgres store by the projection it runs on the rows
  it locks.
\<close>

type_synonym position_key = "string \<times> string \<times> string \<times> string \<times> string"
type_synonym positions = "(position_key, pydict) dict"

section \<open>Positions\<close>

definition position_fields :: "string list" where
  "position_fields = [''tenant_id'', ''sku'', ''location_type'', ''location_id'', ''state'', ''source_reference'']"

fun clean_fields :: "string list \<Rightarrow> pydict \<Rightarrow> pydict result" where
  "clean_fields [] p = Inr p"
| "clean_fields (f # fs) p =
     (let s = strip (str_or p f []) in
      if s = [] then Inl (ValueError (''inventory position '' @ f @ '' is required''))
      else clean_fields fs (dict_set f (PyStr s) p))"

definition position :: "string \<Rightarrow> pydict \<Rightarrow> pydict result" where
  "position now v =
     bind_res (clean_fields position_fields v) (\<lambda>p.
     let p1 = dict_set ''bin_id'' (PyStr (strip (str_or p ''bin_id'' ''unassigned''))) p in
     bind_res (py_int (py_or (get p1 ''quantity'') (PyInt 0))) (\<lambda>q.
       if q < 0 then Inl (ValueError ''inventory position quantity must be non-negative'')
       else (let p2 = dict_set ''quantity'' (PyInt q) p1
             in Inr (dict_set ''updated_at'' (PyStr (str_or p2 ''updated_at'' now)) p2))))"

fun str_of :: "pyval \<Rightarrow> string" where
  "str_of (PyStr s) = s"
| "str_of v = []"

fun int_of :: "pyval \<Rightarrow> int" where
  "int_of (PyInt n) = n"
| "int_of v = 0"

abbreviation fld :: "pydict \<Rightarrow> string \<Rightarrow> string" where
  "fld p k \<equiv> str_of (get p k)"

abbreviation qty :: "pydict \<Rightarrow> int" where
  "qty p \<equiv> int_of (get p ''quantity'')"

definition position_key :: "pydict \<Rightarrow> position_key" where
  "position_key p = (fld p ''tenant_id'', fld p ''sku'', fld p ''location_type'', fld p ''location_id'', fld p ''bin_id'')"

section \<open>Reading an event\<close>

definition integral_quantity :: "pyval \<Rightarrow> int option" where
  "integral_quantity v = (case parse_decimal (py_str v) of
       Some (DecFin q) \<Rightarrow> (if q = of_int \<lfloor>q\<rfloor> then Some \<lfloor>q\<rfloor> else None)
     | _ \<Rightarrow> None)"

record projection =
  pj_tenant :: string
  pj_event_id :: string
  pj_event_type :: string
  pj_sku :: string
  pj_location :: string
  pj_location_type :: string
  pj_bin :: string
  pj_quantity :: "int option"
  pj_state :: string
  pj_issue :: "string option"

definition projection_issue :: "string \<Rightarrow> string \<Rightarrow> string \<Rightarrow> string \<Rightarrow> string \<Rightarrow> int option \<Rightarrow> string option" where
  "projection_issue tenant eid sku loc etype quantity = (case quantity of
       None \<Rightarrow> Some ''unsupported_quantity''
     | Some q \<Rightarrow>
         if etype = ''sale'' \<and> q \<le> 0 then Some ''non_positive_sale_quantity''
         else if etype = ''stock_update'' \<and> q < 0 then Some ''negative_stock_quantity''
         else if tenant = [] \<or> eid = [] \<or> sku = [] \<or> loc = [] then Some ''missing_projection_fields''
         else None)"

definition projection_input :: "pydict \<Rightarrow> projection option" where
  "projection_input ev =
     (let etype = lower (strip (str_or ev ''type'' []));
          dm = strip (str_or ev ''data_domain'' ''operational_twin'') in
      if dm \<noteq> ''operational_twin'' \<or> etype \<notin> {''stock_update'', ''sale''} then None
      else
        (let p = dict_or_empty (get ev ''payload'');
             tenant = strip (str_or ev ''tenant_id'' []);
             eid = strip (str_or ev ''id'' []);
             sku = strip (str_or p ''sku'' []);
             loc = strip (py_str (py_or (py_or (get p ''location_id'') (get p ''location'')) (PyStr [])));
             quantity = integral_quantity (get_or p ''on_hand'' (get p ''quantity''))
         in Some \<lparr>pj_tenant = tenant, pj_event_id = eid, pj_event_type = etype, pj_sku = sku,
              pj_location = loc, pj_location_type = strip (str_or p ''location_type'' ''store''),
              pj_bin = strip (str_or p ''bin_id'' ''unassigned''), pj_quantity = quantity,
              pj_state = strip (str_or p ''stock_state'' ''available''),
              pj_issue = projection_issue tenant eid sku loc etype quantity\<rparr>))"

section \<open>Applying a projection\<close>

definition opt_int :: "int option \<Rightarrow> pyval" where
  "opt_int q = (case q of Some n \<Rightarrow> PyInt n | None \<Rightarrow> PyNone)"

definition projection_receipt ::
  "string \<Rightarrow> projection \<Rightarrow> string \<Rightarrow> int option \<Rightarrow> int option \<Rightarrow> int \<Rightarrow> nat \<Rightarrow> pydict" where
  "projection_receipt now j status before after unfulfilled updated =
     [(''tenant_id'', PyStr (pj_tenant j)), (''event_id'', PyStr (pj_event_id j)),
      (''event_type'', PyStr (pj_event_type j)), (''sku'', PyStr (pj_sku j)),
      (''location_id'', PyStr (pj_location j)), (''status'', PyStr status),
      (''requested_quantity'', opt_int (pj_quantity j)), (''before_quantity'', opt_int before),
      (''after_quantity'', opt_int after), (''unfulfilled_quantity'', PyInt unfulfilled),
      (''positions_updated'', PyInt (int updated)), (''created_at'', PyStr now)]"

definition pos_matches :: "projection \<Rightarrow> pydict \<Rightarrow> bool" where
  "pos_matches j p \<longleftrightarrow> get p ''tenant_id'' = PyStr (pj_tenant j) \<and> get p ''sku'' = PyStr (pj_sku j) \<and>
     get p ''location_id'' = PyStr (pj_location j)"

fun bin_of :: "position_key \<Rightarrow> string" where
  "bin_of (t, s, lt, l, b) = b"

definition matching_keys :: "projection \<Rightarrow> positions \<Rightarrow> position_key list" where
  "matching_keys j ps = sorted_by bin_of (map fst (filter (\<lambda>(k, p). pos_matches j p) ps))"

definition qty_at :: "positions \<Rightarrow> position_key \<Rightarrow> int" where
  "qty_at ps k = (case dict_get ps k of Some p \<Rightarrow> qty p | None \<Rightarrow> 0)"

abbreviation pj_qty :: "projection \<Rightarrow> int" where
  "pj_qty j \<equiv> (case pj_quantity j of Some q \<Rightarrow> q | None \<Rightarrow> 0)"

definition apply_stock_projection ::
  "string \<Rightarrow> projection \<Rightarrow> int \<Rightarrow> positions \<Rightarrow> positions \<times> pydict result" where
  "apply_stock_projection now j before ps =
     (case position now
        [(''tenant_id'', PyStr (pj_tenant j)), (''sku'', PyStr (pj_sku j)),
         (''location_type'', PyStr (pj_location_type j)), (''location_id'', PyStr (pj_location j)),
         (''bin_id'', PyStr (pj_bin j)), (''quantity'', PyInt (pj_qty j)), (''state'', PyStr (pj_state j)),
         (''source_reference'', PyStr (pj_event_id j))] of
        Inl e \<Rightarrow> (ps, Inl e)
      | Inr p \<Rightarrow>
          (dict_set (position_key p) p ps,
           Inr (projection_receipt now j ''stock_position_replaced'' (Some before)
             (Some (before - qty_at ps (position_key p) + pj_qty j)) 0 1)))"

definition sold_position :: "string \<Rightarrow> projection \<Rightarrow> int \<Rightarrow> pydict \<Rightarrow> pydict result" where
  "sold_position now j after cur =
     position now (dict_update cur
       [(''quantity'', PyInt after),
        (''state'', if after = 0 then PyStr ''depleted'' else get cur ''state''),
        (''source_reference'', PyStr (pj_event_id j)), (''updated_at'', PyStr now)])"

fun sell :: "string \<Rightarrow> projection \<Rightarrow> position_key list \<Rightarrow> int \<Rightarrow> nat \<Rightarrow> positions \<Rightarrow> positions \<times> (int \<times> nat) result" where
  "sell now j [] remaining updated ps = (ps, Inr (remaining, updated))"
| "sell now j (k # ks) remaining updated ps =
     (if remaining \<le> 0 then (ps, Inr (remaining, updated))
      else case dict_get ps k of
        None \<Rightarrow> (ps, Inl (KeyError (bin_of k)))
      | Some cur \<Rightarrow>
          (let deduction = min (qty cur) remaining in
           if deduction \<le> 0 then sell now j ks remaining updated ps
           else case sold_position now j (qty cur - deduction) cur of
             Inl e \<Rightarrow> (ps, Inl e)
           | Inr p \<Rightarrow> sell now j ks (remaining - deduction) (updated + 1) (dict_set k p ps)))"

definition apply_sale_projection ::
  "string \<Rightarrow> projection \<Rightarrow> position_key list \<Rightarrow> int \<Rightarrow> positions \<Rightarrow> positions \<times> pydict result" where
  "apply_sale_projection now j matching before ps =
     (if matching = []
      then (ps, Inr (projection_receipt now j ''missing_inventory_baseline'' (Some 0) (Some 0) (pj_qty j) 0))
      else (case sell now j matching (pj_qty j) 0 ps of
        (ps', Inl e) \<Rightarrow> (ps', Inl e)
      | (ps', Inr (remaining, updated)) \<Rightarrow>
          (ps', Inr (projection_receipt now j
             (if remaining = 0 then ''sale_applied'' else ''sale_partially_applied'')
             (Some before) (Some (before - (pj_qty j - remaining))) remaining updated))))"

definition apply_projection :: "string \<Rightarrow> projection \<Rightarrow> positions \<Rightarrow> positions \<times> pydict result" where
  "apply_projection now j ps = (case pj_issue j of
       Some issue \<Rightarrow> (ps, Inr (projection_receipt now j issue None None 0 0))
     | None \<Rightarrow>
         (let matching = matching_keys j ps;
              before = sum_list (map (qty_at ps) matching)
          in if pj_event_type j = ''stock_update'' then apply_stock_projection now j before ps
             else apply_sale_projection now j matching before ps))"

section \<open>The in-memory store\<close>

record inventory_store =
  iv_positions :: positions
  iv_receipts :: "(string \<times> string, pydict) dict"

definition iv_empty :: inventory_store where
  "iv_empty = \<lparr>iv_positions = [], iv_receipts = []\<rparr>"

definition iv_upsert :: "string \<Rightarrow> pydict \<Rightarrow> inventory_store \<Rightarrow> inventory_store \<times> pydict result" where
  "iv_upsert now v s = (case position now v of
       Inl e \<Rightarrow> (s, Inl e)
     | Inr p \<Rightarrow> (s\<lparr>iv_positions := dict_set (position_key p) p (iv_positions s)\<rparr>, Inr p))"

definition iv_list :: "string \<Rightarrow> string option \<Rightarrow> inventory_store \<Rightarrow> pydict list" where
  "iv_list tenant sku s =
     sorted_by (\<lambda>p. (fld p ''sku'', fld p ''location_id'', fld p ''bin_id''))
       (filter (\<lambda>p. get p ''tenant_id'' = PyStr tenant \<and>
                    (case sku of None \<Rightarrow> True | Some k \<Rightarrow> get p ''sku'' = PyStr k)) (map snd (iv_positions s)))"

definition iv_project_event :: "string \<Rightarrow> pydict \<Rightarrow> inventory_store \<Rightarrow> inventory_store \<times> pydict result" where
  "iv_project_event now ev s = (case projection_input ev of
       None \<Rightarrow> (s, Inr [(''status'', PyStr ''ignored''), (''event_id'', PyStr (str_or ev ''id'' []))])
     | Some j \<Rightarrow>
         (case dict_get (iv_receipts s) (pj_tenant j, pj_event_id j) of
            Some existing \<Rightarrow> (s, Inr (dict_set ''status'' (PyStr ''duplicate'') existing))
          | None \<Rightarrow> (case apply_projection now j (iv_positions s) of
              (ps, Inl e) \<Rightarrow> (s\<lparr>iv_positions := ps\<rparr>, Inl e)
            | (ps, Inr r) \<Rightarrow>
                (s\<lparr>iv_positions := ps,
                   iv_receipts := dict_set (pj_tenant j, pj_event_id j) r (iv_receipts s)\<rparr>, Inr r))))"

definition iv_projection_receipt :: "string \<Rightarrow> string \<Rightarrow> inventory_store \<Rightarrow> pydict option" where
  "iv_projection_receipt tenant eid s = (case dict_get (iv_receipts s) (tenant, eid) of
       Some r \<Rightarrow> (if r = [] then None else Some r) | None \<Rightarrow> None)"

definition iv_clear :: "inventory_store \<Rightarrow> inventory_store" where
  "iv_clear s = s\<lparr>iv_positions := [], iv_receipts := []\<rparr>"

section \<open>The invariant of the ledger\<close>

text \<open>
  A stored position is a dictionary whose identifying fields are stripped, non-empty strings that
  agree with its key (the bin aside, see \<open>position\<close>), with a non-negative integer quantity.
\<close>

definition clean_str :: "pyval \<Rightarrow> bool" where
  "clean_str v \<longleftrightarrow> (\<exists>s. v = PyStr s \<and> s \<noteq> [] \<and> strip s = s)"

definition pos_ok :: "position_key \<Rightarrow> pydict \<Rightarrow> bool" where
  "pos_ok k p \<longleftrightarrow> dict_wf p \<and> (\<forall>f \<in> set position_fields. clean_str (get p f)) \<and>
     (\<exists>q. get p ''quantity'' = PyInt q \<and> 0 \<le> q) \<and>
     (\<exists>b. k = (fld p ''tenant_id'', fld p ''sku'', fld p ''location_type'', fld p ''location_id'', b))"

definition positions_ok :: "positions \<Rightarrow> bool" where
  "positions_ok ps \<longleftrightarrow> dict_wf ps \<and> (\<forall>(k, p) \<in> set ps. pos_ok k p)"

lemma clean_strI [intro]: "s \<noteq> [] \<Longrightarrow> strip s = s \<Longrightarrow> clean_str (PyStr s)"
  by (simp add: clean_str_def)

lemma str_or_PyStr [simp]: "get p f = PyStr s \<Longrightarrow> s \<noteq> [] \<Longrightarrow> str_or p f d = s"
  by (simp add: str_or_def py_or_def)

lemma clean_fields_Inr:
  assumes "clean_fields fs v = Inr p" and "distinct fs" and "dict_wf v"
  shows "dict_wf p \<and> (\<forall>f \<in> set fs. clean_str (get p f)) \<and> (\<forall>k. k \<notin> set fs \<longrightarrow> get p k = get v k)"
  using assms
proof (induction fs v rule: clean_fields.induct)
  case (2 f fs v)
  let ?s = "strip (str_or v f [])"
  have s: "?s \<noteq> []" and rest: "clean_fields fs (dict_set f (PyStr ?s) v) = Inr p"
    using "2.prems"(1) by (auto simp: Let_def split: if_splits)
  have "dict_wf p \<and> (\<forall>f \<in> set fs. clean_str (get p f)) \<and>
      (\<forall>k. k \<notin> set fs \<longrightarrow> get p k = get (dict_set f (PyStr ?s) v) k)"
    using "2.IH" [OF refl s rest] "2.prems" by simp
  moreover have "clean_str (PyStr ?s)" using s by (intro clean_strI) auto
  ultimately show ?case using "2.prems"(2) by auto
qed simp

lemma clean_fields_id:
  assumes "dict_wf v" and "\<forall>f \<in> set fs. clean_str (get v f)"
  shows "clean_fields fs v = Inr v"
  using assms(2)
proof (induction fs)
  case (Cons f fs)
  then obtain s where s: "get v f = PyStr s" "s \<noteq> []" "strip s = s" by (auto simp: clean_str_def)
  then have "map_of v f = Some (PyStr s)" by (simp add: get_def split: option.splits)
  then have "dict_set f (PyStr s) v = v" using assms(1) by (simp add: dict_set_same)
  then show ?case using Cons s by (simp add: Let_def)
qed simp

lemma position_fields_distinct: "distinct position_fields"
  by (simp add: position_fields_def)

lemma position_Inr:
  assumes "position now v = Inr p" and "dict_wf v"
  shows "pos_ok (position_key p) p"
proof -
  obtain p0 where p0: "clean_fields position_fields v = Inr p0"
    using assms(1) by (auto simp: position_def bind_res_Inr_iff)
  note cf = clean_fields_Inr [OF p0 position_fields_distinct assms(2)]
  let ?p1 = "dict_set ''bin_id'' (PyStr (strip (str_or p0 ''bin_id'' ''unassigned''))) p0"
  obtain q where q: "0 \<le> q" and p: "p = dict_set ''updated_at'' (PyStr (str_or (dict_set ''quantity'' (PyInt q) ?p1) ''updated_at'' now))
      (dict_set ''quantity'' (PyInt q) ?p1)"
  proof -
    from assms(1) p0 obtain q where "py_int (py_or (get ?p1 ''quantity'') (PyInt 0)) = Inr q"
      by (auto simp: position_def bind_res_Inr_iff Let_def simp del: get_set)
    then show ?thesis using assms(1) p0 that [of q] by (simp add: position_def Let_def split: if_splits)
  qed
  have "get p f = get p0 f" if "f \<in> set position_fields" for f
    using that by (auto simp: p position_fields_def)
  then show ?thesis using cf q by (auto simp: pos_ok_def position_key_def p)
qed

lemma position_clean:
  assumes "dict_wf v" and "\<forall>f \<in> set position_fields. clean_str (get v f)"
    and "get v ''quantity'' = PyInt q" and "0 \<le> q"
  shows "\<exists>p. position now v = Inr p \<and> get p ''quantity'' = PyInt q \<and> dict_wf p \<and>
    (\<forall>k. k \<notin> {''bin_id'', ''quantity'', ''updated_at''} \<longrightarrow> get p k = get v k)"
proof -
  let ?p1 = "dict_set ''bin_id'' (PyStr (strip (str_or v ''bin_id'' ''unassigned''))) v"
  have "py_int (py_or (get ?p1 ''quantity'') (PyInt 0)) = Inr q"
    using assms(3) by (simp add: py_or_def)
  then show ?thesis
    using assms by (auto simp: position_def clean_fields_id Let_def)
qed

section \<open>Totals\<close>

definition stock_total :: "projection \<Rightarrow> positions \<Rightarrow> int" where
  "stock_total j ps = sum_list (map (\<lambda>(k, p). qty p) (filter (\<lambda>(k, p). pos_matches j p) ps))"

lemma sum_list_sorted_by: "sum_list (map f (sorted_by g xs)) = sum_list (map f xs)"
  for f :: "'a \<Rightarrow> int"
  unfolding sorted_by_def by (metis mset_map mset_sort sum_mset_sum_list)

lemma sum_qty_at:
  assumes "dict_wf ps"
  shows "sum_list (map (qty_at ps) (map fst (filter P ps))) = sum_list (map (\<lambda>(k, p). qty p) (filter P ps))"
proof -
  have "qty_at ps k = qty p" if "(k, p) \<in> set ps" for k p
    using that assms by (simp add: qty_at_def dict_wf_def)
  then show ?thesis by (auto intro!: arg_cong [where f = sum_list])
qed

lemma before_is_total: "dict_wf ps \<Longrightarrow> sum_list (map (qty_at ps) (matching_keys j ps)) = stock_total j ps"
  using sum_qty_at unfolding matching_keys_def stock_total_def sum_list_sorted_by by blast

lemma total_set:
  assumes "dict_wf ps"
  shows "stock_total j (dict_set k p ps) = stock_total j ps
    - (case dict_get ps k of Some old \<Rightarrow> if pos_matches j old then qty old else 0 | None \<Rightarrow> 0)
    + (if pos_matches j p then qty p else 0)"
  using assms
proof (induction ps)
  case (Cons e ps)
  have "dict_wf ps" using Cons.prems by (simp add: dict_wf_def)
  note IH = Cons.IH [OF this]
  obtain k' p' where e: "e = (k', p')" by (rule prod.exhaust)
  show ?case
  proof (cases "k' = k")
    case False
    then show ?thesis using IH e by (simp add: stock_total_def)
  qed (simp add: e stock_total_def)
qed (simp add: stock_total_def)

lemma matching_keys_mem:
  "dict_wf ps \<Longrightarrow> k \<in> set (matching_keys j ps) \<longleftrightarrow> (\<exists>p. dict_get ps k = Some p \<and> pos_matches j p)"
  by (force simp: matching_keys_def dict_wf_def dest: map_of_SomeD)

lemma distinct_matching_keys: "dict_wf ps \<Longrightarrow> distinct (matching_keys j ps)"
  unfolding matching_keys_def dict_wf_def distinct_sorted_by by (rule distinct_map_filter)

lemma positions_ok_get: "positions_ok ps \<Longrightarrow> dict_get ps k = Some p \<Longrightarrow> pos_ok k p"
  by (auto simp: positions_ok_def dest: map_of_SomeD)

lemma positions_ok_set: "positions_ok ps \<Longrightarrow> pos_ok k p \<Longrightarrow> positions_ok (dict_set k p ps)"
  by (auto simp: positions_ok_def set_dict_set)

lemma pos_ok_qty: "pos_ok k p \<Longrightarrow> 0 \<le> qty p"
  by (auto simp: pos_ok_def)

lemma qty_at_nonneg: "positions_ok ps \<Longrightarrow> 0 \<le> qty_at ps k"
  using pos_ok_qty [OF positions_ok_get] by (simp add: qty_at_def split: option.split)

section \<open>Sales\<close>

definition proj_clean :: "projection \<Rightarrow> bool" where
  "proj_clean j \<longleftrightarrow> clean_str (PyStr (pj_event_id j)) \<and> clean_str (PyStr (pj_tenant j)) \<and>
     clean_str (PyStr (pj_sku j)) \<and> clean_str (PyStr (pj_location j))"

lemma sold_position_ok:
  assumes "pos_ok k cur" and "proj_clean j" and "0 \<le> after"
  shows "\<exists>p. sold_position now j after cur = Inr p \<and> pos_ok k p \<and> qty p = after \<and>
    (\<forall>j'. pos_matches j' p = pos_matches j' cur)"
proof -
  let ?upd = "[(''quantity'', PyInt after), (''state'', if after = 0 then PyStr ''depleted'' else get cur ''state''),
    (''source_reference'', PyStr (pj_event_id j)), (''updated_at'', PyStr now)]"
  let ?v = "dict_update cur ?upd"
  have wfu: "dict_wf ?upd" by (simp add: dict_wf_def)
  have g: "get ?v f = (case map_of ?upd f of Some x \<Rightarrow> x | None \<Rightarrow> get cur f)" for f
    by (simp add: get_def dict_get_update [OF wfu] del: map_of.simps split: option.split)
  have dep: "clean_str (PyStr ''depleted'')" by (intro clean_strI) (simp, code_simp)
  have cl: "clean_str (get ?v f)" if "f \<in> set position_fields" for f
    using that assms(1,2) dep by (auto simp: g position_fields_def pos_ok_def proj_clean_def)
  have wf: "dict_wf ?v" using assms(1) by (simp add: pos_ok_def)
  have q: "get ?v ''quantity'' = PyInt after" by (simp add: g)
  from position_clean [OF wf _ q assms(3), of now] cl obtain p where p: "position now ?v = Inr p"
    "get p ''quantity'' = PyInt after" "dict_wf p"
    "\<And>k. k \<notin> {''bin_id'', ''quantity'', ''updated_at''} \<Longrightarrow> get p k = get ?v k" by auto
  have ids: "get p ''tenant_id'' = get cur ''tenant_id''" "get p ''sku'' = get cur ''sku''"
    "get p ''location_type'' = get cur ''location_type''" "get p ''location_id'' = get cur ''location_id''"
    using p(4) [of "''tenant_id''"] p(4) [of "''sku''"] p(4) [of "''location_type''"] p(4) [of "''location_id''"]
    by (simp_all add: g)
  have keep: "f \<notin> {''bin_id'', ''quantity'', ''updated_at''}" if "f \<in> set position_fields" for f
    using that by (auto simp: position_fields_def)
  have cl': "clean_str (get p f)" if "f \<in> set position_fields" for f
    using cl [OF that] p(4) [OF keep [OF that]] by simp
  have "pos_ok k p" using assms(1,3) p(2,3) cl' ids by (simp add: pos_ok_def)
  moreover have "sold_position now j after cur = Inr p" using p(1) by (simp add: sold_position_def)
  moreover have "pos_matches j' p = pos_matches j' cur" for j' using ids by (simp add: pos_matches_def)
  ultimately show ?thesis using p(2) by auto
qed

lemma sell_correct:
  assumes "positions_ok ps" and "proj_clean j" and "0 \<le> remaining" and "distinct ks"
    and "\<forall>k \<in> set ks. \<exists>p. dict_get ps k = Some p \<and> pos_matches j p"
  shows "\<exists>ps' rem upd. sell now j ks remaining updated ps = (ps', Inr (rem, upd)) \<and> positions_ok ps' \<and>
    rem = max 0 (remaining - sum_list (map (qty_at ps) ks)) \<and>
    stock_total j ps' = stock_total j ps - (remaining - rem) \<and>
    (\<forall>k. k \<notin> set ks \<longrightarrow> dict_get ps' k = dict_get ps k)"
  using assms
proof (induction ks arbitrary: remaining updated ps)
  case (Cons k ks)
  then obtain cur where cur: "dict_get ps k = Some cur" "pos_matches j cur" by auto
  have ok: "pos_ok k cur" by (rule positions_ok_get [OF Cons.prems(1) cur(1)])
  then have q0: "0 \<le> qty cur" by (rule pos_ok_qty)
  have sums: "0 \<le> sum_list (map (qty_at ps) ks)"
    using qty_at_nonneg [OF Cons.prems(1)] by (intro sum_list_nonneg) auto
  show ?case
  proof (cases "remaining = 0 \<or> qty cur = 0")
    case True
    show ?thesis
    proof (cases "remaining = 0")
      case True
      then show ?thesis
        using Cons.prems(1) cur(1) sums qty_at_nonneg [OF Cons.prems(1), of k] by (simp add: max_def)
    next
      case False
      with True have "qty cur = 0" by simp
      then show ?thesis
        using Cons.IH [of ps remaining updated] Cons.prems cur False by (auto simp: qty_at_def)
    qed
  next
    case False
    define d where "d = min (qty cur) remaining"
    have d: "0 < d" "d \<le> qty cur" "d \<le> remaining" using False q0 Cons.prems(3) by (auto simp: d_def)
    from sold_position_ok [OF ok Cons.prems(2), of "qty cur - d" now] d obtain p where
      p: "sold_position now j (qty cur - d) cur = Inr p" "pos_ok k p" "qty p = qty cur - d"
      "\<And>j'. pos_matches j' p = pos_matches j' cur" by auto
    let ?ps = "dict_set k p ps"
    have same: "dict_get ?ps x = dict_get ps x" if "x \<in> set ks" for x
      using that Cons.prems(4) by auto
    then have eqs: "map (qty_at ?ps) ks = map (qty_at ps) ks" by (simp add: qty_at_def)
    have all: "\<forall>x \<in> set ks. \<exists>p. dict_get ?ps x = Some p \<and> pos_matches j p"
      using Cons.prems(5) same by auto
    have dks: "distinct ks" and r0: "0 \<le> remaining - d" using Cons.prems(4) d by auto
    from Cons.IH [OF positions_ok_set [OF Cons.prems(1) p(2)] Cons.prems(2) r0 dks all, of "updated + 1"]
    obtain ps' rem upd where r: "sell now j ks (remaining - d) (updated + 1) ?ps = (ps', Inr (rem, upd))"
      "positions_ok ps'" "rem = max 0 (remaining - d - sum_list (map (qty_at ps) ks))"
      "stock_total j ps' = stock_total j ?ps - (remaining - d - rem)"
      "\<forall>k. k \<notin> set ks \<longrightarrow> dict_get ps' k = dict_get ?ps k"
      using eqs by auto
    have "stock_total j ?ps = stock_total j ps - d"
      using total_set [of ps j k p] Cons.prems(1) cur p by (simp add: positions_ok_def)
    moreover have "rem = max 0 (remaining - sum_list (map (qty_at ps) (k # ks)))"
      using r(3) d sums cur(1) by (auto simp: qty_at_def d_def max_def min_def split: if_splits)
    ultimately show ?thesis
      using r cur(1) p(1) d False Cons.prems(3) by (auto simp: Let_def d_def [symmetric])
  qed
qed auto

lemma projection_input_SomeD:
  assumes "projection_input ev = Some j"
  shows "pj_issue j = projection_issue (pj_tenant j) (pj_event_id j) (pj_sku j) (pj_location j)
      (pj_event_type j) (pj_quantity j) \<and>
    strip (pj_tenant j) = pj_tenant j \<and> strip (pj_event_id j) = pj_event_id j \<and> strip (pj_sku j) = pj_sku j \<and>
    strip (pj_location j) = pj_location j \<and> pj_event_type j \<in> {''stock_update'', ''sale''}"
  using assms unfolding projection_input_def Let_def
  by (simp only: split: if_splits) (auto simp only: option.inject projection.simps strip_strip)

lemma projection_issue_None:
  "projection_issue tenant eid sku loc etype quantity = None \<longleftrightarrow>
   tenant \<noteq> [] \<and> eid \<noteq> [] \<and> sku \<noteq> [] \<and> loc \<noteq> [] \<and>
   (\<exists>q. quantity = Some q \<and> (etype = ''sale'' \<longrightarrow> 0 < q) \<and> (etype = ''stock_update'' \<longrightarrow> 0 \<le> q))"
  by (auto simp: projection_issue_def split: option.split)

lemma projection_input_ok:
  assumes "projection_input ev = Some j" and "pj_issue j = None"
  shows "proj_clean j \<and> (\<exists>q. pj_quantity j = Some q \<and>
      (pj_event_type j = ''sale'' \<and> 0 < q \<or> pj_event_type j = ''stock_update'' \<and> 0 \<le> q))"
proof -
  note d = projection_input_SomeD [OF assms(1)]
  have "projection_issue (pj_tenant j) (pj_event_id j) (pj_sku j) (pj_location j) (pj_event_type j) (pj_quantity j) = None"
    using d assms(2) by metis
  then show ?thesis using d by (auto simp: projection_issue_None proj_clean_def clean_str_def)
qed

lemma total_nonneg: "positions_ok ps \<Longrightarrow> 0 \<le> stock_total j ps"
  unfolding stock_total_def
  by (rule sum_list_nonneg) (auto simp: positions_ok_def dest: pos_ok_qty)

lemma apply_sale:
  assumes "positions_ok ps" and "proj_clean j" and "pj_issue j = None" and "pj_event_type j = ''sale''"
    and "pj_quantity j = Some q" and "0 < q"
  shows "\<exists>ps' r. apply_projection now j ps = (ps', Inr r) \<and> positions_ok ps' \<and>
    stock_total j ps' = max 0 (stock_total j ps - q) \<and>
    get r ''unfulfilled_quantity'' = PyInt (max 0 (q - stock_total j ps)) \<and>
    get r ''before_quantity'' = PyInt (stock_total j ps) \<and> get r ''after_quantity'' = PyInt (stock_total j ps') \<and>
    (\<forall>k p. dict_get ps k = Some p \<and> \<not> pos_matches j p \<longrightarrow> dict_get ps' k = Some p)"
proof -
  let ?m = "matching_keys j ps"
  have wf: "dict_wf ps" using assms(1) by (simp add: positions_ok_def)
  note bt = before_is_total [OF wf, of j]
  show ?thesis
  proof (cases "?m = []")
    case True
    then have "stock_total j ps = 0" using bt by simp
    then show ?thesis
      using True assms bt
      by (auto simp: apply_projection_def apply_sale_projection_def projection_receipt_def opt_int_def Let_def)
  next
    case False
    have "\<forall>k \<in> set ?m. \<exists>p. dict_get ps k = Some p \<and> pos_matches j p"
      using matching_keys_mem [OF wf] by blast
    from sell_correct [OF assms(1,2) _ distinct_matching_keys [OF wf] this, of q now 0] assms(6) obtain ps' rem upd
      where r: "sell now j ?m q 0 ps = (ps', Inr (rem, upd))" "positions_ok ps'"
        "rem = max 0 (q - stock_total j ps)" "stock_total j ps' = stock_total j ps - (q - rem)"
        "\<forall>k. k \<notin> set ?m \<longrightarrow> dict_get ps' k = dict_get ps k"
      unfolding bt by force
    have "stock_total j ps' = max 0 (stock_total j ps - q)" using r(3,4) by (simp add: max_def)
    moreover have "dict_get ps' k = Some p" if "dict_get ps k = Some p" "\<not> pos_matches j p" for k p
      using that r(5) [rule_format, of k] matching_keys_mem [OF wf, of k j] by auto
    ultimately show ?thesis
      using r False assms bt
      by (auto simp: apply_projection_def apply_sale_projection_def projection_receipt_def opt_int_def Let_def)
  qed
qed

lemma stock_position_fields:
  assumes "position now [(''tenant_id'', PyStr (pj_tenant j)), (''sku'', PyStr (pj_sku j)),
    (''location_type'', PyStr (pj_location_type j)), (''location_id'', PyStr (pj_location j)),
    (''bin_id'', PyStr (pj_bin j)), (''quantity'', PyInt q), (''state'', PyStr (pj_state j)),
    (''source_reference'', PyStr (pj_event_id j))] = Inr p" and "proj_clean j"
  shows "qty p = q \<and> pos_matches j p"
  using assms
  by (auto simp: position_def position_fields_def str_or_def py_or_def pos_matches_def proj_clean_def
      clean_str_def Let_def split: if_splits)

lemma apply_stock:
  assumes "positions_ok ps" and "pj_issue j = None" and "pj_event_type j = ''stock_update''"
    and "pj_quantity j = Some q" and "proj_clean j" and "apply_projection now j ps = (ps', res)"
  shows "positions_ok ps' \<and> (case res of Inl e \<Rightarrow> ps' = ps
    | Inr r \<Rightarrow> \<exists>k p. ps' = dict_set k p ps \<and> qty p = q \<and> pos_matches j p \<and>
        stock_total j ps' = stock_total j ps - qty_at ps k + q \<and> get r ''after_quantity'' = PyInt (stock_total j ps'))"
proof -
  let ?v = "[(''tenant_id'', PyStr (pj_tenant j)), (''sku'', PyStr (pj_sku j)),
    (''location_type'', PyStr (pj_location_type j)), (''location_id'', PyStr (pj_location j)),
    (''bin_id'', PyStr (pj_bin j)), (''quantity'', PyInt q), (''state'', PyStr (pj_state j)),
    (''source_reference'', PyStr (pj_event_id j))]"
  have wf: "dict_wf ps" using assms(1) by (simp add: positions_ok_def)
  have before: "sum_list (map (qty_at ps) (matching_keys j ps)) = stock_total j ps" by (rule before_is_total [OF wf])
  show ?thesis
  proof (cases "position now ?v")
    case (Inl e)
    then have "ps' = ps" "res = Inl e"
      using assms(2-4,6) by (auto simp: apply_projection_def apply_stock_projection_def)
    then show ?thesis using assms(1) by simp
  next
    case (Inr p)
    let ?k = "position_key p"
    have pv: "dict_wf ?v" by (simp add: dict_wf_def)
    have ok: "pos_ok ?k p" by (rule position_Inr [OF Inr pv])
    have f: "qty p = q \<and> pos_matches j p" using stock_position_fields [OF Inr assms(5)] .
    have old: "pos_matches j x" if "dict_get ps ?k = Some x" for x
      using positions_ok_get [OF assms(1) that] ok f
      by (auto simp: pos_ok_def position_key_def pos_matches_def position_fields_def clean_str_def)
    have res: "ps' = dict_set ?k p ps" "res = Inr (projection_receipt now j ''stock_position_replaced''
        (Some (stock_total j ps)) (Some (stock_total j ps - qty_at ps ?k + q)) 0 1)"
      using assms(2-4,6) Inr before by (auto simp: apply_projection_def apply_stock_projection_def Let_def)
    have tot: "stock_total j ps' = stock_total j ps - qty_at ps ?k + q"
      using total_set [OF wf, of j ?k p] f old by (auto simp: res(1) qty_at_def split: option.split)
    have "positions_ok ps'" using positions_ok_set [OF assms(1) ok] res(1) by simp
    moreover have "get (projection_receipt now j ''stock_position_replaced'' (Some (stock_total j ps))
        (Some (stock_total j ps - qty_at ps ?k + q)) 0 1) ''after_quantity'' = PyInt (stock_total j ps')"
      using tot by (simp add: projection_receipt_def opt_int_def)
    ultimately show ?thesis using res tot f unfolding res(2) sum.case by blast
  qed
qed

section \<open>Operations keep the invariant\<close>

lemma apply_projection_ok:
  assumes "positions_ok ps" and "projection_input ev = Some j"
  shows "positions_ok (fst (apply_projection now j ps))"
proof (cases "pj_issue j")
  case None
  from projection_input_ok [OF assms(2) None] obtain q where q: "proj_clean j" "pj_quantity j = Some q"
    "pj_event_type j = ''sale'' \<and> 0 < q \<or> pj_event_type j = ''stock_update'' \<and> 0 \<le> q" by blast
  show ?thesis
  proof (cases "pj_event_type j = ''sale''")
    case True
    then have "0 < q" using q(3) by auto
    from apply_sale [OF assms(1) q(1) None True q(2) this, of now] show ?thesis by auto
  next
    case False
    then have "pj_event_type j = ''stock_update''" using q(3) by simp
    from apply_stock [OF assms(1) None this q(2,1) prod.collapse [symmetric]] show ?thesis by blast
  qed
qed (use assms(1) in \<open>simp add: apply_projection_def\<close>)

lemma iv_project_ok:
  "positions_ok (iv_positions s) \<Longrightarrow> positions_ok (iv_positions (fst (iv_project_event now ev s)))"
  using apply_projection_ok [of "iv_positions s" ev _ now]
  by (auto simp: iv_project_event_def split: option.split prod.splits sum.split)

lemma iv_upsert_ok:
  "positions_ok (iv_positions s) \<Longrightarrow> dict_wf v \<Longrightarrow> positions_ok (iv_positions (fst (iv_upsert now v s)))"
  using position_Inr positions_ok_set by (auto simp: iv_upsert_def split: sum.split)

datatype inventory_op = UpsertPosition pydict | ProjectEvent pydict

fun iv_step :: "string \<Rightarrow> inventory_op \<Rightarrow> inventory_store \<Rightarrow> inventory_store" where
  "iv_step now (UpsertPosition v) s = fst (iv_upsert now v s)"
| "iv_step now (ProjectEvent ev) s = fst (iv_project_event now ev s)"

fun iv_run :: "(string \<times> inventory_op) list \<Rightarrow> inventory_store \<Rightarrow> inventory_store" where
  "iv_run [] s = s"
| "iv_run ((now, x) # xs) s = iv_run xs (iv_step now x s)"

fun op_wf :: "inventory_op \<Rightarrow> bool" where
  "op_wf (UpsertPosition v) = dict_wf v"
| "op_wf (ProjectEvent ev) = True"

lemma iv_run_ok:
  "positions_ok (iv_positions s) \<Longrightarrow> list_all (\<lambda>(now, x). op_wf x) xs \<Longrightarrow> positions_ok (iv_positions (iv_run xs s))"
proof (induction xs s rule: iv_run.induct)
  case (2 now x xs s)
  then have "positions_ok (iv_positions (iv_step now x s))"
    by (cases x) (simp_all add: iv_project_ok iv_upsert_ok)
  with 2 show ?case by simp
qed simp

lemma iv_step_receipt:
  "dict_get (iv_receipts s) key = Some r \<Longrightarrow> dict_get (iv_receipts (iv_step now x s)) key = Some r"
  by (cases x) (auto simp: iv_upsert_def iv_project_event_def split: option.split prod.split sum.split)

lemma iv_run_receipt:
  "dict_get (iv_receipts s) key = Some r \<Longrightarrow> dict_get (iv_receipts (iv_run xs s)) key = Some r"
  by (induction xs s rule: iv_run.induct) (simp_all add: iv_step_receipt)

lemma iv_project_stored:
  "iv_project_event now ev s = (s', Inr r) \<Longrightarrow> projection_input ev = Some j \<Longrightarrow>
   dict_get (iv_receipts s) (pj_tenant j, pj_event_id j) = None \<Longrightarrow>
   dict_get (iv_receipts s') (pj_tenant j, pj_event_id j) = Some r"
  by (auto simp: iv_project_event_def split: prod.splits sum.splits)

section \<open>Properties\<close>

text \<open>A shelf of seven units in two bins, and a sale event of nine.\<close>

definition demo_position :: "string \<Rightarrow> int \<Rightarrow> pydict" where
  "demo_position bin n = [(''tenant_id'', PyStr ''acme''), (''sku'', PyStr ''4011''), (''location_type'', PyStr ''store''),
     (''location_id'', PyStr ''s1''), (''state'', PyStr ''available''), (''source_reference'', PyStr ''e0''),
     (''bin_id'', PyStr bin), (''quantity'', PyInt n), (''updated_at'', PyStr ''t0'')]"

definition demo_shelf :: inventory_store where
  "demo_shelf = \<lparr>iv_positions =
     [((''acme'', ''4011'', ''store'', ''s1'', ''a''), demo_position ''a'' 3),
      ((''acme'', ''4011'', ''store'', ''s1'', ''b''), demo_position ''b'' 4)], iv_receipts = []\<rparr>"

definition demo_sale :: "pydict \<Rightarrow> pydict" where
  "demo_sale payload = [(''id'', PyStr ''e1''), (''type'', PyStr ''sale''), (''tenant_id'', PyStr ''acme''),
     (''payload'', PyDict ([(''sku'', PyStr ''4011''), (''location_id'', PyStr ''s1'')] @ payload))]"

definition demo_projection :: "int \<Rightarrow> projection" where
  "demo_projection q = \<lparr>pj_tenant = ''acme'', pj_event_id = ''e1'', pj_event_type = ''sale'', pj_sku = ''4011'',
     pj_location = ''s1'', pj_location_type = ''store'', pj_bin = ''unassigned'', pj_quantity = Some q,
     pj_state = ''available'', pj_issue = None\<rparr>"

definition demo_stock :: pydict where
  "demo_stock = [(''id'', PyStr ''e1''), (''type'', PyStr ''stock_update''), (''tenant_id'', PyStr ''acme''),
     (''payload'', PyDict [(''sku'', PyStr ''4011''), (''location_id'', PyStr ''s1''), (''bin_id'', PyStr ''a''),
       (''on_hand'', PyInt 5)])]"

definition demo_stock_projection :: projection where
  "demo_stock_projection = (demo_projection 5)\<lparr>pj_event_type := ''stock_update'', pj_bin := ''a''\<rparr>"

lemma demo_shelf_ok: "positions_ok (iv_positions demo_shelf)"
  by (auto simp: positions_ok_def demo_shelf_def demo_position_def pos_ok_def dict_wf_def position_fields_def
      intro!: clean_strI) (code_simp)+

lemma demo_sale_input: "projection_input (demo_sale [(''quantity'', PyInt 9)]) = Some (demo_projection 9)"
  by code_simp

lemma demo_shelf_total: "stock_total (demo_projection q) (iv_positions demo_shelf) = 7"
  by (simp add: stock_total_def demo_shelf_def demo_position_def pos_matches_def demo_projection_def)

text \<open>
  C13. A sale conserves stock: applied to a well-formed ledger it always succeeds, takes exactly the sold
  units from the positions of the sku at the location as far as they reach, reports the rest as
  unfulfilled and the stock before and after truthfully, leaves every other position alone, and never
  makes a quantity negative.
\<close>

theorem sale_conserves_stock:
  assumes "positions_ok (iv_positions s)" and "projection_input ev = Some j" and "pj_issue j = None"
    and "pj_event_type j = ''sale''" and "pj_quantity j = Some q"
    and "dict_get (iv_receipts s) (pj_tenant j, pj_event_id j) = None"
  shows "\<exists>s' r. iv_project_event now ev s = (s', Inr r) \<and> positions_ok (iv_positions s') \<and>
    stock_total j (iv_positions s') = max 0 (stock_total j (iv_positions s) - q) \<and>
    get r ''unfulfilled_quantity'' = PyInt (max 0 (q - stock_total j (iv_positions s))) \<and>
    get r ''before_quantity'' = PyInt (stock_total j (iv_positions s)) \<and>
    get r ''after_quantity'' = PyInt (stock_total j (iv_positions s')) \<and>
    (\<forall>k p. dict_get (iv_positions s) k = Some p \<and> \<not> pos_matches j p \<longrightarrow> dict_get (iv_positions s') k = Some p)"
proof -
  from projection_input_ok [OF assms(2,3)] assms(4,5) have pc: "proj_clean j" and q: "0 < q" by auto
  from apply_sale [OF assms(1) pc assms(3-5) q, of now] obtain ps' r where
    a: "apply_projection now j (iv_positions s) = (ps', Inr r)" "positions_ok ps'"
    "stock_total j ps' = max 0 (stock_total j (iv_positions s) - q)"
    "get r ''unfulfilled_quantity'' = PyInt (max 0 (q - stock_total j (iv_positions s)))"
    "get r ''before_quantity'' = PyInt (stock_total j (iv_positions s))" "get r ''after_quantity'' = PyInt (stock_total j ps')"
    "\<forall>k p. dict_get (iv_positions s) k = Some p \<and> \<not> pos_matches j p \<longrightarrow> dict_get ps' k = Some p"
    by (elim exE conjE)
  let ?s = "s\<lparr>iv_positions := ps', iv_receipts := dict_set (pj_tenant j, pj_event_id j) r (iv_receipts s)\<rparr>"
  have "iv_project_event now ev s = (?s, Inr r)"
    using assms(2,6) a(1) by (simp add: iv_project_event_def)
  then show ?thesis using a(2-7) by (intro exI [of _ ?s] exI [of _ r]) simp
qed

theorem sale_conserves_stock_witness:
  "\<exists>s' r. iv_project_event ''t1'' (demo_sale [(''quantity'', PyInt 9)]) demo_shelf = (s', Inr r) \<and>
     stock_total (demo_projection 9) (iv_positions s') = 0 \<and> get r ''unfulfilled_quantity'' = PyInt 2"
proof -
  have "pj_issue (demo_projection 9) = None" "pj_event_type (demo_projection 9) = ''sale''"
    "pj_quantity (demo_projection 9) = Some 9"
    "dict_get (iv_receipts demo_shelf) (pj_tenant (demo_projection 9), pj_event_id (demo_projection 9)) = None"
    by (simp_all add: demo_projection_def demo_shelf_def)
  from sale_conserves_stock [OF demo_shelf_ok demo_sale_input this, of "''t1''"]
  show ?thesis by (auto simp: demo_shelf_total)
qed

text \<open>
  C14. A projected event is applied once: after it was projected, and whatever is upserted or projected
  afterwards, projecting an event with the same tenant and id again changes nothing and returns the
  first receipt, marked as a duplicate.
\<close>

theorem projection_is_idempotent:
  assumes "iv_project_event now ev s = (s1, Inr r)" and "projection_input ev = Some j"
    and "dict_get (iv_receipts s) (pj_tenant j, pj_event_id j) = None"
    and "projection_input ev' = Some j'" and "pj_tenant j' = pj_tenant j" and "pj_event_id j' = pj_event_id j"
  shows "iv_project_event now' ev' (iv_run history s1) =
    (iv_run history s1, Inr (dict_set ''status'' (PyStr ''duplicate'') r))"
  using iv_run_receipt [OF iv_project_stored [OF assms(1-3)], of history] assms(4-6)
  by (simp add: iv_project_event_def)

theorem projection_is_idempotent_witness:
  "\<exists>s1 r. iv_project_event ''t1'' (demo_sale [(''quantity'', PyInt 9)]) demo_shelf = (s1, Inr r) \<and>
     iv_project_event ''t2'' (demo_sale [(''quantity'', PyInt 9)]) (iv_run [] s1) =
       (iv_run [] s1, Inr (dict_set ''status'' (PyStr ''duplicate'') r))"
proof -
  have n: "dict_get (iv_receipts demo_shelf) (pj_tenant (demo_projection 9), pj_event_id (demo_projection 9)) = None"
    by (simp add: demo_shelf_def)
  obtain s1 r where p: "iv_project_event ''t1'' (demo_sale [(''quantity'', PyInt 9)]) demo_shelf = (s1, Inr r)"
    using apply_sale [OF demo_shelf_ok, of "demo_projection 9" 9 "''t1''"] demo_sale_input n
      projection_input_ok [OF demo_sale_input]
    by (auto simp: iv_project_event_def demo_projection_def)
  from projection_is_idempotent [OF p demo_sale_input n demo_sale_input refl refl] p show ?thesis by blast
qed

text \<open>
  C15. The ledger's invariant is kept by every operation: after any history of upserts and projections
  starting from an empty store, every stored position has clean identifying fields and a non-negative
  quantity, whatever the events carry.
\<close>

theorem ledger_invariant:
  assumes "list_all (\<lambda>(now, x). op_wf x) history"
  shows "positions_ok (iv_positions (iv_run history iv_empty))"
  using assms by (intro iv_run_ok) (simp_all add: iv_empty_def positions_ok_def)

theorem ledger_invariant_witness:
  "positions_ok (iv_positions (iv_run [(''t0'', UpsertPosition (demo_position ''a'' 3)),
     (''t1'', ProjectEvent (demo_sale [(''quantity'', PyInt 9)]))] iv_empty))"
  using ledger_invariant [of "[(''t0'', UpsertPosition (demo_position ''a'' 3)),
     (''t1'', ProjectEvent (demo_sale [(''quantity'', PyInt 9)]))]"]
  by (simp add: demo_position_def dict_wf_def)

text \<open>
  A stock update replaces the quantity of its bin: when it is accepted, the stock of the sku at the
  location changes by the difference to the replaced quantity, and the receipt reports the stock that
  is then on record; a refused update leaves the ledger alone.
\<close>

theorem stock_update_replaces:
  assumes "positions_ok (iv_positions s)" and "projection_input ev = Some j" and "pj_issue j = None"
    and "pj_event_type j = ''stock_update''" and "pj_quantity j = Some q"
    and "dict_get (iv_receipts s) (pj_tenant j, pj_event_id j) = None"
    and "iv_project_event now ev s = (s', res)"
  shows "case res of Inl e \<Rightarrow> s' = s
    | Inr r \<Rightarrow> \<exists>k p. iv_positions s' = dict_set k p (iv_positions s) \<and> qty p = q \<and> pos_matches j p \<and>
        stock_total j (iv_positions s') = stock_total j (iv_positions s) - qty_at (iv_positions s) k + q \<and>
        get r ''after_quantity'' = PyInt (stock_total j (iv_positions s'))"
proof -
  obtain ps' res' where a: "apply_projection now j (iv_positions s) = (ps', res')" by (rule prod.exhaust)
  have pc: "proj_clean j" using projection_input_ok [OF assms(2,3)] by blast
  note st = apply_stock [OF assms(1,3-5) pc a]
  show ?thesis
  proof (cases res')
    case (Inl e)
    then have "s' = s\<lparr>iv_positions := ps'\<rparr>" "res = Inl e" "ps' = iv_positions s"
      using assms(2,6,7) a st by (auto simp: iv_project_event_def)
    then show ?thesis by simp
  next
    case (Inr r)
    then have "iv_positions s' = ps'" "res = Inr r" using assms(2,6,7) a by (auto simp: iv_project_event_def)
    then show ?thesis using st Inr by simp
  qed
qed

theorem stock_update_replaces_witness:
  "case snd (iv_project_event ''t1'' demo_stock demo_shelf) of Inl e \<Rightarrow> fst (iv_project_event ''t1'' demo_stock demo_shelf) = demo_shelf
   | Inr r \<Rightarrow> \<exists>k p. iv_positions (fst (iv_project_event ''t1'' demo_stock demo_shelf)) = dict_set k p (iv_positions demo_shelf) \<and>
       qty p = 5 \<and> pos_matches demo_stock_projection p \<and>
       stock_total demo_stock_projection (iv_positions (fst (iv_project_event ''t1'' demo_stock demo_shelf))) =
         stock_total demo_stock_projection (iv_positions demo_shelf) - qty_at (iv_positions demo_shelf) k + 5 \<and>
       get r ''after_quantity'' =
         PyInt (stock_total demo_stock_projection (iv_positions (fst (iv_project_event ''t1'' demo_stock demo_shelf))))"
proof -
  have i: "projection_input demo_stock = Some demo_stock_projection" by code_simp
  have n: "pj_issue demo_stock_projection = None" "pj_event_type demo_stock_projection = ''stock_update''"
    "pj_quantity demo_stock_projection = Some 5"
    "dict_get (iv_receipts demo_shelf) (pj_tenant demo_stock_projection, pj_event_id demo_stock_projection) = None"
    by (simp_all add: demo_stock_projection_def demo_projection_def demo_shelf_def)
  show ?thesis by (rule stock_update_replaces [OF demo_shelf_ok i n prod.collapse [symmetric]])
qed

text \<open>
  A sale event that also carries the measured stock is booked wrongly: the quantity read from the
  payload is \<open>on_hand\<close> whenever that key is present, so the units on the shelf are sold, not the units
  of the sale.
\<close>

theorem sale_books_on_hand_as_sold:
  "\<exists>s' r. iv_project_event ''t1'' (demo_sale [(''quantity'', PyInt 2), (''on_hand'', PyInt 7)]) demo_shelf = (s', Inr r) \<and>
     get r ''before_quantity'' = PyInt 7 \<and> stock_total (demo_projection 7) (iv_positions s') = 0"
proof -
  have i: "projection_input (demo_sale [(''quantity'', PyInt 2), (''on_hand'', PyInt 7)]) = Some (demo_projection 7)"
    by code_simp
  have n: "pj_issue (demo_projection 7) = None" "pj_event_type (demo_projection 7) = ''sale''"
    "pj_quantity (demo_projection 7) = Some 7"
    by (simp_all add: demo_projection_def)
  have pc: "proj_clean (demo_projection 7)" using projection_input_ok [OF i n(1)] by blast
  from apply_sale [OF demo_shelf_ok pc n, of "''t1''"] show ?thesis
    using i by (auto simp: iv_project_event_def demo_shelf_total) (auto simp: demo_shelf_def)
qed

end
