(* ===== verification/PyCal.thy ===== *)
theory PyCal
  imports PyTime
begin

text \<open>
  Instants: the proleptic Gregorian ordinal of a date, the instant of an aware \<open>datetime\<close> in
  microseconds, and \<open>astimezone(UTC)\<close>, which fails when the result leaves the years 1 to 9999.
\<close>

section \<open>Ordinals\<close>

definition days_before_year :: "nat \<Rightarrow> nat" where
  "days_before_year y = (y - 1) * 365 + (y - 1) div 4 + (y - 1) div 400 - (y - 1) div 100"

fun days_before_month :: "nat \<Rightarrow> nat \<Rightarrow> nat" where
  "days_before_month y 0 = 0"
| "days_before_month y (Suc m) = (if m = 0 then 0 else days_before_month y m + days_in_month y m)"

definition ordinal :: "nat \<Rightarrow> nat \<Rightarrow> nat \<Rightarrow> nat" where
  "ordinal y m d = days_before_year y + days_before_month y m + d"

definition year_length :: "nat \<Rightarrow> nat" where
  "year_length y = (if leap_year y then 366 else 365)"

lemma days_before_year_Suc: "1 \<le> y \<Longrightarrow> days_before_year (Suc y) = days_before_year y + year_length y"
proof (cases y)
  case (Suc z)
  have le: "z div 100 \<le> z * 365" by (rule order_trans [of _ z]) auto
  have a: "Suc z mod 100 = 0" if "Suc z mod 400 = 0"
    using that mod_mod_cancel [of 100 400 "Suc z"] by simp
  have b: "Suc z mod 4 = 0" if "Suc z mod 100 = 0"
    using that mod_mod_cancel [of 4 100 "Suc z"] by simp
  show ?thesis
    using le a b by (auto simp: Suc days_before_year_def year_length_def leap_year_def div_Suc ac_simps)
qed simp

lemma days_before_month_13: "days_before_month y 13 = year_length y"
  by (simp add: numeral_eq_Suc days_in_month_def year_length_def)

function year_from :: "nat \<Rightarrow> nat \<Rightarrow> nat" where
  "year_from n y = (if y = 0 \<or> n \<le> days_before_year (Suc y) then y else year_from n (Suc y))"
  by auto
termination
  by (relation "measure (\<lambda>(n, y). n - days_before_year y)")
    (auto simp: days_before_year_Suc year_length_def)

declare year_from.simps [simp del]

lemma year_from_spec:
  "1 \<le> y \<Longrightarrow> days_before_year y < n \<Longrightarrow>
   y \<le> year_from n y \<and> days_before_year (year_from n y) < n \<and> n \<le> days_before_year (Suc (year_from n y))"
proof (induction n y rule: year_from.induct)
  case (1 n y)
  show ?case
  proof (cases "n \<le> days_before_year (Suc y)")
    case True
    then show ?thesis using 1 by (simp add: year_from.simps [of n y])
  next
    case False
    then show ?thesis using 1 by (simp add: year_from.simps [of n y])
  qed
qed

fun month_from :: "nat \<Rightarrow> nat \<Rightarrow> nat \<Rightarrow> nat \<Rightarrow> nat" where
  "month_from 0 y r m = m"
| "month_from (Suc k) y r m = (if r \<le> days_before_month y (Suc m) then m else month_from k y r (Suc m))"

lemma month_from_spec:
  "1 \<le> m \<Longrightarrow> days_before_month y m < r \<Longrightarrow> r \<le> days_before_month y (m + Suc k) \<Longrightarrow>
   m \<le> month_from k y r m \<and> month_from k y r m \<le> m + k \<and>
   days_before_month y (month_from k y r m) < r \<and> r \<le> days_before_month y (Suc (month_from k y r m))"
proof (induction k y r m rule: month_from.induct)
  case (2 k y r m)
  show ?case
  proof (cases "r \<le> days_before_month y (Suc m)")
    case False
    then have "days_before_month y (Suc m) < r" by simp
    moreover have "r \<le> days_before_month y (Suc m + Suc k)" using 2(4) by simp
    ultimately show ?thesis using 2(1) [OF False] False by (simp del: days_before_month.simps)
  qed (use 2 in \<open>simp del: days_before_month.simps\<close>)
qed simp

text \<open>The estimate \<open>n div 366 + 1\<close> is never too late.\<close>

definition civil :: "nat \<Rightarrow> nat \<times> nat \<times> nat" where
  "civil n =
     (let y = year_from n ((n - 1) div 366 + 1);
          r = n - days_before_year y;
          m = month_from 11 y r 1
      in (y, m, r - days_before_month y m))"

lemma days_before_year_le: "days_before_year (Suc z) \<le> z * 366"
proof (induction z)
  case (Suc z)
  then show ?case using days_before_year_Suc [of "Suc z"] by (simp add: year_length_def)
qed (simp add: days_before_year_def)

lemma days_before_year_mono: "1 \<le> y \<Longrightarrow> y \<le> y' \<Longrightarrow> days_before_year y \<le> days_before_year y'"
proof (induction "y' - y" arbitrary: y')
  case (Suc k)
  then obtain z where z: "y' = Suc z" "k = z - y" "y \<le> z" by (cases y') auto
  then show ?case using Suc.hyps(1) [of z] Suc.prems(1) days_before_year_Suc [of z] by simp
qed simp

lemma days_in_month_pos: "1 \<le> days_in_month y m"
  by (simp add: days_in_month_def)

lemma civil_spec:
  assumes "1 \<le> n" and "n \<le> 3652059" and "civil n = (y, m, d)"
  shows "valid_date y m d \<and> ordinal y m d = n"
proof -
  let ?y0 = "(n - 1) div 366 + 1"
  have "days_before_year ?y0 < n"
    using days_before_year_le [of "(n - 1) div 366"] assms(1) by (simp add: le_less_trans)
  from year_from_spec [OF _ this] have y: "?y0 \<le> y" "days_before_year y < n" "n \<le> days_before_year (Suc y)"
    using assms(3) by (auto simp: civil_def Let_def)
  then have y1: "1 \<le> y" by simp
  have y9: "y \<le> 9999"
  proof (rule ccontr)
    assume "\<not> y \<le> 9999"
    then have "days_before_year 10000 \<le> days_before_year y" by (intro days_before_year_mono) auto
    moreover have "days_before_year 10000 = 3652059" by (simp add: days_before_year_def)
    ultimately show False using y(2) assms(2) by simp
  qed
  define r where "r = n - days_before_year y"
  have r: "0 < r" "r \<le> days_before_month y 13"
    using y days_before_year_Suc [OF y1] days_before_month_13 by (auto simp: r_def)
  have m: "m = month_from 11 y r 1" and d: "d = r - days_before_month y m"
    using assms(3) by (auto simp: civil_def Let_def r_def)
  have "days_before_month y 1 = 0" by simp
  from month_from_spec [of 1 y r 11] r this m have mm: "1 \<le> m" "m \<le> 12" "days_before_month y m < r"
    "r \<le> days_before_month y (Suc m)" by (simp_all del: days_before_month.simps)
  have "d \<le> days_in_month y m" using mm(1,4) d by (cases m) auto
  then show ?thesis
    using y1 y9 mm d y(2) by (simp add: valid_date_def ordinal_def r_def)
qed

section \<open>Instants\<close>

definition instant :: "datetime \<Rightarrow> int" where
  "instant t = int (ordinal (dt_year t) (dt_month t) (dt_day t)) * day_us +
     hms_us (dt_hour t) (dt_minute t) (dt_second t) (dt_micro t) -
     (case dt_offset t of None \<Rightarrow> 0 | Some z \<Rightarrow> z)"

definition of_instant :: "int \<Rightarrow> datetime option" where
  "of_instant i =
     (let n = i div day_us; r = nat (i mod day_us) in
      if n < 1 \<or> 3652059 < n then None
      else (case civil (nat n) of (y, m, d) \<Rightarrow>
        Some \<lparr>dt_year = y, dt_month = m, dt_day = d, dt_hour = r div 3600000000,
              dt_minute = r div 60000000 mod 60, dt_second = r div 1000000 mod 60,
              dt_micro = r mod 1000000, dt_offset = Some 0\<rparr>))"

text \<open>A naive value is read as UTC first, as the callers do.\<close>

definition astimezone_utc :: "datetime \<Rightarrow> datetime result" where
  "astimezone_utc t = (case of_instant (instant t) of
       Some u \<Rightarrow> Inr u
     | None \<Rightarrow> Inl (OverflowError ''date value out of range''))"

lemma positional:
  "r = 1000000 * a + u \<Longrightarrow> a = 60 * b + s \<Longrightarrow> b = 60 * c + m \<Longrightarrow>
   ((c * 60 + m) * 60 + s) * 1000000 + u = (r::nat)"
  by simp

lemma split_hms:
  fixes r :: nat
  shows "hms_us (r div 3600000000) (r div 60000000 mod 60) (r div 1000000 mod 60) (r mod 1000000) = int r"
proof -
  have 1: "r = 1000000 * (r div 1000000) + r mod 1000000" by simp
  have 2: "r div 1000000 = 60 * (r div 60000000) + r div 1000000 mod 60"
    using mult_div_mod_eq [of 60 "r div 1000000"] by (simp add: div_mult2_eq [symmetric])
  have 3: "r div 60000000 = 60 * (r div 3600000000) + r div 60000000 mod 60"
    using mult_div_mod_eq [of 60 "r div 60000000"] by (simp add: div_mult2_eq [symmetric])
  have "((r div 3600000000 * 60 + r div 60000000 mod 60) * 60 + r div 1000000 mod 60) * 1000000 + r mod 1000000 = r"
    by (rule positional [OF 1 2 3])
  then show ?thesis
    unfolding hms_us_def by (metis (no_types, lifting) of_nat_add of_nat_mult of_nat_numeral)
qed

lemma of_instant_spec:
  assumes "of_instant i = Some u"
  shows "valid_datetime u \<and> dt_offset u = Some 0 \<and> instant u = i"
proof -
  define n where "n = i div day_us"
  define r where "r = nat (i mod day_us)"
  obtain y m d where c: "civil (nat n) = (y, m, d)" by (rule prod_cases3)
  have n: "1 \<le> n" "n \<le> 3652059"
    and u: "u = \<lparr>dt_year = y, dt_month = m, dt_day = d, dt_hour = r div 3600000000,
      dt_minute = r div 60000000 mod 60, dt_second = r div 1000000 mod 60, dt_micro = r mod 1000000, dt_offset = Some 0\<rparr>"
    using assms c by (auto simp: of_instant_def Let_def n_def r_def split: if_splits)
  have v: "valid_date y m d" "ordinal y m d = nat n" using civil_spec [OF _ _ c] n by auto
  have r: "int r = i mod day_us" and rb: "r < 86400000000"
    by (simp_all add: r_def day_us_def)
  then have "r div 3600000000 < 24" by (simp add: less_mult_imp_div_less)
  then have "valid_time (dt_hour u) (dt_minute u) (dt_second u) (dt_micro u)" by (simp add: valid_time_def u)
  moreover have "instant u = int (nat n) * day_us + int r"
    using v(2) split_hms [of r] by (simp add: instant_def u)
  then have "instant u = i" using n r by (simp add: n_def)
  ultimately show ?thesis using v by (simp add: valid_datetime_def valid_offset_def u day_us_def)
qed

lemma astimezone_utc_spec:
  "astimezone_utc t = Inr u \<Longrightarrow> valid_datetime u \<and> dt_offset u = Some 0 \<and> instant u = instant t"
  by (auto simp: astimezone_utc_def split: option.splits dest: of_instant_spec)

text \<open>A time already in UTC converts.\<close>

lemma days_before_month_mono: "1 \<le> m \<Longrightarrow> m \<le> m' \<Longrightarrow> days_before_month y m \<le> days_before_month y m'"
proof (induction "m' - m" arbitrary: m')
  case (Suc k)
  then obtain z where z: "m' = Suc z" "k = z - m" "m \<le> z" by (cases m') auto
  then show ?case using Suc.hyps(1) [of z] Suc.prems(1) by simp
qed simp

lemma ordinal_bounds: "valid_date y m d \<Longrightarrow> 1 \<le> ordinal y m d \<and> ordinal y m d \<le> 3652059"
proof -
  assume v: "valid_date y m d"
  then have "days_before_month y m + d \<le> days_before_month y (Suc m)" by (simp add: valid_date_def)
  also have "\<dots> \<le> days_before_month y 13" using v by (intro days_before_month_mono) (auto simp: valid_date_def)
  also have "\<dots> = year_length y" by (rule days_before_month_13)
  finally have "ordinal y m d \<le> days_before_year (Suc y)"
    using v days_before_year_Suc [of y] by (simp add: ordinal_def valid_date_def)
  also have "\<dots> \<le> days_before_year 10000" using v by (intro days_before_year_mono) (auto simp: valid_date_def)
  also have "days_before_year 10000 = 3652059" by (simp add: days_before_year_def)
  finally show ?thesis using v by (simp add: ordinal_def valid_date_def)
qed

lemma hms_us_bounds: "valid_time h m s u \<Longrightarrow> 0 \<le> hms_us h m s u \<and> hms_us h m s u < day_us"
  by (simp add: valid_time_def hms_us_def day_us_def)

lemma utc_converts:
  assumes "valid_datetime t" and "dt_offset t = Some 0"
  shows "\<exists>u. astimezone_utc t = Inr u"
proof -
  let ?o = "int (ordinal (dt_year t) (dt_month t) (dt_day t))"
  let ?h = "hms_us (dt_hour t) (dt_minute t) (dt_second t) (dt_micro t)"
  have o: "1 \<le> ?o" "?o \<le> 3652059" and h: "0 \<le> ?h" "?h < day_us"
    using assms(1) ordinal_bounds [of "dt_year t" "dt_month t" "dt_day t"]
      hms_us_bounds [of "dt_hour t" "dt_minute t" "dt_second t" "dt_micro t"]
    by (auto simp: valid_datetime_def)
  have "instant t = ?o * day_us + ?h" using assms(2) by (simp add: instant_def)
  then have "instant t div day_us = ?o" using h by (simp add: day_us_def)
  then show ?thesis using o by (auto simp: astimezone_utc_def of_instant_def Let_def split: prod.split)
qed

end
