(* ===== verification/OpenOrders.thy ===== *)
theory OpenOrders
  imports Contracts PyCal Storage
begin

text \<open>
  The inbound-shipment ledger (\<open>src/shelfwise_backend/open_orders.py\<close>): shipment events are folded into
  one receiving record per order, late events are ignored, and the remaining units are aggregated per
  sku. The Postgres store reads the record and writes it in two statements; \<open>pgo_write\<close> is the guarded
  upsert.
\<close>

section \<open>Reading a shipment event\<close>

record shipment =
  sh_order_id :: string
  sh_sku :: string
  sh_supplier :: string
  sh_ordered :: int
  sh_received :: int
  sh_eta :: "string option"

definition parse_eta :: "pyval \<Rightarrow> string option result" where
  "parse_eta v =
     (if v = PyNone \<or> strip (py_str v) = [] then Inr None
      else case fromisoformat (replace_char (CHR ''Z'') ''+00:00'' (strip (py_str v))) of
        None \<Rightarrow> Inr None
      | Some t \<Rightarrow>
          bind_res (astimezone_utc (if dt_offset t = None then t\<lparr>dt_offset := Some 0\<rparr> else t))
            (\<lambda>u. Inr (Some (isoformat u))))"

text \<open>\<open>int(...)\<close> under \<open>except (TypeError, ValueError)\<close>: an overflow is not caught.\<close>

definition units_of :: "pyval \<Rightarrow> int option result" where
  "units_of v = (case py_int v of
       Inr n \<Rightarrow> Inr (Some n)
     | Inl (OverflowError m) \<Rightarrow> Inl (OverflowError m)
     | Inl _ \<Rightarrow> Inr None)"

definition shipment_payload :: "event \<Rightarrow> shipment option result" where
  "shipment_payload e =
     (if ev_type e \<noteq> SHIPMENT then Inr None
      else
        (let p = ev_payload e in
         bind_res (units_of (py_or (py_or (get p ''ordered_units'') (get p ''quantity'')) (PyInt 0))) (\<lambda>ordered.
         bind_res (if ordered = None then Inr None
                   else units_of (py_or (get p ''received_units'') (PyInt 0))) (\<lambda>received.
           case (ordered, received) of
             (Some n, Some r) \<Rightarrow>
               (let sku = strip (str_or p ''sku'' []) in
                if sku = [] \<or> n \<le> 0 then Inr None
                else bind_res (parse_eta (get p ''eta'')) (\<lambda>eta.
                  if truthy (get p ''eta'') \<and> eta = None then Inr None
                  else Inr (Some \<lparr>sh_order_id = py_str (py_or (py_or (get p ''order_id'') (get p ''po_id''))
                                    (PyStr (''po:'' @ ev_id e))),
                         sh_sku = sku,
                         sh_supplier = py_str (py_or (py_or (get p ''supplier_id'') (get p ''supplier''))
                                    (PyStr ''unknown'')),
                         sh_ordered = n, sh_received = max r 0, sh_eta = eta\<rparr>)))
           | _ \<Rightarrow> Inr None))))"

section \<open>The receiving record\<close>

record order =
  or_tenant :: string
  or_domain :: string
  or_order_id :: string
  or_sku :: string
  or_supplier :: string
  or_ordered :: int
  or_received :: int
  or_remaining :: int
  or_eta :: "string option"
  or_status :: string
  or_source :: string
  or_event_ts :: string
  or_updated :: string

definition event_timestamp :: "event \<Rightarrow> string result" where
  "event_timestamp e =
     (let t = ev_ts e in
      bind_res (astimezone_utc (if dt_offset t = None then t\<lparr>dt_offset := Some 0\<rparr> else t))
        (\<lambda>u. Inr (isoformat u)))"

definition is_stale_event :: "string \<Rightarrow> string \<Rightarrow> bool" where
  "is_stale_event incoming existing =
     (if existing = [] then False
      else case fromisoformat (replace_char (CHR ''Z'') ''+00:00'' existing) of
        None \<Rightarrow> False
      | Some cur \<Rightarrow> (case fromisoformat incoming of
          None \<Rightarrow> False
        | Some inc \<Rightarrow> instant inc < instant cur))"

definition fresh_order :: "event \<Rightarrow> shipment \<Rightarrow> string \<Rightarrow> int \<Rightarrow> order" where
  "fresh_order e p ts received =
     (let remaining = max (sh_ordered p - received) 0 in
      \<lparr>or_tenant = ev_tenant_id e, or_domain = domain_value (ev_data_domain e),
       or_order_id = sh_order_id p, or_sku = sh_sku p, or_supplier = sh_supplier p,
       or_ordered = sh_ordered p, or_received = received, or_remaining = remaining,
       or_eta = sh_eta p, or_status = (if remaining > 0 then ''open'' else ''fulfilled''),
       or_source = ev_id e, or_event_ts = ts, or_updated = ts\<rparr>)"

definition order_record :: "event \<Rightarrow> shipment \<Rightarrow> order option \<Rightarrow> order result" where
  "order_record e p existing =
     bind_res (event_timestamp e) (\<lambda>ts. Inr (case existing of
         None \<Rightarrow> fresh_order e p ts (sh_received p)
       | Some x \<Rightarrow>
           if is_stale_event ts (or_event_ts x) then x
           else fresh_order e p ts (max (sh_received p) (or_received x))))"

section \<open>The in-memory store\<close>

type_synonym order_key = "string \<times> string \<times> string"
type_synonym order_store = "(order_key, order) dict"

definition order_key :: "event \<Rightarrow> shipment \<Rightarrow> order_key" where
  "order_key e p = (ev_tenant_id e, domain_value (ev_data_domain e), sh_order_id p)"

definition oo_observe_event :: "event \<Rightarrow> order_store \<Rightarrow> order_store \<times> order option result" where
  "oo_observe_event e s = (case shipment_payload e of
       Inl x \<Rightarrow> (s, Inl x)
     | Inr None \<Rightarrow> (s, Inr None)
     | Inr (Some p) \<Rightarrow>
         (case order_record e p (dict_get s (order_key e p)) of
            Inl x \<Rightarrow> (s, Inl x)
          | Inr r \<Rightarrow> (dict_set (order_key e p) r s, Inr (Some r))))"

definition oo_select :: "string \<Rightarrow> string option \<Rightarrow> order_store \<Rightarrow> order list" where
  "oo_select tenant dm s =
     map snd (filter (\<lambda>((t, d, i), r). t = tenant \<and> (dm = None \<or> dm = Some d)) s)"

definition oo_list :: "string \<Rightarrow> string option \<Rightarrow> int \<Rightarrow> order_store \<Rightarrow> order list result" where
  "oo_list tenant dm limit s =
     bind_res (validate_limit limit) (\<lambda>_. Inr (take (nat limit) (sorted_by_desc or_updated (oo_select tenant dm s))))"

record coverage_item =
  cv_remaining :: int
  cv_etas :: "string list"
  cv_order_ids :: "string list"

definition cover_order :: "order \<Rightarrow> (string, coverage_item) dict \<Rightarrow> (string, coverage_item) dict" where
  "cover_order r cov =
     (if or_status r \<noteq> ''open'' \<or> or_remaining r \<le> 0 then cov
      else
        (let item = (case dict_get cov (or_sku r) of
               Some i \<Rightarrow> i | None \<Rightarrow> \<lparr>cv_remaining = 0, cv_etas = [], cv_order_ids = []\<rparr>)
         in dict_set (or_sku r)
              \<lparr>cv_remaining = cv_remaining item + or_remaining r,
               cv_etas = cv_etas item @
                 (case or_eta r of Some t \<Rightarrow> (if t \<noteq> [] then [t] else []) | None \<Rightarrow> []),
               cv_order_ids = cv_order_ids item @ [or_order_id r]\<rparr> cov))"

record coverage_out =
  co_remaining :: int
  co_order_ids :: "string list"
  co_eta :: "string option"

definition oo_coverage :: "string \<Rightarrow> string option \<Rightarrow> order_store \<Rightarrow> (string, coverage_out) dict" where
  "oo_coverage tenant dm s =
     map (\<lambda>(sku, i). (sku, \<lparr>co_remaining = cv_remaining i, co_order_ids = cv_order_ids i,
            co_eta = (if cv_etas i = [] then None else Some (hd (sort (cv_etas i))))\<rparr>))
       (fold cover_order (oo_select tenant dm s) [])"

definition oo_clear :: "order_store \<Rightarrow> order_store" where
  "oo_clear s = []"

section \<open>The Postgres store\<close>

text \<open>
  \<open>_get\<close> and the guarded upsert are two statements. The table is the same dictionary (its primary key is
  the order key); the guard compares the \<open>timestamptz\<close> column \<open>updated_at\<close>.
\<close>

definition pgo_get :: "order_key \<Rightarrow> order_store \<Rightarrow> order option" where
  "pgo_get k s = dict_get s k"

definition pgo_write :: "order_key \<Rightarrow> order \<Rightarrow> order_store \<Rightarrow> order_store" where
  "pgo_write k r s = (case dict_get s k of
       None \<Rightarrow> dict_set k r s
     | Some x \<Rightarrow> if is_stale_event (or_updated r) (or_updated x) then s else dict_set k r s)"

definition pgo_observe_event :: "event \<Rightarrow> order_store \<Rightarrow> order_store \<times> order option result" where
  "pgo_observe_event e s = (case shipment_payload e of
       Inl x \<Rightarrow> (s, Inl x)
     | Inr None \<Rightarrow> (s, Inr None)
     | Inr (Some p) \<Rightarrow>
         (case order_record e p (pgo_get (order_key e p) s) of
            Inl x \<Rightarrow> (s, Inl x)
          | Inr r \<Rightarrow> (let s' = pgo_write (order_key e p) r s in (s', Inr (pgo_get (order_key e p) s')))))"

section \<open>Lemmas on timestamps\<close>

definition ts_at :: "string \<Rightarrow> int \<Rightarrow> bool" where
  "ts_at s i \<longleftrightarrow> (\<exists>u. s = isoformat u \<and> valid_datetime u \<and> dt_offset u = Some 0 \<and> instant u = i)"

lemma ts_at_parse:
  assumes "ts_at s i"
  obtains u where "fromisoformat s = Some u" and "fromisoformat (replace_char (CHR ''Z'') ''+00:00'' s) = Some u"
    and "instant u = i" and "s \<noteq> []"
proof -
  from assms obtain u where u: "s = isoformat u" "valid_datetime u" "instant u = i" by (auto simp: ts_at_def)
  have "replace_char (CHR ''Z'') ''+00:00'' s = s"
    using isoformat_no_Z [of u] u(1) by (simp add: replace_char_absent)
  moreover have "s \<noteq> []" using u(1) by (simp add: isoformat_def four_def two_def)
  ultimately show ?thesis using that u by simp
qed

lemma event_timestamp_at:
  "event_timestamp e = Inr ts \<Longrightarrow> dt_offset (ev_ts e) \<noteq> None \<Longrightarrow> ts_at ts (instant (ev_ts e))"
  by (auto simp: event_timestamp_def Let_def bind_res_Inr_iff ts_at_def dest!: astimezone_utc_spec)

lemma is_stale_iff: "ts_at a i \<Longrightarrow> ts_at b j \<Longrightarrow> is_stale_event a b \<longleftrightarrow> i < j"
  by (elim ts_at_parse) (simp add: is_stale_event_def)

section \<open>The invariant of a record\<close>

definition order_ok :: "order \<Rightarrow> bool" where
  "order_ok r \<longleftrightarrow> 0 \<le> or_received r \<and> or_remaining r = max (or_ordered r - or_received r) 0 \<and>
     or_status r = (if or_remaining r > 0 then ''open'' else ''fulfilled'') \<and>
     or_updated r = or_event_ts r \<and> (\<exists>i. ts_at (or_event_ts r) i)"

definition order_instant :: "order \<Rightarrow> int" where
  "order_instant r = (case fromisoformat (or_event_ts r) of Some u \<Rightarrow> instant u | None \<Rightarrow> 0)"

definition orders_ok :: "order_store \<Rightarrow> bool" where
  "orders_ok s \<longleftrightarrow> dict_wf s \<and> dict_all order_ok s"

definition advances :: "order \<Rightarrow> order \<Rightarrow> bool" where
  "advances r r' \<longleftrightarrow> order_instant r \<le> order_instant r' \<and> or_received r \<le> or_received r'"

lemma advances_refl [simp]: "advances r r"
  by (simp add: advances_def)

lemma advances_trans: "advances a b \<Longrightarrow> advances b c \<Longrightarrow> advances a c"
  by (auto simp: advances_def)

lemma order_instant_at: "ts_at (or_event_ts r) i \<Longrightarrow> order_instant r = i"
  by (elim ts_at_parse) (simp add: order_instant_def)

lemma shipment_received: "shipment_payload e = Inr (Some p) \<Longrightarrow> 0 \<le> sh_received p \<and> 0 < sh_ordered p"
  by (auto simp: shipment_payload_def Let_def bind_res_Inr_iff split: if_splits option.splits prod.splits)

lemma fresh_order_simps [simp]:
  "or_received (fresh_order e p ts n) = n" "or_event_ts (fresh_order e p ts n) = ts"
  by (simp_all add: fresh_order_def Let_def)

lemma fresh_order_ok: "ts_at ts i \<Longrightarrow> 0 \<le> n \<Longrightarrow> order_ok (fresh_order e p ts n)"
  by (auto simp: fresh_order_def order_ok_def Let_def)

lemma order_record_ok:
  assumes "order_record e p existing = Inr r" and "shipment_payload e = Inr (Some p)"
    and "dt_offset (ev_ts e) \<noteq> None" and "\<And>x. existing = Some x \<Longrightarrow> order_ok x"
  shows "order_ok r \<and> (\<forall>x. existing = Some x \<longrightarrow> advances x r)"
proof -
  obtain ts where ts: "event_timestamp e = Inr ts" using assms(1) by (auto simp: order_record_def bind_res_Inr_iff)
  have at: "ts_at ts (instant (ev_ts e))" by (rule event_timestamp_at [OF ts assms(3)])
  have rec: "0 \<le> sh_received p" using shipment_received [OF assms(2)] by simp
  show ?thesis
  proof (cases existing)
    case None
    then show ?thesis using assms(1) ts fresh_order_ok [OF at rec] by (auto simp: order_record_def)
  next
    case (Some x)
    then have x: "order_ok x" using assms(4) by simp
    then obtain i where i: "ts_at (or_event_ts x) i" by (auto simp: order_ok_def)
    show ?thesis
    proof (cases "is_stale_event ts (or_event_ts x)")
      case True
      then have "r = x" using assms(1) Some ts by (simp add: order_record_def)
      then show ?thesis using Some x by simp
    next
      case False
      then have le: "i \<le> instant (ev_ts e)" using is_stale_iff [OF at i] by simp
      have "r = fresh_order e p ts (max (sh_received p) (or_received x))"
        using assms(1) Some ts False by (simp add: order_record_def)
      then have r: "or_event_ts r = ts" "or_received r = max (sh_received p) (or_received x)" "order_ok r"
        using fresh_order_ok [OF at, of "max (sh_received p) (or_received x)"] rec by simp_all
      then have "order_instant r = instant (ev_ts e)" using at by (intro order_instant_at) simp
      then show ?thesis using r le Some order_instant_at [OF i] by (simp add: advances_def)
    qed
  qed
qed

lemma oo_observe_cases:
  obtains (skip) "fst (oo_observe_event e s) = s"
    | (put) p r where "shipment_payload e = Inr (Some p)" and "order_record e p (dict_get s (order_key e p)) = Inr r"
        and "fst (oo_observe_event e s) = dict_set (order_key e p) r s"
proof (cases "shipment_payload e")
  case (Inl x)
  then show ?thesis using skip by (simp add: oo_observe_event_def)
next
  case (Inr po)
  show ?thesis
  proof (cases po)
    case None
    then show ?thesis using skip Inr by (simp add: oo_observe_event_def)
  next
    case (Some p)
    then show ?thesis
      using skip put Inr by (cases "order_record e p (dict_get s (order_key e p))") (simp_all add: oo_observe_event_def)
  qed
qed

lemma oo_observe_ok:
  assumes "orders_ok s" and "dt_offset (ev_ts e) \<noteq> None"
  shows "orders_ok (fst (oo_observe_event e s)) \<and>
    (\<forall>k r. dict_get s k = Some r \<longrightarrow> (\<exists>r'. dict_get (fst (oo_observe_event e s)) k = Some r' \<and> advances r r'))"
proof (cases rule: oo_observe_cases [of e s])
  case skip
  then show ?thesis using assms(1) by (metis advances_refl)
next
  case (put p r)
  have ex: "order_ok x" if "dict_get s (order_key e p) = Some x" for x
    using assms(1) that by (auto simp: orders_ok_def dest: dict_all_get)
  from order_record_ok [OF put(2,1) assms(2) ex] put(3) show ?thesis
    using assms(1) by (simp add: orders_ok_def)
qed

fun oo_run :: "event list \<Rightarrow> order_store \<Rightarrow> order_store" where
  "oo_run [] s = s"
| "oo_run (e # es) s = oo_run es (fst (oo_observe_event e s))"

lemma oo_run_ok:
  assumes "orders_ok s" and "list_all (\<lambda>e. dt_offset (ev_ts e) \<noteq> None) es"
  shows "orders_ok (oo_run es s) \<and>
    (\<forall>k r. dict_get s k = Some r \<longrightarrow> (\<exists>r'. dict_get (oo_run es s) k = Some r' \<and> advances r r'))"
  using assms
proof (induction es arbitrary: s)
  case (Cons e es)
  let ?s = "fst (oo_observe_event e s)"
  have e: "dt_offset (ev_ts e) \<noteq> None" and es: "list_all (\<lambda>e. dt_offset (ev_ts e) \<noteq> None) es"
    using Cons.prems(2) by auto
  note st = oo_observe_ok [OF Cons.prems(1) e]
  have IH: "orders_ok (oo_run es ?s) \<and>
      (\<forall>k r. dict_get ?s k = Some r \<longrightarrow> (\<exists>r'. dict_get (oo_run es ?s) k = Some r' \<and> advances r r'))"
    using Cons.IH [of ?s] st es by blast
  have "\<exists>r'. dict_get (oo_run es ?s) k = Some r' \<and> advances r r'" if k: "dict_get s k = Some r" for k r
  proof -
    obtain r1 where r1: "dict_get ?s k = Some r1" "advances r r1" using st k by blast
    obtain r2 where "dict_get (oo_run es ?s) k = Some r2" "advances r1 r2" using IH r1(1) by blast
    then show ?thesis using r1(2) advances_trans by blast
  qed
  then show ?case using IH by simp
qed simp

lemma order_record_again:
  assumes "order_record e p existing = Inr r"
  shows "order_record e p (Some r) = Inr r"
proof -
  obtain ts where ts: "event_timestamp e = Inr ts" using assms(1) by (auto simp: order_record_def bind_res_Inr_iff)
  show ?thesis
  proof (cases "is_stale_event ts (or_event_ts r)")
    case True
    then show ?thesis using ts by (simp add: order_record_def)
  next
    case False
    have "r = fresh_order e p ts (max (sh_received p) (or_received r))"
      using assms(1) ts False by (auto simp: order_record_def split: option.splits if_splits)
    then show ?thesis using ts False by (simp add: order_record_def)
  qed
qed

lemma pgo_write_ok:
  assumes "orders_ok s" and "order_record e p (dict_get s k) = Inr r" and "shipment_payload e = Inr (Some p)"
    and "dt_offset (ev_ts e) \<noteq> None"
  shows "pgo_write k r s = dict_set k r s"
proof (cases "dict_get s k")
  case (Some x)
  have x: "order_ok x" using assms(1) Some by (auto simp: orders_ok_def dest: dict_all_get)
  from order_record_ok [OF assms(2-4)] x Some have r: "order_ok r" "advances x r" by auto
  from x r obtain i j where ij: "ts_at (or_event_ts x) i" "ts_at (or_event_ts r) j" by (auto simp: order_ok_def)
  have "\<not> is_stale_event (or_updated r) (or_updated x)"
    using is_stale_iff [OF ij(2,1)] r x order_instant_at [OF ij(1)] order_instant_at [OF ij(2)]
    by (simp add: order_ok_def advances_def)
  then show ?thesis using Some by (simp add: pgo_write_def)
qed (simp add: pgo_write_def)

section \<open>Coverage\<close>

definition open_units :: "order list \<Rightarrow> string \<Rightarrow> int" where
  "open_units rs sku = sum_list (map or_remaining (filter (\<lambda>r. or_sku r = sku \<and> or_status r = ''open'' \<and> 0 < or_remaining r) rs))"

definition covered :: "(string, coverage_item) dict \<Rightarrow> string \<Rightarrow> int" where
  "covered cov sku = (case dict_get cov sku of Some i \<Rightarrow> cv_remaining i | None \<Rightarrow> 0)"

lemma covered_cover_order:
  "covered (cover_order r cov) sku = covered cov sku +
     (if or_sku r = sku \<and> or_status r = ''open'' \<and> 0 < or_remaining r then or_remaining r else 0)"
  by (auto simp: covered_def cover_order_def Let_def split: option.split)

lemma covered_fold: "covered (fold cover_order rs cov) sku = covered cov sku + open_units rs sku"
  by (induction rs arbitrary: cov) (auto simp: covered_cover_order open_units_def)

section \<open>Properties\<close>

text \<open>Two shipment events of one order, the second later and with fewer units received.\<close>

definition demo_shipment :: "string \<Rightarrow> nat \<Rightarrow> int \<Rightarrow> event" where
  "demo_shipment i day received = example_event\<lparr>ev_id := i, ev_type := SHIPMENT,
     ev_ts := \<lparr>dt_year = 2026, dt_month = 7, dt_day = day, dt_hour = 8, dt_minute = 0, dt_second = 0,
       dt_micro = 0, dt_offset = Some 0\<rparr>,
     ev_payload := [(''order_id'', PyStr ''po-1''), (''sku'', PyStr ''4011''), (''ordered_units'', PyInt 10),
       (''received_units'', PyInt received)]\<rparr>"

definition demo_parsed :: "int \<Rightarrow> shipment" where
  "demo_parsed received = \<lparr>sh_order_id = ''po-1'', sh_sku = ''4011'', sh_supplier = ''unknown'', sh_ordered = 10,
     sh_received = received, sh_eta = None\<rparr>"

definition demo_order_key :: order_key where
  "demo_order_key = (''local'', ''operational_twin'', ''po-1'')"

definition received_at :: "order_store \<Rightarrow> order_key \<Rightarrow> int option" where
  "received_at s k = map_option or_received (dict_get s k)"

text \<open>
  C16. Receiving progress never goes back: over any sequence of observed events, in whatever order they
  arrive, the record of an order never moves to an earlier event time and never loses received units;
  every stored record has its remaining units and its status consistent with what was ordered and
  received.
\<close>

theorem receiving_progress_is_monotone:
  assumes "orders_ok s" and "list_all (\<lambda>e. dt_offset (ev_ts e) \<noteq> None) es" and "dict_get s k = Some r"
  shows "\<exists>r'. dict_get (oo_run es s) k = Some r' \<and> order_instant r \<le> order_instant r' \<and>
    or_received r \<le> or_received r' \<and> or_remaining r' = max (or_ordered r' - or_received r') 0 \<and>
    or_status r' = (if or_remaining r' > 0 then ''open'' else ''fulfilled'')"
proof -
  from oo_run_ok [OF assms(1,2)] assms(3) obtain r' where
    r': "dict_get (oo_run es s) k = Some r'" "advances r r'" and ok: "orders_ok (oo_run es s)" by blast
  have "order_ok r'" using ok r'(1) by (auto simp: orders_ok_def dest: dict_all_get)
  then show ?thesis using r' by (auto simp: advances_def order_ok_def)
qed

lemma demo_payload:
  "shipment_payload (demo_shipment i day received) =
     Inr (Some \<lparr>sh_order_id = ''po-1'', sh_sku = ''4011'', sh_supplier = ''unknown'', sh_ordered = 10,
       sh_received = max received 0, sh_eta = None\<rparr>)"
  if "received \<noteq> 0"
proof -
  have "strip (str_or [(''order_id'', PyStr ''po-1''), (''sku'', PyStr ''4011''), (''ordered_units'', PyInt 10),
       (''received_units'', PyInt received)] ''sku'' []) = ''4011''" by (simp add: str_or_def py_or_def) code_simp
  then show ?thesis
    using that by (simp add: shipment_payload_def demo_shipment_def units_of_def py_or_def parse_eta_def)
qed

lemma demo_timestamp: "1 \<le> day \<Longrightarrow> day \<le> 31 \<Longrightarrow> \<exists>ts. event_timestamp (demo_shipment i day received) = Inr ts"
  using utc_converts [of "ev_ts (demo_shipment i day received)"]
  by (auto simp: event_timestamp_def demo_shipment_def valid_datetime_def valid_date_def valid_time_def
      valid_offset_def days_in_month_def day_us_def)

lemma demo_first: "\<exists>r. oo_run [demo_shipment ''e1'' 1 6] [] = [(demo_order_key, r)] \<and> order_ok r \<and> or_received r = 6"
proof -
  have sp: "shipment_payload (demo_shipment ''e1'' 1 6) =
      Inr (Some \<lparr>sh_order_id = ''po-1'', sh_sku = ''4011'', sh_supplier = ''unknown'', sh_ordered = 10,
        sh_received = 6, sh_eta = None\<rparr>)" using demo_payload [of 6 "''e1''" 1] by simp
  have off: "dt_offset (ev_ts (demo_shipment ''e1'' 1 6)) \<noteq> None" by (simp add: demo_shipment_def)
  have "\<exists>ts. event_timestamp (demo_shipment ''e1'' 1 6) = Inr ts" by (rule demo_timestamp) simp_all
  then obtain r where r: "order_record (demo_shipment ''e1'' 1 6)
      \<lparr>sh_order_id = ''po-1'', sh_sku = ''4011'', sh_supplier = ''unknown'', sh_ordered = 10,
        sh_received = 6, sh_eta = None\<rparr> None = Inr r" "or_received r = 6"
    by (auto simp: order_record_def)
  have ok: "order_ok r" using order_record_ok [OF r(1) sp off] by simp
  have key: "order_key (demo_shipment ''e1'' 1 6) \<lparr>sh_order_id = ''po-1'', sh_sku = ''4011'',
      sh_supplier = ''unknown'', sh_ordered = 10, sh_received = 6, sh_eta = None\<rparr> = demo_order_key"
    by (simp add: order_key_def demo_order_key_def demo_shipment_def example_event_def)
  have "fst (oo_observe_event (demo_shipment ''e1'' 1 6) []) = [(demo_order_key, r)]"
    unfolding oo_observe_event_def sp using key r(1) by simp
  then show ?thesis using ok r(2) by simp
qed

theorem receiving_progress_is_monotone_witness:
  "\<exists>r'. dict_get (oo_run [demo_shipment ''e2'' 2 3] (oo_run [demo_shipment ''e1'' 1 6] [])) demo_order_key = Some r' \<and>
    6 \<le> or_received r'"
proof -
  obtain r where r: "oo_run [demo_shipment ''e1'' 1 6] [] = [(demo_order_key, r)]" "order_ok r" "or_received r = 6"
    using demo_first by blast
  have ok: "orders_ok [(demo_order_key, r)]" using r(2) by (simp add: orders_ok_def dict_wf_def)
  have off: "list_all (\<lambda>e. dt_offset (ev_ts e) \<noteq> None) [demo_shipment ''e2'' 2 3]" by (simp add: demo_shipment_def)
  have g: "dict_get [(demo_order_key, r)] demo_order_key = Some r" by simp
  from receiving_progress_is_monotone [OF ok off g] show ?thesis using r by auto
qed

text \<open>
  Observing an event again changes nothing: the record it produces on top of its own record is that
  record. The self-healing ingest path relies on it when it replays an event.
\<close>

theorem observation_is_idempotent:
  assumes "orders_ok s"
  shows "fst (oo_observe_event e (fst (oo_observe_event e s))) = fst (oo_observe_event e s)"
proof (cases "\<exists>p r. shipment_payload e = Inr (Some p) \<and> order_record e p (dict_get s (order_key e p)) = Inr r")
  case True
  then obtain p r where p: "shipment_payload e = Inr (Some p)" "order_record e p (dict_get s (order_key e p)) = Inr r"
    by blast
  have "order_record e p (Some r) = Inr r" by (rule order_record_again [OF p(2)])
  then show ?thesis using p assms by (simp add: oo_observe_event_def orders_ok_def dict_set_same)
next
  case False
  then have "fst (oo_observe_event e s) = s"
    by (auto simp: oo_observe_event_def split: sum.split option.split)
  then show ?thesis by simp
qed

theorem observation_is_idempotent_witness:
  "fst (oo_observe_event (demo_shipment ''e1'' 1 6) (fst (oo_observe_event (demo_shipment ''e1'' 1 6) []))) =
   fst (oo_observe_event (demo_shipment ''e1'' 1 6) [])"
  by (rule observation_is_idempotent) (simp add: orders_ok_def)




text \<open>
  Two concurrent writers can lose received units: when both read the order before either writes, the
  later event's record, computed without the earlier one's progress, replaces it, although one after
  the other they would have kept the larger count. The read and the guarded upsert are not atomic.
\<close>

theorem concurrent_observers_lose_receipts:
  assumes "shipment_payload e1 = Inr (Some p1)" and "shipment_payload e2 = Inr (Some p2)"
    and "order_record e1 p1 (pgo_get k s) = Inr r1" and "order_record e2 p2 (pgo_get k s) = Inr r2"
    and "pgo_get k s = None" and "dt_offset (ev_ts e1) \<noteq> None" and "dt_offset (ev_ts e2) \<noteq> None"
    and "instant (ev_ts e1) \<le> instant (ev_ts e2)" and "sh_received p2 < sh_received p1"
    and "order_record e2 p2 (pgo_get k (pgo_write k r1 s)) = Inr r2'"
  shows "received_at (pgo_write k r2 (pgo_write k r1 s)) k = Some (sh_received p2) \<and>
    received_at (pgo_write k r2' (pgo_write k r1 s)) k = Some (sh_received p1)"
proof -
  obtain t1 t2 where t: "event_timestamp e1 = Inr t1" "event_timestamp e2 = Inr t2"
    using assms(3,4) by (auto simp: order_record_def bind_res_Inr_iff)
  note at1 = event_timestamp_at [OF t(1) assms(6)] and at2 = event_timestamp_at [OF t(2) assms(7)]
  have r1: "r1 = fresh_order e1 p1 t1 (sh_received p1)" and r2: "r2 = fresh_order e2 p2 t2 (sh_received p2)"
    using assms(3-5) t by (simp_all add: order_record_def)
  have ns: "\<not> is_stale_event t2 t1" using is_stale_iff [OF at2 at1] assms(8) by simp
  have s1: "pgo_get k (pgo_write k r1 s) = Some r1" using assms(5) by (simp add: pgo_write_def pgo_get_def)
  have r2': "r2' = fresh_order e2 p2 t2 (max (sh_received p2) (sh_received p1))"
    using assms(10) s1 t ns r1 by (simp add: order_record_def)
  have upd: "or_updated r1 = t1" "or_updated r2 = t2" "or_updated r2' = t2"
    by (simp_all add: r1 r2 r2' fresh_order_def Let_def)
  have "pgo_write k x (pgo_write k r1 s) = dict_set k x (pgo_write k r1 s)" if "or_updated x = t2" for x
    using s1 ns upd that by (simp add: pgo_write_def [of k x] pgo_get_def)
  then show ?thesis using upd assms(9) by (simp add: received_at_def r2 r2')
qed

theorem concurrent_observers_lose_receipts_witness:
  "\<exists>r1 r2. order_record (demo_shipment ''e1'' 1 6) (demo_parsed 6) None = Inr r1 \<and>
     order_record (demo_shipment ''e2'' 2 3) (demo_parsed 3) None = Inr r2 \<and>
     received_at (pgo_write demo_order_key r2 (pgo_write demo_order_key r1 [])) demo_order_key = Some 3"
proof -
  let ?e1 = "demo_shipment ''e1'' 1 6" and ?e2 = "demo_shipment ''e2'' 2 3"
  have p: "shipment_payload ?e1 = Inr (Some (demo_parsed 6))" "shipment_payload ?e2 = Inr (Some (demo_parsed 3))"
    using demo_payload [of 6 "''e1''" 1] demo_payload [of 3 "''e2''" 2] by (simp_all add: demo_parsed_def)
  have ex: "\<exists>ts. event_timestamp ?e1 = Inr ts" "\<exists>ts. event_timestamp ?e2 = Inr ts"
    by (rule demo_timestamp; simp)+
  then obtain r1 r2 where r: "order_record ?e1 (demo_parsed 6) None = Inr r1"
    "order_record ?e2 (demo_parsed 3) None = Inr r2" by (auto simp: order_record_def)
  obtain r2' where r2': "order_record ?e2 (demo_parsed 3) (pgo_get demo_order_key (pgo_write demo_order_key r1 [])) = Inr r2'"
    using ex(2) by (auto simp: order_record_def)
  have "instant (ev_ts ?e1) \<le> instant (ev_ts ?e2)"
    by (simp add: demo_shipment_def instant_def ordinal_def day_us_def)
  moreover have "sh_received (demo_parsed 3) < sh_received (demo_parsed 6)" by (simp add: demo_parsed_def)
  ultimately show ?thesis
    using concurrent_observers_lose_receipts [OF p, of demo_order_key "[]" r1 r2 r2'] r r2'
    by (simp add: pgo_get_def) (auto simp: demo_shipment_def demo_parsed_def)
qed

end
