(* ===== verification/Ingest.thy ===== *)
theory Ingest
  imports EventBus EventStore Inventory OpenOrders
begin

text \<open>
  The ingest pipeline (\<open>src/shelfwise_backend/ingest_pipeline.py\<close>): an event is recorded, its effects are
  applied, it is published and marked as published. The event log is an argument, with the operations
  of the locale \<open>event_log\<close>; the twin projection and the in-process cascade act on the rest of the world.
  A crash is a run of the stages that stops early.
\<close>

section \<open>The stages of an ingest\<close>

record ('s, 'w) ingest_state =
  in_log :: 's
  in_orders :: order_store
  in_inventory :: inventory_store
  in_bus :: event_bus
  in_rest :: 'w

datatype stage = Observe | ProjectInventory | ProjectTwin | Publish | MarkPublished | RunCascade

definition stages :: "bool \<Rightarrow> stage list" where
  "stages worker_on =
     [Observe, ProjectInventory, ProjectTwin, Publish, MarkPublished] @ (if worker_on then [] else [RunCascade])"

text \<open>What the pipeline calls besides the event log: the twin projection and the cascade.\<close>

record 'w ingest_effects =
  fx_twin :: "event \<Rightarrow> 'w \<Rightarrow> 'w \<times> pyval result"
  fx_cascade :: "event \<Rightarrow> 'w \<Rightarrow> 'w \<times> pyval result"

record ingest_result =
  ir_status :: string
  ir_message_id :: "string option"
  ir_inventory :: pyval
  ir_twin :: pyval
  ir_cascade :: pyval

text \<open>One stage: the new state, and the updated response or the error it raises.\<close>

definition run_stage ::
  "(string \<Rightarrow> pyval \<Rightarrow> string \<Rightarrow> 's \<Rightarrow> 's result) \<Rightarrow> 'w ingest_effects \<Rightarrow> string \<Rightarrow> event \<Rightarrow> stage \<Rightarrow>
   ('s, 'w) ingest_state \<Rightarrow> ingest_result \<Rightarrow> ('s, 'w) ingest_state \<times> ingest_result result" where
  "run_stage mark_op fx now e g st res = (case g of
       Observe \<Rightarrow> (case oo_observe_event e (in_orders st) of
           (s, Inl x) \<Rightarrow> (st\<lparr>in_orders := s\<rparr>, Inl x)
         | (s, Inr _) \<Rightarrow> (st\<lparr>in_orders := s\<rparr>, Inr res))
     | ProjectInventory \<Rightarrow> (case iv_project_event now (event_to_dict e) (in_inventory st) of
           (s, Inl x) \<Rightarrow> (st\<lparr>in_inventory := s\<rparr>, Inl x)
         | (s, Inr r) \<Rightarrow> (st\<lparr>in_inventory := s\<rparr>, Inr (res\<lparr>ir_inventory := PyDict r\<rparr>)))
     | ProjectTwin \<Rightarrow> (case fx_twin fx e (in_rest st) of
           (w, Inl x) \<Rightarrow> (st\<lparr>in_rest := w\<rparr>, Inl x)
         | (w, Inr r) \<Rightarrow> (st\<lparr>in_rest := w\<rparr>, Inr (res\<lparr>ir_twin := r\<rparr>)))
     | Publish \<Rightarrow> (case bus_publish e (in_bus st) of
           (b, mid) \<Rightarrow> (st\<lparr>in_bus := b\<rparr>, Inr (res\<lparr>ir_message_id := Some mid\<rparr>)))
     | MarkPublished \<Rightarrow> (case mark_op (ev_tenant_id e) (ev_domain_arg e) (ev_id e) (in_log st) of
           Inl x \<Rightarrow> (st, Inl x)
         | Inr s \<Rightarrow> (st\<lparr>in_log := s\<rparr>, Inr res))
     | RunCascade \<Rightarrow> (case fx_cascade fx e (in_rest st) of
           (w, Inl x) \<Rightarrow> (st\<lparr>in_rest := w\<rparr>, Inl x)
         | (w, Inr r) \<Rightarrow> (st\<lparr>in_rest := w\<rparr>, Inr (res\<lparr>ir_cascade := r\<rparr>))))"

fun run_stages ::
  "(string \<Rightarrow> pyval \<Rightarrow> string \<Rightarrow> 's \<Rightarrow> 's result) \<Rightarrow> 'w ingest_effects \<Rightarrow> string \<Rightarrow> event \<Rightarrow> stage list \<Rightarrow>
   ('s, 'w) ingest_state \<Rightarrow> ingest_result \<Rightarrow> ('s, 'w) ingest_state \<times> ingest_result result" where
  "run_stages mark_op fx now e [] st res = (st, Inr res)"
| "run_stages mark_op fx now e (g # gs) st res = (case run_stage mark_op fx now e g st res of
       (st', Inl x) \<Rightarrow> (st', Inl x)
     | (st', Inr res') \<Rightarrow> run_stages mark_op fx now e gs st' res')"

section \<open>Recording an event\<close>

definition same_event_payload :: "pydict option \<Rightarrow> event \<Rightarrow> bool" where
  "same_event_payload stored e = (case stored of
       None \<Rightarrow> False
     | Some s \<Rightarrow> list_all (\<lambda>(k, v). py_eq (get s k) v) (event_to_dict e))"

definition accepted_result :: ingest_result where
  "accepted_result = \<lparr>ir_status = ''accepted'', ir_message_id = None, ir_inventory = PyNone,
     ir_twin = PyNone, ir_cascade = PyNone\<rparr>"

definition duplicate_result :: ingest_result where
  "duplicate_result = \<lparr>ir_status = ''duplicate'', ir_message_id = None,
     ir_inventory = PyDict [(''status'', PyStr ''not_replayed'')],
     ir_twin = PyDict [(''status'', PyStr ''not_replayed'')], ir_cascade = PyNone\<rparr>"

record 's log_ops =
  lo_record :: "string \<Rightarrow> event \<Rightarrow> 's \<Rightarrow> ('s \<times> bool) result"
  lo_get :: "string \<Rightarrow> pyval \<Rightarrow> string \<Rightarrow> 's \<Rightarrow> pydict option result"
  lo_is_published :: "string \<Rightarrow> pyval \<Rightarrow> string \<Rightarrow> 's \<Rightarrow> bool result"
  lo_mark :: "string \<Rightarrow> pyval \<Rightarrow> string \<Rightarrow> 's \<Rightarrow> 's result"

text \<open>
  \<open>record_pipeline_event\<close>, running the stages \<open>gs\<close>: \<open>stages worker_on\<close> for a run to the end, a prefix of
  them for a run that is interrupted.
\<close>

definition ingest ::
  "'s log_ops \<Rightarrow> 'w ingest_effects \<Rightarrow> string \<Rightarrow> event \<Rightarrow> stage list \<Rightarrow> ('s, 'w) ingest_state \<Rightarrow>
   ('s, 'w) ingest_state \<times> ingest_result result" where
  "ingest ops fx now e gs st = (case lo_record ops now e (in_log st) of
       Inl x \<Rightarrow> (st, Inl x)
     | Inr (s, True) \<Rightarrow> run_stages (lo_mark ops) fx now e gs (st\<lparr>in_log := s\<rparr>) accepted_result
     | Inr (s, False) \<Rightarrow>
         (let st1 = st\<lparr>in_log := s\<rparr> in
          case lo_get ops (ev_tenant_id e) (ev_domain_arg e) (ev_id e) s of
            Inl x \<Rightarrow> (st1, Inl x)
          | Inr stored \<Rightarrow>
              if \<not> same_event_payload stored e
              then (st1, Inl (HTTPException 409 ''Event id already has different content''))
              else (case lo_is_published ops (ev_tenant_id e) (ev_domain_arg e) (ev_id e) s of
                Inl x \<Rightarrow> (st1, Inl x)
              | Inr True \<Rightarrow> (st1, Inr duplicate_result)
              | Inr False \<Rightarrow> run_stages (lo_mark ops) fx now e gs st1 accepted_result)))"

definition record_pipeline_event ::
  "'s log_ops \<Rightarrow> 'w ingest_effects \<Rightarrow> bool \<Rightarrow> string \<Rightarrow> event \<Rightarrow> ('s, 'w) ingest_state \<Rightarrow>
   ('s, 'w) ingest_state \<times> ingest_result result" where
  "record_pipeline_event ops fx worker_on now e st = ingest ops fx now e (stages worker_on) st"

definition mem_ops :: "event_store log_ops" where
  "mem_ops = \<lparr>lo_record = (\<lambda>now e s. Inr (es_record now e s)), lo_get = es_get,
     lo_is_published = es_is_published, lo_mark = es_mark_published\<rparr>"

definition pg_ops :: "environ \<Rightarrow> string option \<Rightarrow> event_table log_ops" where
  "pg_ops env ctx = \<lparr>lo_record = pge_record, lo_get = pge_get env ctx,
     lo_is_published = pge_is_published env ctx, lo_mark = pge_mark_published env ctx\<rparr>"

section \<open>Attempts\<close>

text \<open>A history of attempts, each with its event and the number of stages it gets through.\<close>

fun attempts_run ::
  "'s log_ops \<Rightarrow> 'w ingest_effects \<Rightarrow> bool \<Rightarrow> (string \<times> event \<times> nat) list \<Rightarrow> ('s, 'w) ingest_state \<Rightarrow> ('s, 'w) ingest_state" where
  "attempts_run ops fx won [] st = st"
| "attempts_run ops fx won ((now, e, n) # xs) st =
     attempts_run ops fx won xs (fst (ingest ops fx now e (take n (stages won)) st))"

definition on_bus :: "event_bus \<Rightarrow> event_key \<Rightarrow> bool" where
  "on_bus b k \<longleftrightarrow> (\<exists>m \<in> set (bus_messages b). \<exists>e. msg_event m = event_to_dict e \<and> event_key e = k)"

lemma on_bus_publish: "on_bus (fst (bus_publish e b)) k \<longleftrightarrow> on_bus b k \<or> event_key e = k"
proof
  assume "on_bus (fst (bus_publish e b)) k"
  then show "on_bus b k \<or> event_key e = k"
    by (auto simp: on_bus_def bus_publish_def Let_def event_to_dict_def event_key_def)
next
  assume "on_bus b k \<or> event_key e = k"
  then show "on_bus (fst (bus_publish e b)) k"
    by (auto simp: on_bus_def bus_publish_def Let_def)
qed

section \<open>Marking only what was published\<close>

text \<open>A list of stages that marks an event only after it published it; \<open>p\<close> says whether it was before.\<close>

fun marks_after_publish :: "bool \<Rightarrow> stage list \<Rightarrow> bool" where
  "marks_after_publish p [] = True"
| "marks_after_publish p (g # gs) = (case g of
       Publish \<Rightarrow> marks_after_publish True gs
     | MarkPublished \<Rightarrow> p \<and> marks_after_publish p gs
     | _ \<Rightarrow> marks_after_publish p gs)"

lemma marks_after_publish_take: "marks_after_publish p gs \<Longrightarrow> marks_after_publish p (take n gs)"
  by (induction p gs arbitrary: n rule: marks_after_publish.induct)
    (auto simp: take_Cons' split: stage.splits)

lemma stages_marks: "marks_after_publish False (stages won)"
  by (simp add: stages_def)

text \<open>No stage but the log's own raises for this event.\<close>

definition effects_succeed :: "'w ingest_effects \<Rightarrow> string \<Rightarrow> event \<Rightarrow> bool" where
  "effects_succeed fx now e \<longleftrightarrow>
     (\<forall>s. \<not> isl (snd (oo_observe_event e s))) \<and>
     (\<forall>s. \<not> isl (snd (iv_project_event now (event_to_dict e) s))) \<and>
     (\<forall>w. \<not> isl (snd (fx_twin fx e w))) \<and> (\<forall>w. \<not> isl (snd (fx_cascade fx e w)))"

context event_log
begin

definition good where
  "good st \<longleftrightarrow> inv (in_log st) \<and> (\<forall>k. published (in_log st) k \<longrightarrow> on_bus (in_bus st) k)"

definition kept where
  "kept s s' \<longleftrightarrow> (\<forall>k. lookup s k \<noteq> None \<longrightarrow> lookup s' k = lookup s k) \<and> (\<forall>k. published s k \<longrightarrow> published s' k)"

definition ops where
  "ops = \<lparr>lo_record = record_op, lo_get = get_op, lo_is_published = is_published_op, lo_mark = mark_op\<rparr>"

lemma goodD: "good st \<Longrightarrow> published (in_log st) k \<Longrightarrow> on_bus (in_bus st) k"
  by (simp add: good_def del: split_paired_All)

lemma good_inv: "good st \<Longrightarrow> inv (in_log st)"
  by (simp add: good_def)

lemma goodI: "inv (in_log st) \<Longrightarrow> (\<And>k. published (in_log st) k \<Longrightarrow> on_bus (in_bus st) k) \<Longrightarrow> good st"
  by (simp add: good_def del: split_paired_All)

lemma keptI: "(\<And>k. lookup s k \<noteq> None \<Longrightarrow> lookup s' k = lookup s k) \<Longrightarrow>
    (\<And>k. published s k \<Longrightarrow> published s' k) \<Longrightarrow> kept s s'"
  by (simp add: kept_def del: split_paired_All)

lemma kept_lookup: "kept s s' \<Longrightarrow> lookup s k = Some v \<Longrightarrow> lookup s' k = Some v"
  by (simp add: kept_def del: split_paired_All)

lemma kept_published: "kept s s' \<Longrightarrow> published s k \<Longrightarrow> published s' k"
  by (simp add: kept_def del: split_paired_All)

lemma kept_refl [simp]: "kept s s"
  by (simp add: kept_def)

lemma kept_trans: "kept s s' \<Longrightarrow> kept s' s'' \<Longrightarrow> kept s s''"
  by (rule keptI) (auto dest: kept_lookup kept_published)

text \<open>A stage keeps the log and the invariant; only \<open>MarkPublished\<close> needs the event to be on the bus.\<close>

lemma run_stage_good:
  assumes "good st" and "ok e" and "lookup (in_log st) (event_key e) \<noteq> None"
    and "p \<longrightarrow> on_bus (in_bus st) (event_key e)" and "g = MarkPublished \<longrightarrow> p"
    and "run_stage mark_op fx now e g st res = (st', r)"
  shows "good st' \<and> kept (in_log st) (in_log st') \<and>
    (p \<or> g = Publish \<longrightarrow> on_bus (in_bus st') (event_key e)) \<and>
    (g = MarkPublished \<longrightarrow> published (in_log st') (event_key e))"
proof (cases g)
  case Publish
  obtain b mid where b: "bus_publish e (in_bus st) = (b, mid)" by (rule prod.exhaust)
  have on: "on_bus b k \<longleftrightarrow> on_bus (in_bus st) k \<or> event_key e = k" for k
    using on_bus_publish [of e "in_bus st" k] b by simp
  have "st' = st\<lparr>in_bus := b\<rparr>" using assms(6) Publish b by (simp add: run_stage_def)
  moreover from this have "good st'" using goodD [OF assms(1)] good_inv [OF assms(1)] on by (auto intro: goodI)
  ultimately show ?thesis using on [of "event_key e"] Publish by simp
next
  case MarkPublished
  from mark_spec [OF good_inv [OF assms(1)] assms(2,3)] obtain s' where s':
    "mark_op (ev_tenant_id e) (ev_domain_arg e) (ev_id e) (in_log st) = Inr s'" "inv s'"
    "lookup s' = lookup (in_log st)" "published s' = (published (in_log st))(event_key e := True)"
    by blast
  then have st': "st' = st\<lparr>in_log := s'\<rparr>" using assms(6) MarkPublished by (simp add: run_stage_def)
  have "on_bus (in_bus st) k" if "published s' k" for k
    using that s'(4) goodD [OF assms(1)] assms(4,5) MarkPublished by (auto split: if_splits)
  then have "good st'" using st' s'(2) by (auto intro: goodI)
  moreover have "kept (in_log st) s'" using s'(3,4) by (auto intro: keptI)
  ultimately show ?thesis using st' s'(4) assms(4) MarkPublished by simp
qed (use assms in \<open>auto simp: run_stage_def good_def split: prod.splits sum.splits\<close>)

lemma run_stages_good:
  assumes "good st" and "ok e" and "lookup (in_log st) (event_key e) \<noteq> None"
    and "p \<longrightarrow> on_bus (in_bus st) (event_key e)" and "marks_after_publish p gs"
    and "run_stages mark_op fx now e gs st res = (st', r)"
  shows "good st' \<and> kept (in_log st) (in_log st') \<and>
    (\<not> isl r \<longrightarrow> MarkPublished \<in> set gs \<longrightarrow> published (in_log st') (event_key e))"
  using assms
proof (induction gs arbitrary: st res p)
  case (Cons g gs)
  obtain st1 r1 where step: "run_stage mark_op fx now e g st res = (st1, r1)" by (rule prod.exhaust)
  have one: "good st1" "kept (in_log st) (in_log st1)"
    "p \<or> g = Publish \<longrightarrow> on_bus (in_bus st1) (event_key e)"
    "g = MarkPublished \<longrightarrow> published (in_log st1) (event_key e)"
    using run_stage_good [OF Cons.prems(1-4) _ step] Cons.prems(5) by (auto split: stage.splits)
  have next_marks: "marks_after_publish (p \<or> g = Publish) gs" using Cons.prems(5) by (auto split: stage.splits)
  show ?case
  proof (cases r1)
    case (Inl x)
    then show ?thesis using Cons.prems(6) step one by auto
  next
    case (Inr res1)
    then have rest: "run_stages mark_op fx now e gs st1 res1 = (st', r)" using Cons.prems(6) step by simp
    have "lookup (in_log st1) (event_key e) \<noteq> None" using Cons.prems(3) kept_lookup [OF one(2)] by blast
    from Cons.IH [OF one(1) Cons.prems(2) this one(3) next_marks rest] show ?thesis
      using one kept_trans [OF one(2)] by (auto dest: kept_published)
  qed
qed auto

lemma run_stages_answer:
  assumes "good st" and "ok e" and "lookup (in_log st) (event_key e) \<noteq> None"
    and "p \<longrightarrow> on_bus (in_bus st) (event_key e)" and "marks_after_publish p gs" and "effects_succeed fx now e"
  shows "\<not> isl (snd (run_stages mark_op fx now e gs st res))"
  using assms(1-5)
proof (induction gs arbitrary: st res p)
  case (Cons g gs)
  obtain st1 r1 where step: "run_stage mark_op fx now e g st res = (st1, r1)" by (rule prod.exhaust)
  have one: "good st1" "kept (in_log st) (in_log st1)"
    "p \<or> g = Publish \<longrightarrow> on_bus (in_bus st1) (event_key e)"
    using run_stage_good [OF Cons.prems(1-4) _ step] Cons.prems(5) by (auto split: stage.splits)
  have marks: "marks_after_publish (p \<or> g = Publish) gs" using Cons.prems(5) by (auto split: stage.splits)
  have "\<not> isl r1"
    using step assms(6) mark_spec [OF good_inv [OF Cons.prems(1)] Cons.prems(2,3)]
    by (cases g) (auto simp: run_stage_def effects_succeed_def split: prod.splits sum.splits
        dest: spec [where x = "in_orders st"] spec [where x = "in_inventory st"] spec [where x = "in_rest st"])
  then obtain res1 where "r1 = Inr res1" by (cases r1) auto
  moreover have "lookup (in_log st1) (event_key e) \<noteq> None" using Cons.prems(3) kept_lookup [OF one(2)] by blast
  ultimately show ?case using Cons.IH [OF one(1) Cons.prems(2) _ one(3) marks] step by simp
qed simp

lemma stored_ok: "dict_wf (ev_payload e) \<Longrightarrow> items_wf (ev_payload e) \<Longrightarrow>
    same_event_payload (Some (stored_payload now e)) e"
  using py_eq_refl(1) [of "PyDict (ev_payload e)"]
  by (simp add: same_event_payload_def stored_payload_def get_setdefault event_to_dict_def
      split: option.split)

text \<open>What recording does to the log, whether the event is new or not.\<close>

lemma recorded:
  assumes "good st" and "ok e"
  obtains s where "record_op now e (in_log st) = Inr (s, lookup (in_log st) (event_key e) = None)"
    "good (st\<lparr>in_log := s\<rparr>)" "kept (in_log st) s" "published s = published (in_log st)"
    "lookup s (event_key e) = Some (case lookup (in_log st) (event_key e) of
       None \<Rightarrow> stored_payload now e | Some p \<Rightarrow> p)"
proof -
  let ?k = "event_key e" and ?L = "lookup (in_log st)"
  from record_spec [OF good_inv [OF assms(1)] assms(2), of now] obtain s where s:
    "record_op now e (in_log st) = Inr (s, ?L ?k = None)" "inv s" "published s = published (in_log st)"
    "lookup s = (if ?L ?k = None then ?L(?k \<mapsto> stored_payload now e) else ?L)"
    by blast
  have "good (st\<lparr>in_log := s\<rparr>)" using s(2,3) goodD [OF assms(1)] by (auto intro: goodI)
  moreover have "kept (in_log st) s"
    by (rule keptI) (use s(3,4) in \<open>auto split: if_splits\<close>)
  moreover have "lookup s ?k = Some (case ?L ?k of None \<Rightarrow> stored_payload now e | Some p \<Rightarrow> p)"
    using s(4) by (auto split: option.split)
  ultimately show thesis using that s(1,3) by blast
qed

lemma ingest_good:
  assumes good: "good st" and ok: "ok e" and marks: "marks_after_publish False gs"
    and run: "ingest ops fx now e gs st = (st', r)"
  shows "good st' \<and> kept (in_log st) (in_log st') \<and>
    (\<not> isl r \<longrightarrow> MarkPublished \<in> set gs \<longrightarrow> published (in_log st') (event_key e))"
proof -
  obtain s where s: "record_op now e (in_log st) = Inr (s, lookup (in_log st) (event_key e) = None)"
    "good (st\<lparr>in_log := s\<rparr>)" "kept (in_log st) s" "lookup s (event_key e) \<noteq> None"
    using recorded [OF good ok, of now] by (metis option.distinct(1))
  let ?st = "st\<lparr>in_log := s\<rparr>"
  have known: "lookup (in_log ?st) (event_key e) \<noteq> None" using s(4) by simp
  have inv: "inv s" using good_inv [OF s(2)] by simp
  have staged: ?thesis if "run_stages mark_op fx now e gs ?st accepted_result = (st', r)"
    using run_stages_good [OF s(2) ok known _ marks that] kept_trans [OF s(3)] by auto
  have stay: ?thesis if "st' = ?st" and "\<not> isl r \<longrightarrow> published s (event_key e)"
    using that s(2,3) by auto
  show ?thesis
    using run s(1) staged stay get_spec [OF inv ok] is_published_spec [OF inv ok]
    by (auto simp: ingest_def ops_def Let_def split: bool.splits if_splits)
qed

lemma attempts_good:
  assumes "good st" and "list_all (\<lambda>(now, e, n). ok e) xs"
  shows "good (attempts_run ops fx won xs st) \<and> kept (in_log st) (in_log (attempts_run ops fx won xs st))"
  using assms
proof (induction xs arbitrary: st)
  case (Cons x xs)
  obtain now e n where x: "x = (now, e, n)" by (cases x) auto
  obtain st1 r where run: "ingest ops fx now e (take n (stages won)) st = (st1, r)" by (rule prod.exhaust)
  have "good st1" and st1: "kept (in_log st) (in_log st1)"
    using ingest_good [OF Cons.prems(1) _ marks_after_publish_take [OF stages_marks] run] Cons.prems(2) x
    by auto
  then show ?case using Cons.IH [of st1] Cons.prems(2) x run kept_trans [OF st1] by simp
qed simp

lemma acknowledged_is_on_bus:
  assumes "good st" and "ok e" and "record_pipeline_event ops fx won now e st = (st', Inr res)"
  shows "good st' \<and> published (in_log st') (event_key e) \<and> on_bus (in_bus st') (event_key e)"
proof -
  have "MarkPublished \<in> set (stages won)" by (simp add: stages_def)
  then have "good st'" "published (in_log st') (event_key e)"
    using ingest_good [OF assms(1,2) stages_marks] assms(3) by (auto simp: record_pipeline_event_def)
  then show ?thesis using goodD by blast
qed

lemma resubmission:
  assumes "good st" and "ok e" and "lookup (in_log st) (event_key e) = Some stored"
  shows "\<exists>s. good (st\<lparr>in_log := s\<rparr>) \<and> kept (in_log st) s \<and>
    record_pipeline_event ops fx won now e st =
      (if \<not> same_event_payload (Some stored) e
       then (st\<lparr>in_log := s\<rparr>, Inl (HTTPException 409 ''Event id already has different content''))
       else if published (in_log st) (event_key e) then (st\<lparr>in_log := s\<rparr>, Inr duplicate_result)
       else run_stages mark_op fx now e (stages won) (st\<lparr>in_log := s\<rparr>) accepted_result)"
proof -
  obtain s where s: "record_op now e (in_log st) = Inr (s, False)"
    "good (st\<lparr>in_log := s\<rparr>)" "kept (in_log st) s" "published s = published (in_log st)"
    "lookup s (event_key e) = Some stored"
    using recorded [OF assms(1,2), of now] assms(3) by (metis option.distinct(1) option.simps(5))
  have inv: "inv s" using good_inv [OF s(2)] by simp
  show ?thesis
    using s get_spec [OF inv assms(2)] is_published_spec [OF inv assms(2)]
    by (intro exI [of _ s]) (auto simp: record_pipeline_event_def ingest_def ops_def Let_def split: bool.splits)
qed

lemma submission_answered:
  assumes "good st" and "ok e" and "effects_succeed fx now e"
    and "case lookup (in_log st) (event_key e) of None \<Rightarrow> True | Some p \<Rightarrow> same_event_payload (Some p) e"
  shows "\<exists>st' res. record_pipeline_event ops fx won now e st = (st', Inr res)"
proof -
  obtain s where s: "record_op now e (in_log st) = Inr (s, lookup (in_log st) (event_key e) = None)"
    "good (st\<lparr>in_log := s\<rparr>)" "lookup s (event_key e) = Some (case lookup (in_log st) (event_key e) of
       None \<Rightarrow> stored_payload now e | Some p \<Rightarrow> p)"
    using recorded [OF assms(1,2), of now] by blast
  have inv: "inv s" using good_inv [OF s(2)] by simp
  have "\<not> isl (snd (run_stages mark_op fx now e (stages won) (st\<lparr>in_log := s\<rparr>) accepted_result))"
    using run_stages_answer [OF s(2) assms(2) _ _ stages_marks assms(3)] s(3) by simp
  then have "\<not> isl (snd (record_pipeline_event ops fx won now e st))"
    using s(1,3) assms(4) get_spec [OF inv assms(2)] is_published_spec [OF inv assms(2)]
    by (auto simp: record_pipeline_event_def ingest_def ops_def Let_def split: option.splits bool.splits)
  then show ?thesis by (metis prod.collapse sum.collapse(2))
qed

lemma ingest_payload:
  assumes "good st" and "ok e" and "dict_wf (ev_payload e)" and "items_wf (ev_payload e)"
    and "case lookup (in_log st) (event_key e) of None \<Rightarrow> True | Some p \<Rightarrow> same_event_payload (Some p) e"
    and marks: "marks_after_publish False gs" and run: "ingest ops fx now e gs st = (st', r)"
  shows "case lookup (in_log st') (event_key e) of None \<Rightarrow> False | Some p \<Rightarrow> same_event_payload (Some p) e"
proof (cases "lookup (in_log st) (event_key e)")
  case (Some stored)
  have "kept (in_log st) (in_log st')" using ingest_good [OF assms(1,2) marks run] by simp
  then show ?thesis using kept_lookup Some assms(5) by fastforce
next
  case None
  then obtain s where s: "record_op now e (in_log st) = Inr (s, True)" "good (st\<lparr>in_log := s\<rparr>)"
    "lookup s (event_key e) = Some (stored_payload now e)"
    using recorded [OF assms(1,2), of now] by (metis option.simps(4))
  have "run_stages mark_op fx now e gs (st\<lparr>in_log := s\<rparr>) accepted_result = (st', r)"
    using run s(1) by (simp add: ingest_def ops_def)
  from run_stages_good [OF s(2) assms(2) _ _ marks this] s(3)
  have "kept s (in_log st')" by simp
  then show ?thesis using kept_lookup [OF _ s(3)] stored_ok [OF assms(3,4)] by simp
qed

lemma acknowledged_is_stored:
  assumes "good st" and "ok e" and "dict_wf (ev_payload e)" and "items_wf (ev_payload e)"
    and ack: "record_pipeline_event ops fx won now e st = (st', Inr res)"
  shows "\<exists>stored. lookup (in_log st') (event_key e) = Some stored \<and> same_event_payload (Some stored) e"
proof -
  have run: "ingest ops fx now e (stages won) st = (st', Inr res)" using ack by (simp add: record_pipeline_event_def)
  have "case lookup (in_log st) (event_key e) of None \<Rightarrow> True | Some p \<Rightarrow> same_event_payload (Some p) e"
    using resubmission [OF assms(1,2), of _ fx won now] ack by (fastforce split: option.splits if_splits)
  from ingest_payload [OF assms(1-4) this stages_marks run] show ?thesis by (auto split: option.splits)
qed

lemma attempts_payload:
  assumes "good st" and "ok e" and "dict_wf (ev_payload e)" and "items_wf (ev_payload e)"
    and "case lookup (in_log st) (event_key e) of None \<Rightarrow> True | Some p \<Rightarrow> same_event_payload (Some p) e"
  shows "case lookup (in_log (attempts_run ops fx won (map (\<lambda>(t, n). (t, e, n)) xs) st)) (event_key e) of
    None \<Rightarrow> True | Some p \<Rightarrow> same_event_payload (Some p) e"
  using assms(1,5)
proof (induction xs arbitrary: st)
  case (Cons x xs)
  obtain t n where x: "x = (t, n)" by (rule prod.exhaust)
  obtain st1 r where run: "ingest ops fx t e (take n (stages won)) st = (st1, r)" by (rule prod.exhaust)
  have good: "good st1"
    using ingest_good [OF Cons.prems(1) assms(2) marks_after_publish_take [OF stages_marks] run] by simp
  have "case lookup (in_log st1) (event_key e) of None \<Rightarrow> True | Some p \<Rightarrow> same_event_payload (Some p) e"
    using ingest_payload [OF Cons.prems(1) assms(2-4) Cons.prems(2) marks_after_publish_take [OF stages_marks] run]
    by (auto split: option.splits)
  then show ?case using Cons.IH [OF good] x run by simp
qed (simp add: assms)

lemma acknowledged_resubmission:
  assumes "good st" and "ok e" and "dict_wf (ev_payload e)" and "items_wf (ev_payload e)"
    and ack: "record_pipeline_event ops fx won now e st = (st', Inr res)"
    and "list_all (\<lambda>(now, e, n). ok e) ys" and st2: "attempts_run ops fx won ys st' = st2"
  shows "\<exists>s. kept (in_log st2) s \<and>
    record_pipeline_event ops fx won now2 e st2 = (st2\<lparr>in_log := s\<rparr>, Inr duplicate_result)"
proof -
  from acknowledged_is_stored [OF assms(1-5)] obtain stored where st':
    "lookup (in_log st') (event_key e) = Some stored" "same_event_payload (Some stored) e" by blast
  have st'_ok: "good st'" "published (in_log st') (event_key e)"
    using acknowledged_is_on_bus [OF assms(1,2) ack] by simp_all
  from attempts_good [OF st'_ok(1) assms(6), of fx won] st2
  have "good st2" and kept: "kept (in_log st') (in_log st2)" by auto
  from resubmission [OF this(1) assms(2) kept_lookup [OF kept st'(1)], of fx won now2]
  show ?thesis using st'(2) kept_published [OF kept st'_ok(2)] by auto
qed

end

section \<open>Properties\<close>

lemma mem_ops_eq: "mem_ops = mem_log.ops"
  by (simp add: mem_ops_def mem_log.ops_def)

lemma pg_ops_eq: "pg_ops env ctx = pg_log.ops env ctx"
  by (simp add: pg_ops_def pg_log.ops_def)

lemma mem_good_init: "in_log st = es_empty \<Longrightarrow> mem_log.good st"
  by (simp add: mem_log.good_def es_empty_def es_ok_def)

lemma pg_good_init: "in_log st = [] \<Longrightarrow> pg_log.good st"
  by (simp add: pg_log.good_def pge_ok_def pge_published_def pge_lookup_def)

lemma mem_good_run: "in_log st = es_empty \<Longrightarrow> mem_log.good (attempts_run mem_ops fx won xs st)"
  using mem_log.attempts_good [OF mem_good_init, of st xs fx won] by (simp add: mem_ops_eq list_all_iff)

lemma pg_good_run: "in_log st = [] \<Longrightarrow> list_all (\<lambda>(now, e, n). clean_event e) xs \<Longrightarrow>
    pg_log.good (attempts_run (pg_ops env ctx) fx won xs st)"
  using pg_log.attempts_good [OF pg_good_init, of st xs env ctx fx won] by (simp add: pg_ops_eq)

definition no_effects :: "unit ingest_effects" where
  "no_effects = \<lparr>fx_twin = (\<lambda>e w. (w, Inr PyNone)), fx_cascade = (\<lambda>e w. (w, Inr PyNone))\<rparr>"

definition empty_pipeline :: "'s \<Rightarrow> ('s, unit) ingest_state" where
  "empty_pipeline s = \<lparr>in_log = s, in_orders = [], in_inventory = iv_empty, in_bus = bus_init 3, in_rest = ()\<rparr>"

definition demo_scan :: event where
  "demo_scan = example_event\<lparr>ev_type := SCAN\<rparr>"

lemma demo_scan_ok: "clean_event demo_scan" "dict_wf (ev_payload demo_scan)" "items_wf (ev_payload demo_scan)"
  using example_event_clean by (simp_all add: demo_scan_def clean_event_def example_event_def dict_wf_def)

lemma demo_scan_effects: "effects_succeed no_effects now demo_scan"
proof -
  have "shipment_payload demo_scan = Inr None" by (simp add: shipment_payload_def demo_scan_def)
  moreover have "projection_input (event_to_dict demo_scan) = None"
  proof -
    have t: "lower (strip (str_or (event_to_dict demo_scan) ''type'' [])) = ''scan''"
    proof -
      have "get (event_to_dict demo_scan) ''type'' = PyStr ''scan''" by (simp add: event_to_dict_def demo_scan_def)
      moreover have "lower (strip (py_str (py_or (PyStr ''scan'') (PyStr [])))) = ''scan''" by code_simp
      ultimately show ?thesis by (simp add: str_or_def)
    qed
    show ?thesis unfolding projection_input_def t by simp
  qed
  ultimately show ?thesis
    by (simp add: effects_succeed_def oo_observe_event_def iv_project_event_def no_effects_def)
qed

lemma pg_resubmission_answered:
  assumes "in_log st = []" and "clean_event e" and "dict_wf (ev_payload e)" and "items_wf (ev_payload e)"
    and "effects_succeed fx now e"
  shows "\<exists>st' res. record_pipeline_event (pg_ops env ctx) fx won now e
      (attempts_run (pg_ops env ctx) fx won (map (\<lambda>(t, n). (t, e, n)) xs) st) = (st', Inr res)"
proof -
  let ?xs = "map (\<lambda>(t, n). (t, e, n)) xs"
  let ?st = "attempts_run (pg_ops env ctx) fx won ?xs st"
  have clean: "list_all (\<lambda>(t, e, n). clean_event e) ?xs" using assms(2) by (auto simp: list_all_iff)
  have "case map_option er_payload (pge_lookup (in_log ?st) (event_key e)) of
      None \<Rightarrow> True | Some p \<Rightarrow> same_event_payload (Some p) e"
    using pg_log.attempts_payload [OF pg_good_init [OF assms(1)] assms(2-4), of env ctx fx won xs] assms(1)
    by (simp add: pg_ops_eq pge_lookup_def)
  from pg_log.submission_answered [OF pg_good_run [OF assms(1) clean] assms(2,5) this]
  show ?thesis by (simp add: pg_ops_eq)
qed

text \<open>
  C1. An acknowledged event is never orphaned. After any history of attempts, each interrupted by a
  crash after any number of its stages, a request that is answered (accepted or duplicate) leaves its
  event recorded and flagged in the event table and on the bus; the crash window between publishing
  and marking is healed by the next attempt.
\<close>

theorem acknowledged_events_are_published:
  assumes "in_log st = []" and "list_all (\<lambda>(now, e, n). clean_event e) xs" and "clean_event e"
    and "record_pipeline_event (pg_ops env ctx) fx won now e
      (attempts_run (pg_ops env ctx) fx won xs st) = (st', Inr res)"
  shows "pge_lookup (in_log st') (event_key e) \<noteq> None \<and> pge_published (in_log st') (event_key e) \<and>
    on_bus (in_bus st') (event_key e)"
proof -
  have "pge_published (in_log st') (event_key e) \<and> on_bus (in_bus st') (event_key e)"
    using pg_log.acknowledged_is_on_bus [OF pg_good_run [OF assms(1,2)] assms(3)] assms(4) by (simp add: pg_ops_eq)
  then show ?thesis by (auto simp: pge_published_def split: option.splits)
qed

theorem acknowledged_events_are_published_witness:
  "pge_published (in_log (fst (record_pipeline_event (pg_ops Map.empty None) no_effects True ''t2'' demo_scan
      (attempts_run (pg_ops Map.empty None) no_effects True [(''t1'', demo_scan, 4)] (empty_pipeline [])))))
     (event_key demo_scan)"
proof -
  have e: "in_log (empty_pipeline []) = []" by (simp add: empty_pipeline_def)
  have c: "list_all (\<lambda>(now, e, n). clean_event e) [(''t1'', demo_scan, 4)]" using demo_scan_ok(1) by simp
  obtain st' res where "record_pipeline_event (pg_ops Map.empty None) no_effects True ''t2'' demo_scan
      (attempts_run (pg_ops Map.empty None) no_effects True [(''t1'', demo_scan, 4)] (empty_pipeline [])) = (st', Inr res)"
    using pg_resubmission_answered [OF e demo_scan_ok demo_scan_effects,
      where env = Map.empty and ctx = None and won = True and xs = "[(''t1'', 4)]" and now = "''t2''"] by auto
  from acknowledged_events_are_published [OF e c demo_scan_ok(1) this] this show ?thesis by simp
qed



text \<open>
  A duplicate is inert, and an id cannot be reused for other content. Once an event was answered,
  whatever is ingested afterwards, resubmitting it answers \<open>duplicate\<close> and leaves the orders, the
  inventory, the bus and the rest of the world as they are; a different event under the same id is
  refused with a 409 and changes none of them either.
\<close>

theorem duplicates_are_inert:
  assumes "in_log st0 = es_empty" and "st = attempts_run mem_ops fx won xs st0"
    and "dict_wf (ev_payload e)" and "items_wf (ev_payload e)"
    and "record_pipeline_event mem_ops fx won now e st = (st1, Inr res)"
    and "st2 = attempts_run mem_ops fx won ys st1"
    and "event_key e' = event_key e"
    and "\<not> same_event_payload (dict_get (es_events (in_log st2)) (event_key e)) e'"
  shows "(\<exists>s. record_pipeline_event mem_ops fx won now2 e st2 = (st2\<lparr>in_log := s\<rparr>, Inr duplicate_result)) \<and>
    (\<exists>s. record_pipeline_event mem_ops fx won now2 e' st2 =
       (st2\<lparr>in_log := s\<rparr>, Inl (HTTPException 409 ''Event id already has different content'')))"
proof
  have good: "mem_log.good st" using mem_good_run [OF assms(1)] assms(2) by simp
  have oks: "list_all (\<lambda>(now, e, n). True) ys" by (simp add: list_all_iff)
  have run: "record_pipeline_event mem_log.ops fx won now e st = (st1, Inr res)"
    "attempts_run mem_log.ops fx won ys st1 = st2" using assms(5,6) by (simp_all add: mem_ops_eq)
  show "\<exists>s. record_pipeline_event mem_ops fx won now2 e st2 = (st2\<lparr>in_log := s\<rparr>, Inr duplicate_result)"
    using mem_log.acknowledged_resubmission [OF good TrueI assms(3,4) run(1) oks run(2)] by (auto simp: mem_ops_eq)
  have st1: "mem_log.good st1" using mem_log.acknowledged_is_on_bus [OF good TrueI run(1)] by simp
  from mem_log.acknowledged_is_stored [OF good TrueI assms(3,4) run(1)] obtain stored where
    "dict_get (es_events (in_log st1)) (event_key e) = Some stored" by blast
  with mem_log.attempts_good [OF st1 oks, of fx won] run(2) mem_log.kept_lookup
  have "mem_log.good st2" and "dict_get (es_events (in_log st2)) (event_key e') = Some stored"
    using assms(7) by fastforce+
  from mem_log.resubmission [OF this(1) TrueI this(2), of fx won now2] assms(7,8) this(2)
  show "\<exists>s. record_pipeline_event mem_ops fx won now2 e' st2 =
      (st2\<lparr>in_log := s\<rparr>, Inl (HTTPException 409 ''Event id already has different content''))"
    by (auto simp: mem_ops_eq)
qed

theorem duplicates_are_inert_witness:
  "\<exists>st1 res s. record_pipeline_event mem_ops no_effects True ''t1'' demo_scan (empty_pipeline es_empty) = (st1, Inr res) \<and>
     record_pipeline_event mem_ops no_effects True ''t2'' demo_scan st1 = (st1\<lparr>in_log := s\<rparr>, Inr duplicate_result)"
proof -
  have e: "in_log (empty_pipeline es_empty) = es_empty" by (simp add: empty_pipeline_def)
  obtain st1 res where run: "record_pipeline_event mem_ops no_effects True ''t1'' demo_scan (empty_pipeline es_empty) = (st1, Inr res)"
    using mem_log.submission_answered [OF mem_good_init [OF e] TrueI demo_scan_effects, of True "''t1''"] e
    by (auto simp: mem_ops_eq es_empty_def empty_pipeline_def)
  have run': "record_pipeline_event mem_log.ops no_effects True ''t1'' demo_scan (empty_pipeline es_empty) = (st1, Inr res)"
    using run by (simp add: mem_ops_eq)
  from mem_log.acknowledged_is_stored [OF mem_good_init [OF e] TrueI demo_scan_ok(2,3) run'] obtain stored where
    "dict_get (es_events (in_log st1)) (event_key demo_scan) = Some stored" "same_event_payload (Some stored) demo_scan"
    by blast
  then have "py_eq (get stored ''actor'') (PyStr ''till_4'')"
    by (simp add: same_event_payload_def event_to_dict_def demo_scan_def example_event_def)
  then have "get stored ''actor'' = PyStr ''till_4''"
    by (cases "get stored ''actor''") (auto simp: num_eq_def num_of_def split: option.splits)
  then have other: "\<not> same_event_payload (dict_get (es_events (in_log st1)) (event_key demo_scan)) (demo_scan\<lparr>ev_actor := ''x''\<rparr>)"
    using \<open>dict_get _ _ = Some stored\<close> by (simp add: same_event_payload_def event_to_dict_def)
  have key: "event_key (demo_scan\<lparr>ev_actor := ''x''\<rparr>) = event_key demo_scan" by (simp add: event_key_def)
  from duplicates_are_inert [OF e _ demo_scan_ok(2,3) run _ key other, of "[]" "[]" "''t2''"] run
  show ?thesis by auto
qed

end
