(* ===== verification/Journal.thy ===== *)
theory Journal
  imports PyVal Provenance Storage
begin

text \<open>
  The cascade journal (\<open>src/shelfwise_backend/worker/journal.py\<close>): runs, journaled steps and
  compensations, in memory and in Postgres, and \<open>journaled\<close>, which makes a step of a run happen at
  most once. The locale \<open>step_journal\<close> is what \<open>journaled\<close> needs of a journal.
\<close>

record journal_run =
  run_id :: string
  run_tenant :: string
  run_domain :: string
  run_status :: string
  run_started :: string
  run_finished :: "string option"

definition run_to_dict :: "journal_run \<Rightarrow> pydict" where
  "run_to_dict r =
     [(''run_id'', PyStr (run_id r)), (''tenant_id'', PyStr (run_tenant r)),
      (''data_domain'', PyStr (run_domain r)), (''status'', PyStr (run_status r)),
      (''started_at'', PyStr (run_started r)),
      (''finished_at'', (case run_finished r of None \<Rightarrow> PyNone | Some f \<Rightarrow> PyStr f))]"

section \<open>The in-memory journal\<close>

record journal =
  jr_runs :: "(string, journal_run) dict"
  jr_steps :: "(string \<times> string, pydict) dict"
  jr_comps :: "(string, pydict list) dict"

definition jr_empty :: journal where
  "jr_empty = \<lparr>jr_runs = [], jr_steps = [], jr_comps = []\<rparr>"

definition jr_start_run :: "string \<Rightarrow> string \<Rightarrow> string \<Rightarrow> pyval \<Rightarrow> journal \<Rightarrow> journal result" where
  "jr_start_run now r tenant dm j =
     bind_res (normalize_domain dm OPERATIONAL_TWIN) (\<lambda>d.
       Inr (j\<lparr>jr_runs := dict_setdefault r \<lparr>run_id = r, run_tenant = tenant, run_domain = d,
               run_status = ''running'', run_started = now, run_finished = None\<rparr> (jr_runs j)\<rparr>))"

definition jr_finish_run :: "string \<Rightarrow> string \<Rightarrow> string \<Rightarrow> journal \<Rightarrow> journal" where
  "jr_finish_run now r status j =
     (let existing = dict_get (jr_runs j) r;
          tenant = (case existing of Some e \<Rightarrow> run_tenant e | None \<Rightarrow> ''default'');
          dm = (case existing of Some e \<Rightarrow> run_domain e | None \<Rightarrow> domain_value OPERATIONAL_TWIN);
          started = (case existing of Some e \<Rightarrow> run_started e | None \<Rightarrow> now)
      in j\<lparr>jr_runs := dict_set r \<lparr>run_id = r, run_tenant = tenant, run_domain = dm,
             run_status = status, run_started = started, run_finished = Some now\<rparr> (jr_runs j)\<rparr>)"

definition jr_get :: "string \<Rightarrow> string \<Rightarrow> journal \<Rightarrow> pydict option" where
  "jr_get r k j = dict_get (jr_steps j) (r, k)"

definition jr_put :: "string \<Rightarrow> string \<Rightarrow> pydict \<Rightarrow> pydict option \<Rightarrow> journal \<Rightarrow> journal" where
  "jr_put r k out undo j =
     (let j1 = j\<lparr>jr_steps := dict_setdefault (r, k) out (jr_steps j)\<rparr> in
      case undo of
        None \<Rightarrow> j1
      | Some c \<Rightarrow>
          j1\<lparr>jr_comps := dict_set r ((case dict_get (jr_comps j) r of Some cs \<Rightarrow> cs | None \<Rightarrow> []) @ [c])
               (jr_comps j)\<rparr>)"

definition jr_compensations :: "string \<Rightarrow> journal \<Rightarrow> pydict list" where
  "jr_compensations r j = rev (case dict_get (jr_comps j) r of Some cs \<Rightarrow> cs | None \<Rightarrow> [])"

definition jr_list_runs :: "string option \<Rightarrow> pyval option \<Rightarrow> journal \<Rightarrow> pydict list result" where
  "jr_list_runs tenant dm j =
     (let runs = filter (\<lambda>r. tenant = None \<or> tenant = Some (run_tenant r)) (map snd (jr_runs j)) in
      bind_res (case dm of
          None \<Rightarrow> Inr runs
        | Some v \<Rightarrow> bind_res (normalize_domain v OPERATIONAL_TWIN)
                     (\<lambda>d. Inr (filter (\<lambda>r. run_domain r = d) runs)))
        (\<lambda>rs. Inr (map run_to_dict (sorted_by run_started rs))))"

definition jr_clear :: "journal \<Rightarrow> journal" where
  "jr_clear j = j\<lparr>jr_runs := [], jr_steps := [], jr_comps := []\<rparr>"

section \<open>The Postgres journal\<close>

record step_row =
  st_run :: string
  st_tenant :: string
  st_key :: string
  st_output :: pydict
  st_comp :: "pydict option"
  st_recorded :: string

record journal_db =
  jd_runs :: "journal_run list"
  jd_steps :: "step_row list"

definition pgj_start_run ::
  "environ \<Rightarrow> string option \<Rightarrow> string \<Rightarrow> string \<Rightarrow> string \<Rightarrow> pyval \<Rightarrow> journal_db \<Rightarrow> journal_db result" where
  "pgj_start_run env ctx now r tenant dm db =
     bind_res (normalize_domain dm OPERATIONAL_TWIN) (\<lambda>d.
     bind_res (session_tenant env ctx (Some tenant)) (\<lambda>session.
       if tenant \<noteq> session then Inl (DatabaseError ''new row violates row-level security policy'')
       else if r \<in> run_id ` set (jd_runs db) then Inr db
       else Inr (db\<lparr>jd_runs := jd_runs db @ [\<lparr>run_id = r, run_tenant = tenant, run_domain = d,
              run_status = ''running'', run_started = now, run_finished = None\<rparr>]\<rparr>)))"

definition pgj_finish_run :: "string \<Rightarrow> string \<Rightarrow> string \<Rightarrow> string \<Rightarrow> journal_db \<Rightarrow> journal_db" where
  "pgj_finish_run session now r status db =
     db\<lparr>jd_runs := map (\<lambda>x. if run_tenant x = session \<and> run_id x = r
                            then x\<lparr>run_status := status, run_finished := Some now\<rparr> else x) (jd_runs db)\<rparr>"

definition pgj_get :: "string \<Rightarrow> string \<Rightarrow> string \<Rightarrow> journal_db \<Rightarrow> pydict option" where
  "pgj_get session r k db =
     map_option st_output
       (find_first (\<lambda>x. st_tenant x = session \<and> st_run x = r \<and> st_key x = k) (jd_steps db))"

text \<open>
  The step's tenant is that of the run the session can see, \<open>default\<close> when it sees none; the row must
  satisfy the session's policy, and its run must exist (the foreign key is checked against every row).
\<close>

definition pgj_put ::
  "string \<Rightarrow> string \<Rightarrow> string \<Rightarrow> string \<Rightarrow> pydict \<Rightarrow> pydict option \<Rightarrow> journal_db \<Rightarrow> journal_db result" where
  "pgj_put session now r k out undo db =
     (let run = find_first (\<lambda>x. run_tenant x = session \<and> run_id x = r) (jd_runs db);
          tenant = (case run of Some x \<Rightarrow> run_tenant x | None \<Rightarrow> ''default'')
      in if tenant \<noteq> session then Inl (DatabaseError ''new row violates row-level security policy'')
         else if \<exists>x \<in> set (jd_steps db). st_run x = r \<and> st_key x = k then Inr db
         else if r \<notin> run_id ` set (jd_runs db)
         then Inl (DatabaseError ''insert violates foreign key constraint on run_id'')
         else Inr (db\<lparr>jd_steps := jd_steps db @ [\<lparr>st_run = r, st_tenant = tenant, st_key = k,
                st_output = out, st_comp = undo, st_recorded = now\<rparr>]\<rparr>))"

definition pgj_compensations :: "string \<Rightarrow> string \<Rightarrow> journal_db \<Rightarrow> pydict list" where
  "pgj_compensations session r db =
     concat (map (\<lambda>x. case st_comp x of Some c \<Rightarrow> [c] | None \<Rightarrow> [])
       (sorted_by_desc st_recorded
         (filter (\<lambda>x. st_tenant x = session \<and> st_run x = r \<and> st_comp x \<noteq> None) (jd_steps db))))"

definition pgj_list_runs ::
  "string \<Rightarrow> string option \<Rightarrow> pyval option \<Rightarrow> journal_db \<Rightarrow> pydict list result" where
  "pgj_list_runs session tenant dm db =
     bind_res (case dm of None \<Rightarrow> Inr None
               | Some v \<Rightarrow> bind_res (normalize_domain v OPERATIONAL_TWIN) (\<lambda>d. Inr (Some d)))
       (\<lambda>rd. Inr (map run_to_dict (take 200 (sorted_by_desc run_started (sorted_by run_id
          (filter (\<lambda>x. run_tenant x = session \<and> (tenant = None \<or> tenant = Some (run_tenant x)) \<and>
                       (rd = None \<or> rd = Some (run_domain x))) (jd_runs db)))))))"

definition pgj_clear :: "string \<Rightarrow> journal_db \<Rightarrow> journal_db" where
  "pgj_clear session db =
     (let steps = filter (\<lambda>x. st_tenant x \<noteq> session) (jd_steps db);
          gone = run_id ` set (filter (\<lambda>x. run_tenant x = session) (jd_runs db))
      in db\<lparr>jd_steps := filter (\<lambda>x. st_run x \<notin> gone) steps,
            jd_runs := filter (\<lambda>x. run_tenant x \<noteq> session) (jd_runs db)\<rparr>)"

section \<open>Journaled steps\<close>

text \<open>
  \<open>journaled\<close> over any journal: the world \<open>'w\<close> is whatever the step's function acts on, and the
  function may raise.
\<close>

definition journaled ::
  "(string \<Rightarrow> string \<Rightarrow> 'j \<Rightarrow> pydict option) \<Rightarrow>
   (string \<Rightarrow> string \<Rightarrow> pydict \<Rightarrow> pydict option \<Rightarrow> 'j \<Rightarrow> 'j result) \<Rightarrow>
   string \<Rightarrow> string \<Rightarrow> pydict option \<Rightarrow> ('w \<Rightarrow> 'w \<times> pydict result) \<Rightarrow> 'j \<Rightarrow> 'w \<Rightarrow> ('j \<times> 'w) \<times> pydict result" where
  "journaled get_op put_op r k undo f j w = (case get_op r k j of
       Some seen \<Rightarrow> ((j, w), Inr seen)
     | None \<Rightarrow> (case f w of
         (w', Inl e) \<Rightarrow> ((j, w'), Inl e)
       | (w', Inr out) \<Rightarrow> (case put_op r k out undo j of
           Inl e \<Rightarrow> ((j, w'), Inl e)
         | Inr j' \<Rightarrow> ((j', w'), Inr out))))"

text \<open>Repeated attempts at one step: each attempt may bring another function.\<close>

fun attempts ::
  "(('w \<Rightarrow> 'w \<times> pydict result) \<Rightarrow> 'j \<Rightarrow> 'w \<Rightarrow> ('j \<times> 'w) \<times> pydict result) \<Rightarrow>
   ('w \<Rightarrow> 'w \<times> pydict result) list \<Rightarrow> 'j \<Rightarrow> 'w \<Rightarrow> ('j \<times> 'w) \<times> pydict result list" where
  "attempts run [] j w = ((j, w), [])"
| "attempts run (f # fs) j w =
     (case run f j w of ((j', w'), r) \<Rightarrow>
      case attempts run fs j' w' of (jw, rs) \<Rightarrow> (jw, r # rs))"

definition effects :: "('w \<Rightarrow> 'w \<times> pydict result) list \<Rightarrow> 'w \<Rightarrow> 'w" where
  "effects fs w = foldl (\<lambda>w f. fst (f w)) w fs"

locale step_journal =
  fixes inv :: "'j \<Rightarrow> bool"
    and ready :: "string \<Rightarrow> 'j \<Rightarrow> bool"
    and get_op :: "string \<Rightarrow> string \<Rightarrow> 'j \<Rightarrow> pydict option"
    and put_op :: "string \<Rightarrow> string \<Rightarrow> pydict \<Rightarrow> pydict option \<Rightarrow> 'j \<Rightarrow> 'j result"
  assumes put_new: "inv j \<Longrightarrow> ready r j \<Longrightarrow> get_op r k j = None \<Longrightarrow>
      \<exists>j'. put_op r k out undo j = Inr j' \<and> inv j' \<and> ready r j' \<and> get_op r k j' = Some out \<and>
        (\<forall>r' k'. (r', k') \<noteq> (r, k) \<longrightarrow> get_op r' k' j' = get_op r' k' j)"
begin

abbreviation step :: "string \<Rightarrow> string \<Rightarrow> pydict option \<Rightarrow> ('w \<Rightarrow> 'w \<times> pydict result) \<Rightarrow> 'j \<Rightarrow> 'w \<Rightarrow>
    ('j \<times> 'w) \<times> pydict result" where
  "step \<equiv> journaled get_op put_op"

lemma replay: "get_op r k j = Some v \<Longrightarrow> step r k undo f j w = ((j, w), Inr v)"
  by (simp add: journaled_def)

lemma replays: "get_op r k j = Some v \<Longrightarrow>
    attempts (step r k undo) fs j w = ((j, w), replicate (length fs) (Inr v))"
  by (induction fs) (simp_all add: replay)

lemma first_failure:
  "get_op r k j = None \<Longrightarrow> f w = (w', Inl e) \<Longrightarrow> step r k undo f j w = ((j, w'), Inl e)"
  by (simp add: journaled_def)

lemma first_success:
  assumes "inv j" "ready r j" "get_op r k j = None" "f w = (w', Inr out)"
  shows "\<exists>j'. step r k undo f j w = ((j', w'), Inr out) \<and> inv j' \<and> ready r j' \<and> get_op r k j' = Some out \<and>
    (\<forall>r' k'. (r', k') \<noteq> (r, k) \<longrightarrow> get_op r' k' j' = get_op r' k' j)"
  using put_new [OF assms(1-3), of out undo] assms(3,4) by (auto simp: journaled_def)

lemma at_most_once:
  assumes "inv j" and "ready r j" and "get_op r k j = None"
    and "attempts (step r k undo) fs j w = ((j', w'), rs)"
  shows "\<exists>errs n v. rs = errs @ replicate n (Inr v) \<and> list_all isl errs \<and>
    w' = effects (take (length errs + 1) fs) w"
  using assms
proof (induction fs arbitrary: w j' w' rs)
  case Nil
  then show ?case by (intro exI [of _ "[]"] exI [of _ 0]) (simp add: effects_def)
next
  case (Cons f fs)
  obtain w1 res where f: "f w = (w1, res)" by force
  show ?case
  proof (cases res)
    case (Inl e)
    then have "step r k undo f j w = ((j, w1), Inl e)" using first_failure [OF Cons.prems(3)] f by simp
    then obtain rs' where rs': "attempts (step r k undo) fs j w1 = ((j', w'), rs')" "rs = Inl e # rs'"
      using Cons.prems(4) by (auto split: prod.splits)
    from Cons.IH [OF Cons.prems(1-3) rs'(1)] obtain errs n v where
      "rs' = errs @ replicate n (Inr v)" "list_all isl errs" "w' = effects (take (length errs + 1) fs) w1"
      by blast
    then show ?thesis
      using rs'(2) f by (intro exI [of _ "Inl e # errs"] exI [of _ n] exI [of _ v]) (simp add: effects_def)
  next
    case (Inr out)
    then obtain j1 where j1: "step r k undo f j w = ((j1, w1), Inr out)" "get_op r k j1 = Some out"
      using first_success [OF Cons.prems(1-3), of f w w1 out undo] f Inr by auto
    then have "rs = replicate (Suc (length fs)) (Inr out)" "w' = w1"
      using Cons.prems(4) replays [OF j1(2), of undo fs w1] by auto
    then show ?thesis
      using f by (intro exI [of _ "[]"] exI [of _ "Suc (length fs)"] exI [of _ out])
        (simp add: effects_def)
  qed
qed

end

section \<open>Both journals make steps happen at most once\<close>

lemma jr_get_put [simp]:
  "jr_get r' k' (jr_put r k out undo j) =
     (if (r', k') = (r, k) then (case jr_get r k j of Some v \<Rightarrow> Some v | None \<Rightarrow> Some out) else jr_get r' k' j)"
  by (simp add: jr_get_def jr_put_def Let_def dict_get_setdefault split: option.split)

lemma jr_get_runs [simp]:
  "jr_get r k (j\<lparr>jr_runs := x\<rparr>) = jr_get r k j"
  by (simp add: jr_get_def)

lemma jr_get_finish [simp]: "jr_get r k (jr_finish_run now r' st j) = jr_get r k j"
  by (simp add: jr_finish_run_def Let_def)

lemma jr_get_start: "jr_start_run now r' t dm j = Inr j' \<Longrightarrow> jr_get r k j' = jr_get r k j"
  by (auto simp: jr_start_run_def bind_res_Inr_iff)

interpretation mem_journal: step_journal "\<lambda>j. True" "\<lambda>r j. True" jr_get
  "\<lambda>r k out undo j. Inr (jr_put r k out undo j)"
  by unfold_locales auto

text \<open>
  In Postgres the step's row is written under the tenant of its run, so a session sees the step it
  wrote when it sees the run.
\<close>

definition pgj_ok :: "string \<Rightarrow> journal_db \<Rightarrow> bool" where
  "pgj_ok session db \<longleftrightarrow> distinct (map run_id (jd_runs db)) \<and>
     (\<forall>x \<in> set (jd_steps db). \<exists>y \<in> set (jd_runs db). run_id y = st_run x \<and> run_tenant y = st_tenant x)"

definition pgj_ready :: "string \<Rightarrow> string \<Rightarrow> journal_db \<Rightarrow> bool" where
  "pgj_ready session r db \<longleftrightarrow> (\<exists>x \<in> set (jd_runs db). run_id x = r \<and> run_tenant x = session)"

lemma pgj_no_step:
  assumes "pgj_ok session db" and "pgj_ready session r db" and "pgj_get session r k db = None"
  shows "\<not> (\<exists>x \<in> set (jd_steps db). st_run x = r \<and> st_key x = k)"
proof
  assume "\<exists>x \<in> set (jd_steps db). st_run x = r \<and> st_key x = k"
  then obtain x where x: "x \<in> set (jd_steps db)" "st_run x = r" "st_key x = k" by blast
  with assms(1) obtain y where y: "y \<in> set (jd_runs db)" "run_id y = r" "run_tenant y = st_tenant x"
    by (auto simp: pgj_ok_def)
  from assms(2) obtain z where z: "z \<in> set (jd_runs db)" "run_id z = r" "run_tenant z = session"
    by (auto simp: pgj_ready_def)
  have "y = z" using assms(1) y z unfolding pgj_ok_def by (metis distinct_map inj_onD)
  then show False using assms(3) x y z by (auto simp: pgj_get_def find_first_None_iff)
qed

lemma pgj_put_new:
  assumes "pgj_ok session db" and "pgj_ready session r db" and "pgj_get session r k db = None"
  shows "pgj_put session now r k out undo db = Inr (db\<lparr>jd_steps := jd_steps db @
    [\<lparr>st_run = r, st_tenant = session, st_key = k, st_output = out, st_comp = undo, st_recorded = now\<rparr>]\<rparr>)"
proof -
  from assms(2) have "find_first (\<lambda>x. run_tenant x = session \<and> run_id x = r) (jd_runs db) \<noteq> None"
    by (auto simp: pgj_ready_def find_first_None_iff)
  then obtain y where "find_first (\<lambda>x. run_tenant x = session \<and> run_id x = r) (jd_runs db) = Some y"
    by blast
  moreover from this have "run_tenant y = session" and "r \<in> run_id ` set (jd_runs db)"
    by (auto dest!: find_first_SomeD)
  ultimately show ?thesis using pgj_no_step [OF assms] by (auto simp: pgj_put_def Let_def)
qed

interpretation pg_journal: step_journal "pgj_ok session" "pgj_ready session" "pgj_get session"
  "pgj_put session now" for session now
proof
  fix db r k out undo
  assume a: "pgj_ok session db" "pgj_ready session r db" "pgj_get session r k db = None"
  then show "\<exists>db'. pgj_put session now r k out undo db = Inr db' \<and> pgj_ok session db' \<and>
      pgj_ready session r db' \<and> pgj_get session r k db' = Some out \<and>
      (\<forall>r' k'. (r', k') \<noteq> (r, k) \<longrightarrow> pgj_get session r' k' db' = pgj_get session r' k' db)"
    using pgj_put_new [OF a]
    by (auto simp: pgj_ok_def pgj_ready_def pgj_get_def find_first_append split: option.split)
qed

section \<open>Properties\<close>

text \<open>A database in which one tenant has one run.\<close>

definition demo_journal_db :: journal_db where
  "demo_journal_db = \<lparr>jd_runs = [\<lparr>run_id = ''run'', run_tenant = ''acme'', run_domain = ''operational_twin'',
     run_status = ''running'', run_started = ''t0'', run_finished = None\<rparr>], jd_steps = []\<rparr>"

text \<open>
  C7. A journaled step takes effect at most once: over any number of attempts at one step of a run,
  whatever function each attempt brings, the attempts first fail some number of times, and from the
  first success on every attempt returns that success's output without running anything. The effect
  on the world is that of the failed attempts and the one success. (In-memory journal.)
\<close>

theorem journaled_step_at_most_once:
  assumes "jr_get r k j = None"
    and "attempts (journaled jr_get (\<lambda>r k out undo j. Inr (jr_put r k out undo j)) r k undo) fs j w = ((j', w'), rs)"
  shows "\<exists>errs n v. rs = errs @ replicate n (Inr v) \<and> list_all isl errs \<and>
    w' = effects (take (length errs + 1) fs) w"
  by (rule mem_journal.at_most_once [OF TrueI TrueI assms])

theorem journaled_step_at_most_once_witness:
  "let bump = (\<lambda>w::int. (w + 1, if w = 0 then Inl (RuntimeError ''down'') else Inr [(''n'', PyInt w)]));
       ((j', w'), rs) = attempts (journaled jr_get (\<lambda>r k out undo j. Inr (jr_put r k out undo j))
          ''run'' ''cascade'' None) [bump, bump, bump, bump] jr_empty 0
   in w' = 2 \<and> (\<exists>errs n v. rs = errs @ replicate n (Inr v) \<and> list_all isl errs \<and>
        w' = effects (take (length errs + 1) [bump, bump, bump, bump]) 0)"
proof -
  let ?f = "\<lambda>w::int. (w + 1, if w = 0 then Inl (RuntimeError ''down'') else Inr [(''n'', PyInt w)])"
  let ?j = "journaled jr_get (\<lambda>r k out undo j. Inr (jr_put r k out undo j)) ''run'' ''cascade'' None"
  define res where "res = attempts ?j [?f, ?f, ?f, ?f] jr_empty 0"
  obtain j' w' rs where "res = ((j', w'), rs)" by (cases res) auto
  then have a: "attempts ?j [?f, ?f, ?f, ?f] jr_empty 0 = ((j', w'), rs)" by (simp only: res_def)
  have "jr_get ''run'' ''cascade'' jr_empty = None" by (simp add: jr_get_def jr_empty_def)
  note once = journaled_step_at_most_once [OF this a]
  have "w' = 2"
    using a by (simp add: journaled_def jr_get_def jr_put_def jr_empty_def Let_def dict_setdefault_def)
  then show ?thesis using once unfolding Let_def a prod.case by (rule conjI)
qed

text \<open>
  The Postgres journal gives the same guarantee to every tenant session that can see the run.
\<close>

theorem journaled_step_at_most_once_postgres:
  assumes "pgj_ok session db" and "pgj_ready session r db" and "pgj_get session r k db = None"
    and "attempts (journaled (pgj_get session) (pgj_put session now) r k undo) fs db w = ((db', w'), rs)"
  shows "\<exists>errs n v. rs = errs @ replicate n (Inr v) \<and> list_all isl errs \<and>
    w' = effects (take (length errs + 1) fs) w"
  using pg_journal.at_most_once [OF assms] .

theorem journaled_step_at_most_once_postgres_witness:
  "\<exists>errs n v. snd (attempts (journaled (pgj_get ''acme'') (pgj_put ''acme'' ''t1'') ''run'' ''cascade'' None)
      [\<lambda>w::int. (w + 1, Inr []), \<lambda>w. (w + 1, Inr [])] demo_journal_db 0) = errs @ replicate n (Inr v) \<and>
    list_all isl errs"
proof -
  let ?fs = "[\<lambda>w::int. (w + 1, Inr []), \<lambda>w. (w + 1, Inr [])]"
  let ?run = "journaled (pgj_get ''acme'') (pgj_put ''acme'' ''t1'') ''run'' ''cascade'' None"
  define res where "res = attempts ?run ?fs demo_journal_db 0"
  obtain db' w' rs where "res = ((db', w'), rs)" by (cases res) auto
  then have a: "attempts ?run ?fs demo_journal_db 0 = ((db', w'), rs)" by (simp only: res_def)
  have "pgj_ok ''acme'' demo_journal_db" "pgj_ready ''acme'' ''run'' demo_journal_db"
    "pgj_get ''acme'' ''run'' ''cascade'' demo_journal_db = None"
    by (simp_all add: pgj_ok_def pgj_ready_def pgj_get_def demo_journal_db_def)
  from journaled_step_at_most_once_postgres [OF this a] show ?thesis using a by auto
qed

text \<open>
  The two journals part on compensations: putting one step twice with a compensation queues the
  compensation twice in memory and once in Postgres, so a saga that replays a journaled step undoes it
  twice on one backend only.
\<close>

theorem replayed_put_doubles_compensation_in_memory:
  assumes "pgj_ok session db" and "pgj_ready session r db" and "pgj_get session r k db = None"
    and "jr_get r k j = None" and "jr_compensations r j = []" and "pgj_compensations session r db = []"
    and "pgj_put session t1 r k out (Some c) db = Inr db1" and "pgj_put session t2 r k out (Some c) db1 = Inr db2"
  shows "jr_compensations r (jr_put r k out (Some c) (jr_put r k out (Some c) j)) = [c, c] \<and>
    pgj_compensations session r db2 = [c]"
proof
  show "jr_compensations r (jr_put r k out (Some c) (jr_put r k out (Some c) j)) = [c, c]"
    using assms(5) by (auto simp: jr_compensations_def jr_put_def Let_def split: option.splits)
  have db1: "db1 = db\<lparr>jd_steps := jd_steps db @ [\<lparr>st_run = r, st_tenant = session, st_key = k,
      st_output = out, st_comp = Some c, st_recorded = t1\<rparr>]\<rparr>"
    using pgj_put_new [OF assms(1-3)] assms(7) by simp
  then have "\<exists>x \<in> set (jd_steps db1). st_run x = r \<and> st_key x = k" by auto
  then have "db2 = db1" using assms(8) by (auto simp: pgj_put_def Let_def split: if_splits)
  moreover have "filter (\<lambda>x. st_tenant x = session \<and> st_run x = r \<and> st_comp x \<noteq> None) (jd_steps db) = []"
    using assms(6)
    by (auto simp: pgj_compensations_def filter_empty_conv split: option.splits)
  ultimately show "pgj_compensations session r db2 = [c]"
    by (simp add: pgj_compensations_def db1 sorted_by_desc_def)
qed

theorem replayed_put_doubles_compensation_in_memory_witness:
  "jr_compensations ''run'' (jr_put ''run'' ''k'' [] (Some [(''undo'', PyInt 1)])
     (jr_put ''run'' ''k'' [] (Some [(''undo'', PyInt 1)]) jr_empty)) = [[(''undo'', PyInt 1)], [(''undo'', PyInt 1)]]"
proof -
  let ?c = "Some [(''undo'', PyInt 1)]"
  let ?db = "demo_journal_db"
  have ok: "pgj_ok ''acme'' ?db" "pgj_ready ''acme'' ''run'' ?db" "pgj_get ''acme'' ''run'' ''k'' ?db = None"
    "pgj_compensations ''acme'' ''run'' ?db = []"
    by (simp_all add: pgj_ok_def pgj_ready_def pgj_get_def demo_journal_db_def pgj_compensations_def sorted_by_desc_def)
  from pgj_put_new [OF ok(1-3)] obtain db1 where
    p1: "pgj_put ''acme'' ''t1'' ''run'' ''k'' [] ?c ?db = Inr db1" by blast
  then have "db1 = ?db\<lparr>jd_steps := [\<lparr>st_run = ''run'', st_tenant = ''acme'', st_key = ''k'',
      st_output = [], st_comp = ?c, st_recorded = ''t1''\<rparr>]\<rparr>"
    using pgj_put_new [OF ok(1-3), of "''t1''" "[]" ?c] by (simp add: demo_journal_db_def)
  then have "pgj_put ''acme'' ''t2'' ''run'' ''k'' [] ?c db1 = Inr db1"
    by (simp add: pgj_put_def demo_journal_db_def Let_def)
  from replayed_put_doubles_compensation_in_memory [OF ok(1-3) _ _ ok(4) p1 this, of jr_empty]
  show ?thesis by (simp add: jr_get_def jr_compensations_def jr_empty_def)
qed

end
