(* ===== verification/Writeback.thy ===== *)
theory Writeback
  imports PyVal Storage
begin

text \<open>
  The write-back sink (\<open>src/shelfwise_connectors/writeback.py\<close>): idempotent manager tasks and their
  completion receipts, in memory and in Postgres. SHA-256, which names a Postgres task, is an
  argument of the definitions that use it.
\<close>

section \<open>The in-memory sink\<close>

type_synonym task_key = "string \<times> string \<times> string"
type_synonym task_sink = "(task_key, pydict) dict"

definition new_task ::
  "string \<Rightarrow> string \<Rightarrow> string \<Rightarrow> string \<Rightarrow> pydict \<Rightarrow> string \<Rightarrow> string \<Rightarrow> string \<Rightarrow> pydict option \<Rightarrow> pydict" where
  "new_task now tid ikey title action tenant dm assignee rollback =
     [(''id'', PyStr tid), (''idempotency_key'', PyStr ikey), (''tenant_id'', PyStr tenant),
      (''data_domain'', PyStr dm), (''assignee_role'', PyStr assignee), (''title'', PyStr title),
      (''action'', PyDict action), (''status'', PyStr ''pending_external_write''),
      (''rollback_instructions'', PyDict (case rollback of Some r \<Rightarrow> r | None \<Rightarrow> [])),
      (''created_at'', PyStr now), (''updated_at'', PyStr now)]"

definition wb_task_id :: "nat \<Rightarrow> string" where
  "wb_task_id n = ''task_'' @ str_nat n"

definition wb_create_task ::
  "string \<Rightarrow> string \<Rightarrow> string \<Rightarrow> pydict \<Rightarrow> string \<Rightarrow> string \<Rightarrow> string \<Rightarrow> pydict option \<Rightarrow>
   task_sink \<Rightarrow> task_sink \<times> pydict" where
  "wb_create_task now ikey title action tenant dm assignee rollback s =
     (case dict_get s (tenant, dm, ikey) of
        Some existing \<Rightarrow> (s, existing)
      | None \<Rightarrow>
          (let t = new_task now (wb_task_id (length s + 1)) ikey title action tenant dm assignee rollback
           in (dict_set (tenant, dm, ikey) t s, t)))"

definition wb_list :: "string option \<Rightarrow> string option \<Rightarrow> task_sink \<Rightarrow> pydict list" where
  "wb_list tenant dm s =
     filter (\<lambda>t. (case tenant of None \<Rightarrow> True | Some x \<Rightarrow> get t ''tenant_id'' = PyStr x) \<and>
                 (case dm of None \<Rightarrow> True | Some x \<Rightarrow> get t ''data_domain'' = PyStr x)) (map snd s)"

definition is_task :: "string \<Rightarrow> string \<Rightarrow> string \<Rightarrow> pydict \<Rightarrow> bool" where
  "is_task tid tenant dm t \<longleftrightarrow>
     get t ''id'' = PyStr tid \<and> get t ''tenant_id'' = PyStr tenant \<and> get t ''data_domain'' = PyStr dm"

definition completed_task :: "string \<Rightarrow> pydict \<Rightarrow> pydict \<Rightarrow> pydict" where
  "completed_task now receipt t =
     dict_set ''updated_at'' (PyStr now) (dict_set ''completed_at'' (PyStr now)
       (dict_set ''completion_receipt'' (PyDict receipt) (dict_set ''status'' (PyStr ''completed'') t)))"

definition wb_complete_task ::
  "string \<Rightarrow> string \<Rightarrow> string \<Rightarrow> pydict \<Rightarrow> string \<Rightarrow> task_sink \<Rightarrow> task_sink \<times> pydict option result" where
  "wb_complete_task now tid tenant receipt dm s =
     (case find_first (\<lambda>(k, t). is_task tid tenant dm t) s of
        None \<Rightarrow> (s, Inr None)
      | Some (k, t) \<Rightarrow>
          if get t ''status'' = PyStr ''completed'' then
            (if \<not> py_eq (get t ''completion_receipt'') (PyDict receipt)
             then (s, Inl (ValueError ''task already has a different completion receipt''))
             else (s, Inr (Some t)))
          else (let u = completed_task now receipt t in (dict_set k u s, Inr (Some u))))"

definition wb_clear :: "task_sink \<Rightarrow> task_sink" where
  "wb_clear s = []"

section \<open>The Postgres sink\<close>

record task_row =
  tr_tenant :: string
  tr_domain :: string
  tr_ikey :: string
  tr_task_id :: string
  tr_status :: string
  tr_payload :: pydict
  tr_created :: string

type_synonym task_table = "task_row list"

definition tr_key :: "task_row \<Rightarrow> task_key" where
  "tr_key r = (tr_tenant r, tr_domain r, tr_ikey r)"

definition task_hash :: "(string \<Rightarrow> string) \<Rightarrow> string \<Rightarrow> string \<Rightarrow> string \<Rightarrow> string" where
  "task_hash sha256_hex tenant dm ikey = take 16 (sha256_hex (tenant @ '':'' @ dm @ '':'' @ ikey))"

definition pgt_get :: "string \<Rightarrow> string \<Rightarrow> string \<Rightarrow> string \<Rightarrow> task_table \<Rightarrow> pydict option" where
  "pgt_get session tenant dm ikey tbl =
     map_option tr_payload (find_first (\<lambda>r. tr_tenant r = session \<and> tr_key r = (tenant, dm, ikey)) tbl)"

text \<open>
  The insert in a session of the ambient tenant: a row of another tenant is refused by the policy, a
  row with the same key is left alone, and a task id that another key already has is refused.
\<close>

definition pgt_insert :: "string \<Rightarrow> task_row \<Rightarrow> task_table \<Rightarrow> task_table result" where
  "pgt_insert session r tbl =
     (if tr_tenant r \<noteq> session then Inl (DatabaseError ''new row violates row-level security policy'')
      else if tr_key r \<in> tr_key ` set tbl then Inr tbl
      else if tr_task_id r \<in> tr_task_id ` set tbl
      then Inl (DatabaseError ''duplicate key value violates unique constraint on task_id'')
      else Inr (tbl @ [r]))"

definition pgt_create_task ::
  "(string \<Rightarrow> string) \<Rightarrow> string \<Rightarrow> string \<Rightarrow> string \<Rightarrow> string \<Rightarrow> pydict \<Rightarrow> string \<Rightarrow> string \<Rightarrow> string \<Rightarrow>
   pydict option \<Rightarrow> task_table \<Rightarrow> (task_table \<times> pydict) result" where
  "pgt_create_task sha256_hex session now ikey title action tenant dm assignee rollback tbl =
     (case pgt_get session tenant dm ikey tbl of
        Some existing \<Rightarrow> Inr (tbl, existing)
      | None \<Rightarrow>
          (let tid = ''task_'' @ task_hash sha256_hex tenant dm ikey;
               p = new_task now tid ikey title action tenant dm assignee rollback;
               r = \<lparr>tr_tenant = tenant, tr_domain = dm, tr_ikey = ikey, tr_task_id = tid,
                    tr_status = ''pending_external_write'', tr_payload = p, tr_created = now\<rparr>
           in bind_res (pgt_insert session r tbl) (\<lambda>tbl'.
                Inr (tbl', (case pgt_get session tenant dm ikey tbl' of
                              Some t \<Rightarrow> (if t = [] then p else t) | None \<Rightarrow> p)))))"

definition pgt_list :: "string \<Rightarrow> string option \<Rightarrow> string option \<Rightarrow> task_table \<Rightarrow> pydict list" where
  "pgt_list session tenant dm tbl =
     map tr_payload (sorted_by_desc tr_created (sorted_by tr_task_id
       (filter (\<lambda>r. tr_tenant r = session \<and> (tenant = None \<or> tenant = Some (tr_tenant r)) \<and>
                    (dm = None \<or> dm = Some (tr_domain r))) tbl)))"

definition pgt_complete_task ::
  "string \<Rightarrow> string \<Rightarrow> string \<Rightarrow> string \<Rightarrow> pydict \<Rightarrow> string \<Rightarrow> task_table \<Rightarrow> task_table \<times> pydict option result" where
  "pgt_complete_task session now tid tenant receipt dm tbl =
     (let hit = (\<lambda>r. tr_tenant r = session \<and> tr_tenant r = tenant \<and> tr_domain r = dm \<and> tr_task_id r = tid) in
      case find_first hit tbl of
        None \<Rightarrow> (tbl, Inr None)
      | Some r \<Rightarrow>
          if get (tr_payload r) ''status'' = PyStr ''completed'' then
            (if \<not> py_eq (get (tr_payload r) ''completion_receipt'') (PyDict receipt)
             then (tbl, Inl (ValueError ''task already has a different completion receipt''))
             else (tbl, Inr (Some (tr_payload r))))
          else
            (let u = completed_task now receipt (tr_payload r)
             in (map (\<lambda>x. if hit x then x\<lparr>tr_status := ''completed'', tr_payload := u\<rparr> else x) tbl,
                 Inr (Some u))))"

definition pgt_clear :: "string \<Rightarrow> task_table \<Rightarrow> task_table" where
  "pgt_clear session tbl = filter (\<lambda>r. tr_tenant r \<noteq> session) tbl"

section \<open>The invariant of the in-memory sink\<close>

text \<open>Tasks are numbered in the order of creation, and a task carries the key it is filed under.\<close>

definition task_fits :: "task_key \<times> pydict \<Rightarrow> bool" where
  "task_fits p \<longleftrightarrow> (case p of ((tenant, dm, ikey), t) \<Rightarrow>
     get t ''tenant_id'' = PyStr tenant \<and> get t ''data_domain'' = PyStr dm \<and>
     get t ''idempotency_key'' = PyStr ikey)"

definition sink_ok :: "task_sink \<Rightarrow> bool" where
  "sink_ok s \<longleftrightarrow> dict_wf s \<and> list_all task_fits s \<and>
     map (\<lambda>(k, t). get t ''id'') s = map (PyStr \<circ> wb_task_id) [1..<length s + 1]"

lemma wb_task_id_inj [simp]: "wb_task_id m = wb_task_id n \<longleftrightarrow> m = n"
  by (simp add: wb_task_id_def)

lemma sink_ids_distinct: "sink_ok s \<Longrightarrow> distinct (map (\<lambda>(k, t). get t ''id'') s)"
  by (simp add: sink_ok_def distinct_map inj_on_def)

lemma get_new_task [simp]:
  "get (new_task now tid ikey title action tenant dm assignee rollback) ''id'' = PyStr tid"
  "get (new_task now tid ikey title action tenant dm assignee rollback) ''tenant_id'' = PyStr tenant"
  "get (new_task now tid ikey title action tenant dm assignee rollback) ''data_domain'' = PyStr dm"
  "get (new_task now tid ikey title action tenant dm assignee rollback) ''idempotency_key'' = PyStr ikey"
  "get (new_task now tid ikey title action tenant dm assignee rollback) ''status'' = PyStr ''pending_external_write''"
  by (simp_all add: new_task_def)

lemma get_completed_task [simp]:
  "get (completed_task now receipt t) k =
     (if k = ''updated_at'' \<or> k = ''completed_at'' then PyStr now
      else if k = ''completion_receipt'' then PyDict receipt
      else if k = ''status'' then PyStr ''completed'' else get t k)"
  by (auto simp: completed_task_def)

lemma sink_ok_create: "sink_ok s \<Longrightarrow>
    sink_ok (fst (wb_create_task now ikey title action tenant dm assignee rollback s))"
  by (auto simp: wb_create_task_def sink_ok_def task_fits_def dict_set_fresh Let_def map_of_eq_None_iff
      dict_wf_def split: option.split)

lemma map_dict_set_same:
  "map_of s k = Some t \<Longrightarrow> dict_wf s \<Longrightarrow> f (k, u) = f (k, t) \<Longrightarrow> map f (AList.update k u s) = map f s"
  by (induction s) (auto simp: dict_wf_def)

lemma list_all_dict_set: "list_all P s \<Longrightarrow> P (k, u) \<Longrightarrow> list_all P (AList.update k u s)"
  by (induction s) auto

lemma find_task_entry:
  "dict_wf s \<Longrightarrow> find_first (\<lambda>(k, t). is_task tid tenant dm t) s = Some (k, t) \<Longrightarrow>
   map_of s k = Some t \<and> is_task tid tenant dm t"
  by (auto simp: dict_wf_def dest!: find_first_SomeD)

lemma sink_ok_complete: "sink_ok s \<Longrightarrow> sink_ok (fst (wb_complete_task now tid tenant receipt dm s))"
proof (cases "find_first (\<lambda>(k, t). is_task tid tenant dm t) s")
  case (Some p)
  assume ok: "sink_ok s"
  obtain k t where p: "p = (k, t)" by (rule prod.exhaust)
  have wf: "dict_wf s" and fits: "list_all task_fits s"
    and ids: "map (\<lambda>(k, t). get t ''id'') s = map (PyStr \<circ> wb_task_id) [1..<length s + 1]"
    using ok by (simp_all add: sink_ok_def)
  from find_task_entry [OF wf Some [unfolded p]] have kt: "map_of s k = Some t" by simp
  let ?u = "completed_task now receipt t"
  have "task_fits (k, t)" using fits map_of_SomeD [OF kt] by (auto simp: list_all_iff)
  then have "task_fits (k, ?u)" by (cases k) (simp add: task_fits_def)
  moreover have "map (\<lambda>(k, t). get t ''id'') (AList.update k ?u s) = map (\<lambda>(k, t). get t ''id'') s"
    by (rule map_dict_set_same [OF kt wf]) simp
  ultimately have "sink_ok (AList.update k ?u s)"
    using wf fits ids kt by (simp add: sink_ok_def list_all_dict_set length_dict_set_present)
  then show ?thesis using ok Some p by (simp add: wb_complete_task_def Let_def)
qed (simp add: wb_complete_task_def)

section \<open>Histories\<close>

datatype task_op =
    Create string string pydict string string string "pydict option"
  | Complete string string pydict string

fun wb_step :: "string \<Rightarrow> task_op \<Rightarrow> task_sink \<Rightarrow> task_sink" where
  "wb_step now (Create ikey title action tenant dm assignee rollback) s =
     fst (wb_create_task now ikey title action tenant dm assignee rollback s)"
| "wb_step now (Complete tid tenant receipt dm) s = fst (wb_complete_task now tid tenant receipt dm s)"

fun wb_run :: "(string \<times> task_op) list \<Rightarrow> task_sink \<Rightarrow> task_sink" where
  "wb_run [] s = s"
| "wb_run ((now, x) # xs) s = wb_run xs (wb_step now x s)"

lemma sink_ok_step: "sink_ok s \<Longrightarrow> sink_ok (wb_step now x s)"
  by (cases x) (simp_all add: sink_ok_create sink_ok_complete)

lemma sink_ok_run: "sink_ok s \<Longrightarrow> sink_ok (wb_run xs s)"
  by (induction xs s rule: wb_run.induct) (auto simp: sink_ok_step)

text \<open>A task that exists keeps everything but its completion; a completed task keeps all of it.\<close>

definition task_keeps :: "pydict \<Rightarrow> pydict \<Rightarrow> bool" where
  "task_keeps t u \<longleftrightarrow>
     (if get t ''status'' = PyStr ''completed'' then u = t
      else \<forall>k. k \<notin> {''status'', ''completion_receipt'', ''completed_at'', ''updated_at''} \<longrightarrow> get u k = get t k)"

lemma task_keeps_trans: "task_keeps t u \<Longrightarrow> task_keeps u v \<Longrightarrow> task_keeps t v"
  by (auto simp: task_keeps_def split: if_splits)

lemma wb_step_keeps:
  assumes "sink_ok s" and "dict_get s key = Some t"
  shows "\<exists>u. dict_get (wb_step now x s) key = Some u \<and> task_keeps t u"
proof (cases x)
  case (Create ikey title action tenant dm assignee rollback)
  then show ?thesis
    using assms(2) by (auto simp: wb_create_task_def Let_def task_keeps_def split: option.split)
next
  case (Complete tid tenant receipt dm)
  show ?thesis
  proof (cases "find_first (\<lambda>(k, t). is_task tid tenant dm t) s")
    case None
    then show ?thesis using Complete assms(2) by (simp add: wb_complete_task_def task_keeps_def)
  next
    case (Some p)
    obtain k t' where p: "p = (k, t')" by (rule prod.exhaust)
    have wf: "dict_wf s" using assms(1) by (simp add: sink_ok_def)
    from find_task_entry [OF wf Some [unfolded p]] have "map_of s k = Some t'" by simp
    then show ?thesis
      using Complete Some p assms(2) by (auto simp: wb_complete_task_def Let_def task_keeps_def)
  qed
qed

lemma wb_run_keeps:
  "sink_ok s \<Longrightarrow> dict_get s key = Some t \<Longrightarrow> \<exists>u. dict_get (wb_run xs s) key = Some u \<and> task_keeps t u"
proof (induction xs s arbitrary: t rule: wb_run.induct)
  case (1 s)
  then show ?case by (simp add: task_keeps_def)
next
  case (2 now x xs s)
  from wb_step_keeps [OF 2(2,3), of now x] obtain u where
    u: "dict_get (wb_step now x s) key = Some u" "task_keeps t u" by blast
  from 2(1) [OF sink_ok_step [OF 2(2)] u(1)] show ?case using u(2) task_keeps_trans by auto
qed

lemma wb_create_found:
  "dict_get s (tenant, dm, ikey) = Some t \<Longrightarrow>
   wb_create_task now ikey title action tenant dm assignee rollback s = (s, t)"
  by (simp add: wb_create_task_def)

lemma wb_create_stored:
  "wb_create_task now ikey title action tenant dm assignee rollback s = (s', t) \<Longrightarrow>
   dict_get s' (tenant, dm, ikey) = Some t"
  by (auto simp: wb_create_task_def Let_def split: option.splits)

lemma find_task_stored:
  assumes "sink_ok s" and "dict_get s (tenant, dm, ikey) = Some t" and "get t ''id'' = PyStr tid"
  shows "find_first (\<lambda>(k, t). is_task tid tenant dm t) s = Some ((tenant, dm, ikey), t)"
proof -
  have mem: "((tenant, dm, ikey), t) \<in> set s" using assms(2) by (rule map_of_SomeD)
  then have it: "is_task tid tenant dm t"
    using assms(1,3) by (auto simp: sink_ok_def list_all_iff task_fits_def is_task_def)
  obtain p where p: "find_first (\<lambda>(k, t). is_task tid tenant dm t) s = Some p"
    using mem it by (cases "find_first (\<lambda>(k, t). is_task tid tenant dm t) s") (auto simp: find_first_None_iff)
  then have "p \<in> set s" "(\<lambda>(k, t). get t ''id'') p = PyStr tid"
    by (auto simp: is_task_def dest!: find_first_SomeD)
  with mem assms(3) sink_ids_distinct [OF assms(1)] have "p = ((tenant, dm, ikey), t)"
    unfolding distinct_map inj_on_def by (metis (no_types, lifting) case_prod_conv)
  with p show ?thesis by simp
qed

section \<open>Properties\<close>

text \<open>A completed task, for the concrete instances below.\<close>

definition demo_task :: pydict where
  "demo_task = completed_task ''t2'' [(''ref'', PyStr ''po-7'')]
     (new_task ''t1'' ''task_1'' ''dec_1'' ''Order milk'' [] ''acme'' ''operational_twin'' ''manager'' None)"

text \<open>
  A write-back task is created once: after a task was created for a key, and whatever tasks are
  created or completed afterwards, asking for the key again creates nothing and returns the same task
  (with its completion, if it was completed meanwhile), and task ids stay pairwise distinct.
\<close>

theorem task_created_once:
  assumes "sink_ok s" and "wb_create_task now ikey title action tenant dm assignee rollback s = (s', t)"
  shows "\<exists>u. wb_create_task now' ikey title' action' tenant dm assignee' rollback' (wb_run history s') =
      (wb_run history s', u) \<and> task_keeps t u \<and>
    distinct (map (\<lambda>(k, t). get t ''id'') (wb_run history s'))"
proof -
  have ok: "sink_ok s'" using sink_ok_create [OF assms(1)] assms(2) by (metis fst_conv)
  from wb_run_keeps [OF ok wb_create_stored [OF assms(2)], of history] obtain u where
    "dict_get (wb_run history s') (tenant, dm, ikey) = Some u" "task_keeps t u" by blast
  then show ?thesis using wb_create_found sink_ids_distinct [OF sink_ok_run [OF ok]] by blast
qed

theorem task_created_once_witness:
  "\<exists>u. wb_create_task ''t3'' ''dec_1'' ''again'' [] ''acme'' ''operational_twin'' ''manager'' None
      (wb_run [(''t2'', Complete ''task_1'' ''acme'' [(''ref'', PyStr ''po-7'')] ''operational_twin'')]
        (fst (wb_create_task ''t1'' ''dec_1'' ''Order milk'' [] ''acme'' ''operational_twin'' ''manager'' None [])))
    = (wb_run [(''t2'', Complete ''task_1'' ''acme'' [(''ref'', PyStr ''po-7'')] ''operational_twin'')]
        (fst (wb_create_task ''t1'' ''dec_1'' ''Order milk'' [] ''acme'' ''operational_twin'' ''manager'' None [])), u)"
proof -
  have "sink_ok []" by (simp add: sink_ok_def)
  from task_created_once [OF this prod.collapse [symmetric]] show ?thesis by blast
qed

text \<open>
  A completion receipt is final: once a task is completed, in every later state of the sink the
  task is unchanged, completing it with an equal receipt returns it, and completing it with a
  different one raises and changes nothing.
\<close>

theorem completion_receipt_is_final:
  assumes "sink_ok s" and "dict_get s (tenant, dm, ikey) = Some t" and "get t ''id'' = PyStr tid"
    and "get t ''status'' = PyStr ''completed''"
  shows "dict_get (wb_run history s) (tenant, dm, ikey) = Some t \<and>
    wb_complete_task now tid tenant receipt dm (wb_run history s) =
      (wb_run history s,
       if py_eq (get t ''completion_receipt'') (PyDict receipt) then Inr (Some t)
       else Inl (ValueError ''task already has a different completion receipt''))"
proof -
  from wb_run_keeps [OF assms(1,2), of history] assms(4)
  have g: "dict_get (wb_run history s) (tenant, dm, ikey) = Some t" by (auto simp: task_keeps_def)
  from find_task_stored [OF sink_ok_run [OF assms(1)] g assms(3)] show ?thesis
    using g assms(4) by (simp add: wb_complete_task_def)
qed

theorem completion_receipt_is_final_witness:
  "wb_complete_task ''t4'' ''task_1'' ''acme'' [(''ref'', PyStr ''po-8'')] ''operational_twin''
      [((''acme'', ''operational_twin'', ''dec_1''), demo_task)] =
    ([((''acme'', ''operational_twin'', ''dec_1''), demo_task)],
     Inl (ValueError ''task already has a different completion receipt''))"
proof -
  have "sink_ok [((''acme'', ''operational_twin'', ''dec_1''), demo_task)]"
    by (simp add: sink_ok_def task_fits_def demo_task_def wb_task_id_def dict_wf_def str_nat.simps)
      code_simp
  from completion_receipt_is_final [OF this, of "''acme''" "''operational_twin''" "''dec_1''" demo_task
      "''task_1''" "[]" "''t4''" "[(''ref'', PyStr ''po-8'')]"]
  show ?thesis by (simp add: demo_task_def num_eq_def)
qed

end
