(* ===== verification/DecisionStore.thy ===== *)
theory DecisionStore
  imports Contracts
begin

text \<open>
  \<^verbatim>\<open>src/shelfwise_action/store.py\<close>: the store of human-in-the-loop decisions, in memory and in
  Postgres. Both keep the approval contract stated by the locale \<open>review_ledger\<close>: a pending
  decision is reviewed once, and a reviewed decision is never rewritten by a later upsert or review.
  The clock (\<open>_now()\<close>) is an argument. A connection to Postgres carries a tenant, and row-level
  security (\<^verbatim>\<open>src/shelfwise_storage/rls.py\<close>) shows it the rows of that tenant only; the statements
  of the store are modelled over a list of rows with that visibility.
\<close>

section \<open>The in-memory store\<close>

type_synonym decision_store = "(string, pydict) dict"

definition terminal_status :: "pyval \<Rightarrow> bool" where
  "terminal_status v = (v = PyStr ''approved'' \<or> v = PyStr ''rejected'')"

definition decision_id_of :: "pydict \<Rightarrow> string" where
  "decision_id_of d = py_str (get_or d ''id'' (PyStr []))"

text \<open>The record a non-terminal upsert writes.\<close>

definition merged_record :: "string \<Rightarrow> pydict \<Rightarrow> pydict \<Rightarrow> pydict" where
  "merged_record now existing d =
     (let r1 = dict_setdefault ''data_domain'' (PyStr ''world_simulation'') (dict_update existing d);
          r2 = dict_setdefault ''created_at'' (PyStr now) r1;
          r3 = dict_setdefault ''updated_at'' (get r2 ''created_at'') r2
      in dict_setdefault ''review'' PyNone r3)"

definition ds_upsert :: "string \<Rightarrow> pydict \<Rightarrow> decision_store \<Rightarrow> (decision_store \<times> pydict) result" where
  "ds_upsert now d s =
     (let i = decision_id_of d in
      if i = [] then Inl (ValueError ''decision must include id'')
      else
        (case map_of s i of
           Some existing \<Rightarrow>
             if existing \<noteq> [] \<and> terminal_status (get existing ''status'') then Inr (s, existing)
             else (let r = merged_record now existing d in Inr (dict_set i r s, r))
         | None \<Rightarrow> (let r = merged_record now [] d in Inr (dict_set i r s, r))))"

definition ds_list :: "decision_store \<Rightarrow> pydict list" where
  "ds_list s = map snd s"

definition ds_clear :: "decision_store \<Rightarrow> decision_store" where
  "ds_clear s = []"

definition ds_get :: "decision_store \<Rightarrow> string \<Rightarrow> pydict option" where
  "ds_get s i = (case map_of s i of Some r \<Rightarrow> (if r = [] then None else Some r) | None \<Rightarrow> None)"

definition annotated :: "string \<Rightarrow> pydict \<Rightarrow> pydict \<Rightarrow> pydict" where
  "annotated now item flds = dict_set ''updated_at'' (PyStr now) (dict_update item flds)"

definition ds_annotate ::
  "string \<Rightarrow> string \<Rightarrow> pydict \<Rightarrow> decision_store \<Rightarrow> decision_store \<times> pydict option" where
  "ds_annotate now i flds s = (case map_of s i of
       None \<Rightarrow> (s, None)
     | Some item \<Rightarrow> (let u = annotated now item flds in (dict_set i u s, Some u)))"

definition review_record :: "string \<Rightarrow> string \<Rightarrow> string \<Rightarrow> pydict" where
  "review_record now status reviewer =
     [(''reviewer'', PyStr reviewer), (''status'', PyStr status), (''reviewed_at'', PyStr now)]"

definition reviewed :: "string \<Rightarrow> string \<Rightarrow> string \<Rightarrow> pydict \<Rightarrow> pydict" where
  "reviewed now status reviewer item =
     dict_set ''review'' (PyDict (review_record now status reviewer))
       (dict_set ''updated_at'' (PyStr now) (dict_set ''status'' (PyStr status) item))"

definition ds_transition ::
  "string \<Rightarrow> string \<Rightarrow> string \<Rightarrow> string \<Rightarrow> decision_store \<Rightarrow> decision_store \<times> pydict option" where
  "ds_transition now i status reviewer s = (case map_of s i of
       None \<Rightarrow> (s, None)
     | Some item \<Rightarrow>
         if terminal_status (get item ''status'') then (s, Some item)
         else (let u = reviewed now status reviewer item in (dict_set i u s, Some u)))"

definition ds_approve ::
  "string \<Rightarrow> string \<Rightarrow> string \<Rightarrow> decision_store \<Rightarrow> decision_store \<times> pydict option" where
  "ds_approve now i reviewer s = ds_transition now i ''approved'' reviewer s"

definition ds_reject ::
  "string \<Rightarrow> string \<Rightarrow> string \<Rightarrow> decision_store \<Rightarrow> decision_store \<times> pydict option" where
  "ds_reject now i reviewer s = ds_transition now i ''rejected'' reviewer s"

section \<open>The Postgres store\<close>

record decision_row =
  dr_id :: string
  dr_tenant :: string
  dr_domain :: string
  dr_status :: string
  dr_payload :: pydict
  dr_created :: string
  dr_updated :: string

type_synonym decision_table = "decision_row list"

text \<open>A session bound to tenant \<open>t\<close> sees the rows that carry \<open>t\<close>.\<close>

definition dr_visible :: "string \<Rightarrow> decision_row \<Rightarrow> bool" where
  "dr_visible t r = (dr_tenant r = t)"

definition pg_get :: "string \<Rightarrow> string \<Rightarrow> decision_table \<Rightarrow> pydict option" where
  "pg_get t i tbl = map_option dr_payload (find_first (\<lambda>r. dr_visible t r \<and> dr_id r = i) tbl)"

definition decision_tenant :: "pydict \<Rightarrow> string" where
  "decision_tenant d =
     (let t = strip (str_or d ''tenant_id'' []) in if t = [] then ''default'' else t)"

definition row_of :: "string \<Rightarrow> pydict \<Rightarrow> decision_row" where
  "row_of i r = \<lparr>dr_id = i, dr_tenant = decision_tenant r, dr_domain = py_str (get r ''data_domain''),
     dr_status = py_str (get_or r ''status'' (PyStr [])), dr_payload = r,
     dr_created = py_str (get r ''created_at''), dr_updated = py_str (get r ''updated_at'')\<rparr>"

text \<open>
  \<open>insert ... on conflict (id) do update ... where status not in ('approved', 'rejected')\<close> in a
  session of tenant \<open>t\<close>. The primary key is checked against every row; a row the session cannot see
  may not be updated (\<open>with check\<close>), and a terminal row is left alone before that is asked.
\<close>

definition pg_insert_decision :: "string \<Rightarrow> decision_row \<Rightarrow> decision_table \<Rightarrow> decision_table result" where
  "pg_insert_decision t n tbl =
     (if \<not> dr_visible t n
      then Inl (DatabaseError ''new row violates row-level security policy'')
      else (case find_first (\<lambda>r. dr_id r = dr_id n) tbl of
         None \<Rightarrow> Inr (tbl @ [n])
       | Some old \<Rightarrow>
           if dr_status old \<in> {''approved'', ''rejected''} then Inr tbl
           else if \<not> dr_visible t old
           then Inl (DatabaseError ''new row violates row-level security policy (USING expression)'')
           else Inr (map (\<lambda>r. if dr_id r = dr_id n then n\<lparr>dr_created := dr_created r\<rparr> else r) tbl)))"

text \<open>\<open>upsert\<close>: the reads use the ambient tenant, the write the tenant of the record.\<close>

definition pg_upsert ::
  "string \<Rightarrow> string \<Rightarrow> pydict \<Rightarrow> decision_table \<Rightarrow> (decision_table \<times> pydict) result" where
  "pg_upsert ambient now d tbl =
     (let i = decision_id_of d in
      if i = [] then Inl (ValueError ''decision must include id'')
      else
        (let existing = (case pg_get ambient i tbl of Some e \<Rightarrow> e | None \<Rightarrow> []) in
         if existing \<noteq> [] \<and> terminal_status (get existing ''status'') then Inr (tbl, existing)
         else
           (let r = merged_record now existing d in
            bind_res (pg_insert_decision (decision_tenant r) (row_of i r) tbl) (\<lambda>tbl'.
              Inr (tbl', (case pg_get ambient i tbl' of
                            Some p \<Rightarrow> (if p = [] then r else p)
                          | None \<Rightarrow> r))))))"

definition pg_save_payload :: "string \<Rightarrow> string \<Rightarrow> pydict \<Rightarrow> decision_table \<Rightarrow> decision_table" where
  "pg_save_payload ambient i p tbl =
     map (\<lambda>r. if dr_id r = i \<and> dr_visible ambient r
              then r\<lparr>dr_status := py_str (get_or p ''status'' (PyStr [])), dr_payload := p,
                     dr_updated := py_str (get p ''updated_at'')\<rparr>
              else r) tbl"

definition pg_annotate ::
  "string \<Rightarrow> string \<Rightarrow> string \<Rightarrow> pydict \<Rightarrow> decision_table \<Rightarrow> decision_table \<times> pydict option" where
  "pg_annotate ambient now i flds tbl = (case pg_get ambient i tbl of
       None \<Rightarrow> (tbl, None)
     | Some item \<Rightarrow>
         (let u = annotated now item flds in (pg_save_payload ambient i u tbl, Some u)))"

definition pg_transition ::
  "string \<Rightarrow> string \<Rightarrow> string \<Rightarrow> string \<Rightarrow> string \<Rightarrow> decision_table \<Rightarrow> decision_table \<times> pydict option" where
  "pg_transition ambient now i status reviewer tbl = (case pg_get ambient i tbl of
       None \<Rightarrow> (tbl, None)
     | Some cur \<Rightarrow>
         if terminal_status (get cur ''status'') then (tbl, Some cur)
         else
           (let u = reviewed now status reviewer cur;
                hit = (\<lambda>r. dr_id r = i \<and> dr_visible ambient r \<and> dr_status r = ''pending'');
                tbl' = map (\<lambda>r. if hit r
                                then r\<lparr>dr_status := status, dr_payload := u, dr_updated := now\<rparr>
                                else r) tbl
            in if (\<exists>r \<in> set tbl. hit r) then (tbl', Some u) else (tbl', pg_get ambient i tbl')))"

definition pg_clear :: "string \<Rightarrow> decision_table \<Rightarrow> decision_table" where
  "pg_clear ambient tbl = filter (\<lambda>r. \<not> dr_visible ambient r) tbl"

text \<open>\<open>order by updated_at desc, created_at desc, id\<close>.\<close>

definition pg_list :: "string \<Rightarrow> decision_table \<Rightarrow> pydict list" where
  "pg_list ambient tbl =
     map dr_payload (sorted_by_desc dr_updated (sorted_by_desc dr_created (sorted_by dr_id
       (filter (dr_visible ambient) tbl))))"

section \<open>Invariants\<close>

text \<open>
  Every stored record is a well-formed dictionary that carries the fields an upsert sets.
\<close>

definition record_ok :: "pydict \<Rightarrow> bool" where
  "record_ok r \<longleftrightarrow> dict_wf r \<and>
     (\<forall>k \<in> {''data_domain'', ''created_at'', ''updated_at'', ''review''}. map_of r k \<noteq> None)"

definition ds_wf :: "decision_store \<Rightarrow> bool" where
  "ds_wf s \<longleftrightarrow> dict_wf s \<and> dict_all record_ok s"

text \<open>A row agrees with the payload it stores, and ids are unique (the primary key).\<close>

definition row_ok :: "decision_row \<Rightarrow> bool" where
  "row_ok r \<longleftrightarrow> record_ok (dr_payload r) \<and>
     dr_status r = py_str (get_or (dr_payload r) ''status'' (PyStr []))"

definition pg_wf :: "decision_table \<Rightarrow> bool" where
  "pg_wf tbl \<longleftrightarrow> distinct (map dr_id tbl) \<and> (\<forall>r \<in> set tbl. row_ok r)"

lemma record_ok_merged: "dict_wf existing \<Longrightarrow> record_ok (merged_record now existing d)"
  by (auto simp: record_ok_def merged_record_def Let_def dict_get_setdefault)

lemma record_ok_annotated: "record_ok r \<Longrightarrow> record_ok (annotated now r flds)"
  using map_of_dict_update_some [of r _ flds] by (auto simp: record_ok_def annotated_def)

lemma record_ok_reviewed: "record_ok r \<Longrightarrow> record_ok (reviewed now st rv r)"
  by (auto simp: record_ok_def reviewed_def)

lemma record_ok_nonempty: "record_ok r \<Longrightarrow> r \<noteq> []"
  by (auto simp: record_ok_def)

lemma ds_wf_Nil [simp]: "ds_wf []"
  by (simp add: ds_wf_def)

lemma ds_wf_get: "ds_wf s \<Longrightarrow> map_of s i = Some r \<Longrightarrow> record_ok r"
  by (auto simp: ds_wf_def dest: dict_all_get)

lemma ds_wf_set: "ds_wf s \<Longrightarrow> record_ok r \<Longrightarrow> ds_wf (dict_set i r s)"
  by (auto simp: ds_wf_def)

lemma ds_get_map_of: "ds_wf s \<Longrightarrow> ds_get s i = map_of s i"
  by (auto simp: ds_get_def dest: ds_wf_get record_ok_nonempty split: option.splits)

lemma ds_upsert_wf: "ds_wf s \<Longrightarrow> ds_upsert now d s = Inr (s', r) \<Longrightarrow> ds_wf s'"
  by (auto simp: ds_upsert_def Let_def split: if_splits option.splits
      intro!: ds_wf_set record_ok_merged dest: ds_wf_get simp: record_ok_def)

lemma ds_annotate_wf: "ds_wf s \<Longrightarrow> ds_wf (fst (ds_annotate now i flds s))"
  by (auto simp: ds_annotate_def Let_def intro!: ds_wf_set record_ok_annotated
      dest: ds_wf_get split: option.split)

lemma ds_transition_wf: "ds_wf s \<Longrightarrow> ds_wf (fst (ds_transition now i st rv s))"
  by (auto simp: ds_transition_def Let_def intro!: ds_wf_set record_ok_reviewed
      dest: ds_wf_get split: option.split)

section \<open>The approval contract\<close>

text \<open>A review request: the clock, the decision, the verdict and the reviewer.\<close>

type_synonym review_request = "string \<times> string \<times> string \<times> string"

definition run_reviews ::
  "(string \<Rightarrow> string \<Rightarrow> string \<Rightarrow> string \<Rightarrow> 's \<Rightarrow> 's) \<Rightarrow> review_request list \<Rightarrow> 's \<Rightarrow> 's" where
  "run_reviews rev_op reqs s = fold (\<lambda>(now, i, st, rv). rev_op now i st rv) reqs s"

definition requests_for :: "string \<Rightarrow> review_request list \<Rightarrow> review_request list" where
  "requests_for i reqs = filter (\<lambda>(now, j, st, rv). j = i) reqs"

definition verdicts_terminal :: "review_request list \<Rightarrow> bool" where
  "verdicts_terminal reqs = list_all (\<lambda>(now, j, st, rv). terminal_status (PyStr st)) reqs"

lemma run_reviews_simps [simp]:
  "run_reviews rev_op [] s = s"
  "run_reviews rev_op ((now, i, st, rv) # reqs) s = run_reviews rev_op reqs (rev_op now i st rv s)"
  by (simp_all add: run_reviews_def)

lemma get_reviewed_status [simp]: "get (reviewed now st rv d) ''status'' = PyStr st"
  by (simp add: reviewed_def)

text \<open>
  What a client of the decision store relies on, whichever backend serves it: a review decides a
  pending decision, and leaves a decided one and every other decision as they are.
\<close>

locale review_ledger =
  fixes inv :: "'s \<Rightarrow> bool"
    and lookup :: "'s \<Rightarrow> string \<Rightarrow> pydict option"
    and review :: "string \<Rightarrow> string \<Rightarrow> string \<Rightarrow> string \<Rightarrow> 's \<Rightarrow> 's"
  assumes inv_review: "inv s \<Longrightarrow> inv (review now i st rv s)"
    and review_pending: "inv s \<Longrightarrow> lookup s i = Some d \<Longrightarrow> get d ''status'' = PyStr ''pending'' \<Longrightarrow>
      lookup (review now i st rv s) i = Some (reviewed now st rv d)"
    and review_decided: "inv s \<Longrightarrow> lookup s i = Some d \<Longrightarrow> terminal_status (get d ''status'') \<Longrightarrow>
      review now i st rv s = s"
    and review_other: "inv s \<Longrightarrow> j \<noteq> i \<Longrightarrow> lookup (review now i st rv s) j = lookup s j"
begin

lemma decided_is_final:
  assumes "inv s" and "lookup s i = Some d" and "terminal_status (get d ''status'')"
  shows "inv (run_reviews review reqs s) \<and> lookup (run_reviews review reqs s) i = Some d"
  using assms(1,2)
proof (induction reqs arbitrary: s)
  case Nil
  then show ?case by simp
next
  case (Cons req reqs)
  obtain now j st rv where req: "req = (now, j, st, rv)" by (cases req)
  have "lookup (review now j st rv s) i = Some d"
  proof (cases "j = i")
    case True
    then show ?thesis using review_decided [OF Cons.prems(1,2) assms(3)] Cons.prems(2) by simp
  next
    case False
    then show ?thesis using review_other [OF Cons.prems(1)] Cons.prems(2) by simp
  qed
  with Cons.IH [OF inv_review [OF Cons.prems(1)]] show ?case
    by (simp add: req)
qed

lemma first_review_wins:
  assumes "inv s" and "lookup s i = Some d" and "get d ''status'' = PyStr ''pending''"
    and "verdicts_terminal reqs"
  shows "lookup (run_reviews review reqs s) i =
    (case requests_for i reqs of [] \<Rightarrow> Some d | (now, j, st, rv) # _ \<Rightarrow> Some (reviewed now st rv d))"
  using assms(1,2,4)
proof (induction reqs arbitrary: s)
  case Nil
  then show ?case by (simp add: requests_for_def)
next
  case (Cons req reqs)
  obtain now j st rv where req: "req = (now, j, st, rv)" by (cases req)
  let ?s' = "review now j st rv s"
  have inv': "inv ?s'" using Cons.prems(1) by (rule inv_review)
  have trm: "terminal_status (PyStr st)" and vt: "verdicts_terminal reqs"
    using Cons.prems(3) by (simp_all add: verdicts_terminal_def req)
  show ?case
  proof (cases "j = i")
    case True
    have "lookup ?s' i = Some (reviewed now st rv d)"
      using review_pending [OF Cons.prems(1,2) assms(3)] True by simp
    moreover have "terminal_status (get (reviewed now st rv d) ''status'')" using trm by simp
    ultimately have "lookup (run_reviews review reqs ?s') i = Some (reviewed now st rv d)"
      using decided_is_final [OF inv'] by blast
    then show ?thesis using True by (simp add: requests_for_def req)
  next
    case False
    then have "lookup ?s' i = Some d"
      using review_other [OF Cons.prems(1), of i j] Cons.prems(2) by simp
    from Cons.IH [OF inv' this vt] False show ?thesis
      by (simp add: requests_for_def req)
  qed
qed

end

lemma terminal_pending [simp]: "\<not> terminal_status (PyStr ''pending'')"
  by (simp add: terminal_status_def)

interpretation mem_review: review_ledger ds_wf ds_get
  "\<lambda>now i st rv s. fst (ds_transition now i st rv s)"
proof unfold_locales
  fix s now i st rv j d
  assume wf: "ds_wf s"
  show wf': "ds_wf (fst (ds_transition now i st rv s))" using wf by (rule ds_transition_wf)
  show "ds_get s i = Some d \<Longrightarrow> get d ''status'' = PyStr ''pending'' \<Longrightarrow>
      ds_get (fst (ds_transition now i st rv s)) i = Some (reviewed now st rv d)"
    using ds_get_map_of [OF wf] ds_get_map_of [OF wf'] by (simp add: ds_transition_def Let_def)
  show "ds_get s i = Some d \<Longrightarrow> terminal_status (get d ''status'') \<Longrightarrow>
      fst (ds_transition now i st rv s) = s"
    using ds_get_map_of [OF wf] by (simp add: ds_transition_def)
  show "j \<noteq> i \<Longrightarrow> ds_get (fst (ds_transition now i st rv s)) j = ds_get s j"
    using ds_get_map_of [OF wf] ds_get_map_of [OF wf']
    by (simp add: ds_transition_def Let_def split: option.split)
qed

lemma pg_get_some:
  "pg_wf tbl \<Longrightarrow> pg_get t i tbl = Some d \<longleftrightarrow>
     (\<exists>r \<in> set tbl. dr_visible t r \<and> dr_id r = i \<and> dr_payload r = d)"
proof (induction tbl)
  case (Cons r tbl)
  then show ?case
    by (force simp: pg_get_def pg_wf_def image_iff)
qed (simp add: pg_get_def)

lemma pg_wf_map:
  assumes "pg_wf tbl" and "\<And>r. r \<in> set tbl \<Longrightarrow> row_ok (f r) \<and> dr_id (f r) = dr_id r"
  shows "pg_wf (map f tbl)"
proof -
  have "map dr_id (map f tbl) = map dr_id tbl" using assms(2) by simp
  moreover have "\<forall>r \<in> set (map f tbl). row_ok r" using assms(2) by auto
  ultimately show ?thesis using assms(1) unfolding pg_wf_def by metis
qed

lemma pg_get_map:
  assumes "\<And>r. dr_id (f r) = dr_id r \<and> dr_tenant (f r) = dr_tenant r"
  shows "pg_get t i (map f tbl) =
    map_option (\<lambda>r. dr_payload (f r)) (find_first (\<lambda>r. dr_visible t r \<and> dr_id r = i) tbl)"
  using assms by (simp add: pg_get_def find_first_map dr_visible_def option.map_comp o_def)

lemma pg_get_map_same:
  assumes "\<And>r. dr_id (f r) = dr_id r \<and> dr_tenant (f r) = dr_tenant r"
    and "\<And>r. dr_id r = j \<Longrightarrow> dr_visible t r \<Longrightarrow> dr_payload (f r) = dr_payload r"
  shows "pg_get t j (map f tbl) = pg_get t j tbl"
proof (cases "find_first (\<lambda>r. dr_visible t r \<and> dr_id r = j) tbl")
  case None
  then show ?thesis using pg_get_map [of f t j tbl] assms(1) by (simp add: pg_get_def)
next
  case (Some r)
  then have "dr_payload (f r) = dr_payload r" using assms(2) by (auto dest!: find_first_SomeD)
  then show ?thesis using Some pg_get_map [of f t j tbl] assms(1) by (simp add: pg_get_def)
qed

lemma pg_transition_fst:
  "fst (pg_transition t now i st rv tbl) = (case pg_get t i tbl of
     None \<Rightarrow> tbl
   | Some cur \<Rightarrow>
       if terminal_status (get cur ''status'') then tbl
       else map (\<lambda>r. if dr_id r = i \<and> dr_visible t r \<and> dr_status r = ''pending''
                     then r\<lparr>dr_status := st, dr_payload := reviewed now st rv cur, dr_updated := now\<rparr>
                     else r) tbl)"
  by (simp add: pg_transition_def Let_def split: option.split)

lemma pg_wf_row: "pg_wf tbl \<Longrightarrow> r \<in> set tbl \<Longrightarrow> row_ok r"
  by (simp add: pg_wf_def)

lemma pg_get_find:
  "pg_get t i tbl = Some d \<Longrightarrow>
   \<exists>r. find_first (\<lambda>r. dr_visible t r \<and> dr_id r = i) tbl = Some r \<and> r \<in> set tbl \<and> dr_payload r = d"
  by (auto simp: pg_get_def dest: find_first_SomeD)

lemma pg_transition_wf:
  assumes "pg_wf tbl"
  shows "pg_wf (fst (pg_transition t now i st rv tbl))"
proof (cases "pg_get t i tbl")
  case None
  then show ?thesis using assms by (simp add: pg_transition_fst)
next
  case (Some cur)
  then have "record_ok cur"
    using pg_get_find [of t i tbl cur] pg_wf_row [OF assms] by (auto simp: row_ok_def)
  then have "row_ok (r\<lparr>dr_status := st, dr_payload := reviewed now st rv cur, dr_updated := now\<rparr>)" for r
    by (simp add: row_ok_def record_ok_reviewed) (simp add: get_or_def reviewed_def)
  then show ?thesis
    using assms Some pg_wf_row [OF assms] by (auto simp: pg_transition_fst intro!: pg_wf_map)
qed

interpretation pg_review: review_ledger pg_wf "\<lambda>tbl i. pg_get t i tbl"
  "\<lambda>now i st rv tbl. fst (pg_transition t now i st rv tbl)" for t
proof unfold_locales
  fix tbl now i st rv j d
  assume wf: "pg_wf tbl"
  show "pg_wf (fst (pg_transition t now i st rv tbl))" using wf by (rule pg_transition_wf)
  show "pg_get t i tbl = Some d \<Longrightarrow> terminal_status (get d ''status'') \<Longrightarrow>
      fst (pg_transition t now i st rv tbl) = tbl"
    by (simp add: pg_transition_fst)
  show "pg_get t i (fst (pg_transition t now i st rv tbl)) = Some (reviewed now st rv d)"
    if got: "pg_get t i tbl = Some d" and pend: "get d ''status'' = PyStr ''pending''"
  proof -
    obtain r where r: "find_first (\<lambda>r. dr_visible t r \<and> dr_id r = i) tbl = Some r" "r \<in> set tbl"
      "dr_payload r = d"
      using pg_get_find [OF got] by blast
    have "dr_status r = py_str (get_or d ''status'' (PyStr []))"
      using pg_wf_row [OF wf r(2)] r(3) by (simp add: row_ok_def)
    moreover have "get_or d ''status'' (PyStr []) = PyStr ''pending''"
      using pend by (auto simp: get_or_def get_def split: option.splits)
    ultimately have st: "dr_status r = ''pending''" by simp
    have vis: "dr_visible t r \<and> dr_id r = i" using r(1) find_first_SomeD by fast
    have "fst (pg_transition t now i st rv tbl) =
        map (\<lambda>r. if dr_id r = i \<and> dr_visible t r \<and> dr_status r = ''pending''
               then r\<lparr>dr_status := st, dr_payload := reviewed now st rv d, dr_updated := now\<rparr> else r) tbl"
      using got pend by (simp add: pg_transition_fst)
    then show ?thesis using r(1) st vis by (simp add: pg_get_map)
  qed
  show "j \<noteq> i \<Longrightarrow> pg_get t j (fst (pg_transition t now i st rv tbl)) = pg_get t j tbl"
  proof -
    assume ji: "j \<noteq> i"
    show ?thesis
    proof (cases "pg_get t i tbl")
      case (Some cur)
      then show ?thesis
        using ji by (simp add: pg_transition_fst) (auto intro!: pg_get_map_same)
    qed (simp add: pg_transition_fst)
  qed
qed

section \<open>Histories of operations\<close>

datatype decision_op =
    Upsert pydict
  | Annotate string pydict
  | Review string string string

text \<open>
  One call of the in-memory store; an upsert that raises changes nothing.
\<close>

fun ds_step :: "string \<Rightarrow> decision_op \<Rightarrow> decision_store \<Rightarrow> decision_store" where
  "ds_step now (Upsert d) s = (case ds_upsert now d s of Inl e \<Rightarrow> s | Inr (s', r) \<Rightarrow> s')"
| "ds_step now (Annotate i flds) s = fst (ds_annotate now i flds s)"
| "ds_step now (Review i st rv) s = fst (ds_transition now i st rv s)"

fun ds_run :: "(string \<times> decision_op) list \<Rightarrow> decision_store \<Rightarrow> decision_store" where
  "ds_run [] s = s"
| "ds_run ((now, x) # xs) s = ds_run xs (ds_step now x s)"

text \<open>The annotations the routes make never name the fields of the verdict.\<close>

definition keeps_verdict :: "decision_op \<Rightarrow> bool" where
  "keeps_verdict x = (case x of
       Annotate i flds \<Rightarrow> dict_wf flds \<and> \<not> dict_has ''status'' flds \<and> \<not> dict_has ''review'' flds
     | _ \<Rightarrow> True)"

definition verdict_of :: "pydict \<Rightarrow> pyval \<times> pyval" where
  "verdict_of d = (get d ''status'', get d ''review'')"

lemma ds_step_wf: "ds_wf s \<Longrightarrow> ds_wf (ds_step now x s)"
proof (cases x)
  case (Upsert d)
  assume "ds_wf s"
  then show ?thesis
    using Upsert by (auto split: sum.split dest: ds_upsert_wf)
qed (simp_all add: ds_annotate_wf ds_transition_wf)

lemma ds_run_wf: "ds_wf s \<Longrightarrow> ds_wf (ds_run xs s)"
  by (induction xs s rule: ds_run.induct) (auto intro: ds_step_wf)

lemma verdict_annotated:
  "dict_wf flds \<Longrightarrow> \<not> dict_has ''status'' flds \<Longrightarrow> \<not> dict_has ''review'' flds \<Longrightarrow>
   verdict_of (annotated now d flds) = verdict_of d"
  by (simp add: verdict_of_def annotated_def get_update dict_has_def)

lemma ds_step_final:
  assumes "ds_wf s" and "map_of s i = Some d" and "terminal_status (get d ''status'')"
    and "keeps_verdict x"
  shows "\<exists>d'. map_of (ds_step now x s) i = Some d' \<and> verdict_of d' = verdict_of d"
proof (cases x)
  case (Upsert e)
  have "d \<noteq> []" using ds_wf_get [OF assms(1,2)] by (rule record_ok_nonempty)
  then show ?thesis
    using Upsert assms(2,3) by (auto simp: ds_upsert_def Let_def split: option.split)
next
  case (Annotate j flds)
  then show ?thesis
    using assms verdict_annotated [of flds now]
    by (cases "j = i") (auto simp: ds_annotate_def keeps_verdict_def Let_def split: option.split)
next
  case (Review j st rv)
  then show ?thesis
    using assms(2,3) by (auto simp: ds_transition_def Let_def split: option.split)
qed

lemma ds_run_final:
  assumes "ds_wf s" and "map_of s i = Some d" and "terminal_status (get d ''status'')"
    and "list_all (\<lambda>(now, x). keeps_verdict x) xs"
  shows "\<exists>d'. map_of (ds_run xs s) i = Some d' \<and> verdict_of d' = verdict_of d"
  using assms
proof (induction xs s arbitrary: d rule: ds_run.induct)
  case (2 now x xs s)
  then obtain d1 where d1: "map_of (ds_step now x s) i = Some d1" "verdict_of d1 = verdict_of d"
    using ds_step_final [of s i d x now] by auto
  then have "terminal_status (get d1 ''status'')"
    using "2.prems"(3) by (simp add: verdict_of_def)
  then obtain d2 where "map_of (ds_run xs (ds_step now x s)) i = Some d2" "verdict_of d2 = verdict_of d1"
    using "2.IH" [OF ds_step_wf [OF "2.prems"(1)] d1(1)] "2.prems"(4) by auto
  then show ?case using d1(2) by auto
qed simp

section \<open>The Postgres store refines the in-memory store\<close>

text \<open>
  The rows of one tenant, read as the dictionary the in-memory store keeps.
\<close>

definition abs_table :: "decision_table \<Rightarrow> decision_store" where
  "abs_table tbl = map (\<lambda>r. (dr_id r, dr_payload r)) tbl"

definition single_tenant :: "string \<Rightarrow> decision_table \<Rightarrow> bool" where
  "single_tenant t tbl = list_all (dr_visible t) tbl"

definition lifecycle_statuses :: "decision_table \<Rightarrow> bool" where
  "lifecycle_statuses tbl =
     list_all (\<lambda>r. dr_status r \<in> {''pending'', ''approved'', ''rejected''} \<and>
       get (dr_payload r) ''status'' = PyStr (dr_status r)) tbl"

lemma pg_get_abs: "single_tenant t tbl \<Longrightarrow> pg_get t i tbl = map_of (abs_table tbl) i"
  by (induction tbl) (auto simp: pg_get_def single_tenant_def abs_table_def)

lemma find_id_abs: "map_option dr_payload (find_first (\<lambda>r. dr_id r = i) tbl) = map_of (abs_table tbl) i"
  by (induction tbl) (auto simp: abs_table_def)

lemma abs_table_map:
  assumes "distinct (map dr_id tbl)" and "r0 \<in> set tbl" and "dr_id r0 = i"
    and "\<And>r. dr_id (f r) = dr_id r" and "dr_payload (f r0) = p"
    and "\<And>r. dr_id r \<noteq> i \<Longrightarrow> dr_payload (f r) = dr_payload r"
  shows "abs_table (map f tbl) = dict_set i p (abs_table tbl)"
  using assms(1,2)
proof (induction tbl)
  case (Cons r tbl)
  show ?case
  proof (cases "dr_id r = i")
    case True
    then have "r = r0" using Cons.prems assms(3) by (auto simp: image_iff)
    have "dr_payload (f x) = dr_payload x" if "x \<in> set tbl" for x
      using that Cons.prems(1) True by (intro assms(6)) (auto simp: image_iff)
    then have "abs_table (map f tbl) = abs_table tbl"
      using assms(4) by (simp add: abs_table_def)
    then show ?thesis using True \<open>r = r0\<close> assms(4,5) by (simp add: abs_table_def)
  next
    case False
    with Cons have "abs_table (map f tbl) = dict_set i p (abs_table tbl)"
      using assms(3) by auto
    then show ?thesis using False assms(4,6) by (simp add: abs_table_def)
  qed
qed simp

lemma find_first_id:
  "find_first (\<lambda>r. dr_id r = i) tbl = Some r \<Longrightarrow> r \<in> set tbl \<and> dr_id r = i"
  by (auto dest: find_first_SomeD)

lemma lifecycle_row:
  "lifecycle_statuses tbl \<Longrightarrow> r \<in> set tbl \<Longrightarrow>
   get (dr_payload r) ''status'' = PyStr (dr_status r) \<and> dr_status r \<in> {''pending'', ''approved'', ''rejected''}"
  by (auto simp: lifecycle_statuses_def list_all_iff)

lemma lifecycle_nonterminal:
  "lifecycle_statuses tbl \<Longrightarrow> r \<in> set tbl \<Longrightarrow> \<not> terminal_status (get (dr_payload r) ''status'') \<Longrightarrow>
   dr_status r = ''pending''"
  by (auto dest!: lifecycle_row simp: terminal_status_def)

lemma pg_transition_refines:
  assumes "pg_wf tbl" "single_tenant t tbl" "lifecycle_statuses tbl"
  shows "ds_transition now i st rv (abs_table tbl) =
    (abs_table (fst (pg_transition t now i st rv tbl)), snd (pg_transition t now i st rv tbl))"
proof (cases "pg_get t i tbl")
  case None
  then show ?thesis
    using pg_get_abs [OF assms(2)] by (simp add: ds_transition_def pg_transition_def)
next
  case (Some cur)
  then obtain r where r: "r \<in> set tbl" "dr_payload r = cur" "dr_visible t r" "dr_id r = i"
    by (auto simp: pg_get_def dest!: find_first_SomeD)
  have m: "map_of (abs_table tbl) i = Some cur" using Some pg_get_abs [OF assms(2)] by simp
  show ?thesis
  proof (cases "terminal_status (get cur ''status'')")
    case True
    then show ?thesis using Some m by (simp add: ds_transition_def pg_transition_def)
  next
    case False
    let ?hit = "\<lambda>r. dr_id r = i \<and> dr_visible t r \<and> dr_status r = ''pending''"
    let ?u = "reviewed now st rv cur"
    let ?f = "\<lambda>r. if ?hit r then r\<lparr>dr_status := st, dr_payload := ?u, dr_updated := now\<rparr> else r"
    have pend: "dr_status r = ''pending''"
      using lifecycle_nonterminal [OF assms(3) r(1)] False r(2) by simp
    have "abs_table (map ?f tbl) = dict_set i ?u (abs_table tbl)"
      by (rule abs_table_map [OF _ r(1,4)]) (use assms(1) r pend in \<open>auto simp: pg_wf_def\<close>)
    moreover have "\<exists>r \<in> set tbl. ?hit r" using r pend by blast
    ultimately show ?thesis
      using Some m False by (simp add: ds_transition_def pg_transition_def Let_def)
  qed
qed

lemma pg_upsert_refines:
  assumes "pg_wf tbl" "single_tenant t tbl" "lifecycle_statuses tbl"
    and "\<And>existing. decision_tenant (merged_record now existing d) = t"
    and "pg_upsert t now d tbl = Inr (tbl', r)"
  shows "ds_upsert now d (abs_table tbl) = Inr (abs_table tbl', r)"
proof -
  define i where "i = decision_id_of d"
  have i: "i \<noteq> []" using assms(5) by (auto simp: pg_upsert_def i_def Let_def split: if_splits)
  have g: "pg_get t i tbl = map_of (abs_table tbl) i" using pg_get_abs [OF assms(2)] .
  show ?thesis
  proof (cases "map_of (abs_table tbl) i")
    case None
    define m where "m = merged_record now [] d"
    have no: "find_first (\<lambda>r. dr_id r = i) tbl = None"
      using None find_id_abs [of i tbl] by (cases "find_first (\<lambda>r. dr_id r = i) tbl") auto
    have ten: "decision_tenant m = t" using assms(4) by (simp add: m_def)
    have ins: "pg_insert_decision t (row_of i m) tbl = Inr (tbl @ [row_of i m])"
      using no ten by (simp add: pg_insert_decision_def row_of_def dr_visible_def)
    have ab: "abs_table (tbl @ [row_of i m]) = dict_set i m (abs_table tbl)"
      using dict_set_fresh [OF None, of m] by (simp add: abs_table_def row_of_def)
    have st: "single_tenant t (tbl @ [row_of i m])"
      using assms(2) ten by (simp add: single_tenant_def dr_visible_def row_of_def)
    have "pg_get t i (tbl @ [row_of i m]) = Some m"
      using pg_get_abs [OF st] by (simp add: ab)
    then have "tbl' = tbl @ [row_of i m]" and "r = m"
      using assms(5) i None ins ten g
      by (auto simp: pg_upsert_def Let_def i_def [symmetric] m_def [symmetric] split: if_splits)
    then show ?thesis
      using ab None i by (simp add: ds_upsert_def Let_def i_def [symmetric] m_def [symmetric])
  next
    case (Some e)
    then obtain r0 where r0: "find_first (\<lambda>r. dr_id r = i) tbl = Some r0" "r0 \<in> set tbl"
      "dr_payload r0 = e" "dr_id r0 = i"
      using find_id_abs [of i tbl]
      by (cases "find_first (\<lambda>r. dr_id r = i) tbl") (auto dest: find_first_id)
    have e: "e \<noteq> []"
      using pg_wf_row [OF assms(1) r0(2)] r0(3) record_ok_nonempty by (auto simp: row_ok_def)
    show ?thesis
    proof (cases "terminal_status (get e ''status'')")
      case True
      then show ?thesis
        using assms(5) Some g e i by (simp add: pg_upsert_def ds_upsert_def Let_def i_def [symmetric])
    next
      case False
      define m where "m = merged_record now e d"
      have ten: "decision_tenant m = t" using assms(4) by (simp add: m_def)
      have pend: "dr_status r0 = ''pending''"
        using lifecycle_nonterminal [OF assms(3) r0(2)] False r0(3) by simp
      have vis: "dr_visible t r0" using assms(2) r0(2) by (auto simp: single_tenant_def list_all_iff)
      let ?f = "\<lambda>r. if dr_id r = i then (row_of i m)\<lparr>dr_created := dr_created r\<rparr> else r"
      have ins: "pg_insert_decision t (row_of i m) tbl = Inr (map ?f tbl)"
        using r0(1) pend vis ten by (simp add: pg_insert_decision_def row_of_def dr_visible_def)
      have ab: "abs_table (map ?f tbl) = dict_set i m (abs_table tbl)"
        by (rule abs_table_map [OF _ r0(2,4)])
          (use assms(1) r0(4) in \<open>auto simp: pg_wf_def row_of_def\<close>)
      have "single_tenant t (map ?f tbl)"
        using assms(2) ten by (auto simp: single_tenant_def list_all_iff dr_visible_def row_of_def)
      then have "pg_get t i (map ?f tbl) = Some m" using pg_get_abs by (simp add: ab)
      moreover have "m \<noteq> []"
        using record_ok_nonempty [OF record_ok_merged [of e now d]] pg_wf_row [OF assms(1) r0(2)] r0(3)
        by (simp add: m_def row_ok_def record_ok_def)
      ultimately have "tbl' = map ?f tbl" and "r = m"
        using assms(5) i Some ins ten g False e
        by (auto simp: pg_upsert_def Let_def i_def [symmetric] m_def [symmetric])
      then show ?thesis
        using ab Some i False e by (simp add: ds_upsert_def Let_def i_def [symmetric] m_def [symmetric])
    qed
  qed
qed

section \<open>Tenant isolation of the Postgres store\<close>

definition foreign_rows :: "string \<Rightarrow> decision_table \<Rightarrow> decision_table" where
  "foreign_rows t tbl = filter (\<lambda>r. \<not> dr_visible t r) tbl"

lemma foreign_rows_map:
  assumes "\<And>r. dr_tenant (f r) = dr_tenant r" and "\<And>r. \<not> dr_visible t r \<Longrightarrow> f r = r"
  shows "foreign_rows t (map f tbl) = foreign_rows t tbl"
  unfolding foreign_rows_def
  by (rule filter_map_untouched) (use assms in \<open>auto simp: dr_visible_def\<close>)

lemma pg_transition_isolated:
  "foreign_rows t (fst (pg_transition t now i st rv tbl)) = foreign_rows t tbl"
  by (auto simp: pg_transition_fst intro!: foreign_rows_map split: option.split)

lemma pg_annotate_isolated:
  "foreign_rows t (fst (pg_annotate t now i flds tbl)) = foreign_rows t tbl"
  by (auto simp: pg_annotate_def pg_save_payload_def Let_def intro!: foreign_rows_map
      split: option.split)

lemma pg_insert_isolated:
  assumes "pg_insert_decision t n tbl = Inr tbl'" and "distinct (map dr_id tbl)"
  shows "foreign_rows t tbl' = foreign_rows t tbl"
proof -
  have n: "dr_visible t n" using assms(1) by (auto simp: pg_insert_decision_def split: if_splits)
  show ?thesis
  proof (cases "find_first (\<lambda>r. dr_id r = dr_id n) tbl")
    case None
    then show ?thesis using assms(1) n by (auto simp: pg_insert_decision_def foreign_rows_def)
  next
    case (Some old)
    then have old: "old \<in> set tbl" "dr_id old = dr_id n" by (auto dest: find_first_id)
    have uniq: "r = old" if "r \<in> set tbl" "dr_id r = dr_id n" for r
      using that old assms(2) by (metis distinct_map inj_onD)
    show ?thesis
    proof (cases "dr_status old \<in> {''approved'', ''rejected''}")
      case True
      then show ?thesis using assms(1) n Some by (auto simp: pg_insert_decision_def)
    next
      case False
      then have vis: "dr_visible t old"
        and tbl': "tbl' = map (\<lambda>r. if dr_id r = dr_id n then n\<lparr>dr_created := dr_created r\<rparr> else r) tbl"
        using assms(1) n Some by (auto simp: pg_insert_decision_def split: if_splits)
      show ?thesis
        unfolding tbl' foreign_rows_def
        by (rule filter_map_untouched) (use uniq vis n in \<open>auto simp: dr_visible_def\<close>)
    qed
  qed
qed

section \<open>Properties\<close>

text \<open>A pending record and its row, for the concrete instances below.\<close>

definition pending_example :: pydict where
  "pending_example = merged_record ''t0'' [] [(''id'', PyStr ''dec_1''), (''status'', PyStr ''pending'')]"

lemma pending_example_ok: "record_ok pending_example" "get pending_example ''status'' = PyStr ''pending''"
  by (simp_all add: pending_example_def record_ok_merged)
    (simp add: merged_record_def dict_update_def dict_setdefault_def)

lemma pending_row_wf: "pg_wf [row_of ''dec_1'' pending_example]"
  using pending_example_ok(1) by (simp add: pg_wf_def row_ok_def row_of_def)

lemma pending_tenant: "decision_tenant pending_example = ''default''"
  by (simp add: decision_tenant_def str_or_def pending_example_def merged_record_def
      dict_update_def dict_setdefault_def py_or_def strip_def)

lemma pending_row_single: "single_tenant ''default'' [row_of ''dec_1'' pending_example]"
  using pending_tenant by (simp add: single_tenant_def dr_visible_def row_of_def)

lemma pending_row_status: "dr_status (row_of ''dec_1'' pending_example) = ''pending''"
  using pending_example_ok(2) by (simp add: row_of_def get_or_def get_def split: option.splits)

lemma pending_row_lifecycle: "lifecycle_statuses [row_of ''dec_1'' pending_example]"
  using pending_example_ok(2) pending_row_status by (simp add: lifecycle_statuses_def row_of_def)

text \<open>
  C3. A decided decision is final. In any history of upserts, reviews and annotations (none of which
  names the verdict's own fields), a decision that is approved or rejected keeps its status and its
  review, whatever a cascade replays or a reviewer clicks afterwards.
\<close>

theorem decided_decisions_are_final:
  assumes "ds_wf s" and "ds_get s i = Some d" and "terminal_status (get d ''status'')"
    and "list_all (\<lambda>(now, x). keeps_verdict x) history"
  shows "\<exists>d'. ds_get (ds_run history s) i = Some d' \<and> verdict_of d' = verdict_of d"
proof -
  have "map_of s i = Some d" using assms(2) ds_get_map_of [OF assms(1)] by simp
  from ds_run_final [OF assms(1) this assms(3,4)] show ?thesis
    using ds_get_map_of [OF ds_run_wf [OF assms(1)]] by simp
qed

theorem decided_decisions_are_final_witness:
  "\<exists>d'. ds_get (ds_run
      [(''t2'', Upsert [(''id'', PyStr ''dec_1''), (''status'', PyStr ''pending'')]),
       (''t3'', Review ''dec_1'' ''rejected'' ''bob''),
       (''t4'', Annotate ''dec_1'' [(''outcome'', PyStr ''sold'')])]
      [(''dec_1'', reviewed ''t1'' ''approved'' ''ann''
         (merged_record ''t0'' [] [(''id'', PyStr ''dec_1''), (''status'', PyStr ''pending'')]))])
      ''dec_1'' = Some d' \<and>
    verdict_of d' = (PyStr ''approved'', PyDict (review_record ''t1'' ''approved'' ''ann''))"
proof -
  let ?m = "merged_record ''t0'' [] [(''id'', PyStr ''dec_1''), (''status'', PyStr ''pending'')]"
  let ?d = "reviewed ''t1'' ''approved'' ''ann'' ?m"
  let ?s = "[(''dec_1'', ?d)]"
  have ok: "record_ok ?d" by (intro record_ok_reviewed record_ok_merged) simp
  then have wf: "ds_wf ?s" by (simp add: ds_wf_def dict_wf_def)
  have g: "ds_get ?s ''dec_1'' = Some ?d"
    using ds_get_map_of [OF wf] by simp
  have v: "verdict_of ?d = (PyStr ''approved'', PyDict (review_record ''t1'' ''approved'' ''ann''))"
    by (simp add: verdict_of_def reviewed_def)
  show ?thesis
    unfolding v [symmetric]
    by (rule decided_decisions_are_final [OF wf g])
      (simp_all add: terminal_status_def keeps_verdict_def dict_wf_def dict_has_def)
qed

text \<open>
  Repeat clicks on an approval: over any sequence of review requests, the record of a pending
  decision ends as the one the first request for it produced, with that reviewer, that verdict and
  that time; later requests change nothing. This is the in-memory backend.
\<close>

theorem first_review_decides:
  assumes "ds_wf s" and "ds_get s i = Some d" and "get d ''status'' = PyStr ''pending''"
    and "verdicts_terminal reqs"
  shows "ds_get (run_reviews (\<lambda>now i st rv s. fst (ds_transition now i st rv s)) reqs s) i =
    (case requests_for i reqs of [] \<Rightarrow> Some d | (now, j, st, rv) # _ \<Rightarrow> Some (reviewed now st rv d))"
  using assms by (rule mem_review.first_review_wins)

theorem first_review_decides_witness:
  "ds_get (run_reviews (\<lambda>now i st rv s. fst (ds_transition now i st rv s))
      [(''t1'', ''dec_1'', ''rejected'', ''bob''), (''t2'', ''dec_1'', ''approved'', ''ann'')]
      [(''dec_1'', pending_example)]) ''dec_1'' =
    Some (reviewed ''t1'' ''rejected'' ''bob'' pending_example)"
proof -
  have wf: "ds_wf [(''dec_1'', pending_example)]"
    using pending_example_ok by (simp add: ds_wf_def dict_wf_def)
  have "ds_get [(''dec_1'', pending_example)] ''dec_1'' = Some pending_example"
    using ds_get_map_of [OF wf] by simp
  from first_review_decides [OF wf this pending_example_ok(2), of
      "[(''t1'', ''dec_1'', ''rejected'', ''bob''), (''t2'', ''dec_1'', ''approved'', ''ann'')]"]
  show ?thesis
    by (simp add: requests_for_def verdicts_terminal_def terminal_status_def)
qed

text \<open>
  The Postgres backend keeps the same promise for every tenant session: the first review of a
  pending decision decides it.
\<close>

theorem first_review_decides_postgres:
  assumes "pg_wf tbl" and "pg_get t i tbl = Some d" and "get d ''status'' = PyStr ''pending''"
    and "verdicts_terminal reqs"
  shows "pg_get t i (run_reviews (\<lambda>now i st rv tbl. fst (pg_transition t now i st rv tbl)) reqs tbl) =
    (case requests_for i reqs of [] \<Rightarrow> Some d | (now, j, st, rv) # _ \<Rightarrow> Some (reviewed now st rv d))"
  using assms by (rule pg_review.first_review_wins)

theorem first_review_decides_postgres_witness:
  "pg_get ''default'' ''dec_1''
     (run_reviews (\<lambda>now i st rv tbl. fst (pg_transition ''default'' now i st rv tbl))
       [(''t1'', ''dec_1'', ''approved'', ''ann''), (''t2'', ''dec_1'', ''rejected'', ''bob'')]
       [row_of ''dec_1'' pending_example]) =
   Some (reviewed ''t1'' ''approved'' ''ann'' pending_example)"
proof -
  have "pg_get ''default'' ''dec_1'' [row_of ''dec_1'' pending_example] = Some pending_example"
    using pending_tenant by (simp add: pg_get_def row_of_def dr_visible_def)
  from first_review_decides_postgres [OF pending_row_wf this pending_example_ok(2), of
      "[(''t1'', ''dec_1'', ''approved'', ''ann''), (''t2'', ''dec_1'', ''rejected'', ''bob'')]"]
  show ?thesis
    by (simp add: requests_for_def verdicts_terminal_def terminal_status_def)
qed

text \<open>
  C37. The Postgres store refines the in-memory store on the review path: on a table of one tenant
  whose rows are in a lifecycle status, a review returns the same record from both backends, and
  reading the table back as a dictionary commutes with the review.
\<close>

theorem postgres_review_refines_memory:
  assumes "pg_wf tbl" and "single_tenant t tbl" and "lifecycle_statuses tbl"
  shows "ds_transition now i st rv (abs_table tbl) =
    (abs_table (fst (pg_transition t now i st rv tbl)), snd (pg_transition t now i st rv tbl))"
  using assms by (rule pg_transition_refines)

theorem postgres_review_refines_memory_witness:
  "ds_transition ''t1'' ''dec_1'' ''approved'' ''ann'' (abs_table [row_of ''dec_1'' pending_example]) =
    (abs_table (fst (pg_transition ''default'' ''t1'' ''dec_1'' ''approved'' ''ann''
        [row_of ''dec_1'' pending_example])),
     snd (pg_transition ''default'' ''t1'' ''dec_1'' ''approved'' ''ann''
        [row_of ''dec_1'' pending_example]))"
  by (rule postgres_review_refines_memory [OF pending_row_wf pending_row_single pending_row_lifecycle])

text \<open>
  Tenant isolation: nothing a tenant's session does through the Postgres store (inserting a
  decision, reviewing or annotating one by whatever id) changes, adds or removes a row of another
  tenant.
\<close>

theorem postgres_decisions_isolated:
  assumes "pg_wf tbl"
  shows "foreign_rows t (fst (pg_transition t now i st rv tbl)) = foreign_rows t tbl \<and>
    foreign_rows t (fst (pg_annotate t now i flds tbl)) = foreign_rows t tbl \<and>
    (case pg_insert_decision t n tbl of
       Inl e \<Rightarrow> True | Inr tbl' \<Rightarrow> foreign_rows t tbl' = foreign_rows t tbl)"
  using pg_transition_isolated pg_annotate_isolated pg_insert_isolated [of t n tbl] assms
  by (simp add: pg_wf_def split: sum.split)

theorem postgres_decisions_isolated_witness:
  "foreign_rows ''acme'' (fst (pg_transition ''acme'' ''t1'' ''dec_1'' ''approved'' ''eve''
      [row_of ''dec_1'' pending_example])) = [row_of ''dec_1'' pending_example]"
  using postgres_decisions_isolated [OF pending_row_wf,
      of "''acme''" "''t1''" "''dec_1''" "''approved''" "''eve''"] pending_tenant
  by (simp add: foreign_rows_def dr_visible_def row_of_def)

text \<open>
  Where the two backends part: a decision whose status is neither pending nor terminal (a
  payload may carry any status string) is reviewed by the in-memory store and left alone by the
  Postgres store, whose update is guarded by \<open>status = 'pending'\<close>.
\<close>

theorem backends_differ_on_other_statuses:
  assumes "pg_wf tbl" and "single_tenant t tbl" and "r \<in> set tbl" and "dr_id r = i"
    and "dr_status r = s" and "get (dr_payload r) ''status'' = PyStr s"
    and "s \<notin> {''pending'', ''approved'', ''rejected''}"
  shows "snd (ds_transition now i st rv (abs_table tbl)) = Some (reviewed now st rv (dr_payload r)) \<and>
    fst (pg_transition t now i st rv tbl) = tbl"
proof
  have g: "pg_get t i tbl = Some (dr_payload r)"
    using assms(2-4) pg_get_some [OF assms(1)] by (auto simp: single_tenant_def list_all_iff)
  have uniq: "x = r" if "x \<in> set tbl" "dr_id x = i" for x
    using that assms(1,3,4) by (metis pg_wf_def distinct_map inj_onD)
  show "snd (ds_transition now i st rv (abs_table tbl)) = Some (reviewed now st rv (dr_payload r))"
    using g pg_get_abs [OF assms(2)] assms(6,7)
    by (simp add: ds_transition_def terminal_status_def Let_def)
  show "fst (pg_transition t now i st rv tbl) = tbl"
    using g uniq assms(5,7) by (auto simp: pg_transition_fst intro!: map_idI split: option.split)
qed

theorem backends_differ_on_other_statuses_witness:
  "\<exists>rec. snd (ds_transition ''t1'' ''d'' ''approved'' ''ann'' (abs_table
        [row_of ''d'' (merged_record ''t0'' [] [(''id'', PyStr ''d''), (''status'', PyStr ''draft'')])]))
      = Some rec \<and> get rec ''status'' = PyStr ''approved'' \<and>
    fst (pg_transition ''default'' ''t1'' ''d'' ''approved'' ''ann''
        [row_of ''d'' (merged_record ''t0'' [] [(''id'', PyStr ''d''), (''status'', PyStr ''draft'')])])
      = [row_of ''d'' (merged_record ''t0'' [] [(''id'', PyStr ''d''), (''status'', PyStr ''draft'')])]"
proof -
  let ?m = "merged_record ''t0'' [] [(''id'', PyStr ''d''), (''status'', PyStr ''draft'')]"
  let ?r = "row_of ''d'' ?m"
  have st: "get ?m ''status'' = PyStr ''draft''" and ten: "decision_tenant ?m = ''default''"
    by (simp_all add: decision_tenant_def str_or_def merged_record_def dict_update_def
        dict_setdefault_def py_or_def strip_def)
  have s: "dr_status ?r = ''draft''"
    using st by (simp add: row_of_def get_or_def get_def split: option.splits)
  have wf: "pg_wf [?r]" using record_ok_merged [of "[]"] by (simp add: pg_wf_def row_ok_def row_of_def)
  have sg: "single_tenant ''default'' [?r]"
    using ten by (simp add: single_tenant_def dr_visible_def row_of_def)
  show ?thesis
    using backends_differ_on_other_statuses [OF wf sg, of ?r "''d''" "''draft''" "''t1''" "''approved''" "''ann''"]
      st s by (simp add: row_of_def)
qed

end
