(* ===== verification/Worker.thy ===== *)
theory Worker
  imports EventBus Journal DecisionStore
begin

text \<open>
  The cascade worker (\<open>src/shelfwise_backend/worker/worker.py\<close>) and its loop service
  (\<open>worker/service.py\<close>): one message is consumed, its cascade and the persistence of its decision are
  journaled, and the message is acknowledged or refused. The bus operations and the cascade handler
  are arguments, as they are in the code; \<open>mem_process_one\<close> is the worker on the in-memory bus.
\<close>

section \<open>Identity and causality\<close>

definition event_run_id :: "event \<Rightarrow> string" where
  "event_run_id e =
     ''event:'' @ ev_tenant_id e @ '':'' @ domain_value (ev_data_domain e) @ '':'' @ ev_id e"

definition attach_event_causality :: "pydict \<Rightarrow> event \<Rightarrow> pydict" where
  "attach_event_causality result e =
     (let r = dict_set ''data_domain'' (PyStr (domain_value (ev_data_domain e)))
                (dict_set ''tenant_id'' (PyStr (ev_tenant_id e))
                  (dict_set ''correlation_id'' (PyStr (ev_correlation_id e)) result))
      in case get r ''decision'' of
           PyDict d \<Rightarrow> dict_set ''decision'' (PyDict
             (dict_set ''data_domain'' (PyStr (domain_value (ev_data_domain e)))
               (dict_set ''tenant_id'' (PyStr (ev_tenant_id e))
                 (dict_set ''caused_by'' (PyList [PyStr (ev_id e)]) d)))) r
         | _ \<Rightarrow> r)"

text \<open>
  \<open>default_cascade_handler\<close> over the cascades it calls (\<open>run_expiry_risk_check\<close> may return nothing).
\<close>

record cascades =
  golden :: "event \<Rightarrow> pydict result"
  procurement :: "event \<Rightarrow> pydict result"
  sales :: "event \<Rightarrow> pydict result"
  expiry_risk :: "event \<Rightarrow> pydict option result"
  cold_chain :: "event \<Rightarrow> pydict result"

definition needs_operational_facts :: "event \<Rightarrow> bool" where
  "needs_operational_facts e =
     (ev_data_domain e = OPERATIONAL_TWIN \<and> ev_type e \<in> {SCAN, SUPPLIER_UPDATE, SALE, COLD_CHAIN_ALERT})"

definition ignored_result :: "event \<Rightarrow> pydict" where
  "ignored_result e =
     [(''correlation_id'', PyStr (ev_correlation_id e)), (''tenant_id'', PyStr (ev_tenant_id e)),
      (''scenario'', PyNone), (''decision'', PyNone), (''evidence'', PyList []), (''trace'', PyList []),
      (''status'', PyStr ''ignored'')]"

definition default_cascade_handler :: "cascades \<Rightarrow> event \<Rightarrow> pydict result" where
  "default_cascade_handler cs e =
     (let attached = (\<lambda>r. bind_res r (\<lambda>v. Inr (attach_event_causality v e))) in
      if needs_operational_facts e then
        Inr (attach_event_causality
          [(''scenario'', PyStr ''operational_dispatcher_required''), (''decision'', PyNone),
           (''evidence'', PyList []), (''trace'', PyList []),
           (''status'', PyStr ''insufficient_operational_facts''),
           (''missing_data'', PyList [PyStr ''configured operational facts provider''])] e)
      else case ev_type e of
        SCAN \<Rightarrow> attached (golden cs e)
      | SUPPLIER_UPDATE \<Rightarrow> attached (procurement cs e)
      | SALE \<Rightarrow> attached (sales cs e)
      | EXPIRY_ENTRY \<Rightarrow> bind_res (expiry_risk cs e) (\<lambda>r. case r of
          Some v \<Rightarrow> Inr (attach_event_causality v e) | None \<Rightarrow> Inr (ignored_result e))
      | COLD_CHAIN_ALERT \<Rightarrow> attached (cold_chain cs e)
      | _ \<Rightarrow> Inr (ignored_result e))"

section \<open>Processing one event\<close>

fun exn_str :: "py_exn \<Rightarrow> string" where
  "exn_str (ValueError m) = m"
| "exn_str (TypeError m) = m"
| "exn_str (KeyError k) = repr_str k"
| "exn_str (OverflowError m) = m"
| "exn_str (RuntimeError m) = m"
| "exn_str (AttributeError m) = m"
| "exn_str (ArithmeticError m) = m"
| "exn_str (DatabaseError m) = m"
| "exn_str (DataDomainBoundaryError m) = m"
| "exn_str (HTTPException code m) = str_nat code @ '': '' @ m"

abbreviation mem_journaled where
  "mem_journaled \<equiv> journaled jr_get (\<lambda>r k out undo j. Inr (jr_put r k out undo j))"

definition persist_step_key :: "pydict \<Rightarrow> string" where
  "persist_step_key d = ''decision_persist:'' @ py_str (get_or d ''id'' (PyStr ''unknown''))"

definition upsert_step :: "string \<Rightarrow> pydict \<Rightarrow> decision_store \<Rightarrow> decision_store \<times> pydict result" where
  "upsert_step now d ds = (case ds_upsert now d ds of
       Inl e \<Rightarrow> (ds, Inl e)
     | Inr (ds', r) \<Rightarrow> (ds', Inr [(''decision'', PyDict r)]))"

definition persist_decision ::
  "string \<Rightarrow> string \<Rightarrow> pydict \<Rightarrow> journal \<Rightarrow> decision_store \<Rightarrow> (journal \<times> decision_store) \<times> pydict option result" where
  "persist_decision now r cascade j ds = (case get cascade ''decision'' of
       PyDict d \<Rightarrow> (case mem_journaled r (persist_step_key d) None (upsert_step now d) j ds of
           (jd, Inl e) \<Rightarrow> (jd, Inl e)
         | (jd, Inr out) \<Rightarrow> (jd, Inr (case get out ''decision'' of PyDict p \<Rightarrow> Some p | _ \<Rightarrow> None)))
     | _ \<Rightarrow> ((j, ds), Inr None))"

text \<open>The body of the \<open>try\<close>, after the event is parsed, up to and including \<open>finish_run\<close>.\<close>

definition process_event ::
  "string \<Rightarrow> (event \<Rightarrow> pydict result) \<Rightarrow> event \<Rightarrow> journal \<Rightarrow> decision_store \<Rightarrow>
   (journal \<times> decision_store) \<times> pydict result" where
  "process_event now h e j ds = (case bind_tenant_context (ev_tenant_id e) of
       Inl x \<Rightarrow> ((j, ds), Inl x)
     | Inr _ \<Rightarrow>
       (case jr_start_run now (event_run_id e) (ev_tenant_id e) (PyStr (domain_value (ev_data_domain e))) j of
          Inl x \<Rightarrow> ((j, ds), Inl x)
        | Inr j1 \<Rightarrow>
          (case mem_journaled (event_run_id e) ''cascade'' None (\<lambda>w. (w, h e)) j1 ds of
             ((j2, ds2), Inl x) \<Rightarrow> ((j2, ds2), Inl x)
           | ((j2, ds2), Inr cascade) \<Rightarrow>
             (case persist_decision now (event_run_id e) cascade j2 ds2 of
                ((j3, ds3), Inl x) \<Rightarrow> ((j3, ds3), Inl x)
              | ((j3, ds3), Inr p) \<Rightarrow>
                  ((jr_finish_run now (event_run_id e) ''done'' j3, ds3),
                   Inr (case p of Some d \<Rightarrow> dict_set ''decision'' (PyDict d) cascade | None \<Rightarrow> cascade))))))"

record worker_result =
  wr_processed :: bool
  wr_status :: string
  wr_message_id :: "string option"
  wr_run_id :: "string option"
  wr_cascade :: "pydict option"
  wr_error :: "string option"
  wr_dead_lettered :: bool

definition run_id_from_message :: "bus_message \<Rightarrow> string option" where
  "run_id_from_message m = (case parse_wire (PyDict (msg_event m)) of
       Inr e \<Rightarrow> Some (event_run_id e)
     | Inl _ \<Rightarrow>
         (let s = py_str (py_or (py_or (get (msg_event m) ''id'') (get (msg_event m) ''correlation_id''))
                    (PyStr []))
          in if s = [] then None else Some s))"

record 'q worker_state =
  ws_bus :: 'q
  ws_journal :: journal
  ws_decisions :: decision_store

definition process_one ::
  "(string option \<Rightarrow> 'q \<Rightarrow> 'q \<times> bus_message option) \<Rightarrow> (string \<Rightarrow> string \<Rightarrow> 'q \<Rightarrow> 'q) \<Rightarrow>
   (string \<Rightarrow> string \<Rightarrow> 'q \<Rightarrow> 'q \<times> bool) \<Rightarrow> string \<Rightarrow> (event \<Rightarrow> pydict result) \<Rightarrow> string option \<Rightarrow>
   'q worker_state \<Rightarrow> 'q worker_state \<times> worker_result" where
  "process_one consume ack nack now h stream st = (case consume stream (ws_bus st) of
       (q, None) \<Rightarrow>
         (st\<lparr>ws_bus := q\<rparr>, \<lparr>wr_processed = False, wr_status = ''idle'', wr_message_id = None,
            wr_run_id = None, wr_cascade = None, wr_error = None, wr_dead_lettered = False\<rparr>)
     | (q, Some m) \<Rightarrow>
         (let ((j, ds), res) = (case parse_wire (PyDict (msg_event m)) of
                  Inl x \<Rightarrow> ((ws_journal st, ws_decisions st), Inl x)
                | Inr e \<Rightarrow> (case process_event now h e (ws_journal st) (ws_decisions st) of
                    (jd, Inl x) \<Rightarrow> (jd, Inl x) | (jd, Inr c) \<Rightarrow> (jd, Inr (event_run_id e, c))))
          in case res of
               Inr (r, c) \<Rightarrow>
                 (\<lparr>ws_bus = ack (msg_stream m) (msg_id m) q, ws_journal = j, ws_decisions = ds\<rparr>,
                  \<lparr>wr_processed = True, wr_status = ''done'', wr_message_id = Some (msg_id m),
                   wr_run_id = Some r, wr_cascade = Some c, wr_error = None, wr_dead_lettered = False\<rparr>)
             | Inl x \<Rightarrow>
                 (let r = run_id_from_message m;
                      j' = (case r of Some i \<Rightarrow> jr_finish_run now i ''failed'' j | None \<Rightarrow> j);
                      (q', dl) = nack (msg_stream m) (msg_id m) q
                  in (\<lparr>ws_bus = q', ws_journal = j', ws_decisions = ds\<rparr>,
                      \<lparr>wr_processed = True, wr_status = ''failed'', wr_message_id = Some (msg_id m),
                       wr_run_id = r, wr_cascade = None, wr_error = Some (exn_str x),
                       wr_dead_lettered = dl\<rparr>))))"

definition mem_process_one ::
  "string \<Rightarrow> (event \<Rightarrow> pydict result) \<Rightarrow> string option \<Rightarrow> event_bus worker_state \<Rightarrow>
   event_bus worker_state \<times> worker_result" where
  "mem_process_one = process_one bus_consume_one bus_ack bus_nack"

section \<open>Every consumed message is settled\<close>

definition settled ::
  "bus_message \<Rightarrow> worker_result \<Rightarrow> bus_message multiset \<Rightarrow> bus_message multiset \<Rightarrow> string list \<Rightarrow>
   bus_message multiset \<Rightarrow> bus_message multiset \<Rightarrow> string list \<Rightarrow> bool" where
  "settled m r waiting dead acked waiting' dead' acked' \<longleftrightarrow>
     wr_message_id r = Some (msg_id m) \<and>
     (if wr_status r = ''done'' then
        waiting = add_mset m waiting' \<and> dead' = dead \<and> acked' = acked @ [ack_key (msg_stream m) (msg_id m)]
      else if wr_dead_lettered r then waiting = add_mset m waiting' \<and> dead' = add_mset m dead \<and> acked' = acked
      else waiting' = waiting \<and> dead' = dead \<and> acked' = acked)"

context delivery_queue
begin

lemma process_one_settles:
  assumes "inv (ws_bus st)" and "process_one consume ack nack now h stream st = (st', r)"
  shows "inv (ws_bus st') \<and>
    (if wr_processed r then \<exists>m \<in># waiting (ws_bus st). wants stream m \<and>
       settled m r (waiting (ws_bus st)) (dead (ws_bus st)) (acked (ws_bus st))
         (waiting (ws_bus st')) (dead (ws_bus st')) (acked (ws_bus st'))
     else st' = st \<and> (\<forall>m \<in># waiting (ws_bus st). \<not> wants stream m))"
proof (cases "consume stream (ws_bus st)")
  case (Pair q mo)
  show ?thesis
  proof (cases mo)
    case None
    then show ?thesis
      using assms Pair consume_idle [OF assms(1), of stream q] by (auto simp: process_one_def)
  next
    case (Some m)
    note took = consume_takes [OF assms(1) Pair [unfolded Some]]
    obtain jd res where run: "(case parse_wire (PyDict (msg_event m)) of
        Inl x \<Rightarrow> ((ws_journal st, ws_decisions st), Inl x)
      | Inr e \<Rightarrow> (case process_event now h e (ws_journal st) (ws_decisions st) of
          (jd, Inl x) \<Rightarrow> (jd, Inl x) | (jd, Inr c) \<Rightarrow> (jd, Inr (event_run_id e, c)))) = (jd, res)"
      by fastforce
    show ?thesis
    proof (cases res)
      case (Inr rc)
      then show ?thesis
        using assms(2) Pair Some run took ack_records [of q "msg_stream m" "msg_id m"]
        by (cases jd; cases rc) (auto simp: process_one_def settled_def)
    next
      case (Inl x)
      obtain q' dl where nk: "nack (msg_stream m) (msg_id m) q = (q', dl)" by fastforce
      have "m \<in> known q" "inv q" using took by auto
      from nack_returns [OF this(2,1) nk] show ?thesis
        using assms(2) Pair Some run Inl took nk
        by (cases jd) (auto simp: process_one_def settled_def Let_def split: if_splits)
    qed
  qed
qed

end

section \<open>Redelivery\<close>

text \<open>A cascade that ran to the end leaves its steps in the journal, whatever happens to its message.\<close>

lemma mem_journaled_Inr:
  assumes "mem_journaled r k undo f j w = ((j', w'), Inr out)"
  shows "jr_get r k j' = Some out \<and> (\<forall>r' k'. jr_get r' k' j \<noteq> None \<longrightarrow> jr_get r' k' j' = jr_get r' k' j)"
  using assms by (auto simp: journaled_def split: option.splits prod.splits sum.splits)

lemma mem_journaled_seen: "jr_get r k j = Some out \<Longrightarrow> mem_journaled r k undo f j w = ((j, w), Inr out)"
  by (simp add: journaled_def)

lemma process_event_replay:
  assumes "process_event now h e j ds = ((j', ds'), Inr c)"
    and "\<And>k. jr_get (event_run_id e) k j'' = jr_get (event_run_id e) k j'"
  shows "\<exists>j3. process_event now' h' e j'' ds'' = ((j3, ds''), Inr c)"
proof -
  let ?r = "event_run_id e"
  let ?dm = "PyStr (domain_value (ev_data_domain e))"
  obtain ctx where ctx: "bind_tenant_context (ev_tenant_id e) = Inr ctx"
    using assms(1) by (auto simp: process_event_def split: sum.splits)
  obtain j1 where j1: "jr_start_run now ?r (ev_tenant_id e) ?dm j = Inr j1"
    by (simp add: jr_start_run_def)
  obtain j2 ds2 cas where c1: "mem_journaled ?r ''cascade'' None (\<lambda>w. (w, h e)) j1 ds = ((j2, ds2), Inr cas)"
    using assms(1) ctx j1 by (auto simp: process_event_def split: sum.splits prod.splits)
  obtain j3 ds3 p where p1: "persist_decision now ?r cas j2 ds2 = ((j3, ds3), Inr p)"
    using assms(1) ctx j1 c1 by (auto simp: process_event_def split: sum.splits prod.splits)
  have out: "j' = jr_finish_run now ?r ''done'' j3" "ds' = ds3"
    "c = (case p of Some d \<Rightarrow> dict_set ''decision'' (PyDict d) cas | None \<Rightarrow> cas)"
    using assms(1) ctx j1 c1 p1 by (auto simp: process_event_def)
  obtain k1 where k1: "jr_start_run now' ?r (ev_tenant_id e) ?dm j'' = Inr k1"
    by (simp add: jr_start_run_def)
  have keep: "jr_get ?r k k1 = jr_get ?r k j3" for k
    using jr_get_start [OF k1] assms(2) out(1) by simp
  have cas2: "jr_get ?r ''cascade'' j2 = Some cas" using mem_journaled_Inr [OF c1] by simp
  have "\<exists>jd. persist_decision now' ?r cas k1 ds'' = ((k1, ds''), Inr p) \<and> jr_get ?r ''cascade'' j3 = Some cas"
  proof (cases "\<exists>d. get cas ''decision'' = PyDict d")
    case True
    then obtain d where d: "get cas ''decision'' = PyDict d" by blast
    obtain out where o1: "mem_journaled ?r (persist_step_key d) None (upsert_step now d) j2 ds2 = ((j3, ds3), Inr out)"
      and p: "p = (case get out ''decision'' of PyDict p \<Rightarrow> Some p | _ \<Rightarrow> None)"
      using p1 d by (auto simp: persist_decision_def split: prod.splits sum.splits)
    from mem_journaled_Inr [OF o1] have g: "jr_get ?r (persist_step_key d) j3 = Some out"
      and "jr_get ?r ''cascade'' j3 = Some cas" using cas2 by auto
    moreover have "jr_get ?r (persist_step_key d) k1 = Some out" using g keep by simp
    ultimately show ?thesis using d p by (simp add: persist_decision_def mem_journaled_seen)
  next
    case False
    then show ?thesis using p1 cas2 by (auto simp: persist_decision_def split: pyval.splits)
  qed
  then have p2: "persist_decision now' ?r cas k1 ds'' = ((k1, ds''), Inr p)"
    and "jr_get ?r ''cascade'' k1 = Some cas" using keep by auto
  from mem_journaled_seen [OF this(2), of None "\<lambda>w. (w, h' e)" ds''] show ?thesis
    using ctx k1 p2 out(3) by (simp add: process_event_def)
qed

section \<open>Poison messages\<close>

fun worker_runs :: "nat \<Rightarrow> string \<Rightarrow> (event \<Rightarrow> pydict result) \<Rightarrow> event_bus worker_state \<Rightarrow> event_bus worker_state" where
  "worker_runs 0 now h st = st"
| "worker_runs (Suc n) now h st = worker_runs n now h (fst (mem_process_one now h None st))"

text \<open>A message that fails on every attempt: it does not parse, or its handler raises.\<close>

definition poison :: "(event \<Rightarrow> pydict result) \<Rightarrow> bus_message \<Rightarrow> journal \<Rightarrow> bool" where
  "poison h m j = (case parse_wire (PyDict (msg_event m)) of
       Inl x \<Rightarrow> True
     | Inr e \<Rightarrow> isl (h e) \<and> jr_get (event_run_id e) ''cascade'' j = None)"

definition lone_message :: "bus_message \<Rightarrow> int \<Rightarrow> event_bus \<Rightarrow> bool" where
  "lone_message m c b \<longleftrightarrow> bus_ok b \<and> bus_pending b = [m] \<and> dict_get (bus_counts b) (msg_id m) = Some c"

lemma poison_process_event:
  assumes "isl (h e)" and "jr_get (event_run_id e) ''cascade'' j = None"
  shows "\<exists>j' x. process_event now h e j ds = ((j', ds), Inl x) \<and> (\<forall>r k. jr_get r k j' = jr_get r k j)"
proof -
  obtain x where x: "h e = Inl x" using assms(1) by (cases "h e") auto
  show ?thesis
  proof (cases "bind_tenant_context (ev_tenant_id e)")
    case (Inr ctx)
    obtain j1 where j1: "jr_start_run now (event_run_id e) (ev_tenant_id e) (PyStr (domain_value (ev_data_domain e))) j = Inr j1"
      by (simp add: jr_start_run_def)
    have g: "jr_get r k j1 = jr_get r k j" for r k using jr_get_start [OF j1] by simp
    then have "mem_journaled (event_run_id e) ''cascade'' None (\<lambda>w. (w, h e)) j1 ds = ((j1, ds), Inl x)"
      using assms(2) x by (simp add: journaled_def)
    then show ?thesis using Inr j1 g by (simp add: process_event_def)
  qed (simp add: process_event_def)
qed

lemma poison_step:
  assumes "lone_message m c (ws_bus st)" and "poison h m (ws_journal st)"
    and "mem_process_one now h None st = (st', r)"
  shows "ws_decisions st' = ws_decisions st \<and> poison h m (ws_journal st') \<and>
    bus_max_retries (ws_bus st') = bus_max_retries (ws_bus st) \<and>
    (if c + 1 \<ge> bus_max_retries (ws_bus st)
     then bus_pending (ws_bus st') = [] \<and> bus_dead (ws_bus st') = bus_dead (ws_bus st) @ [m]
     else lone_message m (c + 1) (ws_bus st') \<and> bus_dead (ws_bus st') = bus_dead (ws_bus st))"
proof -
  let ?b = "ws_bus st"
  let ?q = "?b\<lparr>bus_pending := [], bus_counts := dict_set (msg_id m) (c + 1) (bus_counts ?b)\<rparr>"
  have m: "m \<in> set (bus_messages ?b)" and ids: "ids_ok ?b"
    using assms(1) by (auto simp: lone_message_def bus_ok_def)
  have cons: "bus_consume_one None ?b = (?q, Some m)"
    using assms(1) by (simp add: bus_consume_one_def lone_message_def wants_def delivery_count_def)
  obtain j' x where body: "(case parse_wire (PyDict (msg_event m)) of
      Inl x \<Rightarrow> ((ws_journal st, ws_decisions st), Inl x)
    | Inr e \<Rightarrow> (case process_event now h e (ws_journal st) (ws_decisions st) of
        (jd, Inl x) \<Rightarrow> (jd, Inl x) | (jd, Inr c) \<Rightarrow> (jd, Inr (event_run_id e, c)))) = ((j', ws_decisions st), Inl x)"
    and j': "\<And>r k. jr_get r k j' = jr_get r k (ws_journal st)"
  proof (cases "parse_wire (PyDict (msg_event m))")
    case (Inr e)
    then have "isl (h e)" "jr_get (event_run_id e) ''cascade'' (ws_journal st) = None"
      using assms(2) by (simp_all add: poison_def)
    then show ?thesis
      using poison_process_event [of h e "ws_journal st" now "ws_decisions st"] Inr that by auto
  qed (use that in auto)
  have nk: "bus_nack (msg_stream m) (msg_id m) ?q =
    (if c + 1 \<ge> bus_max_retries ?b
     then (?q\<lparr>bus_dead := bus_dead ?b @ [m], bus_counts := dict_del (msg_id m) (bus_counts ?q)\<rparr>, True)
     else (?q\<lparr>bus_pending := [m]\<rparr>, False))"
    using ids_ok_find [OF ids m] by (simp add: bus_nack_def delivery_count_def)
  have st': "st' = \<lparr>ws_bus = fst (bus_nack (msg_stream m) (msg_id m) ?q),
      ws_journal = (case run_id_from_message m of Some i \<Rightarrow> jr_finish_run now i ''failed'' j' | None \<Rightarrow> j'),
      ws_decisions = ws_decisions st\<rparr>"
    using assms(3) cons body by (simp add: mem_process_one_def process_one_def Let_def split: prod.splits)
  have "jr_get r k (ws_journal st') = jr_get r k (ws_journal st)" for r k
    using j' by (simp add: st' split: option.split)
  then have "poison h m (ws_journal st')" using assms(2) by (simp add: poison_def split: sum.splits)
  then show ?thesis
    using assms(1) nk by (auto simp: st' lone_message_def bus_ok_def ids_ok_def)
qed

lemma worker_runs_poison:
  assumes "lone_message m c (ws_bus st)" and "poison h m (ws_journal st)"
    and "int n = bus_max_retries (ws_bus st) - c" and "c < bus_max_retries (ws_bus st)"
  shows "bus_pending (ws_bus (worker_runs n now h st)) = [] \<and>
    bus_dead (ws_bus (worker_runs n now h st)) = bus_dead (ws_bus st) @ [m] \<and>
    ws_decisions (worker_runs n now h st) = ws_decisions st"
  using assms
proof (induction n arbitrary: c st)
  case (Suc n)
  obtain st' r where s: "mem_process_one now h None st = (st', r)" by force
  note step = poison_step [OF Suc.prems(1,2) s]
  show ?case
  proof (cases "c + 1 \<ge> bus_max_retries (ws_bus st)")
    case True
    then have "n = 0" using Suc.prems(3) by simp
    then show ?thesis using step True s by simp
  next
    case False
    then show ?thesis using Suc.IH [of "c + 1" st'] step Suc.prems(3) s by simp
  qed
qed simp

section \<open>Run identities\<close>

lemma append_sep_inj:
  "CHR '':'' \<notin> set a \<Longrightarrow> CHR '':'' \<notin> set b \<Longrightarrow> a @ '':'' @ x = b @ '':'' @ y \<longleftrightarrow> a = b \<and> x = y"
proof (induction a arbitrary: b)
  case Nil
  then show ?case by (cases b) auto
next
  case (Cons c a)
  then show ?case by (cases b) auto
qed

lemma domain_no_colon: "CHR '':'' \<notin> set (domain_value d)"
  by (cases d) auto

section \<open>Properties\<close>

text \<open>A worker with one published message and empty stores, for the concrete instances below.\<close>

definition demo_worker :: "event_bus worker_state" where
  "demo_worker = \<lparr>ws_bus = fst (bus_publish example_event (bus_init 3)), ws_journal = jr_empty, ws_decisions = []\<rparr>"

definition demo_message :: bus_message where
  "demo_message = \<lparr>msg_id = mem_id 1, msg_stream = stream_name (ev_tenant_id example_event),
     msg_event = event_to_dict example_event\<rparr>"

definition demo_cascade :: pydict where
  "demo_cascade = [(''decision'', PyDict [(''id'', PyStr ''dec_1''), (''status'', PyStr ''pending'')])]"

lemma demo_worker_bus: "bus_pending (ws_bus demo_worker) = [demo_message]"
  "bus_messages (ws_bus demo_worker) = [demo_message]" "bus_dead (ws_bus demo_worker) = []"
  "bus_max_retries (ws_bus demo_worker) = 3" "bus_counts (ws_bus demo_worker) = [(mem_id 1, 0)]"
  by (simp_all add: demo_worker_def demo_message_def bus_publish_def bus_init_def Let_def)

lemma demo_worker_ok: "lone_message demo_message 0 (ws_bus demo_worker)"
  by (simp add: lone_message_def bus_ok_def ids_ok_def demo_worker_bus) (simp add: demo_message_def)

lemma demo_cascade_runs:
  "\<exists>j ds c. process_event ''t1'' (\<lambda>e. Inr demo_cascade) example_event jr_empty [] = ((j, ds), Inr c) \<and> ds \<noteq> []"
proof -
  have "bind_tenant_context (ev_tenant_id example_event) = Inr (Some ''local'')"
    by (simp add: example_event_def) code_simp
  then show ?thesis
    by (simp add: process_event_def jr_start_run_def jr_empty_def journaled_def jr_get_def jr_put_def
        dict_setdefault_def persist_decision_def demo_cascade_def persist_step_key_def upsert_step_def
        ds_upsert_def decision_id_of_def get_or_def Let_def)
qed

text \<open>
  C6. Every message the worker takes is settled: after \<open>process_one\<close> it is acknowledged when the
  result says done, dead-lettered when the result says so, and back in the queue otherwise; no other
  message is touched, and an idle result means that nothing of the stream was waiting.
\<close>

theorem worker_settles_every_message:
  assumes "bus_ok (ws_bus st)" and "mem_process_one now h stream st = (st', r)"
  shows "bus_ok (ws_bus st') \<and>
    (if wr_processed r then \<exists>m \<in># mset (bus_pending (ws_bus st)). wants stream m \<and>
       settled m r (mset (bus_pending (ws_bus st))) (mset (bus_dead (ws_bus st))) (bus_acked (ws_bus st))
         (mset (bus_pending (ws_bus st'))) (mset (bus_dead (ws_bus st'))) (bus_acked (ws_bus st'))
     else st' = st \<and> (\<forall>m \<in># mset (bus_pending (ws_bus st)). \<not> wants stream m))"
  by (rule mem_bus.process_one_settles [OF assms(1) assms(2) [unfolded mem_process_one_def]])

theorem worker_settles_every_message_witness:
  "bus_ok (ws_bus (fst (mem_process_one ''t1'' (\<lambda>e. Inr []) None demo_worker)))"
  using worker_settles_every_message [of demo_worker "''t1''" "\<lambda>e. Inr []" None]
    demo_worker_ok by (cases "mem_process_one ''t1'' (\<lambda>e. Inr []) None demo_worker") (simp add: lone_message_def)

text \<open>
  C8. Redelivery is harmless: once an event was processed, processing it again (an acknowledgement was
  lost, a second worker took it over) returns the same cascade and decision, runs no handler and
  writes no decision, whatever the handler would answer now.
\<close>

theorem redelivery_is_harmless:
  assumes "process_event now h e j ds = ((j', ds'), Inr c)"
  shows "\<exists>j3. process_event now' h' e j' ds' = ((j3, ds'), Inr c)"
  using process_event_replay [OF assms] by blast

theorem redelivery_is_harmless_witness:
  "\<exists>j ds c j3. process_event ''t1'' (\<lambda>e. Inr demo_cascade) example_event jr_empty [] = ((j, ds), Inr c) \<and>
     ds \<noteq> [] \<and>
     process_event ''t2'' (\<lambda>e. Inl (RuntimeError ''down'')) example_event j ds = ((j3, ds), Inr c)"
proof -
  obtain j ds c where p: "process_event ''t1'' (\<lambda>e. Inr demo_cascade) example_event jr_empty [] = ((j, ds), Inr c)"
    "ds \<noteq> []" using demo_cascade_runs by blast
  from redelivery_is_harmless [OF p(1)] p show ?thesis by blast
qed



text \<open>
  The journal identity of an event is as fine as its persisted identity, provided no tenant id
  contains a colon: two events share a run only if they have the same tenant, domain and id.
\<close>

theorem run_ids_separate_events:
  assumes "CHR '':'' \<notin> set (ev_tenant_id e1)" and "CHR '':'' \<notin> set (ev_tenant_id e2)"
  shows "event_run_id e1 = event_run_id e2 \<longleftrightarrow>
    ev_tenant_id e1 = ev_tenant_id e2 \<and> ev_data_domain e1 = ev_data_domain e2 \<and> ev_id e1 = ev_id e2"
  using append_sep_inj [OF assms] append_sep_inj [OF domain_no_colon domain_no_colon]
  by (auto simp: event_run_id_def)

theorem run_ids_separate_events_witness:
  "event_run_id (example_event\<lparr>ev_tenant_id := ''a''\<rparr>) \<noteq> event_run_id (example_event\<lparr>ev_tenant_id := ''b''\<rparr>)"
  using run_ids_separate_events [of "example_event\<lparr>ev_tenant_id := ''a''\<rparr>" "example_event\<lparr>ev_tenant_id := ''b''\<rparr>"]
  by simp

text \<open>
  Without that proviso two tenants can share a run, and with it the journaled cascade: a colon in
  the tenant of one event and in the id of another makes their run ids equal.
\<close>

theorem run_ids_collide_across_tenants:
  "event_run_id (example_event\<lparr>ev_tenant_id := ''a'', ev_data_domain := OPERATIONAL_TWIN,
       ev_id := ''x:operational_twin:y''\<rparr>) =
   event_run_id (example_event\<lparr>ev_tenant_id := ''a:operational_twin:x'', ev_data_domain := OPERATIONAL_TWIN,
       ev_id := ''y''\<rparr>)"
  by (simp add: event_run_id_def)

end
