(* ===== verification/Plans.thy ===== *)
theory Plans
  imports Journal Writeback Worker
begin

text \<open>
  Governed plan execution (\<open>src/shelfwise_backend/worker/plans.py\<close>, \<open>governed_execution.py\<close>,
  \<open>worker/schedules.py\<close>): the capability registry, plan validation, the journal-backed plan runner,
  the registry of real capabilities over the write-back sink, and the interval scheduler. The twin
  service's fidelity answer is a component of the world the capabilities act on.
\<close>

section \<open>Capabilities\<close>

record 'w capability =
  cap_name :: string
  cap_handler :: "pydict \<Rightarrow> 'w \<Rightarrow> 'w \<times> pydict result"
  cap_exposed_to :: "string list"
  cap_writes :: bool

type_synonym 'w registry = "(string, 'w capability) dict"

definition reg_register :: "'w capability \<Rightarrow> 'w registry \<Rightarrow> 'w registry result" where
  "reg_register c r =
     (if dict_has (cap_name c) r then Inl (ValueError (''capability already registered: '' @ cap_name c))
      else Inr (dict_set (cap_name c) c r))"

definition reg_get :: "'w registry \<Rightarrow> string \<Rightarrow> 'w capability option" where
  "reg_get r name = dict_get r name"

definition reg_exposed_for :: "string \<Rightarrow> 'w registry \<Rightarrow> string list" where
  "reg_exposed_for role r =
     sorted_by id (map fst (filter (\<lambda>(n, c). role \<in> set (cap_exposed_to c)) r))"

section \<open>Plans and their validation\<close>

record plan_step =
  ps_key :: string
  ps_capability :: string
  ps_params :: pydict
  ps_compensation :: "pydict option"

record plan =
  pl_id :: string
  pl_tenant :: string
  pl_domain :: data_domain
  pl_role :: string
  pl_steps :: "plan_step list"

text \<open>What the constructors of \<open>Plan\<close> and \<open>PlanStep\<close> enforce.\<close>

definition step_shape :: "plan_step \<Rightarrow> bool" where
  "step_shape s \<longleftrightarrow> 1 \<le> length (ps_key s) \<and> length (ps_key s) \<le> 64 \<and>
     1 \<le> length (ps_capability s) \<and> length (ps_capability s) \<le> 64"

definition plan_shape :: "plan \<Rightarrow> bool" where
  "plan_shape p \<longleftrightarrow> 1 \<le> length (pl_id p) \<and> length (pl_id p) \<le> 128 \<and>
     1 \<le> length (pl_tenant p) \<and> length (pl_tenant p) \<le> 128 \<and>
     1 \<le> length (pl_role p) \<and> length (pl_role p) \<le> 64 \<and>
     1 \<le> length (pl_steps p) \<and> length (pl_steps p) \<le> 32 \<and> list_all step_shape (pl_steps p)"

definition step_problems :: "plan \<Rightarrow> 'w registry \<Rightarrow> string list \<Rightarrow> plan_step \<Rightarrow> string list" where
  "step_problems p reg seen s =
     (if ps_key s \<in> set seen then [''duplicate step key: '' @ ps_key s] else []) @
     (case reg_get reg (ps_capability s) of
        None \<Rightarrow> [''unknown capability: '' @ ps_capability s]
      | Some c \<Rightarrow>
          (if pl_role p \<notin> set (cap_exposed_to c)
           then [''capability not exposed to role '' @ pl_role p @ '': '' @ ps_capability s] else []) @
          (if cap_writes c \<and> ps_compensation s = None
           then [''write step without compensation: '' @ ps_key s] else []) @
          (if cap_writes c \<and> pl_domain p \<noteq> OPERATIONAL_TWIN
           then [''write step outside operational domain: '' @ ps_key s] else []))"

fun validate_steps :: "plan \<Rightarrow> 'w registry \<Rightarrow> string list \<Rightarrow> plan_step list \<Rightarrow> string list" where
  "validate_steps p reg seen [] = []"
| "validate_steps p reg seen (s # ss) =
     step_problems p reg seen s @ validate_steps p reg (ps_key s # seen) ss"

definition validate_plan :: "plan \<Rightarrow> 'w registry \<Rightarrow> string list" where
  "validate_plan p reg = validate_steps p reg [] (pl_steps p)"

section \<open>The plan runner\<close>

definition plan_run_id :: "plan \<Rightarrow> string" where
  "plan_run_id p = ''plan:'' @ pl_tenant p @ '':'' @ domain_value (pl_domain p) @ '':'' @ pl_id p"

record plan_result =
  pr_plan_id :: string
  pr_status :: string
  pr_outputs :: "(string, pydict) dict"
  pr_failed_step :: "string option"

definition run_step ::
  "string \<Rightarrow> plan_step \<Rightarrow> 'w capability \<Rightarrow> journal \<Rightarrow> 'w \<Rightarrow> (journal \<times> 'w) \<times> pydict result" where
  "run_step r s c j w = (case jr_get r (ps_key s) j of
       Some seen \<Rightarrow> ((j, w), Inr seen)
     | None \<Rightarrow> (case cap_handler c (ps_params s) w of
         (w', Inl e) \<Rightarrow> ((j, w'), Inl e)
       | (w', Inr out) \<Rightarrow>
           (case mem_journaled r (ps_key s) (ps_compensation s) (\<lambda>u. (u, Inr out)) j w' of
              (jw, Inl e) \<Rightarrow> (jw, Inl e)
            | (jw, Inr _) \<Rightarrow> (jw, Inr out))))"

definition progress_dict :: "plan \<Rightarrow> plan_step \<Rightarrow> nat \<Rightarrow> string option \<Rightarrow> pydict" where
  "progress_dict p s i err =
     [(''plan_id'', PyStr (pl_id p)), (''tenant_id'', PyStr (pl_tenant p)),
      (''data_domain'', PyStr (domain_value (pl_domain p))), (''step'', PyStr (ps_key s)),
      (''i'', PyInt (int i)), (''total'', PyInt (int (length (pl_steps p))))] @
     (case err of None \<Rightarrow> [(''status'', PyStr ''ok'')]
      | Some e \<Rightarrow> [(''status'', PyStr ''failed''), (''error'', PyStr (take 200 e))])"

text \<open>The loop over the steps: the journal, the world, the published progress and the result so far.\<close>

record 'w plan_state =
  px_journal :: journal
  px_world :: 'w
  px_progress :: "pydict list"

fun run_steps ::
  "'w registry \<Rightarrow> plan \<Rightarrow> nat \<Rightarrow> plan_step list \<Rightarrow> 'w plan_state \<Rightarrow> (string, pydict) dict \<Rightarrow>
   'w plan_state \<times> plan_result" where
  "run_steps reg p i [] st outs =
     (st, \<lparr>pr_plan_id = pl_id p, pr_status = ''done'', pr_outputs = outs, pr_failed_step = None\<rparr>)"
| "run_steps reg p i (s # ss) st outs = (case reg_get reg (ps_capability s) of
       None \<Rightarrow> (st, \<lparr>pr_plan_id = pl_id p, pr_status = ''failed'', pr_outputs = outs,
                  pr_failed_step = Some (ps_key s)\<rparr>)
     | Some c \<Rightarrow> (case run_step (plan_run_id p) s c (px_journal st) (px_world st) of
         ((j, w), Inl e) \<Rightarrow>
           (\<lparr>px_journal = j, px_world = w,
              px_progress = px_progress st @ [progress_dict p s i (Some (exn_str e))]\<rparr>,
            \<lparr>pr_plan_id = pl_id p, pr_status = ''failed'', pr_outputs = outs,
              pr_failed_step = Some (ps_key s)\<rparr>)
       | ((j, w), Inr out) \<Rightarrow>
           run_steps reg p (i + 1) ss
             \<lparr>px_journal = j, px_world = w, px_progress = px_progress st @ [progress_dict p s i None]\<rparr>
             (dict_set (ps_key s) out outs)))"

definition run_plan ::
  "'w registry \<Rightarrow> string \<Rightarrow> plan \<Rightarrow> 'w plan_state \<Rightarrow> 'w plan_state \<times> plan_result result" where
  "run_plan reg now p st = (case bind_tenant_context (pl_tenant p) of
       Inl e \<Rightarrow> (st, Inl e)
     | Inr _ \<Rightarrow> (case validate_plan p reg of
         problem # _ \<Rightarrow> (st, Inr \<lparr>pr_plan_id = pl_id p, pr_status = ''failed'', pr_outputs = [],
                              pr_failed_step = Some (''validation: '' @ problem)\<rparr>)
       | [] \<Rightarrow> (case jr_start_run now (plan_run_id p) (pl_tenant p) (PyStr (domain_value (pl_domain p)))
                      (px_journal st) of
           Inl e \<Rightarrow> (st, Inl e)
         | Inr j \<Rightarrow> (case run_steps reg p 1 (pl_steps p) (st\<lparr>px_journal := j\<rparr>) [] of
             (st', res) \<Rightarrow>
               (st'\<lparr>px_journal := jr_finish_run now (plan_run_id p) (pr_status res) (px_journal st')\<rparr>,
                Inr res)))))"

section \<open>The registry of real capabilities\<close>

record gov_world =
  gw_tasks :: task_sink
  gw_fidelity :: "string \<Rightarrow> string \<Rightarrow> pydict result"

definition param_str :: "pydict \<Rightarrow> string \<Rightarrow> string result" where
  "param_str d k = (case dict_get d k of Some v \<Rightarrow> Inr (py_str v) | None \<Rightarrow> Inl (KeyError k))"

definition dict_arg :: "pyval \<Rightarrow> pydict \<Rightarrow> pydict result" where
  "dict_arg v dflt = (if truthy v then (case v of PyDict d \<Rightarrow> Inr d | _ \<Rightarrow> Inl (TypeError ''not a mapping''))
     else Inr dflt)"

definition recommend_only_rollback :: pydict where
  "recommend_only_rollback =
     [(''policy'', PyStr ''recommend_only_no_source_mutation''),
      (''rollback'', PyStr ''cancel_pending_manager_task_before_source_write'')]"

definition create_manager_task :: "string \<Rightarrow> pydict \<Rightarrow> gov_world \<Rightarrow> gov_world \<times> pydict result" where
  "create_manager_task now params w =
     (case bind_res (param_str params ''idempotency_key'') (\<lambda>ikey.
           bind_res (param_str params ''title'') (\<lambda>title.
           bind_res (dict_arg (get params ''action'') []) (\<lambda>action.
           bind_res (param_str params ''tenant_id'') (\<lambda>tenant.
           bind_res (dict_arg (get params ''rollback_instructions'') recommend_only_rollback) (\<lambda>rb.
             Inr (wb_create_task now ikey title action tenant
               (py_str (py_or (get params ''data_domain'') (PyStr ''operational_twin'')))
               (py_str (py_or (get params ''assignee_role'') (PyStr ''manager''))) (Some rb) (gw_tasks w))))))) of
        Inl e \<Rightarrow> (w, Inl e)
      | Inr (s, task) \<Rightarrow> (w\<lparr>gw_tasks := s\<rparr>, Inr [(''task'', PyDict task)]))"

definition recompute_twin_fidelity :: "pydict \<Rightarrow> gov_world \<Rightarrow> gov_world \<times> pydict result" where
  "recompute_twin_fidelity params w =
     (w, bind_res (param_str params ''tenant_id'') (\<lambda>tenant.
         bind_res (param_str params ''store_id'') (\<lambda>store.
         bind_res (gw_fidelity w tenant store) (\<lambda>report.
           Inr [(''fidelity'', PyDict report), (''tenant_id'', PyStr tenant), (''store_id'', PyStr store)]))))"

definition capability_roles :: "string list" where
  "capability_roles = [''manager'', ''owner'', ''scheduler'']"

definition build_capability_registry :: "string \<Rightarrow> gov_world registry" where
  "build_capability_registry now =
     [(''create_manager_task'', \<lparr>cap_name = ''create_manager_task'', cap_handler = create_manager_task now,
         cap_exposed_to = capability_roles, cap_writes = True\<rparr>),
      (''recompute_twin_fidelity'', \<lparr>cap_name = ''recompute_twin_fidelity'',
         cap_handler = recompute_twin_fidelity, cap_exposed_to = capability_roles, cap_writes = False\<rparr>)]"

definition fidelity_revalidation_plan :: "string \<Rightarrow> string \<Rightarrow> plan" where
  "fidelity_revalidation_plan tenant store =
     \<lparr>pl_id = ''fidelity_revalidation_'' @ tenant @ ''_'' @ store, pl_tenant = tenant,
      pl_domain = OPERATIONAL_TWIN, pl_role = ''scheduler'',
      pl_steps = [\<lparr>ps_key = ''recompute_fidelity'', ps_capability = ''recompute_twin_fidelity'',
        ps_params = [(''tenant_id'', PyStr tenant), (''store_id'', PyStr store)],
        ps_compensation = Some [(''action'', PyStr ''none_read_only'')]\<rparr>]\<rparr>"

section \<open>The interval scheduler\<close>

record schedule =
  sc_name :: string
  sc_every :: rat
  sc_enabled :: bool
  sc_last_started :: "rat option"
  sc_running :: bool

type_synonym scheduler = "(string, schedule) dict"

definition sched_add :: "schedule \<Rightarrow> scheduler \<Rightarrow> scheduler result" where
  "sched_add s sch =
     (if dict_has (sc_name s) sch then Inl (ValueError (''schedule exists: '' @ sc_name s))
      else Inr (dict_set (sc_name s) (s\<lparr>sc_every := max 1 (sc_every s)\<rparr>) sch))"

definition is_due :: "rat \<Rightarrow> schedule \<Rightarrow> bool" where
  "is_due now s \<longleftrightarrow> sc_enabled s \<and> \<not> sc_running s \<and>
     (case sc_last_started s of None \<Rightarrow> True | Some t \<Rightarrow> sc_every s \<le> now - t)"

definition sched_due :: "rat \<Rightarrow> scheduler \<Rightarrow> schedule list" where
  "sched_due now sch = filter (is_due now) (map snd sch)"

text \<open>
  One tick: the due schedules are picked at \<open>now\<close>; each is then started at its own later reading of
  the clock, run to its end (a failing run is logged and swallowed) and released.
\<close>

fun start_due :: "(schedule \<times> rat) list \<Rightarrow> scheduler \<Rightarrow> scheduler" where
  "start_due [] sch = sch"
| "start_due ((s, t) # rest) sch =
     start_due rest (dict_set (sc_name s) (s\<lparr>sc_last_started := Some t, sc_running := False\<rparr>) sch)"

definition sched_tick :: "rat \<Rightarrow> rat list \<Rightarrow> scheduler \<Rightarrow> scheduler \<times> nat" where
  "sched_tick now clock sch =
     (let ds = sched_due now sch in (start_due (zip ds clock) sch, length ds))"

section \<open>Validation is exact\<close>

definition step_allowed :: "plan \<Rightarrow> 'w registry \<Rightarrow> plan_step \<Rightarrow> bool" where
  "step_allowed p reg s \<longleftrightarrow> (\<exists>c. reg_get reg (ps_capability s) = Some c \<and> pl_role p \<in> set (cap_exposed_to c) \<and>
     (cap_writes c \<longrightarrow> ps_compensation s \<noteq> None \<and> pl_domain p = OPERATIONAL_TWIN))"

lemma step_problems_Nil:
  "step_problems p reg seen s = [] \<longleftrightarrow> ps_key s \<notin> set seen \<and> step_allowed p reg s"
  by (auto simp: step_problems_def step_allowed_def split: option.splits)

lemma validate_steps_Nil:
  "validate_steps p reg seen ss = [] \<longleftrightarrow>
     list_all (step_allowed p reg) ss \<and> distinct (map ps_key ss) \<and> set (map ps_key ss) \<inter> set seen = {}"
  by (induction ss arbitrary: seen) (auto simp: step_problems_Nil)

lemma validate_plan_Nil:
  "validate_plan p reg = [] \<longleftrightarrow> list_all (step_allowed p reg) (pl_steps p) \<and> distinct (map ps_key (pl_steps p))"
  by (simp add: validate_plan_def validate_steps_Nil)

lemma run_plan_Inr:
  assumes "run_plan reg now p st = (st', Inr res)" and "validate_plan p reg = []"
  obtains j st1 where
    "jr_start_run now (plan_run_id p) (pl_tenant p) (PyStr (domain_value (pl_domain p))) (px_journal st) = Inr j"
    and "run_steps reg p 1 (pl_steps p) (st\<lparr>px_journal := j\<rparr>) [] = (st1, res)"
    and "st' = st1\<lparr>px_journal := jr_finish_run now (plan_run_id p) (pr_status res) (px_journal st1)\<rparr>"
  using assms that by (auto simp: run_plan_def split: sum.splits prod.splits)

section \<open>Journaled steps are replayed\<close>

text \<open>The outputs a run assembles when every step is found in the journal.\<close>

fun journal_outputs ::
  "string \<Rightarrow> journal \<Rightarrow> plan_step list \<Rightarrow> (string, pydict) dict \<Rightarrow> (string, pydict) dict option" where
  "journal_outputs r j [] outs = Some outs"
| "journal_outputs r j (s # ss) outs = (case jr_get r (ps_key s) j of
       None \<Rightarrow> None | Some out \<Rightarrow> journal_outputs r j ss (dict_set (ps_key s) out outs))"

lemma journal_outputs_cong:
  "(\<And>k. jr_get r k j = jr_get r k j') \<Longrightarrow> journal_outputs r j ss outs = journal_outputs r j' ss outs"
  by (induction ss arbitrary: outs) (auto split: option.split)

lemma run_step_Inr:
  assumes "run_step r s c j w = ((j', w'), Inr out)"
  shows "jr_get r (ps_key s) j' = Some out \<and> (\<forall>r' k v. jr_get r' k j = Some v \<longrightarrow> jr_get r' k j' = Some v)"
  using assms by (auto simp: run_step_def journaled_def split: option.splits prod.splits sum.splits)

lemma run_steps_keeps:
  "run_steps reg p i ss st outs = (st', res) \<Longrightarrow> pr_status res = ''done'' \<Longrightarrow>
   jr_get r k (px_journal st) = Some v \<Longrightarrow> jr_get r k (px_journal st') = Some v"
  by (induction reg p i ss st outs rule: run_steps.induct)
    (fastforce split: option.splits prod.splits sum.splits dest: run_step_Inr)+

lemma run_steps_done:
  "run_steps reg p i ss st outs = (st', res) \<Longrightarrow> pr_status res = ''done'' \<Longrightarrow>
   journal_outputs (plan_run_id p) (px_journal st') ss outs = Some (pr_outputs res) \<and>
   pr_plan_id res = pl_id p \<and> pr_failed_step res = None"
proof (induction ss arbitrary: i st outs)
  case (Cons s ss)
  obtain c where c: "reg_get reg (ps_capability s) = Some c"
    using Cons.prems by (auto split: option.splits)
  obtain j w out where r: "run_step (plan_run_id p) s c (px_journal st) (px_world st) = ((j, w), Inr out)"
    using Cons.prems c by (auto split: option.splits prod.splits sum.splits)
  let ?st = "\<lparr>px_journal = j, px_world = w, px_progress = px_progress st @ [progress_dict p s i None]\<rparr>"
  have rest: "run_steps reg p (i + 1) ss ?st (dict_set (ps_key s) out outs) = (st', res)"
    using Cons.prems(1) c r by simp
  have "jr_get (plan_run_id p) (ps_key s) (px_journal st') = Some out"
    using run_steps_keeps [OF rest Cons.prems(2)] run_step_Inr [OF r] by simp
  then show ?case using Cons.IH [OF rest Cons.prems(2)] by simp
qed auto

lemma run_steps_replay:
  assumes "journal_outputs (plan_run_id p) (px_journal st) ss outs = Some final"
    and "\<forall>s \<in> set ss. reg_get reg (ps_capability s) \<noteq> None"
  shows "\<exists>st'. run_steps reg p i ss st outs = (st', \<lparr>pr_plan_id = pl_id p, pr_status = ''done'',
      pr_outputs = final, pr_failed_step = None\<rparr>) \<and> px_world st' = px_world st \<and> px_journal st' = px_journal st"
  using assms
proof (induction ss arbitrary: i st outs)
  case (Cons s ss)
  then obtain c out where c: "reg_get reg (ps_capability s) = Some c"
    and out: "jr_get (plan_run_id p) (ps_key s) (px_journal st) = Some out"
    by (auto split: option.splits)
  let ?st = "\<lparr>px_journal = px_journal st, px_world = px_world st,
    px_progress = px_progress st @ [progress_dict p s i None]\<rparr>"
  have "run_step (plan_run_id p) s c (px_journal st) (px_world st) = ((px_journal st, px_world st), Inr out)"
    using out by (simp add: run_step_def)
  then show ?case using Cons.IH [of ?st "dict_set (ps_key s) out outs" "i + 1"] Cons.prems c out by auto
qed simp

lemma plan_replay:
  assumes "run_plan reg now p st = (st1, Inr res)" and "pr_status res = ''done''" and "validate_plan p reg = []"
    and "validate_plan p reg' = []" and "\<And>k. jr_get (plan_run_id p) k (px_journal st2) = jr_get (plan_run_id p) k (px_journal st1)"
  shows "\<exists>st3. run_plan reg' now' p st2 = (st3, Inr res) \<and> px_world st3 = px_world st2"
proof -
  let ?r = "plan_run_id p"
  obtain j s1 where first: "run_steps reg p 1 (pl_steps p) (st\<lparr>px_journal := j\<rparr>) [] = (s1, res)"
    "st1 = s1\<lparr>px_journal := jr_finish_run now ?r (pr_status res) (px_journal s1)\<rparr>"
    by (rule run_plan_Inr [OF assms(1,3)])
  obtain ctx where ctx: "bind_tenant_context (pl_tenant p) = Inr ctx"
    using assms(1) by (auto simp: run_plan_def split: sum.splits)
  obtain j2 where j2: "jr_start_run now' ?r (pl_tenant p) (PyStr (domain_value (pl_domain p))) (px_journal st2) = Inr j2"
    by (simp add: jr_start_run_def)
  note dn = run_steps_done [OF first(1) assms(2)]
  have "jr_get ?r k j2 = jr_get ?r k (px_journal s1)" for k
    using jr_get_start [OF j2] assms(5) first(2) by simp
  then have jo: "journal_outputs ?r (px_journal (st2\<lparr>px_journal := j2\<rparr>)) (pl_steps p) [] = Some (pr_outputs res)"
    using dn journal_outputs_cong [of ?r j2 "px_journal s1"] by simp
  have "\<forall>s \<in> set (pl_steps p). reg_get reg' (ps_capability s) \<noteq> None"
    using assms(4) by (auto simp: validate_plan_Nil step_allowed_def list_all_iff)
  from run_steps_replay [OF jo this, of 1] obtain s3 where s3:
    "run_steps reg' p 1 (pl_steps p) (st2\<lparr>px_journal := j2\<rparr>) [] = (s3, \<lparr>pr_plan_id = pl_id p,
       pr_status = ''done'', pr_outputs = pr_outputs res, pr_failed_step = None\<rparr>)"
    "px_world s3 = px_world st2" by auto
  have "\<lparr>pr_plan_id = pl_id p, pr_status = ''done'', pr_outputs = pr_outputs res, pr_failed_step = None\<rparr> = res"
    using dn assms(2) by (cases res) simp
  then show ?thesis using s3 ctx j2 assms(4) by (auto simp: run_plan_def)
qed

section \<open>Properties\<close>

text \<open>A clean state, a twin that answers one report, and a plan nobody may run.\<close>

definition demo_plan_state :: "pydict \<Rightarrow> gov_world plan_state" where
  "demo_plan_state report = \<lparr>px_journal = jr_empty,
     px_world = \<lparr>gw_tasks = [], gw_fidelity = (\<lambda>tenant store. Inr report)\<rparr>, px_progress = []\<rparr>"

definition demo_forbidden_plan :: plan where
  "demo_forbidden_plan = (fidelity_revalidation_plan ''acme'' ''s1'')\<lparr>pl_role := ''cashier''\<rparr>"

lemma fidelity_plan_valid: "validate_plan (fidelity_revalidation_plan tenant store) (build_capability_registry now) = []"
  by (simp add: validate_plan_Nil step_allowed_def fidelity_revalidation_plan_def build_capability_registry_def
      reg_get_def capability_roles_def)

lemma fidelity_plan_first_run:
  assumes "bind_tenant_context tenant = Inr ctx" and "gw_fidelity (px_world st) tenant store = Inr report"
    and "jr_get (plan_run_id (fidelity_revalidation_plan tenant store)) ''recompute_fidelity'' (px_journal st) = None"
  shows "\<exists>st1 res. run_plan (build_capability_registry now) now (fidelity_revalidation_plan tenant store) st = (st1, Inr res) \<and>
    pr_status res = ''done'' \<and> pr_outputs res = [(''recompute_fidelity'',
      [(''fidelity'', PyDict report), (''tenant_id'', PyStr tenant), (''store_id'', PyStr store)])]"
proof -
  let ?p = "fidelity_revalidation_plan tenant store"
  let ?r = "plan_run_id ?p"
  obtain j where j: "jr_start_run now ?r (pl_tenant ?p) (PyStr (domain_value (pl_domain ?p))) (px_journal st) = Inr j"
    by (simp add: jr_start_run_def)
  have none: "jr_get ?r ''recompute_fidelity'' j = None" using jr_get_start [OF j] assms(3) by simp
  have ten: "pl_tenant ?p = tenant" by (simp add: fidelity_revalidation_plan_def)
  let ?c = "\<lparr>cap_name = ''recompute_twin_fidelity'', cap_handler = recompute_twin_fidelity,
    cap_exposed_to = capability_roles, cap_writes = False\<rparr>"
  have cap: "reg_get (build_capability_registry now) ''recompute_twin_fidelity'' = Some ?c"
    by (simp add: reg_get_def build_capability_registry_def)
  have h: "recompute_twin_fidelity [(''tenant_id'', PyStr tenant), (''store_id'', PyStr store)] (px_world st) =
      (px_world st, Inr [(''fidelity'', PyDict report), (''tenant_id'', PyStr tenant), (''store_id'', PyStr store)])"
    using assms(2) by (simp add: recompute_twin_fidelity_def param_str_def)
  obtain st1 res where r: "run_steps (build_capability_registry now) ?p 1 (pl_steps ?p) (st\<lparr>px_journal := j\<rparr>) [] = (st1, res)"
    by (rule prod.exhaust)
  moreover from r have "pr_status res = ''done'' \<and> pr_outputs res = [(''recompute_fidelity'',
      [(''fidelity'', PyDict report), (''tenant_id'', PyStr tenant), (''store_id'', PyStr store)])]"
    using none cap h by (auto simp: fidelity_revalidation_plan_def run_step_def journaled_def)
  ultimately show ?thesis
    using j assms(1) fidelity_plan_valid [of tenant store now] ten by (simp add: run_plan_def)
qed

text \<open>
  C40. Plan validation is exact and fail-closed: a plan has no problems precisely when its step keys are
  distinct and every step names a registered capability that is exposed to the actor's role, write
  steps carrying a compensation and staying in the operational domain; a plan with a problem changes
  neither the world nor the journal.
\<close>

theorem plan_validation_exact:
  "(validate_plan p reg = [] \<longleftrightarrow>
      distinct (map ps_key (pl_steps p)) \<and>
      (\<forall>s \<in> set (pl_steps p). \<exists>c. reg_get reg (ps_capability s) = Some c \<and>
         pl_role p \<in> set (cap_exposed_to c) \<and>
         (cap_writes c \<longrightarrow> ps_compensation s \<noteq> None \<and> pl_domain p = OPERATIONAL_TWIN))) \<and>
   (validate_plan p reg \<noteq> [] \<longrightarrow> fst (run_plan reg now p st) = st)"
proof
  show "validate_plan p reg \<noteq> [] \<longrightarrow> fst (run_plan reg now p st) = st"
    by (auto simp: run_plan_def neq_Nil_conv split: sum.split)
qed (auto simp: validate_plan_Nil step_allowed_def list_all_iff)

theorem plan_validation_exact_witness:
  "fst (run_plan (build_capability_registry ''t1'') ''t1'' demo_forbidden_plan (demo_plan_state [])) = demo_plan_state []"
proof -
  have "validate_plan demo_forbidden_plan (build_capability_registry ''t1'') \<noteq> []"
    by (simp add: validate_plan_Nil step_allowed_def demo_forbidden_plan_def fidelity_revalidation_plan_def
        build_capability_registry_def reg_get_def capability_roles_def)
  then show ?thesis using plan_validation_exact [of demo_forbidden_plan "build_capability_registry ''t1''"] by blast
qed

text \<open>
  A finished plan is not executed again: once a plan ran to \<open>done\<close>, running a plan with the same
  identity, in any later world and with whatever handlers the registry then holds, returns the same
  result from the journal and calls no handler.
\<close>

theorem finished_plan_is_replayed:
  assumes "run_plan reg now p st = (st1, Inr res)" and "pr_status res = ''done''"
    and "validate_plan p reg = []" and "validate_plan p reg' = []"
    and "px_journal st2 = px_journal st1"
  shows "\<exists>st3. run_plan reg' now' p st2 = (st3, Inr res) \<and> px_world st3 = px_world st2"
  using plan_replay [OF assms(1-4)] assms(5) by simp

theorem finished_plan_is_replayed_witness:
  "\<exists>st1 res st3. run_plan (build_capability_registry ''t1'') ''t1'' (fidelity_revalidation_plan ''acme'' ''s1'')
       (demo_plan_state [(''total'', PyInt 90)]) = (st1, Inr res) \<and>
     run_plan (build_capability_registry ''t2'') ''t2'' (fidelity_revalidation_plan ''acme'' ''s1'') st1 = (st3, Inr res)"
proof -
  have "bind_tenant_context ''acme'' = Inr (Some ''acme'')" by code_simp
  from fidelity_plan_first_run [OF this, of "demo_plan_state [(''total'', PyInt 90)]" "''s1''" "[(''total'', PyInt 90)]" "''t1''"]
  obtain st1 res where r: "run_plan (build_capability_registry ''t1'') ''t1'' (fidelity_revalidation_plan ''acme'' ''s1'')
       (demo_plan_state [(''total'', PyInt 90)]) = (st1, Inr res)" "pr_status res = ''done''"
    by (auto simp: demo_plan_state_def jr_get_def jr_empty_def)
  from finished_plan_is_replayed [OF this fidelity_plan_valid fidelity_plan_valid refl, of "''t2''" "''t2''"] r
  show ?thesis by blast
qed

text \<open>
  Scheduled fidelity revalidation answers from the first run for ever: its plan has a fixed
  identity per store, so after one successful run every later run returns the first report, whatever
  the twin's fidelity has become.
\<close>

theorem fidelity_revalidation_is_stale:
  assumes "bind_tenant_context tenant = Inr ctx" and "gw_fidelity (px_world st) tenant store = Inr report"
    and "jr_get (plan_run_id (fidelity_revalidation_plan tenant store)) ''recompute_fidelity'' (px_journal st) = None"
    and "run_plan (build_capability_registry now) now (fidelity_revalidation_plan tenant store) st = (st1, Inr res)"
    and "px_journal st2 = px_journal st1"
  shows "\<exists>st3 res'. run_plan (build_capability_registry now') now' (fidelity_revalidation_plan tenant store) st2 = (st3, Inr res') \<and>
    pr_status res' = ''done'' \<and> pr_outputs res' = [(''recompute_fidelity'',
      [(''fidelity'', PyDict report), (''tenant_id'', PyStr tenant), (''store_id'', PyStr store)])]"
proof -
  from fidelity_plan_first_run [OF assms(1-3), of now] assms(4)
  have d: "pr_status res = ''done''" "pr_outputs res = [(''recompute_fidelity'',
      [(''fidelity'', PyDict report), (''tenant_id'', PyStr tenant), (''store_id'', PyStr store)])]" by auto
  from plan_replay [OF assms(4) d(1) fidelity_plan_valid fidelity_plan_valid, of st2 now' now'] assms(5) d
  show ?thesis by auto
qed

theorem fidelity_revalidation_is_stale_witness:
  "\<exists>st1 res st3 res'. run_plan (build_capability_registry ''t1'') ''t1'' (fidelity_revalidation_plan ''acme'' ''s1'')
       (demo_plan_state [(''total'', PyInt 90)]) = (st1, Inr res) \<and>
     run_plan (build_capability_registry ''t2'') ''t2'' (fidelity_revalidation_plan ''acme'' ''s1'')
       (st1\<lparr>px_world := \<lparr>gw_tasks = [], gw_fidelity = (\<lambda>tenant store. Inr [(''total'', PyInt 10)])\<rparr>\<rparr>) = (st3, Inr res') \<and>
     pr_outputs res' = [(''recompute_fidelity'', [(''fidelity'', PyDict [(''total'', PyInt 90)]),
       (''tenant_id'', PyStr ''acme''), (''store_id'', PyStr ''s1'')])]"
proof -
  let ?st = "demo_plan_state [(''total'', PyInt 90)]"
  have b: "bind_tenant_context ''acme'' = Inr (Some ''acme'')" by code_simp
  have f: "gw_fidelity (px_world ?st) ''acme'' ''s1'' = Inr [(''total'', PyInt 90)]" by (simp add: demo_plan_state_def)
  have n: "jr_get (plan_run_id (fidelity_revalidation_plan ''acme'' ''s1'')) ''recompute_fidelity'' (px_journal ?st) = None"
    by (simp add: demo_plan_state_def jr_get_def jr_empty_def)
  from fidelity_plan_first_run [OF b f n, of "''t1''"] obtain st1 res where
    r: "run_plan (build_capability_registry ''t1'') ''t1'' (fidelity_revalidation_plan ''acme'' ''s1'') ?st = (st1, Inr res)"
    by blast
  from fidelity_revalidation_is_stale [OF b f n r, of
      "st1\<lparr>px_world := \<lparr>gw_tasks = [], gw_fidelity = (\<lambda>tenant store. Inr [(''total'', PyInt 10)])\<rparr>\<rparr>" "''t2''"] r
  show ?thesis by auto
qed

end
