(* ===== verification/Learning.thy ===== *)
theory Learning
  imports Contracts PyCal
begin

text \<open>
  The learning memory (\<open>src/shelfwise_memory/__init__.py\<close>): what an approved decision teaches, the
  thresholds it moves, and the events both backends keep, one per decision. \<open>Decimal\<close> amounts are
  exact rationals, rounded half to even where the code quantizes. The clock is an argument; a Postgres
  session carries its tenant, and a transaction that raises leaves the tables as they were.
\<close>

section \<open>Events\<close>

record learning_event =
  le_id :: string
  le_decision_id :: string
  le_sku :: string
  le_metric :: string
  le_previous :: int
  le_updated :: int
  le_delta :: int
  le_outcome :: pydict
  le_message :: string
  le_created_at :: string
  le_tenant_id :: string
  le_data_domain :: string

definition le_to_dict :: "learning_event \<Rightarrow> pydict" where
  "le_to_dict e =
     [(''id'', PyStr (le_id e)), (''decision_id'', PyStr (le_decision_id e)), (''sku'', PyStr (le_sku e)),
      (''metric'', PyStr (le_metric e)), (''previous_threshold'', PyInt (le_previous e)),
      (''updated_threshold'', PyInt (le_updated e)), (''delta_units'', PyInt (le_delta e)),
      (''outcome'', PyDict (le_outcome e)), (''message'', PyStr (le_message e)),
      (''created_at'', PyStr (le_created_at e)), (''tenant_id'', PyStr (le_tenant_id e)),
      (''data_domain'', PyStr (le_data_domain e))]"

section \<open>Reading a decision\<close>

text \<open>\<open>x.get("k") or {}\<close>, on which \<open>.get\<close> is called next.\<close>

definition or_empty :: "pyval \<Rightarrow> pydict result" where
  "or_empty v = (if truthy v then (case v of
       PyDict d \<Rightarrow> Inr d
     | _ \<Rightarrow> Inl (AttributeError ''object has no attribute get'')) else Inr [])"

definition int_value :: "pyval \<Rightarrow> int \<Rightarrow> int result" where
  "int_value v dflt =
     (if v = PyNone \<or> v = PyStr [] then Inr dflt
      else (case parse_decimal (py_str v) of
          Some (DecFin q) \<Rightarrow> Inr (round_half_even q)
        | Some DecInf \<Rightarrow> Inl (OverflowError ''cannot convert Infinity to integer'')
        | Some DecNaN \<Rightarrow> Inl (ValueError ''cannot convert NaN to integer'')
        | None \<Rightarrow> Inl (ArithmeticError ''decimal.ConversionSyntax'')))"

definition learning_tenant :: "pydict \<Rightarrow> string" where
  "learning_tenant d = (let t = strip (str_or d ''tenant_id'' []) in if t = [] then ''default'' else t)"

definition learning_domain :: "pydict \<Rightarrow> string result" where
  "learning_domain d =
     (let dm = strip (str_or d ''data_domain'' ''world_simulation'') in
      if dm \<in> {''operational_twin'', ''world_simulation''} then Inr dm
      else Inl (ValueError ''learning requires an operational or simulation decision domain''))"

definition removeprefix :: "string \<Rightarrow> string \<Rightarrow> string" where
  "removeprefix s p = (if startswith s p then drop (length p) s else s)"

definition routed_metric :: "pydict \<Rightarrow> (string \<times> string) result" where
  "routed_metric decision =
     bind_res (or_empty (get decision ''action'')) (\<lambda>action.
     bind_res (or_empty (get action ''params'')) (\<lambda>params.
       let action_type = str_or action ''type'' [];
           sku = str_or params ''sku'' ''unknown'' in
       if action_type = ''review_price_exception'' then
         Inr (sku @ '':price_exception_exposure_minor_units'', sku)
       else if action_type = ''dispatch_facilities_check'' then
         (let site = py_str (py_or (py_or (get params ''site_id'') (get params ''asset_id''))
                                   (PyStr ''site_unknown''))
          in Inr (site @ '':cold_chain_stock_at_risk_minor_units'', site))
       else if action_type = ''review_expiry_markdown'' then
         Inr (sku @ '':expiry_review_days_to_expiry'', sku)
       else if action_type = ''reorder'' then
         Inr (sku @ '':reorder_stockout_exposure_minor_units'', sku)
       else Inr (sku @ '':markdown_sell_through_target_units'', sku)))"

lemma int_value_int [simp]: "int_value (PyInt n) dflt = Inr n"
  by (simp add: int_value_def)

section \<open>Building an event\<close>

text \<open>A decimal quantized to two places, as text; an amount of minor units.\<close>

definition dec2_str :: "rat \<Rightarrow> string" where
  "dec2_str q = amount_str (round_half_even (100 * q))"

definition money_dict :: "int \<Rightarrow> pydict" where
  "money_dict n = [(''minor_units'', PyInt n), (''currency'', PyStr ''ZAR''), (''amount'', PyStr (amount_str n))]"

text \<open>The loop over the exposure keys: the first that is present and not \<open>None\<close>.\<close>

fun exposure_of :: "string list \<Rightarrow> pydict \<Rightarrow> int result" where
  "exposure_of [] expected = Inr 0"
| "exposure_of (k # ks) expected =
     (if get expected k = PyNone then exposure_of ks expected
      else bind_res (int_value (get expected k) 0) (\<lambda>n. Inr \<bar>n\<bar>))"

definition exposure_event ::
  "string \<Rightarrow> pydict \<Rightarrow> int option \<Rightarrow> string \<Rightarrow> string \<Rightarrow> string list \<Rightarrow> string \<Rightarrow> learning_event result" where
  "exposure_event now decision previous metric subject ks label =
     bind_res (or_empty (get decision ''expected_outcome'')) (\<lambda>expected.
     bind_res (exposure_of ks expected) (\<lambda>exposure.
     bind_res (learning_domain decision) (\<lambda>dm.
       let decision_id = py_str (get_or decision ''id'' (PyStr []));
           base = (case previous of None \<Rightarrow> 0 | Some p \<Rightarrow> p);
           updated = max base exposure;
           score = 99 / 100 - of_int (min exposure 200000) / 250000
       in Inr \<lparr>le_id = ''learn_'' @ removeprefix decision_id ''dec_'', le_decision_id = decision_id,
              le_sku = subject, le_metric = metric, le_previous = base, le_updated = updated,
              le_delta = updated - base,
              le_outcome = [(''measured_minor_units'', PyInt exposure),
                            (''rand_recovered'', PyDict (money_dict exposure)),
                            (''success_score'', PyStr (dec2_str score))],
              le_message = label @ '' for '' @ subject @ '': measured '' @ str_int exposure @
                '' minor units; largest confirmed is now '' @ str_int updated @ ''.'',
              le_created_at = now, le_tenant_id = learning_tenant decision, le_data_domain = dm\<rparr>)))"

definition expiry_review_event ::
  "string \<Rightarrow> pydict \<Rightarrow> int option \<Rightarrow> string \<Rightarrow> string \<Rightarrow> learning_event result" where
  "expiry_review_event now decision previous metric subject =
     bind_res (or_empty (get decision ''expected_outcome'')) (\<lambda>expected.
     bind_res (int_value (get expected ''days_to_expiry'') 0) (\<lambda>raw.
     bind_res (learning_domain decision) (\<lambda>dm.
       let decision_id = py_str (get_or decision ''id'' (PyStr []));
           days = max raw 0;
           base = (case previous of None \<Rightarrow> 0 | Some p \<Rightarrow> p);
           updated = max base (if 0 < days then days else 1);
           score = 1 - of_int (min days 10) / 20
       in Inr \<lparr>le_id = ''learn_'' @ removeprefix decision_id ''dec_'', le_decision_id = decision_id,
              le_sku = subject, le_metric = metric, le_previous = base, le_updated = updated,
              le_delta = updated - base,
              le_outcome = [(''days_to_expiry'', PyInt days), (''rand_recovered'', PyDict (money_dict 0)),
                            (''success_score'', PyStr (dec2_str score))],
              le_message = ''Expiry review for SKU '' @ subject @ '': '' @ str_int days @
                '' day(s) to expiry; review window threshold now '' @ str_int updated @ ''.'',
              le_created_at = now, le_tenant_id = learning_tenant decision, le_data_domain = dm\<rparr>)))"

definition uplift_units :: "int \<Rightarrow> int" where
  "uplift_units predicted =
     (if predicted \<le> 0 then 0 else max 1 (round_half_even (of_int predicted * 12 / 100)))"

definition success_score :: "int \<Rightarrow> int \<Rightarrow> int \<Rightarrow> int \<Rightarrow> rat" where
  "success_score predicted_units actual_units predicted_waste actual_waste =
     (let expected = max (predicted_units + predicted_waste) 1;
          err = \<bar>actual_units - predicted_units\<bar> + \<bar>actual_waste - predicted_waste\<bar>
      in max 0 (1 - of_int err / of_int expected))"

definition markdown_learning_event ::
  "string \<Rightarrow> pydict \<Rightarrow> int option \<Rightarrow> learning_event result" where
  "markdown_learning_event now decision previous =
     bind_res (or_empty (get decision ''action'')) (\<lambda>action.
     bind_res (or_empty (get action ''params'')) (\<lambda>params.
     bind_res (or_empty (get decision ''expected_outcome'')) (\<lambda>expected.
     bind_res (int_value (get expected ''predicted_sell_through_units'') 0) (\<lambda>predicted_units.
     bind_res (int_value (get expected ''predicted_waste_units'') 0) (\<lambda>predicted_waste.
     bind_res (int_value (get expected ''markdown_margin_minor_units'') 0) (\<lambda>margin_cents.
     bind_res (int_value (get expected ''incremental_profit_minor_units'') 0) (\<lambda>expected_recovered.
     bind_res (routed_metric decision) (\<lambda>(metric, _).
     bind_res (learning_domain decision) (\<lambda>dm.
       let decision_id = py_str (get_or decision ''id'' (PyStr []));
           sku = str_or params ''sku'' ''unknown'';
           uplift = uplift_units predicted_units;
           actual_units = predicted_units + uplift;
           actual_waste = max (predicted_waste - uplift) 0;
           actual_recovered = expected_recovered + uplift * margin_cents;
           base = (case previous of None \<Rightarrow> predicted_units | Some p \<Rightarrow> p);
           updated = max base actual_units
       in Inr \<lparr>le_id = ''learn_'' @ removeprefix decision_id ''dec_'', le_decision_id = decision_id,
              le_sku = sku, le_metric = metric, le_previous = base, le_updated = updated,
              le_delta = updated - base,
              le_outcome = [(''units_cleared'', PyInt actual_units), (''waste_units'', PyInt actual_waste),
                            (''rand_recovered'', PyDict (money_dict actual_recovered)),
                            (''success_score'', PyStr (dec2_str
                               (success_score predicted_units actual_units predicted_waste actual_waste)))],
              le_message = ''Threshold adjusted for SKU '' @ sku @ '': expected '' @ str_int predicted_units @
                '' units, measured '' @ str_int actual_units @ ''; next markdown target is '' @
                str_int updated @ ''.'',
              le_created_at = now, le_tenant_id = learning_tenant decision, le_data_domain = dm\<rparr>)))))))))"

definition build_learning_event :: "string \<Rightarrow> pydict \<Rightarrow> int option \<Rightarrow> learning_event result" where
  "build_learning_event now decision previous =
     bind_res (routed_metric decision) (\<lambda>(metric, subject).
     bind_res (or_empty (get decision ''action'')) (\<lambda>action.
       let action_type = str_or action ''type'' [] in
       if action_type = ''review_price_exception'' then
         exposure_event now decision previous metric subject [''revenue_exposure_minor_units'']
           ''Price-exception exposure''
       else if action_type = ''dispatch_facilities_check'' then
         exposure_event now decision previous metric subject
           [''stock_at_risk_minor_units'', ''incremental_profit_minor_units''] ''Cold-chain stock at risk''
       else if action_type = ''review_expiry_markdown'' then
         expiry_review_event now decision previous metric subject
       else if action_type = ''reorder'' then
         exposure_event now decision previous metric subject
           [''stockout_exposure_minor_units'', ''incremental_profit_minor_units'']
           ''Reorder stockout exposure avoided''
       else markdown_learning_event now decision previous))"

definition build_rejection_event :: "string \<Rightarrow> pydict \<Rightarrow> learning_event result" where
  "build_rejection_event now decision =
     (if get decision ''status'' \<noteq> PyStr ''rejected''
      then Inl (ValueError ''rejection learning requires a rejected decision'')
      else
        (let decision_id = str_or decision ''id'' [];
             action = dict_or_empty (get decision ''action'');
             params = dict_or_empty (get action ''params'');
             subject = py_str (py_or (py_or (get params ''sku'') (get params ''site_id'')) (PyStr ''unknown''))
         in if decision_id = [] then Inl (ValueError ''decision must include id'')
            else bind_res (learning_domain decision) (\<lambda>dm.
              Inr \<lparr>le_id = ''learn_'' @ removeprefix decision_id ''dec_'', le_decision_id = decision_id,
                   le_sku = subject, le_metric = subject @ '':rejection_outcome'', le_previous = 0,
                   le_updated = 0, le_delta = 0,
                   le_outcome = [(''decision_status'', PyStr ''rejected''),
                                 (''action_prevented'', PyStr (str_or action ''type'' ''unknown''))],
                   le_message = ''Rejected '' @ str_or action ''type'' ''unknown'' @ '' for '' @ subject @
                     ''; no write-back created.'',
                   le_created_at = now, le_tenant_id = learning_tenant decision, le_data_domain = dm\<rparr>)))"

section \<open>The in-memory store\<close>

type_synonym learning_key = "string \<times> string \<times> string"

record learning_store =
  ls_thresholds :: "(learning_key, int) dict"
  ls_events :: "(learning_key, learning_event) dict"

definition ls_empty :: learning_store where
  "ls_empty = \<lparr>ls_thresholds = [], ls_events = []\<rparr>"

text \<open>\<open>x is None or y == x\<close>.\<close>

definition matches :: "string option \<Rightarrow> string \<Rightarrow> bool" where
  "matches f x = (case f of None \<Rightarrow> True | Some y \<Rightarrow> x = y)"

definition ls_list_thresholds ::
  "string option \<Rightarrow> string option \<Rightarrow> learning_store \<Rightarrow> (string, int) dict" where
  "ls_list_thresholds tenant dm s =
     fold (\<lambda>((t, d, m), n) out. if matches tenant t \<and> matches dm d then dict_set m n out else out)
       (ls_thresholds s) []"

definition ls_list_events :: "string option \<Rightarrow> string option \<Rightarrow> learning_store \<Rightarrow> pydict list" where
  "ls_list_events tenant dm s =
     map le_to_dict (filter (\<lambda>e. matches tenant (le_tenant_id e) \<and> matches dm (le_data_domain e))
       (map snd (ls_events s)))"

definition ls_clear :: "learning_store \<Rightarrow> learning_store" where
  "ls_clear s = ls_empty"

text \<open>The guards both backends start with: the status, the id and the domain of the decision.\<close>

definition approved_key :: "pydict \<Rightarrow> learning_key result" where
  "approved_key decision =
     (if get decision ''status'' \<noteq> PyStr ''approved''
      then Inl (ValueError ''learning requires an approved decision'')
      else
        (let decision_id = py_str (get_or decision ''id'' (PyStr [])) in
         if decision_id = [] then Inl (ValueError ''decision must include id'')
         else bind_res (learning_domain decision) (\<lambda>dm. Inr (learning_tenant decision, dm, decision_id))))"

definition ls_record_approved ::
  "string \<Rightarrow> pydict \<Rightarrow> learning_store \<Rightarrow> learning_store \<times> pydict result" where
  "ls_record_approved now decision s = (case approved_key decision of
       Inl x \<Rightarrow> (s, Inl x)
     | Inr (t, dm, i) \<Rightarrow>
         (case dict_get (ls_events s) (t, dm, i) of
            Some existing \<Rightarrow> (s, Inr (le_to_dict existing))
          | None \<Rightarrow>
              (case routed_metric decision of
                 Inl x \<Rightarrow> (s, Inl x)
               | Inr (metric, _) \<Rightarrow>
                   (case build_learning_event now decision (dict_get (ls_thresholds s) (t, dm, metric)) of
                      Inl x \<Rightarrow> (s, Inl x)
                    | Inr e \<Rightarrow>
                        (s\<lparr>ls_thresholds := dict_set (t, dm, metric) (le_updated e) (ls_thresholds s),
                           ls_events := dict_set (t, dm, i) e (ls_events s)\<rparr>,
                         Inr (le_to_dict e))))))"

definition le_key :: "learning_event \<Rightarrow> learning_key" where
  "le_key e = (le_tenant_id e, le_data_domain e, le_decision_id e)"

definition ls_record_rejected ::
  "string \<Rightarrow> pydict \<Rightarrow> learning_store \<Rightarrow> learning_store \<times> pydict result" where
  "ls_record_rejected now decision s = (case build_rejection_event now decision of
       Inl x \<Rightarrow> (s, Inl x)
     | Inr e \<Rightarrow>
         (case dict_get (ls_events s) (le_key e) of
            Some existing \<Rightarrow> (s, Inr (le_to_dict existing))
          | None \<Rightarrow> (s\<lparr>ls_events := dict_set (le_key e) e (ls_events s)\<rparr>, Inr (le_to_dict e))))"

section \<open>The Postgres store\<close>

record threshold_row =
  th_tenant :: string
  th_domain :: string
  th_metric :: string
  th_sku :: string
  th_units :: int
  th_updated :: string

record learning_row =
  lr_tenant :: string
  lr_domain :: string
  lr_decision :: string
  lr_payload :: pydict
  lr_created :: string

record learning_db =
  ldb_thresholds :: "threshold_row list"
  ldb_events :: "learning_row list"

definition th_key :: "threshold_row \<Rightarrow> learning_key" where
  "th_key r = (th_tenant r, th_domain r, th_metric r)"

definition lr_key :: "learning_row \<Rightarrow> learning_key" where
  "lr_key r = (lr_tenant r, lr_domain r, lr_decision r)"

text \<open>A select by primary key: the row, if the session's tenant may see it.\<close>

definition pgl_threshold :: "string \<Rightarrow> learning_key \<Rightarrow> learning_db \<Rightarrow> int option" where
  "pgl_threshold ambient k db =
     map_option th_units (find_first (\<lambda>r. th_tenant r = ambient \<and> th_key r = k) (ldb_thresholds db))"

definition pgl_event :: "string \<Rightarrow> learning_key \<Rightarrow> learning_db \<Rightarrow> pydict option" where
  "pgl_event ambient k db =
     map_option lr_payload (find_first (\<lambda>r. lr_tenant r = ambient \<and> lr_key r = k) (ldb_events db))"

definition pgl_list_thresholds ::
  "string \<Rightarrow> string option \<Rightarrow> string option \<Rightarrow> learning_db \<Rightarrow> (string, int) dict" where
  "pgl_list_thresholds ambient tenant dm db =
     fold (\<lambda>r out. dict_set (th_metric r) (th_units r) out)
       (filter (\<lambda>r. th_tenant r = ambient \<and> matches tenant (th_tenant r) \<and> matches dm (th_domain r))
         (ldb_thresholds db)) []"

definition pgl_clear :: "string \<Rightarrow> learning_db \<Rightarrow> learning_db" where
  "pgl_clear ambient db =
     db\<lparr>ldb_thresholds := filter (\<lambda>r. th_tenant r \<noteq> ambient) (ldb_thresholds db),
        ldb_events := filter (\<lambda>r. lr_tenant r \<noteq> ambient) (ldb_events db)\<rparr>"

text \<open>\<open>greatest\<close> on timestamps.\<close>

definition ts_greatest :: "string \<Rightarrow> string \<Rightarrow> string" where
  "ts_greatest a b = (case (fromisoformat a, fromisoformat b) of
       (Some x, Some y) \<Rightarrow> if instant x < instant y then b else a
     | _ \<Rightarrow> a)"

text \<open>\<open>insert ... on conflict (tenant_id, data_domain, metric) do update set ... greatest(...)\<close>.\<close>

definition pgl_raise_threshold :: "string \<Rightarrow> learning_event \<Rightarrow> learning_db \<Rightarrow> learning_db result" where
  "pgl_raise_threshold ambient e db =
     (if le_tenant_id e \<noteq> ambient
      then Inl (DatabaseError ''new row violates row-level security policy'')
      else
        (let k = (le_tenant_id e, le_data_domain e, le_metric e) in
         if \<exists>r \<in> set (ldb_thresholds db). th_key r = k
         then Inr (db\<lparr>ldb_thresholds := map (\<lambda>r. if th_key r = k
                then r\<lparr>th_units := max (th_units r) (le_updated e),
                       th_updated := ts_greatest (th_updated r) (le_created_at e)\<rparr>
                else r) (ldb_thresholds db)\<rparr>)
         else Inr (db\<lparr>ldb_thresholds := ldb_thresholds db @
                [\<lparr>th_tenant = le_tenant_id e, th_domain = le_data_domain e, th_metric = le_metric e,
                  th_sku = le_sku e, th_units = le_updated e, th_updated = le_created_at e\<rparr>]\<rparr>)))"

text \<open>
  The payload that is stored, once the committed threshold is known. \<open>message.split(s, 1)[0]\<close> is the
  text before \<open>s\<close>, or all of it.
\<close>

definition before_sub :: "string \<Rightarrow> string \<Rightarrow> string" where
  "before_sub s n = (case find_sub s n of Some i \<Rightarrow> take i s | None \<Rightarrow> s)"

definition committed_payload :: "learning_event \<Rightarrow> int \<Rightarrow> pydict" where
  "committed_payload e final =
     (if final = le_updated e then le_to_dict e
      else dict_set ''message'' (PyStr (before_sub (le_message e) ''largest confirmed is now'' @
               ''largest confirmed is now '' @ str_int final @ ''.''))
             (dict_set ''delta_units'' (PyInt (final - le_previous e))
               (dict_set ''updated_threshold'' (PyInt final) (le_to_dict e))))"

text \<open>\<open>insert ... on conflict do nothing returning payload\<close>, and the winner's row when nothing was inserted.\<close>

definition pgl_insert_event ::
  "string \<Rightarrow> learning_event \<Rightarrow> pydict \<Rightarrow> learning_db \<Rightarrow> (learning_db \<times> pydict) result" where
  "pgl_insert_event ambient e payload db =
     (if le_tenant_id e \<noteq> ambient
      then Inl (DatabaseError ''new row violates row-level security policy'')
      else if \<exists>r \<in> set (ldb_events db). lr_key r = le_key e
      then Inr (db, (case pgl_event ambient (le_key e) db of Some w \<Rightarrow> w | None \<Rightarrow> payload))
      else Inr (db\<lparr>ldb_events := ldb_events db @
             [\<lparr>lr_tenant = le_tenant_id e, lr_domain = le_data_domain e, lr_decision = le_decision_id e,
               lr_payload = payload, lr_created = le_created_at e\<rparr>]\<rparr>, payload))"

text \<open>
  Recording an approval: what the transaction reads first (a stored event, or the event to store), and
  the statements that follow. Without a threshold row to lock, another transaction may commit between
  the two.
\<close>

definition pgl_prepare ::
  "string \<Rightarrow> string \<Rightarrow> pydict \<Rightarrow> learning_db \<Rightarrow> (pydict + learning_event) result" where
  "pgl_prepare ambient now decision db =
     bind_res (approved_key decision) (\<lambda>(t, dm, i).
       case pgl_event ambient (t, dm, i) db of
         Some existing \<Rightarrow> Inr (Inl existing)
       | None \<Rightarrow> bind_res (routed_metric decision) (\<lambda>(metric, _).
           bind_res (build_learning_event now decision (pgl_threshold ambient (t, dm, metric) db)) (\<lambda>e.
             Inr (Inr e))))"

definition pgl_commit :: "string \<Rightarrow> learning_event \<Rightarrow> learning_db \<Rightarrow> (learning_db \<times> pydict) result" where
  "pgl_commit ambient e db =
     bind_res (pgl_raise_threshold ambient e db) (\<lambda>db1.
       case pgl_threshold ambient (le_tenant_id e, le_data_domain e, le_metric e) db1 of
         None \<Rightarrow> Inl (RuntimeError ''learning threshold was not persisted'')
       | Some final \<Rightarrow> pgl_insert_event ambient e (committed_payload e final) db1)"

definition pgl_record_approved ::
  "string \<Rightarrow> string \<Rightarrow> pydict \<Rightarrow> learning_db \<Rightarrow> (learning_db \<times> pydict) result" where
  "pgl_record_approved ambient now decision db =
     bind_res (pgl_prepare ambient now decision db) (\<lambda>r. case r of
       Inl existing \<Rightarrow> Inr (db, existing) | Inr e \<Rightarrow> pgl_commit ambient e db)"

definition pgl_record_rejected ::
  "string \<Rightarrow> string \<Rightarrow> pydict \<Rightarrow> learning_db \<Rightarrow> (learning_db \<times> pydict) result" where
  "pgl_record_rejected ambient now decision db =
     bind_res (build_rejection_event now decision) (\<lambda>e.
       case pgl_event ambient (le_key e) db of
         Some existing \<Rightarrow> Inr (db, existing)
       | None \<Rightarrow> pgl_insert_event ambient e (le_to_dict e) db)"

section \<open>What an event says\<close>

text \<open>An event built for a decision raises its threshold and carries the identity of the decision.\<close>

definition event_of :: "pydict \<Rightarrow> string \<Rightarrow> int option \<Rightarrow> learning_event \<Rightarrow> bool" where
  "event_of decision metric previous e \<longleftrightarrow>
     le_tenant_id e = learning_tenant decision \<and> learning_domain decision = Inr (le_data_domain e) \<and>
     le_decision_id e = py_str (get_or decision ''id'' (PyStr [])) \<and> le_metric e = metric \<and>
     le_previous e \<le> le_updated e \<and> le_delta e = le_updated e - le_previous e \<and>
     (\<forall>p. previous = Some p \<longrightarrow> le_previous e = p)"

lemma exposure_event_of:
  "exposure_event now d prev metric subject ks label = Inr e \<Longrightarrow> event_of d metric prev e"
  by (auto simp: exposure_event_def event_of_def bind_res_Inr_iff Let_def)

lemma expiry_event_of:
  "expiry_review_event now d prev metric subject = Inr e \<Longrightarrow> event_of d metric prev e"
  by (auto simp: expiry_review_event_def event_of_def bind_res_Inr_iff Let_def)

lemma markdown_event_of:
  "markdown_learning_event now d prev = Inr e \<Longrightarrow> routed_metric d = Inr (metric, subject) \<Longrightarrow>
    event_of d metric prev e"
  by (auto simp: markdown_learning_event_def event_of_def bind_res_Inr_iff Let_def)

lemma build_event_of:
  assumes "build_learning_event now d prev = Inr e" and "routed_metric d = Inr (metric, subject)"
  shows "event_of d metric prev e"
  using assms exposure_event_of expiry_event_of markdown_event_of
  by (auto simp: build_learning_event_def bind_res_Inr_iff Let_def split: if_splits)

lemma approved_key_Inr:
  "approved_key d = Inr (t, dm, i) \<longleftrightarrow>
     get d ''status'' = PyStr ''approved'' \<and> t = learning_tenant d \<and> learning_domain d = Inr dm \<and>
     i = py_str (get_or d ''id'' (PyStr [])) \<and> i \<noteq> []"
  by (auto simp: approved_key_def bind_res_Inr_iff Let_def)

lemma event_of_key:
  "event_of d metric prev e \<Longrightarrow> approved_key d = Inr (t, dm, i) \<Longrightarrow> le_key e = (t, dm, i)"
  by (auto simp: event_of_def approved_key_Inr le_key_def)

lemma rejection_event_shape:
  assumes "build_rejection_event now d = Inr e"
  shows "le_key e = (learning_tenant d, le_data_domain e, str_or d ''id'' []) \<and>
    get d ''status'' = PyStr ''rejected'' \<and> learning_domain d = Inr (le_data_domain e)"
  using assms by (auto simp: build_rejection_event_def bind_res_Inr_iff le_key_def Let_def split: if_splits)

section \<open>The contract of a learning memory\<close>

text \<open>
  Recording is a partial function on states: \<open>Inl\<close> leaves the memory as it was. An event is stored
  under the key of its decision and stays; an approval moves the threshold of one metric of the same
  tenant, upwards, to the value its event reports; a rejection moves none.
\<close>

locale learning_memory =
  fixes inv :: "'s \<Rightarrow> bool"
    and event_at :: "'s \<Rightarrow> learning_key \<Rightarrow> pydict option"
    and threshold :: "'s \<Rightarrow> learning_key \<Rightarrow> int option"
    and approve_op :: "string \<Rightarrow> pydict \<Rightarrow> 's \<Rightarrow> ('s \<times> pydict) result"
    and reject_op :: "string \<Rightarrow> pydict \<Rightarrow> 's \<Rightarrow> ('s \<times> pydict) result"
  assumes approve_spec: "inv s \<Longrightarrow> approve_op now d s = Inr (s', p) \<Longrightarrow>
      \<exists>k. approved_key d = Inr k \<and> inv s' \<and>
        (case event_at s k of
           Some q \<Rightarrow> p = q \<and> s' = s
         | None \<Rightarrow> event_at s' = (event_at s)(k \<mapsto> p) \<and>
             (\<exists>m v. threshold s' = (threshold s)((fst k, fst (snd k), m) \<mapsto> v) \<and>
               get p ''metric'' = PyStr m \<and> get p ''updated_threshold'' = PyInt v \<and>
               (\<forall>u. threshold s (fst k, fst (snd k), m) = Some u \<longrightarrow> u \<le> v)))"
    and reject_spec: "inv s \<Longrightarrow> reject_op now d s = Inr (s', p) \<Longrightarrow>
      \<exists>k. fst k = learning_tenant d \<and> inv s' \<and> threshold s' = threshold s \<and>
        (case event_at s k of
           Some q \<Rightarrow> p = q \<and> s' = s
         | None \<Rightarrow> event_at s' = (event_at s)(k \<mapsto> p))"
begin

lemma approve_stored:
  assumes "inv s" and "approve_op now d s = Inr (s', p)"
  shows "\<exists>k. approved_key d = Inr k \<and> inv s' \<and> event_at s' k = Some p"
proof -
  from approve_spec [OF assms] obtain k where k: "approved_key d = Inr k" "inv s'"
    "(case event_at s k of Some q \<Rightarrow> p = q \<and> s' = s | None \<Rightarrow> event_at s' = (event_at s)(k \<mapsto> p))"
    by (auto split: option.splits)
  then have "event_at s' k = Some p" by (cases "event_at s k") auto
  then show ?thesis using k by blast
qed

lemma approve_again:
  assumes "inv s" and "approve_op now d s = Inr (s1, p)" and "approve_op now' d s1 = Inr (s2, q)"
  shows "s2 = s1 \<and> q = p"
proof -
  from approve_stored [OF assms(1,2)] obtain k where k: "approved_key d = Inr k" "inv s1" "event_at s1 k = Some p"
    by blast
  from approve_spec [OF k(2) assms(3)] k show ?thesis by (auto split: option.splits)
qed

lemma step_keeps:
  assumes "inv s" and "approve_op now d s = Inr (s', p) \<or> reject_op now d s = Inr (s', p)"
  shows "inv s' \<and> (event_at s k = Some q \<longrightarrow> event_at s' k = Some q) \<and>
    (threshold s m = Some u \<longrightarrow> (\<exists>v. threshold s' m = Some v \<and> u \<le> v)) \<and>
    (fst k \<noteq> learning_tenant d \<longrightarrow> event_at s' k = event_at s k) \<and>
    (fst m \<noteq> learning_tenant d \<longrightarrow> threshold s' m = threshold s m)"
  using assms(2)
proof
  assume a: "approve_op now d s = Inr (s', p)"
  from approve_spec [OF assms(1) a] obtain j where j: "approved_key d = Inr j" "inv s'"
    "case event_at s j of
           Some q \<Rightarrow> p = q \<and> s' = s
         | None \<Rightarrow> event_at s' = (event_at s)(j \<mapsto> p) \<and>
             (\<exists>m v. threshold s' = (threshold s)((fst j, fst (snd j), m) \<mapsto> v) \<and>
               get p ''metric'' = PyStr m \<and> get p ''updated_threshold'' = PyInt v \<and>
               (\<forall>u. threshold s (fst j, fst (snd j), m) = Some u \<longrightarrow> u \<le> v))" by blast
  have "fst j = learning_tenant d" using j(1) by (cases j) (auto simp: approved_key_Inr)
  then show ?thesis using j by (auto split: option.splits)
next
  assume "reject_op now d s = Inr (s', p)"
  from reject_spec [OF assms(1) this] show ?thesis by (auto split: option.splits)
qed

end

section \<open>Both backends keep it\<close>

definition committed :: "'s \<times> 'a result \<Rightarrow> ('s \<times> 'a) result" where
  "committed r = (case r of (s, Inl x) \<Rightarrow> Inl x | (s, Inr v) \<Rightarrow> Inr (s, v))"

lemma committed_Inr [simp]: "committed r = Inr (s, v) \<longleftrightarrow> r = (s, Inr v)"
  by (auto simp: committed_def split: prod.splits sum.splits)

lemma ls_refused_unchanged:
  "ls_record_approved now d s = (s', Inl x) \<Longrightarrow> s' = s"
  "ls_record_rejected now d s = (s', Inl x) \<Longrightarrow> s' = s"
  by (auto simp: ls_record_approved_def ls_record_rejected_def split: sum.splits option.splits)

lemma le_to_dict_get [simp]:
  "get (le_to_dict e) ''metric'' = PyStr (le_metric e)"
  "get (le_to_dict e) ''updated_threshold'' = PyInt (le_updated e)"
  by (simp_all add: le_to_dict_def)

interpretation mem_learning: learning_memory "\<lambda>s. True"
  "\<lambda>s k. map_option le_to_dict (dict_get (ls_events s) k)" "\<lambda>s. dict_get (ls_thresholds s)"
  "\<lambda>now d s. committed (ls_record_approved now d s)" "\<lambda>now d s. committed (ls_record_rejected now d s)"
proof (unfold_locales, goal_cases)
  case (1 s now d s' p)
  then obtain t dm i where k: "approved_key d = Inr (t, dm, i)"
    by (cases "approved_key d") (auto simp: ls_record_approved_def)
  show ?case
  proof (cases "dict_get (ls_events s) (t, dm, i)")
    case (Some e)
    then show ?thesis using 1 k by (auto simp: ls_record_approved_def)
  next
    case None
    with 1 k obtain metric subject e where e: "routed_metric d = Inr (metric, subject)"
      "build_learning_event now d (dict_get (ls_thresholds s) (t, dm, metric)) = Inr e"
      "s' = s\<lparr>ls_thresholds := dict_set (t, dm, metric) (le_updated e) (ls_thresholds s),
             ls_events := dict_set (t, dm, i) e (ls_events s)\<rparr>" "p = le_to_dict e"
      by (auto simp: ls_record_approved_def split: sum.splits prod.splits)
    have "event_of d metric (dict_get (ls_thresholds s) (t, dm, metric)) e" by (rule build_event_of [OF e(2,1)])
    then show ?thesis using None k e
      by (intro exI [of _ "(t, dm, i)"]) (auto simp: event_of_def fun_eq_iff intro!: exI [of _ metric])
  qed
next
  case (2 s now d s' p)
  then obtain e where e: "build_rejection_event now d = Inr e"
    by (cases "build_rejection_event now d") (auto simp: ls_record_rejected_def)
  then show ?case using 2 rejection_event_shape [OF e]
    by (intro exI [of _ "le_key e"])
      (auto simp: ls_record_rejected_def fun_eq_iff split: option.splits)
qed

definition ldb_ok :: "learning_db \<Rightarrow> bool" where
  "ldb_ok db \<longleftrightarrow> distinct (map th_key (ldb_thresholds db)) \<and> distinct (map lr_key (ldb_events db))"

definition ldb_threshold :: "learning_db \<Rightarrow> learning_key \<Rightarrow> int option" where
  "ldb_threshold db k = map_option th_units (find_first (\<lambda>r. th_key r = k) (ldb_thresholds db))"

definition ldb_event :: "learning_db \<Rightarrow> learning_key \<Rightarrow> pydict option" where
  "ldb_event db k = map_option lr_payload (find_first (\<lambda>r. lr_key r = k) (ldb_events db))"

lemma pgl_threshold_session: "fst k = ambient \<Longrightarrow> pgl_threshold ambient k db = ldb_threshold db k"
proof -
  assume "fst k = ambient"
  then have "(\<lambda>r. th_tenant r = ambient \<and> th_key r = k) = (\<lambda>r. th_key r = k)" by (auto simp: th_key_def)
  then show ?thesis by (simp add: pgl_threshold_def ldb_threshold_def)
qed

lemma pgl_event_session:
  "pgl_event ambient k db = (if fst k = ambient then ldb_event db k else None)"
proof (cases "fst k = ambient")
  case True
  then have "(\<lambda>r. lr_tenant r = ambient \<and> lr_key r = k) = (\<lambda>r. lr_key r = k)" by (auto simp: lr_key_def)
  then show ?thesis using True by (simp add: pgl_event_def ldb_event_def)
next
  case False
  then have "(\<lambda>r. lr_tenant r = ambient \<and> lr_key r = k) = (\<lambda>r. False)" by (auto simp: lr_key_def)
  moreover have "find_first (\<lambda>r. False) xs = None" for xs :: "learning_row list" by (induction xs) auto
  ultimately show ?thesis using False by (simp add: pgl_event_def)
qed

lemma pgl_raise_threshold_ok:
  assumes "ldb_ok db" and "pgl_raise_threshold ambient e db = Inr db1"
  shows "le_tenant_id e = ambient \<and> ldb_ok db1 \<and> ldb_events db1 = ldb_events db \<and>
    ldb_threshold db1 = (ldb_threshold db)((le_tenant_id e, le_data_domain e, le_metric e) \<mapsto>
      (case ldb_threshold db (le_tenant_id e, le_data_domain e, le_metric e) of
         None \<Rightarrow> le_updated e | Some u \<Rightarrow> max u (le_updated e)))"
proof -
  let ?k = "(le_tenant_id e, le_data_domain e, le_metric e)"
  define f where "f r = (if th_key r = ?k then r\<lparr>th_units := max (th_units r) (le_updated e),
    th_updated := ts_greatest (th_updated r) (le_created_at e)\<rparr> else r)" for r
  have tenant: "le_tenant_id e = ambient" using assms(2) by (auto simp: pgl_raise_threshold_def split: if_splits)
  have key: "th_key (f r) = th_key r" for r by (simp add: f_def th_key_def)
  show ?thesis
  proof (cases "\<exists>r \<in> set (ldb_thresholds db). th_key r = ?k")
    case True
    then have db1: "db1 = db\<lparr>ldb_thresholds := map f (ldb_thresholds db)\<rparr>"
      using assms(2) tenant by (auto simp: pgl_raise_threshold_def f_def Let_def)
    have found: "ldb_threshold db ?k \<noteq> None"
      using True by (auto simp: ldb_threshold_def find_first_None_iff)
    have "ldb_threshold db1 = (ldb_threshold db)(?k \<mapsto>
        (case ldb_threshold db ?k of None \<Rightarrow> le_updated e | Some u \<Rightarrow> max u (le_updated e)))"
    proof (rule ext)
      fix k
      have at: "ldb_threshold db1 k = map_option (th_units \<circ> f) (find_first (\<lambda>r. th_key r = k) (ldb_thresholds db))"
        using find_first_map [of "ldb_thresholds db" "\<lambda>r. th_key r = k" f] key
        by (simp add: db1 ldb_threshold_def option.map_comp)
      show "ldb_threshold db1 k = ((ldb_threshold db)(?k \<mapsto>
        (case ldb_threshold db ?k of None \<Rightarrow> le_updated e | Some u \<Rightarrow> max u (le_updated e)))) k"
      proof (cases "find_first (\<lambda>r. th_key r = k) (ldb_thresholds db)")
        case None
        then show ?thesis using at found by (auto simp: ldb_threshold_def)
      next
        case (Some r)
        then have "th_key r = k" by (auto dest: find_first_SomeD)
        then show ?thesis using at Some by (auto simp: ldb_threshold_def f_def)
      qed
    qed
    moreover have "ldb_ok db1" using assms(1) key by (simp add: db1 ldb_ok_def o_def)
    ultimately show ?thesis using tenant db1 by simp
  next
    case False
    define n where "n = \<lparr>th_tenant = le_tenant_id e, th_domain = le_data_domain e, th_metric = le_metric e,
      th_sku = le_sku e, th_units = le_updated e, th_updated = le_created_at e\<rparr>"
    have db1: "db1 = db\<lparr>ldb_thresholds := ldb_thresholds db @ [n]\<rparr>"
      using assms(2) tenant False by (auto simp: pgl_raise_threshold_def n_def Let_def)
    have nk: "th_key n = ?k" "th_units n = le_updated e" by (simp_all add: n_def th_key_def)
    have "find_first (\<lambda>r. th_key r = ?k) (ldb_thresholds db) = None"
      using False by (auto simp: find_first_None_iff)
    then have "ldb_threshold db1 = (ldb_threshold db)(?k \<mapsto>
        (case ldb_threshold db ?k of None \<Rightarrow> le_updated e | Some u \<Rightarrow> max u (le_updated e)))"
      by (auto simp: fun_eq_iff ldb_threshold_def db1 find_first_append nk split: option.splits)
    moreover have "ldb_ok db1" using assms(1) False nk by (auto simp: db1 ldb_ok_def)
    ultimately show ?thesis using tenant db1 by simp
  qed
qed

lemma pgl_insert_event_ok:
  assumes "ldb_ok db" and "pgl_insert_event ambient e payload db = Inr (db1, p)"
  shows "le_tenant_id e = ambient \<and> ldb_ok db1 \<and> ldb_thresholds db1 = ldb_thresholds db \<and>
    (case ldb_event db (le_key e) of
       Some q \<Rightarrow> p = q \<and> db1 = db
     | None \<Rightarrow> p = payload \<and> ldb_event db1 = (ldb_event db)(le_key e \<mapsto> payload))"
proof -
  have tenant: "le_tenant_id e = ambient" using assms(2) by (auto simp: pgl_insert_event_def split: if_splits)
  then have amb: "fst (le_key e) = ambient" by (simp add: le_key_def)
  show ?thesis
  proof (cases "\<exists>r \<in> set (ldb_events db). lr_key r = le_key e")
    case True
    then obtain q where "ldb_event db (le_key e) = Some q"
      by (cases "ldb_event db (le_key e)") (auto simp: ldb_event_def find_first_None_iff)
    then show ?thesis using assms True tenant amb by (auto simp: pgl_insert_event_def pgl_event_session)
  next
    case False
    define n where "n = \<lparr>lr_tenant = le_tenant_id e, lr_domain = le_data_domain e,
      lr_decision = le_decision_id e, lr_payload = payload, lr_created = le_created_at e\<rparr>"
    have db1: "db1 = db\<lparr>ldb_events := ldb_events db @ [n]\<rparr>" "p = payload"
      using assms(2) tenant False by (auto simp: pgl_insert_event_def n_def)
    have nk: "lr_key n = le_key e" "lr_payload n = payload" by (simp_all add: n_def lr_key_def le_key_def)
    have none: "find_first (\<lambda>r. lr_key r = le_key e) (ldb_events db) = None"
      using False by (auto simp: find_first_None_iff)
    have "ldb_event db1 = (ldb_event db)(le_key e \<mapsto> payload)"
      by (rule ext) (use none nk in \<open>auto simp: ldb_event_def db1 find_first_append split: option.splits\<close>)
    then show ?thesis using assms(1) tenant False nk none db1 by (auto simp: ldb_ok_def ldb_event_def)
  qed
qed

text \<open>A commit raises the threshold to at least its event's, also when others committed since it was prepared.\<close>

lemma pgl_commit_ok:
  assumes "ldb_ok db" and "pgl_commit ambient e db = Inr (db1, p)"
  defines "k \<equiv> (le_tenant_id e, le_data_domain e, le_metric e)"
  shows "ldb_ok db1 \<and> le_tenant_id e = ambient \<and>
    (\<exists>v. ldb_threshold db1 = (ldb_threshold db)(k \<mapsto> v) \<and> le_updated e \<le> v \<and>
      (\<forall>u. ldb_threshold db k = Some u \<longrightarrow> u \<le> v) \<and>
      (ldb_threshold db k = None \<longrightarrow> v = le_updated e) \<and>
      (\<forall>u. ldb_threshold db k = Some u \<longrightarrow> v = max u (le_updated e)) \<and>
      (case ldb_event db (le_key e) of
         Some q \<Rightarrow> p = q \<and> ldb_event db1 = ldb_event db
       | None \<Rightarrow> p = committed_payload e v \<and> ldb_event db1 = (ldb_event db)(le_key e \<mapsto> p)))"
proof -
  from assms(2) obtain db0 final where s: "pgl_raise_threshold ambient e db = Inr db0"
    "pgl_threshold ambient k db0 = Some final"
    "pgl_insert_event ambient e (committed_payload e final) db0 = Inr (db1, p)"
    by (auto simp: pgl_commit_def k_def bind_res_Inr_iff split: option.splits)
  note raised = pgl_raise_threshold_ok [OF assms(1) s(1), folded k_def]
  then have amb: "fst k = ambient" by (simp add: k_def)
  have final: "ldb_threshold db0 k = Some final" using s(2) amb by (simp add: pgl_threshold_session)
  note ins = pgl_insert_event_ok [OF _ s(3)]
  have ev: "ldb_event db0 = ldb_event db" using raised by (simp add: ldb_event_def fun_eq_iff)
  have th: "ldb_threshold db1 = ldb_threshold db0"
    using ins raised by (simp add: ldb_threshold_def fun_eq_iff)
  show ?thesis
    using raised ins ev th final by (intro conjI exI [of _ final]) (auto split: option.splits)
qed

lemma committed_payload_get [simp]:
  "get (committed_payload e v) ''metric'' = PyStr (le_metric e)"
  "get (committed_payload e v) ''updated_threshold'' = PyInt v"
  by (auto simp: committed_payload_def)

interpretation pg_learning: learning_memory ldb_ok ldb_event ldb_threshold
  "pgl_record_approved ambient" "pgl_record_rejected ambient" for ambient
proof (unfold_locales, goal_cases)
  case (1 s now d s' p)
  then obtain t dm i where k: "approved_key d = Inr (t, dm, i)"
    by (auto simp: pgl_record_approved_def pgl_prepare_def bind_res_Inr_iff)
  show ?case
  proof (cases "pgl_event ambient (t, dm, i) s")
    case (Some q)
    then show ?thesis using 1 k
      by (intro exI [of _ "(t, dm, i)"])
        (auto simp: pgl_record_approved_def pgl_prepare_def pgl_event_session split: if_splits)
  next
    case None
    with 1 k obtain metric subject e where e: "routed_metric d = Inr (metric, subject)"
      "build_learning_event now d (pgl_threshold ambient (t, dm, metric) s) = Inr e"
      "pgl_commit ambient e s = Inr (s', p)"
      by (auto simp: pgl_record_approved_def pgl_prepare_def bind_res_Inr_iff)
    have of: "event_of d metric (pgl_threshold ambient (t, dm, metric) s) e" by (rule build_event_of [OF e(2,1)])
    have key: "le_key e = (t, dm, i)" by (rule event_of_key [OF of k])
    have m: "le_metric e = metric" using of by (simp add: event_of_def)
    have "ldb_event s (t, dm, i) = None"
      using None pgl_commit_ok [OF 1(1) e(3)] key by (auto simp: pgl_event_session le_key_def)
    then show ?thesis
      using pgl_commit_ok [OF 1(1) e(3)] key m k by (auto simp: le_key_def)
  qed
next
  case (2 s now d s' p)
  then obtain e where e: "build_rejection_event now d = Inr e"
    by (auto simp: pgl_record_rejected_def bind_res_Inr_iff)
  show ?case
  proof (cases "pgl_event ambient (le_key e) s")
    case (Some q)
    then show ?thesis using 2 e rejection_event_shape [OF e]
      by (intro exI [of _ "le_key e"]) (auto simp: pgl_record_rejected_def pgl_event_session split: if_splits)
  next
    case None
    then have "pgl_insert_event ambient e (le_to_dict e) s = Inr (s', p)"
      using 2 e by (simp add: pgl_record_rejected_def)
    from pgl_insert_event_ok [OF 2(1) this] rejection_event_shape [OF e] show ?thesis
      by (intro exI [of _ "le_key e"]) (auto simp: ldb_threshold_def fun_eq_iff split: option.splits)
  qed
qed

section \<open>Histories\<close>

datatype learning_op = LearnApproved string pydict | LearnRejected string pydict

fun op_decision :: "learning_op \<Rightarrow> pydict" where
  "op_decision (LearnApproved now d) = d"
| "op_decision (LearnRejected now d) = d"

text \<open>A history of recordings, of which the refused ones change nothing.\<close>

fun learn_run ::
  "(string \<Rightarrow> pydict \<Rightarrow> 's \<Rightarrow> ('s \<times> pydict) result) \<Rightarrow> (string \<Rightarrow> pydict \<Rightarrow> 's \<Rightarrow> ('s \<times> pydict) result) \<Rightarrow>
   learning_op list \<Rightarrow> 's \<Rightarrow> 's" where
  "learn_run app rej [] s = s"
| "learn_run app rej (x # xs) s =
     (let r = (case x of LearnApproved now d \<Rightarrow> app now d s | LearnRejected now d \<Rightarrow> rej now d s)
      in learn_run app rej xs (case r of Inl e \<Rightarrow> s | Inr (s', p) \<Rightarrow> s'))"

context learning_memory
begin

lemma run_keeps:
  assumes "inv s"
  shows "inv (learn_run approve_op reject_op xs s) \<and>
    (event_at s k = Some q \<longrightarrow> event_at (learn_run approve_op reject_op xs s) k = Some q) \<and>
    (threshold s m = Some u \<longrightarrow> (\<exists>v. threshold (learn_run approve_op reject_op xs s) m = Some v \<and> u \<le> v)) \<and>
    ((\<forall>x \<in> set xs. learning_tenant (op_decision x) \<noteq> fst m) \<longrightarrow>
      threshold (learn_run approve_op reject_op xs s) m = threshold s m)"
  using assms
proof (induction xs arbitrary: s u)
  case (Cons x xs)
  define r where "r = (case x of LearnApproved now d \<Rightarrow> approve_op now d s | LearnRejected now d \<Rightarrow> reject_op now d s)"
  define s1 where "s1 = (case r of Inl e \<Rightarrow> s | Inr (s', p) \<Rightarrow> s')"
  have step: "inv s1 \<and> (event_at s k = Some q \<longrightarrow> event_at s1 k = Some q) \<and>
      (\<forall>u. threshold s m = Some u \<longrightarrow> (\<exists>v. threshold s1 m = Some v \<and> u \<le> v)) \<and>
      (learning_tenant (op_decision x) \<noteq> fst m \<longrightarrow> threshold s1 m = threshold s m)"
  proof (cases r)
    case (Inl e)
    then show ?thesis using Cons.prems by (simp add: s1_def)
  next
    case (Inr sp)
    obtain s' p where sp: "sp = (s', p)" by (rule prod.exhaust)
    obtain now d where "approve_op now d s = Inr (s', p) \<or> reject_op now d s = Inr (s', p)"
      and d: "d = op_decision x"
      using Inr sp by (cases x) (auto simp: r_def)
    then show ?thesis
      using step_keeps [OF Cons.prems, where k = k and q = q and m = m] d Inr sp by (auto simp: s1_def)
  qed
  have run: "learn_run approve_op reject_op (x # xs) s = learn_run approve_op reject_op xs s1"
    by (simp add: r_def s1_def Let_def)
  have "\<exists>v. threshold (learn_run approve_op reject_op xs s1) m = Some v \<and> u \<le> v" if "threshold s m = Some u"
  proof -
    from step that obtain w where "threshold s1 m = Some w" "u \<le> w" by blast
    with Cons.IH [of s1 w] step show ?thesis by (meson order_trans)
  qed
  then show ?case unfolding run using Cons.IH [of s1] step by auto
qed simp

end

section \<open>Scores\<close>

lemma success_score_range: "0 \<le> success_score a b c d \<and> success_score a b c d \<le> 1"
proof -
  have "(0::rat) \<le> of_int (\<bar>b - a\<bar> + \<bar>d - c\<bar>) / of_int (max (a + c) 1)"
    by (rule divide_nonneg_pos) (simp_all add: less_max_iff_disj)
  then show ?thesis by (simp add: success_score_def Let_def max_def)
qed

lemma dec2_str_range:
  assumes "0 \<le> q" and "q \<le> 1"
  shows "\<exists>r. parse_decimal (dec2_str q) = Some (DecFin r) \<and> 0 \<le> r \<and> r \<le> 1 \<and> \<bar>r - q\<bar> \<le> 1 / 200"
proof -
  let ?n = "round_half_even (100 * q)"
  have "0 \<le> ?n \<and> ?n \<le> 100" using round_half_even_between [of 0 "100 * q" 100] assms by simp
  moreover have "\<bar>of_int ?n - 100 * q\<bar> \<le> 1 / 2" by (rule round_half_even_close)
  ultimately show ?thesis
    by (intro exI [of _ "of_int ?n / 100"]) (auto simp: dec2_str_def parse_amount_str abs_if field_simps split: if_splits)
qed

section \<open>Properties\<close>

definition demo_approved :: pydict where
  "demo_approved = [(''id'', PyStr ''dec_7''), (''status'', PyStr ''approved''), (''tenant_id'', PyStr ''acme''),
     (''data_domain'', PyStr ''operational_twin''),
     (''action'', PyDict [(''type'', PyStr ''reorder''), (''params'', PyDict [(''sku'', PyStr ''4011'')])]),
     (''expected_outcome'', PyDict [(''stockout_exposure_minor_units'', PyInt 900)])]"

lemma demo_key: "approved_key demo_approved = Inr (''acme'', ''operational_twin'', ''dec_7'')"
  by code_simp

lemma demo_metric: "routed_metric demo_approved = Inr (''4011:reorder_stockout_exposure_minor_units'', ''4011'')"
  by code_simp

lemma demo_built:
  "\<exists>e. build_learning_event now demo_approved None = Inr e \<and> le_updated e = 900 \<and>
     le_key e = (''acme'', ''operational_twin'', ''dec_7'') \<and> le_metric e = ''4011:reorder_stockout_exposure_minor_units''"
proof -
  have dm: "learning_domain demo_approved = Inr ''operational_twin''" by code_simp
  have "exposure_of [''stockout_exposure_minor_units'', ''incremental_profit_minor_units'']
      [(''stockout_exposure_minor_units'', PyInt 900)] = Inr 900" by simp
  then obtain e where e: "build_learning_event now demo_approved None = Inr e" "le_updated e = 900"
    using demo_metric dm
    by (simp add: build_learning_event_def exposure_event_def or_empty_def demo_approved_def str_or_def py_or_def Let_def)
  have of: "event_of demo_approved ''4011:reorder_stockout_exposure_minor_units'' None e"
    by (rule build_event_of [OF e(1) demo_metric])
  then have "le_metric e = ''4011:reorder_stockout_exposure_minor_units''" by (simp add: event_of_def)
  then show ?thesis using e event_of_key [OF of demo_key] by simp
qed

text \<open>
  C36. Learning remembers and never forgets: over any history of recorded approvals and rejections, in
  memory and in Postgres, an event once stored for a decision is returned unchanged ever after, a
  threshold never goes down, and the thresholds of a tenant are untouched by the decisions of others.
\<close>

theorem learning_is_monotone:
  assumes "ldb_ok db" and "app = (\<lambda>now d s. committed (ls_record_approved now d s))"
    and "rej = (\<lambda>now d s. committed (ls_record_rejected now d s))"
    and "db' = learn_run (pgl_record_approved ambient) (pgl_record_rejected ambient) xs db"
    and "s' = learn_run app rej xs s"
  shows "(dict_get (ls_events s) k = Some e \<longrightarrow> map_option le_to_dict (dict_get (ls_events s') k) = Some (le_to_dict e)) \<and>
    (dict_get (ls_thresholds s) m = Some u \<longrightarrow> (\<exists>v \<ge> u. dict_get (ls_thresholds s') m = Some v)) \<and>
    (ldb_event db k = Some p \<longrightarrow> ldb_event db' k = Some p) \<and>
    (ldb_threshold db m = Some w \<longrightarrow> (\<exists>v \<ge> w. ldb_threshold db' m = Some v)) \<and>
    ((\<forall>x \<in> set xs. learning_tenant (op_decision x) \<noteq> fst m) \<longrightarrow>
      dict_get (ls_thresholds s') m = dict_get (ls_thresholds s) m \<and> ldb_threshold db' m = ldb_threshold db m)"
  using mem_learning.run_keeps [OF TrueI, where s = s and xs = xs and k = k and q = "le_to_dict e" and m = m and u = u]
    pg_learning.run_keeps [OF assms(1), where xs = xs and k = k and q = p and m = m and u = w and ambient = ambient] assms(2-5)
  by auto

theorem learning_is_monotone_witness:
  "\<exists>s1 p s2 v. committed (ls_record_approved ''t1'' demo_approved ls_empty) = Inr (s1, p) \<and>
     dict_get (ls_thresholds s1) (''acme'', ''operational_twin'', ''4011:reorder_stockout_exposure_minor_units'') = Some 900 \<and>
     s2 = learn_run (\<lambda>now d s. committed (ls_record_approved now d s)) (\<lambda>now d s. committed (ls_record_rejected now d s))
       [LearnApproved ''t2'' (dict_set ''id'' (PyStr ''dec_8'') demo_approved)] s1 \<and>
     dict_get (ls_thresholds s2) (''acme'', ''operational_twin'', ''4011:reorder_stockout_exposure_minor_units'') = Some v \<and> 900 \<le> v"
proof -
  obtain s1 p where r: "ls_record_approved ''t1'' demo_approved ls_empty = (s1, Inr p)"
    and th: "dict_get (ls_thresholds s1) (''acme'', ''operational_twin'', ''4011:reorder_stockout_exposure_minor_units'') = Some 900"
    using demo_built [of "''t1''"] demo_key demo_metric by (auto simp: ls_record_approved_def ls_empty_def)
  have ok: "ldb_ok \<lparr>ldb_thresholds = [], ldb_events = []\<rparr>" by (simp add: ldb_ok_def)
  from learning_is_monotone [OF ok refl refl refl refl, where s = s1 and u = 900
      and k = "(''acme'', ''operational_twin'', ''dec_7'')" and p = "[]" and ambient = "''acme''" and w = 0
      and m = "(''acme'', ''operational_twin'', ''4011:reorder_stockout_exposure_minor_units'')"
      and xs = "[LearnApproved ''t2'' (dict_set ''id'' (PyStr ''dec_8'') demo_approved)]"] r th
  show ?thesis by (auto simp del: learn_run.simps)
qed

text \<open>
  A race cannot lower a threshold or misreport it: when an approval was prepared against one state
  of the tables and commits against another, the committed threshold is the larger of what is there
  and what the event measured, and a newly stored event reports exactly the committed threshold.
\<close>

theorem raced_approval_reports_committed_threshold:
  assumes "ldb_ok db'" and "pgl_prepare ambient now decision db = Inr (Inr e)"
    and "pgl_commit ambient e db' = Inr (db'', p)" and "ldb_event db' (le_key e) = None"
  shows "\<exists>v. ldb_threshold db'' (le_tenant_id e, le_data_domain e, le_metric e) = Some v \<and>
    v = max (le_updated e) (case ldb_threshold db' (le_tenant_id e, le_data_domain e, le_metric e) of
      None \<Rightarrow> le_updated e | Some u \<Rightarrow> u) \<and>
    get p ''updated_threshold'' = PyInt v \<and> ldb_event db'' (le_key e) = Some p \<and>
    (\<forall>u. pgl_threshold ambient (le_tenant_id e, le_data_domain e, le_metric e) db = Some u \<longrightarrow> u \<le> v)"
proof -
  from pgl_commit_ok [OF assms(1,3)] assms(4) obtain v where v:
    "ldb_threshold db'' (le_tenant_id e, le_data_domain e, le_metric e) = Some v" "le_updated e \<le> v"
    "ldb_threshold db' (le_tenant_id e, le_data_domain e, le_metric e) = None \<longrightarrow> v = le_updated e"
    "\<forall>u. ldb_threshold db' (le_tenant_id e, le_data_domain e, le_metric e) = Some u \<longrightarrow> v = max u (le_updated e)"
    "p = committed_payload e v" "ldb_event db'' (le_key e) = Some p"
    by auto
  from assms(2) obtain t dm i metric subject where k: "approved_key decision = Inr (t, dm, i)"
    "routed_metric decision = Inr (metric, subject)"
    "build_learning_event now decision (pgl_threshold ambient (t, dm, metric) db) = Inr e"
    by (auto simp: pgl_prepare_def bind_res_Inr_iff split: option.splits)
  have "event_of decision metric (pgl_threshold ambient (t, dm, metric) db) e" by (rule build_event_of [OF k(3,2)])
  then have "\<forall>u. pgl_threshold ambient (le_tenant_id e, le_data_domain e, le_metric e) db = Some u \<longrightarrow> u \<le> v"
    using event_of_key [OF _ k(1)] v(2) by (force simp: event_of_def le_key_def)
  then show ?thesis using v by (auto split: option.splits)
qed

theorem raced_approval_reports_committed_threshold_witness:
  "\<exists>e p db''. pgl_prepare ''acme'' ''t1'' demo_approved \<lparr>ldb_thresholds = [], ldb_events = []\<rparr> = Inr (Inr e) \<and>
     pgl_commit ''acme'' e \<lparr>ldb_thresholds = [\<lparr>th_tenant = ''acme'', th_domain = ''operational_twin'',
       th_metric = ''4011:reorder_stockout_exposure_minor_units'', th_sku = ''4011'', th_units = 1500,
       th_updated = ''t0''\<rparr>], ldb_events = []\<rparr> = Inr (db'', p) \<and> get p ''updated_threshold'' = PyInt 1500"
proof -
  let ?db = "\<lparr>ldb_thresholds = [\<lparr>th_tenant = ''acme'', th_domain = ''operational_twin'',
       th_metric = ''4011:reorder_stockout_exposure_minor_units'', th_sku = ''4011'', th_units = 1500,
       th_updated = ''t0''\<rparr>], ldb_events = []\<rparr>"
  obtain e where e: "build_learning_event ''t1'' demo_approved None = Inr e" "le_updated e = 900"
    "le_key e = (''acme'', ''operational_twin'', ''dec_7'')" "le_metric e = ''4011:reorder_stockout_exposure_minor_units''"
    using demo_built [of "''t1''"] by blast
  have prep: "pgl_prepare ''acme'' ''t1'' demo_approved \<lparr>ldb_thresholds = [], ldb_events = []\<rparr> = Inr (Inr e)"
    using e(1) demo_key demo_metric by (simp add: pgl_prepare_def pgl_event_def pgl_threshold_def)
  have id: "le_tenant_id e = ''acme''" "le_data_domain e = ''operational_twin''" using e(3) by (auto simp: le_key_def)
  obtain db'' p where com: "pgl_commit ''acme'' e ?db = Inr (db'', p)"
    using id e(4) by (simp add: pgl_commit_def pgl_raise_threshold_def th_key_def pgl_threshold_def pgl_insert_event_def)
  have "ldb_ok ?db" "ldb_event ?db (le_key e) = None" by (simp_all add: ldb_ok_def ldb_event_def)
  from raced_approval_reports_committed_threshold [OF this(1) prep com this(2)] id e(2,4)
  have "get p ''updated_threshold'' = PyInt 1500" by (auto simp: ldb_threshold_def th_key_def)
  then show ?thesis using prep com by blast
qed

text \<open>
  Every success score is a probability: whatever units and waste a decision predicted, the score
  that is written parses as a decimal between 0 and 1, within half a cent of the exact ratio; so do
  the scores of exposures and of expiry reviews.
\<close>

theorem success_scores_are_probabilities:
  "(\<exists>r. parse_decimal (dec2_str (success_score a b c d)) = Some (DecFin r) \<and> 0 \<le> r \<and> r \<le> 1 \<and>
      \<bar>r - success_score a b c d\<bar> \<le> 1 / 200) \<and>
   (\<exists>r. parse_decimal (dec2_str (99 / 100 - of_int (min \<bar>x\<bar> 200000) / 250000)) = Some (DecFin r) \<and> 0 \<le> r \<and> r \<le> 1) \<and>
   (\<exists>r. parse_decimal (dec2_str (1 - of_int (min (max y 0) 10) / 20)) = Some (DecFin r) \<and> 0 \<le> r \<and> r \<le> 1)"
proof (intro conjI)
  have x: "of_int (min \<bar>x\<bar> 200000) \<le> (200000::rat)" "(0::rat) \<le> of_int (min \<bar>x\<bar> 200000)"
    by (simp_all add: of_int_min)
  have y: "of_int (min (max y 0) 10) \<le> (10::rat)" "(0::rat) \<le> of_int (min (max y 0) 10)"
    by (simp_all add: of_int_min)
  show "\<exists>r. parse_decimal (dec2_str (success_score a b c d)) = Some (DecFin r) \<and> 0 \<le> r \<and> r \<le> 1 \<and>
      \<bar>r - success_score a b c d\<bar> \<le> 1 / 200" using dec2_str_range success_score_range by blast
  show "\<exists>r. parse_decimal (dec2_str (99 / 100 - of_int (min \<bar>x\<bar> 200000) / 250000)) = Some (DecFin r) \<and> 0 \<le> r \<and> r \<le> 1"
    using dec2_str_range [of "99 / 100 - of_int (min \<bar>x\<bar> 200000) / 250000"] x by (auto simp: field_simps)
  show "\<exists>r. parse_decimal (dec2_str (1 - of_int (min (max y 0) 10) / 20)) = Some (DecFin r) \<and> 0 \<le> r \<and> r \<le> 1"
    using dec2_str_range [of "1 - of_int (min (max y 0) 10) / 20"] y by (auto simp: field_simps)
qed

end
