(* ===== verification/Approvals.thy ===== *)
theory Approvals
  imports DecisionStore Writeback Learning Inventory
begin

text \<open>
  The review loop of the HTTP application: the handlers that approve and reject a decision and that
  complete a write-back task (\<open>src/shelfwise_backend/app.py\<close>), with the tenant checks of
  \<open>decision_access.py\<close>, the queues of \<open>decision_assignment.py\<close> and the roles of \<open>tenant.py\<close>, over the
  in-memory stores. A request takes one clock reading. Request bodies are the validated records of
  their Pydantic models.
\<close>

section \<open>Who asks\<close>

datatype role = OWNER | EXECUTIVE | MANAGER | INVENTORY | ANALYST | AUDITOR

fun role_value :: "role \<Rightarrow> string" where
  "role_value OWNER = ''owner''"
| "role_value EXECUTIVE = ''executive''"
| "role_value MANAGER = ''manager''"
| "role_value INVENTORY = ''inventory''"
| "role_value ANALYST = ''analyst''"
| "role_value AUDITOR = ''auditor''"

record tenant_context =
  tc_tenant_id :: string
  tc_user_id :: string
  tc_role :: role

definition default_tenant_context :: "environ \<Rightarrow> tenant_context" where
  "default_tenant_context env =
     (let raw = (case env ''SHELFWISE_TENANT_ID'' of
            Some (c # s) \<Rightarrow> c # s
          | _ \<Rightarrow> (case env ''TENANT_ID'' of Some (c # s) \<Rightarrow> c # s | _ \<Rightarrow> ''local''));
          t = strip raw
      in \<lparr>tc_tenant_id = (if t = [] then ''local'' else t), tc_user_id = ''local'', tc_role = OWNER\<rparr>)"

definition auth_mode :: "environ \<Rightarrow> string" where
  "auth_mode env = lower (strip (getenv env ''SHELFWISE_AUTH_MODE'' ''off''))"

section \<open>Whose decision\<close>

definition owned_by :: "pydict \<Rightarrow> string \<Rightarrow> bool" where
  "owned_by decision tenant =
     (let stamped = strip (str_or decision ''tenant_id'' []) in stamped \<noteq> [] \<and> stamped = tenant)"

definition belongs_to_other_tenant :: "environ \<Rightarrow> pydict \<Rightarrow> tenant_context \<Rightarrow> bool" where
  "belongs_to_other_tenant env decision ctx =
     (if auth_mode env \<noteq> ''jwt'' then False else \<not> owned_by decision (tc_tenant_id ctx))"

definition tenant_scoped_decisions ::
  "environ \<Rightarrow> tenant_context \<Rightarrow> string option \<Rightarrow> decision_store \<Rightarrow> pydict list" where
  "tenant_scoped_decisions env ctx dm s =
     (let ds = filter (\<lambda>d. case dm of None \<Rightarrow> True
                 | Some x \<Rightarrow> str_or d ''data_domain'' ''world_simulation'' = x) (ds_list s)
      in if auth_mode env \<noteq> ''jwt'' then ds else filter (\<lambda>d. owned_by d (tc_tenant_id ctx)) ds)"

definition reject_cross_tenant_access ::
  "environ \<Rightarrow> string \<Rightarrow> tenant_context \<Rightarrow> decision_store \<Rightarrow> unit result" where
  "reject_cross_tenant_access env i ctx s =
     (if auth_mode env \<noteq> ''jwt'' then Inr ()
      else (case ds_get s i of
          None \<Rightarrow> Inr ()
        | Some d \<Rightarrow> if belongs_to_other_tenant env d ctx
            then Inl (HTTPException 404 ''Decision not found'') else Inr ()))"

definition decision_action :: "pydict \<Rightarrow> pydict" where
  "decision_action decision = dict_or_empty (get decision ''action'')"

definition decision_tenant_id :: "pydict \<Rightarrow> string \<Rightarrow> string" where
  "decision_tenant_id decision fallback =
     (let t = strip (str_or decision ''tenant_id'' []) in if t = [] then fallback else t)"

definition all_operational_roles :: "string list" where
  "all_operational_roles = [''facilities_manager'', ''inventory_manager'', ''procurement_manager'',
     ''sales_manager'', ''store_manager'']"

fun assigned_roles :: "role \<Rightarrow> string list" where
  "assigned_roles INVENTORY = [''inventory_manager'', ''procurement_manager'']"
| "assigned_roles ANALYST = [''inventory_manager'', ''procurement_manager'', ''sales_manager'']"
| "assigned_roles _ = all_operational_roles"

definition assigned_decision_roles :: "role \<Rightarrow> string list" where
  "assigned_decision_roles r = sort (assigned_roles r)"

definition filter_assigned_decisions :: "pydict list \<Rightarrow> role \<Rightarrow> pydict list" where
  "filter_assigned_decisions ds r =
     filter (\<lambda>d. str_or d ''role'' ''store_manager'' \<in> set (assigned_roles r)) ds"

definition list_decisions ::
  "environ \<Rightarrow> string \<Rightarrow> bool \<Rightarrow> tenant_context \<Rightarrow> decision_store \<Rightarrow> pydict list" where
  "list_decisions env dm assigned ctx s =
     (let ds = tenant_scoped_decisions env ctx (Some dm) s
      in if assigned then filter_assigned_decisions ds (tc_role ctx) else ds)"

definition get_decision :: "environ \<Rightarrow> string \<Rightarrow> tenant_context \<Rightarrow> decision_store \<Rightarrow> pydict result" where
  "get_decision env i ctx s = (case ds_get s i of
       None \<Rightarrow> Inl (HTTPException 404 ''Decision not found'')
     | Some d \<Rightarrow> if belongs_to_other_tenant env d ctx
         then Inl (HTTPException 404 ''Decision not found'') else Inr d)"

section \<open>Reviewing a decision\<close>

record app_state =
  as_decisions :: decision_store
  as_tasks :: task_sink
  as_learning :: learning_store
  as_inventory :: inventory_store

record correction_body =
  cb_reviewer :: "string option"
  cb_reason :: "string option"
  cb_override :: "pydict option"

definition opt_str :: "string option \<Rightarrow> pyval" where
  "opt_str x = (case x of None \<Rightarrow> PyNone | Some s \<Rightarrow> PyStr s)"

definition opt_dict :: "pydict option \<Rightarrow> pyval" where
  "opt_dict x = (case x of None \<Rightarrow> PyNone | Some d \<Rightarrow> PyDict d)"

definition as_correction :: "correction_body \<Rightarrow> string \<Rightarrow> pydict option" where
  "as_correction b act =
     (if cb_reviewer b = None \<and> cb_reason b = None \<and> cb_override b = None then None
      else Some [(''decision'', PyStr act), (''reviewer'', opt_str (cb_reviewer b)),
                 (''reason'', opt_str (cb_reason b)), (''override_action'', opt_dict (cb_override b))])"

definition correction_of :: "correction_body option \<Rightarrow> string \<Rightarrow> pydict option" where
  "correction_of body act = (case body of None \<Rightarrow> None | Some b \<Rightarrow> as_correction b act)"

definition writeback_title :: "string \<Rightarrow> pydict \<Rightarrow> string" where
  "writeback_title i decision =
     ''Review '' @ str_or (decision_action decision) ''type'' ''action'' @ '' for '' @ i"

definition rollback_instructions :: "string \<Rightarrow> pydict" where
  "rollback_instructions i =
     [(''policy'', PyStr ''recommend_only_no_source_mutation''),
      (''rollback'', PyStr ''cancel_pending_manager_task_before_source_write''),
      (''decision_id'', PyStr i)]"

text \<open>\<open>decision.get("write_back") or writeback_sink.create_task(...)\<close>.\<close>

definition ensure_write_back ::
  "string \<Rightarrow> string \<Rightarrow> pydict \<Rightarrow> tenant_context \<Rightarrow> task_sink \<Rightarrow> task_sink \<times> pyval" where
  "ensure_write_back now i decision ctx s =
     (if truthy (get decision ''write_back'') then (s, get decision ''write_back'')
      else (case wb_create_task now (''writeback:'' @ i) (writeback_title i decision)
                   (decision_action decision) (decision_tenant_id decision (tc_tenant_id ctx))
                   (str_or decision ''data_domain'' ''world_simulation'')
                   (str_or decision ''role'' ''manager'') (Some (rollback_instructions i)) s of
              (s', t) \<Rightarrow> (s', PyDict t)))"

record review_response =
  rr_decision :: pydict
  rr_learning :: "pydict option"

definition approve_decision ::
  "environ \<Rightarrow> string \<Rightarrow> string \<Rightarrow> correction_body option \<Rightarrow> tenant_context \<Rightarrow> app_state \<Rightarrow>
   app_state \<times> review_response result" where
  "approve_decision env now i body ctx st = (case reject_cross_tenant_access env i ctx (as_decisions st) of
       Inl x \<Rightarrow> (st, Inl x)
     | Inr _ \<Rightarrow> (case ds_approve now i (tc_user_id ctx) (as_decisions st) of
         (ds, None) \<Rightarrow> (st\<lparr>as_decisions := ds\<rparr>, Inl (HTTPException 404 ''Decision not found''))
       | (ds, Some decision) \<Rightarrow>
           (let st1 = st\<lparr>as_decisions := ds\<rparr> in
            if get decision ''status'' \<noteq> PyStr ''approved''
            then (st1, Inr \<lparr>rr_decision = decision, rr_learning = None\<rparr>)
            else (case ls_record_approved now decision (as_learning st) of
                (l, Inl x) \<Rightarrow> (st1\<lparr>as_learning := l\<rparr>, Inl x)
              | (l, Inr le) \<Rightarrow>
                  (case ensure_write_back now i decision ctx (as_tasks st) of
                     (ts, wb) \<Rightarrow>
                       (let st2 = st1\<lparr>as_learning := l, as_tasks := ts\<rparr>;
                            ann = [(''outcome'', get le ''outcome''), (''learning_event'', PyDict le),
                                   (''write_back'', wb)] @
                                  (case correction_of body ''approve'' of None \<Rightarrow> [] | Some c \<Rightarrow> [(''correction'', PyDict c)])
                        in case ds_annotate now i ann ds of
                             (ds', None) \<Rightarrow> (st2\<lparr>as_decisions := ds'\<rparr>, Inl (HTTPException 404 ''Decision not found''))
                           | (ds', Some updated) \<Rightarrow>
                               (st2\<lparr>as_decisions := ds'\<rparr>,
                                Inr \<lparr>rr_decision = updated, rr_learning = Some le\<rparr>)))))))"

definition reject_decision ::
  "environ \<Rightarrow> string \<Rightarrow> string \<Rightarrow> correction_body option \<Rightarrow> tenant_context \<Rightarrow> app_state \<Rightarrow>
   app_state \<times> review_response result" where
  "reject_decision env now i body ctx st = (case reject_cross_tenant_access env i ctx (as_decisions st) of
       Inl x \<Rightarrow> (st, Inl x)
     | Inr _ \<Rightarrow> (case ds_reject now i (tc_user_id ctx) (as_decisions st) of
         (ds, None) \<Rightarrow> (st\<lparr>as_decisions := ds\<rparr>, Inl (HTTPException 404 ''Decision not found''))
       | (ds, Some d0) \<Rightarrow>
           (let (ds1, decision) = (case correction_of body ''reject'' of
                    None \<Rightarrow> (ds, d0)
                  | Some c \<Rightarrow> (case ds_annotate now i [(''correction'', PyDict c)] ds of
                      (s, Some u) \<Rightarrow> (s, u) | (s, None) \<Rightarrow> (s, d0)));
                st1 = st\<lparr>as_decisions := ds1\<rparr> in
            if get decision ''status'' \<noteq> PyStr ''rejected''
            then (st1, Inr \<lparr>rr_decision = decision, rr_learning = None\<rparr>)
            else (case ls_record_rejected now decision (as_learning st) of
                (l, Inl x) \<Rightarrow> (st1\<lparr>as_learning := l\<rparr>, Inl x)
              | (l, Inr le) \<Rightarrow>
                  (case ds_annotate now i [(''outcome'', get le ''outcome''), (''learning_event'', PyDict le)] ds1 of
                     (ds2, updated) \<Rightarrow>
                       (st1\<lparr>as_learning := l, as_decisions := ds2\<rparr>,
                        Inr \<lparr>rr_decision = (case updated of Some u \<Rightarrow> (if u = [] then decision else u) | None \<Rightarrow> decision),
                             rr_learning = Some le\<rparr>))))))"

section \<open>Completing a task\<close>

record completion_body =
  tb_source_reference :: string
  tb_completed_units :: int
  tb_observed_location :: "string option"
  tb_note :: "string option"
  tb_actual_value :: "int option"
  tb_currency :: string

definition opt_pyint :: "int option \<Rightarrow> pyval" where
  "opt_pyint x = (case x of None \<Rightarrow> PyNone | Some n \<Rightarrow> PyInt n)"

text \<open>\<open>isinstance(expected_units, int) and completed_units != expected_units\<close>; a bool is an int.\<close>

definition units_differ :: "pyval \<Rightarrow> int \<Rightarrow> bool" where
  "units_differ v n = (case v of
       PyInt m \<Rightarrow> n \<noteq> m | PyBool b \<Rightarrow> n \<noteq> (if b then 1 else 0) | _ \<Rightarrow> False)"

definition completion_receipt :: "completion_body \<Rightarrow> tenant_context \<Rightarrow> pydict" where
  "completion_receipt b ctx =
     [(''source_reference'', PyStr (tb_source_reference b)), (''completed_units'', PyInt (tb_completed_units b)),
      (''observed_location'', opt_str (tb_observed_location b)), (''note'', opt_str (tb_note b)),
      (''completed_by'', PyStr (tc_user_id ctx)),
      (''actual_value_recovered_minor_units'', opt_pyint (tb_actual_value b)),
      (''currency'', PyStr (tb_currency b))]"

fun first_contained :: "string list \<Rightarrow> string \<Rightarrow> string" where
  "first_contained [] s = ''bin''"
| "first_contained (x # xs) s = (if contains s x then x else first_contained xs s)"

definition physical_location_type :: "string \<Rightarrow> string" where
  "physical_location_type loc =
     first_contained [''backroom'', ''shelf'', ''quarantine'', ''returns'', ''bin''] (lower loc)"

definition moved_position :: "string \<Rightarrow> string \<Rightarrow> string \<Rightarrow> int \<Rightarrow> string \<Rightarrow> string \<Rightarrow> pydict" where
  "moved_position tenant sku loc n state ref =
     [(''tenant_id'', PyStr tenant), (''sku'', PyStr sku),
      (''location_type'', PyStr (physical_location_type loc)), (''location_id'', PyStr loc),
      (''quantity'', PyInt n), (''state'', PyStr state), (''source_reference'', PyStr ref)]"

definition record_completed_movement ::
  "string \<Rightarrow> pydict \<Rightarrow> inventory_store \<Rightarrow> inventory_store \<times> pydict list result" where
  "record_completed_movement now task s =
     (let action = dict_or_empty (get task ''action'') in
      if get action ''type'' \<noteq> PyStr ''relocate_stock'' then (s, Inr [])
      else
        (let params = dict_or_empty (get action ''params'');
             receipt = dict_or_empty (get task ''completion_receipt'');
             tenant = str_or task ''tenant_id'' [];
             sku = str_or params ''sku'' [];
             source = str_or params ''observed_location'' [];
             destination = str_or params ''expected_location'' [];
             ref = str_or receipt ''source_reference'' []
         in case py_int (py_or (get receipt ''completed_units'') (PyInt 0)) of
              Inl x \<Rightarrow> (s, Inl x)
            | Inr units \<Rightarrow>
                if tenant = [] \<or> sku = [] \<or> source = [] \<or> destination = [] \<or> ref = []
                then (s, Inl (HTTPException 409 ''Relocation receipt lacks position evidence''))
                else (case iv_upsert now (moved_position tenant sku source 0 ''relocated'' ref) s of
                    (s1, Inl x) \<Rightarrow> (s1, Inl x)
                  | (s1, Inr p) \<Rightarrow>
                      (case iv_upsert now (moved_position tenant sku destination units ''available'' ref) s1 of
                         (s2, Inl x) \<Rightarrow> (s2, Inl x)
                       | (s2, Inr q) \<Rightarrow> (s2, Inr [p, q])))))"

definition record_verified_value ::
  "string \<Rightarrow> pydict \<Rightarrow> tenant_context \<Rightarrow> decision_store \<Rightarrow> decision_store" where
  "record_verified_value now task ctx ds =
     (let receipt = dict_or_empty (get task ''completion_receipt'');
          rollback = dict_or_empty (get task ''rollback_instructions'');
          decision_id = str_or rollback ''decision_id'' []
      in case get receipt ''actual_value_recovered_minor_units'' of
           PyInt amt \<Rightarrow>
             if amt < 0 then ds
             else (case (if decision_id = [] then None else ds_get ds decision_id) of
                 None \<Rightarrow> ds
               | Some decision \<Rightarrow>
                   if decision_tenant_id decision (tc_tenant_id ctx) \<noteq> tc_tenant_id ctx \<or>
                      str_or decision ''data_domain'' [] \<noteq> ''operational_twin''
                   then ds
                   else fst (ds_annotate now decision_id
                     [(''verified_outcome'', PyDict
                        [(''minor_units'', PyInt amt), (''currency'', PyStr ''ZAR''),
                         (''source_reference'', PyStr (str_or receipt ''source_reference'' [])),
                         (''task_id'', PyStr (str_or task ''id'' [])),
                         (''verified_by'', PyStr (tc_user_id ctx)),
                         (''verified_at'', PyStr (py_str (py_or (py_or (get task ''completed_at'')
                            (get task ''updated_at'')) (PyStr []))))])] ds))
         | _ \<Rightarrow> ds)"

definition complete_writeback_task ::
  "string \<Rightarrow> string \<Rightarrow> completion_body \<Rightarrow> string option \<Rightarrow> tenant_context \<Rightarrow> app_state \<Rightarrow>
   app_state \<times> (pydict \<times> pydict list) result" where
  "complete_writeback_task now tid b dm ctx st =
     (case find_first (\<lambda>t. get t ''id'' = PyStr tid) (wb_list (Some (tc_tenant_id ctx)) dm (as_tasks st)) of
        None \<Rightarrow> (st, Inl (HTTPException 404 ''Write-back task not found''))
      | Some existing \<Rightarrow>
          (let dom' = str_or existing ''data_domain'' ''operational_twin'';
               params = dict_or_empty (get (dict_or_empty (get existing ''action'')) ''params'');
               expected = get params ''units''
           in if units_differ expected (tb_completed_units b)
              then (st, Inl (HTTPException 409 (''Completion units must equal approved units ('' @ py_str expected @ '')'')))
              else (case wb_complete_task now tid (tc_tenant_id ctx) (completion_receipt b ctx) dom' (as_tasks st) of
                  (ts, Inl (ValueError m)) \<Rightarrow> (st\<lparr>as_tasks := ts\<rparr>, Inl (HTTPException 409 m))
                | (ts, Inl x) \<Rightarrow> (st\<lparr>as_tasks := ts\<rparr>, Inl x)
                | (ts, Inr None) \<Rightarrow> (st\<lparr>as_tasks := ts\<rparr>, Inl (HTTPException 404 ''Write-back task not found''))
                | (ts, Inr (Some task)) \<Rightarrow>
                    (let st1 = st\<lparr>as_tasks := ts\<rparr> in
                     case record_completed_movement now task (as_inventory st) of
                       (iv, Inl x) \<Rightarrow> (st1\<lparr>as_inventory := iv\<rparr>, Inl x)
                     | (iv, Inr ps) \<Rightarrow>
                         (st1\<lparr>as_inventory := iv,
                              as_decisions := record_verified_value now task ctx (as_decisions st)\<rparr>,
                          Inr (task, ps))))))"

section \<open>Histories of requests\<close>

datatype app_op =
    AskApprove string string "correction_body option" tenant_context
  | AskReject string string "correction_body option" tenant_context
  | AskComplete string string completion_body "string option" tenant_context
  | StoreDecision string pydict

fun app_step :: "environ \<Rightarrow> app_op \<Rightarrow> app_state \<Rightarrow> app_state" where
  "app_step env (AskApprove now i body ctx) st = fst (approve_decision env now i body ctx st)"
| "app_step env (AskReject now i body ctx) st = fst (reject_decision env now i body ctx st)"
| "app_step env (AskComplete now tid b dm ctx) st = fst (complete_writeback_task now tid b dm ctx st)"
| "app_step env (StoreDecision now d) st = (case ds_upsert now d (as_decisions st) of
       Inl x \<Rightarrow> st | Inr (ds, r) \<Rightarrow> st\<lparr>as_decisions := ds\<rparr>)"

definition app_run :: "environ \<Rightarrow> app_op list \<Rightarrow> app_state \<Rightarrow> app_state" where
  "app_run env xs st = fold (app_step env) xs st"

definition approved_in :: "decision_store \<Rightarrow> string \<Rightarrow> bool" where
  "approved_in ds i \<longleftrightarrow> (\<exists>r. map_of ds i = Some r \<and> get r ''status'' = PyStr ''approved'')"

text \<open>Every write-back task belongs to a decision that is approved.\<close>

definition tasks_approved :: "app_state \<Rightarrow> bool" where
  "tasks_approved st \<longleftrightarrow>
     (\<forall>k \<in> dom (map_of (as_tasks st)). \<exists>i. snd (snd k) = ''writeback:'' @ i \<and> approved_in (as_decisions st) i)"

section \<open>What the handlers do to the stores\<close>

definition approve_annotations :: "pydict \<Rightarrow> pyval \<Rightarrow> correction_body option \<Rightarrow> pydict" where
  "approve_annotations le wb body =
     [(''outcome'', get le ''outcome''), (''learning_event'', PyDict le), (''write_back'', wb)] @
     (case correction_of body ''approve'' of None \<Rightarrow> [] | Some c \<Rightarrow> [(''correction'', PyDict c)])"

lemma ds_transition_found:
  "ds_transition now i v u ds = (ds', Some d) \<Longrightarrow> map_of ds' i = Some d"
  by (auto simp: ds_transition_def Let_def split: option.splits if_splits)

lemma ds_annotate_found:
  "map_of ds i = Some d \<Longrightarrow> ds_annotate now i flds ds = (dict_set i (annotated now d flds) ds, Some (annotated now d flds))"
  by (simp add: ds_annotate_def Let_def)

lemma approve_cases:
  assumes "approve_decision env now i body ctx st = (st', r)"
  obtains (refused) "st' = st" "isl r"
  | (stopped) "as_decisions st' = fst (ds_approve now i (tc_user_id ctx) (as_decisions st))"
      "as_tasks st' = as_tasks st" "as_learning st' = as_learning st" "as_inventory st' = as_inventory st"
      "\<And>rr. r = Inr rr \<Longrightarrow> rr_learning rr = None \<and> map_of (as_decisions st') i = Some (rr_decision rr) \<and>
         get (rr_decision rr) ''status'' \<noteq> PyStr ''approved''"
  | (completed) ds d l le ts wb where
      "ds_approve now i (tc_user_id ctx) (as_decisions st) = (ds, Some d)" "get d ''status'' = PyStr ''approved''"
      "ls_record_approved now d (as_learning st) = (l, Inr le)"
      "ensure_write_back now i d ctx (as_tasks st) = (ts, wb)"
      "as_decisions st' = dict_set i (annotated now d (approve_annotations le wb body)) ds"
      "as_tasks st' = ts" "as_learning st' = l" "as_inventory st' = as_inventory st"
      "r = Inr \<lparr>rr_decision = annotated now d (approve_annotations le wb body), rr_learning = Some le\<rparr>"
proof (cases "reject_cross_tenant_access env i ctx (as_decisions st)")
  case (Inl x)
  then show thesis using assms by (auto simp: approve_decision_def intro: refused)
next
  case (Inr u)
  obtain ds od where t: "ds_approve now i (tc_user_id ctx) (as_decisions st) = (ds, od)" by (rule prod.exhaust)
  show thesis
  proof (cases od)
    case None
    then show thesis using assms Inr t by (auto simp: approve_decision_def intro: stopped)
  next
    case (Some d)
    have found: "map_of ds i = Some d" using t Some by (auto simp: ds_approve_def dest: ds_transition_found)
    show thesis
    proof (cases "get d ''status'' = PyStr ''approved''")
      case False
      show thesis by (rule stopped) (use assms Inr t Some found False in \<open>auto simp: approve_decision_def\<close>)
    next
      case True
      obtain l rl where l: "ls_record_approved now d (as_learning st) = (l, rl)" by (rule prod.exhaust)
      show thesis
      proof (cases rl)
        case (Inl x)
        then have "l = as_learning st" using l ls_refused_unchanged(1) by blast
        then show thesis using assms Inr t Some True l Inl
          by (intro stopped) (auto simp: approve_decision_def)
      next
        case (Inr le)
        obtain ts wb where w: "ensure_write_back now i d ctx (as_tasks st) = (ts, wb)" by (rule prod.exhaust)
        show thesis
          by (rule completed [OF t [unfolded Some] True l [unfolded Inr] w])
            (use assms \<open>reject_cross_tenant_access env i ctx (as_decisions st) = Inr u\<close> t Some True l Inr w
              ds_annotate_found [OF found] in \<open>auto simp: approve_decision_def approve_annotations_def Let_def\<close>)
      qed
    qed
  qed
qed

lemma reject_cases:
  assumes "reject_decision env now i body ctx st = (st', r)"
  obtains (refused) "st' = st" "isl r"
  | (reviewed) anns where "as_decisions st' = ds_run ((now, Review i ''rejected'' (tc_user_id ctx)) # anns) (as_decisions st)"
      "set anns \<subseteq> {(now, Annotate i flds) | flds. set (map fst flds) \<subseteq> {''correction'', ''outcome'', ''learning_event''} \<and> dict_wf flds}"
      "as_tasks st' = as_tasks st" "as_inventory st' = as_inventory st"
      "as_learning st' = as_learning st \<or>
        (\<exists>d. as_learning st' = fst (ls_record_rejected now d (as_learning st)) \<and> get d ''status'' = PyStr ''rejected'')"
proof (cases "reject_cross_tenant_access env i ctx (as_decisions st)")
  case (Inl x)
  then show thesis using assms by (auto simp: reject_decision_def intro: refused)
next
  case acc: (Inr u)
  obtain ds od where t: "ds_reject now i (tc_user_id ctx) (as_decisions st) = (ds, od)" by (rule prod.exhaust)
  then have t': "ds_transition now i ''rejected'' (tc_user_id ctx) (as_decisions st) = (ds, od)" by (simp add: ds_reject_def)
  show thesis
  proof (cases od)
    case None
    show thesis by (rule reviewed [of "[]"]) (use assms acc t t' None in \<open>auto simp: reject_decision_def\<close>)
  next
    case (Some d0)
    define cs where "cs = (case correction_of body ''reject'' of None \<Rightarrow> [] | Some c \<Rightarrow> [(now, Annotate i [(''correction'', PyDict c)])])"
    obtain ds1 d where c: "(case correction_of body ''reject'' of
        None \<Rightarrow> (ds, d0)
      | Some c \<Rightarrow> (case ds_annotate now i [(''correction'', PyDict c)] ds of
          (s, Some u) \<Rightarrow> (s, u) | (s, None) \<Rightarrow> (s, d0))) = (ds1, d)" by (rule prod.exhaust)
    have ds1: "ds1 = ds_run cs ds"
      using c by (auto simp: cs_def split: option.splits prod.splits)
    show thesis
    proof (cases "get d ''status'' = PyStr ''rejected''")
      case False
      show thesis by (rule reviewed [of cs]) (use assms acc t t' Some c ds1 False in
          \<open>auto simp: reject_decision_def cs_def dict_wf_def split: option.splits\<close>)
    next
      case True
      obtain l rl where l: "ls_record_rejected now d (as_learning st) = (l, rl)" by (rule prod.exhaust)
      show thesis
      proof (cases rl)
        case (Inl x)
        show thesis by (rule reviewed [of cs]) (use assms acc t t' Some c ds1 True l Inl in
          \<open>auto simp: reject_decision_def cs_def dict_wf_def dest: ls_refused_unchanged(2) split: option.splits\<close>)
      next
        case (Inr le)
        let ?ann = "(now, Annotate i [(''outcome'', get le ''outcome''), (''learning_event'', PyDict le)])"
        obtain ds2 ud where a: "ds_annotate now i [(''outcome'', get le ''outcome''), (''learning_event'', PyDict le)] ds1 = (ds2, ud)"
          by (rule prod.exhaust)
        have "as_decisions st' = ds2" "as_tasks st' = as_tasks st" "as_inventory st' = as_inventory st" "as_learning st' = l"
          using assms acc t Some c True l Inr a by (auto simp: reject_decision_def)
        moreover have "ds2 = ds_run (cs @ [?ann]) ds"
          using a ds1 by (auto simp: cs_def split: option.splits)
        moreover have "set (cs @ [?ann]) \<subseteq> {(now, Annotate i flds) | flds.
            set (map fst flds) \<subseteq> {''correction'', ''outcome'', ''learning_event''} \<and> dict_wf flds}"
          by (auto simp: cs_def dict_wf_def split: option.splits)
        ultimately show thesis using t' l True by (intro reviewed [of "cs @ [?ann]"]) (auto intro: exI [of _ d])
      qed
    qed
  qed
qed

text \<open>The annotations of the handlers name none of the fields that identify or decide a decision.\<close>

definition identity_fields :: "string list" where
  "identity_fields = [''id'', ''tenant_id'', ''data_domain'', ''status'', ''review'']"

definition harmless :: "pydict \<Rightarrow> bool" where
  "harmless flds \<longleftrightarrow> dict_wf flds \<and> list_all (\<lambda>k. \<not> dict_has k flds) identity_fields"

lemma harmless_keeps: "harmless flds \<Longrightarrow> keeps_verdict (Annotate i flds)"
  by (simp add: harmless_def keeps_verdict_def identity_fields_def)

lemma harmless_get: "harmless flds \<Longrightarrow> k \<in> set identity_fields \<Longrightarrow> get (annotated now d flds) k = get d k"
  by (auto simp: harmless_def annotated_def get_update dict_has_def list_all_iff identity_fields_def split: option.splits)

lemma harmless_get_or: "harmless flds \<Longrightarrow> get_or (annotated now d flds) ''id'' v = get_or d ''id'' v"
  by (auto simp: harmless_def annotated_def get_or_def dict_get_update dict_has_def identity_fields_def)

lemma harmless_approved: "harmless flds \<Longrightarrow> approved_key (annotated now d flds) = approved_key d"
proof -
  assume h: "harmless flds"
  have g: "get (annotated now d flds) k = get d k" if "k \<in> {''tenant_id'', ''data_domain'', ''status''}" for k
    using harmless_get [OF h] that by (auto simp: identity_fields_def)
  have "learning_domain (annotated now d flds) = learning_domain d"
    "learning_tenant (annotated now d flds) = learning_tenant d"
    using g by (simp_all add: learning_domain_def learning_tenant_def str_or_def)
  then show ?thesis using g harmless_get_or [OF h] by (simp add: approved_key_def Let_def)
qed

lemma harmless_annotations:
  "harmless (approve_annotations le wb body)" "harmless [(''verified_outcome'', v)]"
  "set (map fst flds) \<subseteq> {''correction'', ''outcome'', ''learning_event''} \<Longrightarrow> dict_wf flds \<Longrightarrow> harmless flds"
  by (auto simp: harmless_def approve_annotations_def identity_fields_def dict_wf_def dict_has_def
      map_of_eq_None_iff image_iff subset_iff split: option.splits)

lemma verified_value_run:
  "\<exists>xs. record_verified_value now task ctx ds = ds_run xs ds \<and>
     set xs \<subseteq> {(now, Annotate i [(''verified_outcome'', v)]) | i v. True}"
proof (cases "record_verified_value now task ctx ds = ds")
  case True
  then show ?thesis by (intro exI [of _ "[]"]) simp
next
  case False
  then obtain i v where "record_verified_value now task ctx ds = fst (ds_annotate now i [(''verified_outcome'', v)] ds)"
    by (auto simp: record_verified_value_def Let_def split: pyval.splits option.splits if_splits)
  then show ?thesis by (intro exI [of _ "[(now, Annotate i [(''verified_outcome'', v)])]"]) auto
qed

lemma complete_cases:
  assumes "complete_writeback_task now tid b dm ctx st = (st', r)"
  shows "as_learning st' = as_learning st \<and>
    (as_decisions st' = as_decisions st \<or>
      (\<exists>task. as_decisions st' = record_verified_value now task ctx (as_decisions st))) \<and>
    (as_tasks st' = as_tasks st \<or>
      (\<exists>dom'. as_tasks st' = fst (wb_complete_task now tid (tc_tenant_id ctx) (completion_receipt b ctx) dom' (as_tasks st))))"
proof (cases "find_first (\<lambda>t. get t ''id'' = PyStr tid) (wb_list (Some (tc_tenant_id ctx)) dm (as_tasks st))")
  case None
  then show ?thesis using assms by (auto simp: complete_writeback_task_def)
next
  case (Some t)
  let ?dom = "str_or t ''data_domain'' ''operational_twin''"
  obtain ts res where w: "wb_complete_task now tid (tc_tenant_id ctx) (completion_receipt b ctx) ?dom (as_tasks st) = (ts, res)"
    by (rule prod.exhaust)
  have "as_learning st' = as_learning st \<and> (as_decisions st' = as_decisions st \<or>
      (\<exists>task. as_decisions st' = record_verified_value now task ctx (as_decisions st))) \<and>
      (as_tasks st' = as_tasks st \<or> as_tasks st' = ts)"
    using assms Some w
    by (auto simp: complete_writeback_task_def Let_def split: option.splits if_splits prod.splits sum.splits py_exn.splits)
  then show ?thesis using w by (metis fst_conv)
qed

lemma complete_decisions:
  assumes "complete_writeback_task now tid b dm ctx st = (st', r)"
  shows "\<exists>xs. as_decisions st' = ds_run xs (as_decisions st) \<and>
    set xs \<subseteq> {(now, Annotate i [(''verified_outcome'', v)]) | i v. True}"
proof -
  from complete_cases [OF assms] have "as_decisions st' = as_decisions st \<or>
      (\<exists>task. as_decisions st' = record_verified_value now task ctx (as_decisions st))" by blast
  then show ?thesis
  proof (elim disjE exE)
    assume "as_decisions st' = as_decisions st"
    then show ?thesis by (intro exI [of _ "[]"]) simp
  next
    fix task assume "as_decisions st' = record_verified_value now task ctx (as_decisions st)"
    then show ?thesis using verified_value_run [of now task ctx "as_decisions st"] by simp
  qed
qed

lemma app_step_decisions:
  "\<exists>xs. list_all (\<lambda>(now, x). keeps_verdict x) xs \<and> as_decisions (app_step env x st) = ds_run xs (as_decisions st)"
proof (cases x)
  case (AskApprove now i body ctx)
  obtain st' r where run: "approve_decision env now i body ctx st = (st', r)" by (rule prod.exhaust)
  from run show ?thesis
  proof (cases rule: approve_cases)
    case refused
    then show ?thesis using AskApprove run by (intro exI [of _ "[]"]) simp
  next
    case stopped
    then show ?thesis using AskApprove run
      by (intro exI [of _ "[(now, Review i ''approved'' (tc_user_id ctx))]"]) (simp add: keeps_verdict_def ds_approve_def)
  next
    case (completed ds d l le ts wb)
    have found: "map_of ds i = Some d" using completed(1) by (auto simp: ds_approve_def dest: ds_transition_found)
    show ?thesis using AskApprove run completed ds_annotate_found [OF found, of now] harmless_keeps [OF harmless_annotations(1)]
      by (intro exI [of _ "[(now, Review i ''approved'' (tc_user_id ctx)), (now, Annotate i (approve_annotations le wb body))]"])
        (simp add: ds_approve_def keeps_verdict_def [of "Review i ''approved'' (tc_user_id ctx)"])
  qed
next
  case (AskReject now i body ctx)
  obtain st' r where run: "reject_decision env now i body ctx st = (st', r)" by (rule prod.exhaust)
  from run show ?thesis
  proof (cases rule: reject_cases)
    case refused
    then show ?thesis using AskReject run by (intro exI [of _ "[]"]) simp
  next
    case (reviewed anns)
    have "case p of (now, x) \<Rightarrow> keeps_verdict x" if "p \<in> set anns" for p
    proof -
      from reviewed(2) that obtain flds where "p = (now, Annotate i flds)" "harmless flds"
        using harmless_annotations(3) by blast
      then show ?thesis by (simp add: harmless_keeps)
    qed
    then have "list_all (\<lambda>(now, x). keeps_verdict x) anns" by (simp add: list_all_iff)
    then show ?thesis using AskReject run reviewed(1)
      by (intro exI [of _ "(now, Review i ''rejected'' (tc_user_id ctx)) # anns"]) (simp add: keeps_verdict_def [of "Review _ _ _"])
  qed
next
  case (AskComplete now tid b dm ctx)
  obtain st' r where run: "complete_writeback_task now tid b dm ctx st = (st', r)" by (rule prod.exhaust)
  obtain xs where xs: "as_decisions st' = ds_run xs (as_decisions st)"
    "set xs \<subseteq> {(now, Annotate i [(''verified_outcome'', v)]) | i v. True}"
    using complete_decisions [OF run] by blast
  have "list_all (\<lambda>(now, x). keeps_verdict x) xs"
    unfolding list_all_iff using xs(2) harmless_keeps [OF harmless_annotations(2)] by fastforce
  then show ?thesis using AskComplete run xs(1) by (intro exI [of _ xs]) simp
next
  case (StoreDecision now d)
  then show ?thesis
    by (intro exI [of _ "[(now, Upsert d)]"]) (auto simp: keeps_verdict_def split: sum.splits prod.splits)
qed

section \<open>No task without an approval\<close>

lemma app_step_wf: "ds_wf (as_decisions st) \<Longrightarrow> ds_wf (as_decisions (app_step env x st))"
  using app_step_decisions [of env x st] ds_run_wf by metis

lemma approved_kept:
  assumes "ds_wf ds" and "approved_in ds i" and "list_all (\<lambda>(now, x). keeps_verdict x) xs"
  shows "approved_in (ds_run xs ds) i"
proof -
  obtain r where r: "map_of ds i = Some r" "get r ''status'' = PyStr ''approved''"
    using assms(2) by (auto simp: approved_in_def)
  then have "terminal_status (get r ''status'')" by (simp add: terminal_status_def)
  from ds_run_final [OF assms(1) r(1) this assms(3)] r(2) show ?thesis
    by (auto simp: approved_in_def verdict_of_def)
qed

lemma app_step_approved:
  "ds_wf (as_decisions st) \<Longrightarrow> approved_in (as_decisions st) i \<Longrightarrow> approved_in (as_decisions (app_step env x st)) i"
  using app_step_decisions [of env x st] approved_kept by metis

lemma wb_complete_dom: "dict_wf s \<Longrightarrow> dom (map_of (fst (wb_complete_task now tid t rc dm s))) = dom (map_of s)"
proof (cases "find_first (\<lambda>(k, t'). is_task tid t dm t') s")
  case (Some p)
  assume wf: "dict_wf s"
  obtain k t' where p: "p = (k, t')" by (rule prod.exhaust)
  have "map_of s k = Some t'" using find_task_entry [OF wf Some [unfolded p]] by simp
  then show ?thesis using Some p by (auto simp: wb_complete_task_def Let_def dom_def)
qed (simp add: wb_complete_task_def)

lemma app_step_tasks:
  assumes "sink_ok (as_tasks st)"
  shows "sink_ok (as_tasks (app_step env x st)) \<and>
    (\<forall>k \<in> dom (map_of (as_tasks (app_step env x st))) - dom (map_of (as_tasks st)).
       \<exists>i. snd (snd k) = ''writeback:'' @ i \<and> approved_in (as_decisions (app_step env x st)) i)"
proof (cases x)
  case (AskApprove now i body ctx)
  obtain st' r where run: "approve_decision env now i body ctx st = (st', r)" by (rule prod.exhaust)
  from run show ?thesis
  proof (cases rule: approve_cases)
    case (completed ds d l le ts wb)
    have ok: "sink_ok ts"
      using completed(4) assms sink_ok_create [OF assms] by (auto simp: ensure_write_back_def split: if_splits prod.splits) (metis fst_conv)
    have doms: "k \<in> dom (map_of ts) - dom (map_of (as_tasks st)) \<Longrightarrow> snd (snd k) = ''writeback:'' @ i" for k
      using completed(4) by (auto simp: ensure_write_back_def wb_create_task_def Let_def split: if_splits prod.splits option.splits)
    have "approved_in (as_decisions st') i"
      using completed(2,5) harmless_get [OF harmless_annotations(1), of "''status''"]
      by (auto simp: approved_in_def identity_fields_def)
    then show ?thesis using AskApprove run completed(6) ok doms by auto
  qed (use AskApprove run assms in simp_all)
next
  case (AskReject now i body ctx)
  obtain st' r where run: "reject_decision env now i body ctx st = (st', r)" by (rule prod.exhaust)
  from run show ?thesis by (cases rule: reject_cases) (use AskReject run assms in simp_all)
next
  case (AskComplete now tid b dm ctx)
  obtain st' r where run: "complete_writeback_task now tid b dm ctx st = (st', r)" by (rule prod.exhaust)
  have "dict_wf (as_tasks st)" using assms by (simp add: sink_ok_def)
  then have "dom (map_of (as_tasks st')) = dom (map_of (as_tasks st)) \<and> sink_ok (as_tasks st')"
    using complete_cases [OF run] assms wb_complete_dom sink_ok_complete by metis
  then show ?thesis using AskComplete run by simp
next
  case (StoreDecision now d)
  then show ?thesis using assms by (auto split: sum.splits prod.splits)
qed

lemma app_run_inv:
  assumes "ds_wf (as_decisions st)" and "sink_ok (as_tasks st)" and "tasks_approved st"
  shows "ds_wf (as_decisions (app_run env xs st)) \<and> sink_ok (as_tasks (app_run env xs st)) \<and>
    tasks_approved (app_run env xs st)"
  using assms
proof (induction xs arbitrary: st)
  case (Cons x xs)
  let ?st = "app_step env x st"
  have "tasks_approved ?st"
    unfolding tasks_approved_def
  proof
    fix k assume k: "k \<in> dom (map_of (as_tasks ?st))"
    show "\<exists>i. snd (snd k) = ''writeback:'' @ i \<and> approved_in (as_decisions ?st) i"
    proof (cases "k \<in> dom (map_of (as_tasks st))")
      case True
      with Cons.prems(3) obtain i where "snd (snd k) = ''writeback:'' @ i" "approved_in (as_decisions st) i"
        unfolding tasks_approved_def by blast
      then show ?thesis using app_step_approved [OF Cons.prems(1)] by blast
    next
      case False
      then show ?thesis using app_step_tasks [OF Cons.prems(2), of env x] k by blast
    qed
  qed
  then show ?case
    using Cons.IH [of ?st] app_step_wf [OF Cons.prems(1)] app_step_tasks [OF Cons.prems(2), of env x]
    by (simp add: app_run_def)
qed (simp add: app_run_def)

section \<open>An approval happens once\<close>

text \<open>
  A decision that went through: approved, with its task reference and its learning event, which the
  learning store holds under the decision's key.
\<close>

definition gone_through :: "string \<Rightarrow> pyval \<Rightarrow> pydict \<Rightarrow> app_state \<Rightarrow> bool" where
  "gone_through i wb le st \<longleftrightarrow> truthy wb \<and>
     (\<exists>d k e. map_of (as_decisions st) i = Some d \<and> get d ''status'' = PyStr ''approved'' \<and>
       get d ''write_back'' = wb \<and> approved_key d = Inr k \<and>
       dict_get (ls_events (as_learning st)) k = Some e \<and> le_to_dict e = le)"

lemma gone_through_again:
  assumes "gone_through i wb le st" and "reject_cross_tenant_access env i ctx (as_decisions st) = Inr u"
    and "approve_decision env now i body ctx st = (st', r)"
  shows "as_tasks st' = as_tasks st \<and> as_learning st' = as_learning st \<and> gone_through i wb le st' \<and>
    (\<exists>rr. r = Inr rr \<and> rr_learning rr = Some le \<and> get (rr_decision rr) ''write_back'' = wb \<and>
      get (rr_decision rr) ''status'' = PyStr ''approved'')"
proof -
  obtain d k e where d: "map_of (as_decisions st) i = Some d" "get d ''status'' = PyStr ''approved''"
    "get d ''write_back'' = wb" "approved_key d = Inr k" "dict_get (ls_events (as_learning st)) k = Some e"
    "le_to_dict e = le" "truthy wb" using assms(1) by (auto simp: gone_through_def)
  let ?u = "annotated now d (approve_annotations le wb body)"
  have t: "ds_approve now i (tc_user_id ctx) (as_decisions st) = (as_decisions st, Some d)"
    using d by (simp add: ds_approve_def ds_transition_def terminal_status_def)
  have l: "ls_record_approved now d (as_learning st) = (as_learning st, Inr le)"
    using d by (cases k) (auto simp: ls_record_approved_def)
  have w: "ensure_write_back now i d ctx (as_tasks st) = (as_tasks st, wb)"
    using d by (simp add: ensure_write_back_def)
  have run: "st' = st\<lparr>as_decisions := dict_set i ?u (as_decisions st)\<rparr>"
    "r = Inr \<lparr>rr_decision = ?u, rr_learning = Some le\<rparr>"
    using assms(2,3) t l w d(2) ds_annotate_found [OF d(1)]
    by (auto simp: approve_decision_def approve_annotations_def Let_def)
  have u: "get ?u ''status'' = PyStr ''approved''" "approved_key ?u = Inr k"
    using harmless_get [OF harmless_annotations(1)] harmless_approved [OF harmless_annotations(1)] d(2,4)
    by (simp_all add: identity_fields_def)
  have wb: "get ?u ''write_back'' = wb"
    by (auto simp: annotated_def approve_annotations_def dict_update_def correction_of_def split: option.splits)
  show ?thesis using run u wb d by (cases k) (auto simp: gone_through_def)
qed

lemma approve_goes_through:
  assumes "sink_ok (as_tasks st)" and "approve_decision env now i body ctx st = (st', Inr rr)"
    and "rr_learning rr = Some le"
  shows "\<exists>wb. gone_through i wb le st' \<and> get (rr_decision rr) ''write_back'' = wb"
  using assms(2)
proof (cases rule: approve_cases)
  case (completed ds d l le' ts wb)
  let ?u = "annotated now d (approve_annotations le wb body)"
  have le: "le' = le" "rr_decision rr = ?u" using completed(9) assms(3) by auto
  have found: "map_of ds i = Some d" using completed(1) by (auto simp: ds_approve_def dest: ds_transition_found)
  have u: "get ?u ''status'' = PyStr ''approved''" "approved_key ?u = approved_key d"
    using harmless_get [OF harmless_annotations(1)] harmless_approved [OF harmless_annotations(1)] completed(2)
    by (simp_all add: identity_fields_def)
  have wb: "get ?u ''write_back'' = wb"
    by (auto simp: annotated_def approve_annotations_def dict_update_def correction_of_def split: option.splits)
  from mem_learning.approve_stored [OF TrueI, of now d "as_learning st" l le'] completed(3) obtain k where
    k: "approved_key d = Inr k" "map_option le_to_dict (dict_get (ls_events l) k) = Some le'"
    by auto
  have "truthy wb"
  proof (cases "truthy (get d ''write_back'')")
    case True
    then show ?thesis using completed(4) by (auto simp: ensure_write_back_def)
  next
    case False
    then obtain t key where "wb = PyDict t" "dict_get ts key = Some t" "sink_ok ts"
      using completed(4) sink_ok_create [OF assms(1)] wb_create_stored
      by (auto simp: ensure_write_back_def split: prod.splits) (metis fst_conv)
    moreover from this have "t \<noteq> []"
      by (auto simp: sink_ok_def list_all_iff task_fits_def dest!: map_of_SomeD)
    ultimately show ?thesis by simp
  qed
  then show ?thesis using completed(5,7) le u wb k by (cases k) (auto simp: gone_through_def)
qed (use assms in auto)

text \<open>What a step keeps of a decision that is decided: its verdict, its key and its task reference.\<close>

definition keeps_core :: "string \<Rightarrow> decision_op \<Rightarrow> bool" where
  "keeps_core i x = (case x of
       Annotate j flds \<Rightarrow> harmless flds \<and> (j = i \<longrightarrow> \<not> dict_has ''write_back'' flds)
     | _ \<Rightarrow> True)"

lemma keeps_core_step:
  assumes "ds_wf s" and "map_of s i = Some d" and "terminal_status (get d ''status'')" and "keeps_core i x"
  shows "\<exists>d'. map_of (ds_step now x s) i = Some d' \<and> get d' ''status'' = get d ''status'' \<and>
    approved_key d' = approved_key d \<and> get d' ''write_back'' = get d ''write_back''"
proof (cases x)
  case (Upsert e)
  have "d \<noteq> []" using ds_wf_get [OF assms(1,2)] by (rule record_ok_nonempty)
  then show ?thesis using Upsert assms(2,3) by (auto simp: ds_upsert_def Let_def split: option.split)
next
  case (Annotate j flds)
  then have h: "harmless flds" and w: "j = i \<Longrightarrow> \<not> dict_has ''write_back'' flds"
    using assms(4) by (auto simp: keeps_core_def)
  have "get (annotated now d flds) ''write_back'' = get d ''write_back''" if "j = i"
    using w [OF that] h by (simp add: annotated_def get_update dict_has_def harmless_def)
  then show ?thesis
    using Annotate assms(2) harmless_approved [OF h] harmless_get [OF h, of "''status''"]
    by (cases "j = i") (auto simp: ds_annotate_def Let_def identity_fields_def split: option.split)
next
  case (Review j v u)
  then show ?thesis using assms(2,3) by (auto simp: ds_transition_def Let_def split: option.split)
qed

lemma keeps_core_run:
  assumes "ds_wf s" and "map_of s i = Some d" and "get d ''status'' = PyStr ''approved''"
    and "list_all (\<lambda>(now, x). keeps_core i x) xs"
  shows "\<exists>d'. map_of (ds_run xs s) i = Some d' \<and> get d' ''status'' = PyStr ''approved'' \<and>
    approved_key d' = approved_key d \<and> get d' ''write_back'' = get d ''write_back''"
  using assms
proof (induction xs s arbitrary: d rule: ds_run.induct)
  case (2 now x xs s)
  have "terminal_status (get d ''status'')" using 2(4) by (simp add: terminal_status_def)
  with keeps_core_step [OF 2(2,3) this, of x now] 2(5) obtain d1 where
    "map_of (ds_step now x s) i = Some d1" "get d1 ''status'' = PyStr ''approved''"
    "approved_key d1 = approved_key d" "get d1 ''write_back'' = get d ''write_back''" using 2(4) by auto
  with 2(1) [OF ds_step_wf [OF 2(2)] this(1,2)] 2(5) show ?case by simp
qed auto

lemma gone_through_kept:
  assumes "gone_through i wb le st" and "ds_wf (as_decisions st)"
    and "list_all (\<lambda>(now, x). keeps_core i x) xs" and "as_decisions st' = ds_run xs (as_decisions st)"
    and "\<And>k e. dict_get (ls_events (as_learning st)) k = Some e \<Longrightarrow>
      \<exists>e'. dict_get (ls_events (as_learning st')) k = Some e' \<and> le_to_dict e' = le_to_dict e"
  shows "gone_through i wb le st'"
proof -
  obtain d k e where d: "map_of (as_decisions st) i = Some d" "get d ''status'' = PyStr ''approved''"
    "get d ''write_back'' = wb" "approved_key d = Inr k" "dict_get (ls_events (as_learning st)) k = Some e"
    "le_to_dict e = le" "truthy wb" using assms(1) by (auto simp: gone_through_def)
  from keeps_core_run [OF assms(2) d(1,2) assms(3)] obtain d' where
    "map_of (as_decisions st') i = Some d'" "get d' ''status'' = PyStr ''approved''"
    "approved_key d' = Inr k" "get d' ''write_back'' = wb" using d(3,4) assms(4) by auto
  with assms(5) [OF d(5)] d(6,7) show ?thesis unfolding gone_through_def by metis
qed

lemma events_kept:
  assumes "ls_record_approved now d s = (s', r) \<or> ls_record_rejected now d s = (s', r)"
    and "dict_get (ls_events s) k = Some e"
  shows "\<exists>e'. dict_get (ls_events s') k = Some e' \<and> le_to_dict e' = le_to_dict e"
proof (cases r)
  case (Inl x)
  then have "s' = s" using assms(1) ls_refused_unchanged by blast
  then show ?thesis using assms(2) by blast
next
  case (Inr p)
  from mem_learning.step_keeps [OF TrueI, where now = now and d = d and s = s and s' = s' and p = p and k = k
      and q = "le_to_dict e"] assms Inr show ?thesis by auto
qed

lemma app_step_gone_through:
  assumes "gone_through i wb le st" and "ds_wf (as_decisions st)"
  shows "gone_through i wb le (app_step env x st)"
proof (cases x)
  case (AskApprove now j body ctx)
  obtain st' r where run: "approve_decision env now j body ctx st = (st', r)" by (rule prod.exhaust)
  show ?thesis
  proof (cases "j = i")
    case True
    show ?thesis
    proof (cases "reject_cross_tenant_access env i ctx (as_decisions st)")
      case (Inl y)
      then show ?thesis using AskApprove True assms(1) by (simp add: approve_decision_def)
    next
      case (Inr u)
      then show ?thesis using gone_through_again [OF assms(1) Inr] AskApprove True run by auto
    qed
  next
    case False
    from run have "gone_through i wb le st'"
    proof (cases rule: approve_cases)
      case refused
      then show ?thesis using assms by simp
    next
      case stopped
      show ?thesis by (rule gone_through_kept [OF assms, of "[(now, Review j ''approved'' (tc_user_id ctx))]"])
          (use stopped in \<open>auto simp: keeps_core_def ds_approve_def\<close>)
    next
      case (completed ds d l le' ts wb')
      have found: "map_of ds j = Some d" using completed(1) by (auto simp: ds_approve_def dest: ds_transition_found)
      show ?thesis
      proof (rule gone_through_kept [OF assms, of "[(now, Review j ''approved'' (tc_user_id ctx)),
          (now, Annotate j (approve_annotations le' wb' body))]"])
        show "as_decisions st' = ds_run [(now, Review j ''approved'' (tc_user_id ctx)),
            (now, Annotate j (approve_annotations le' wb' body))] (as_decisions st)"
          using completed(1,5) ds_annotate_found [OF found, of now] by (simp add: ds_approve_def)
        show "\<exists>e'. dict_get (ls_events (as_learning st')) k = Some e' \<and> le_to_dict e' = le_to_dict e"
          if "dict_get (ls_events (as_learning st)) k = Some e" for k e
          using events_kept [OF _ that] completed(3,7) by blast
      qed (use False harmless_annotations(1) in \<open>auto simp: keeps_core_def\<close>)
    qed
    then show ?thesis using AskApprove run by simp
  qed
next
  case (AskReject now j body ctx)
  obtain st' r where run: "reject_decision env now j body ctx st = (st', r)" by (rule prod.exhaust)
  from run have "gone_through i wb le st'"
  proof (cases rule: reject_cases)
    case refused
    then show ?thesis using assms by simp
  next
    case (reviewed anns)
    have "case p of (now, x) \<Rightarrow> keeps_core i x" if "p \<in> set anns" for p
    proof -
      from reviewed(2) that obtain flds where f: "p = (now, Annotate j flds)" "harmless flds"
        "set (map fst flds) \<subseteq> {''correction'', ''outcome'', ''learning_event''}"
        using harmless_annotations(3) by blast
      then have "''write_back'' \<notin> fst ` set flds" by auto
      then show ?thesis using f by (simp add: keeps_core_def dict_has_def map_of_eq_None_iff)
    qed
    then have "list_all (\<lambda>(now, x). keeps_core i x) ((now, Review j ''rejected'' (tc_user_id ctx)) # anns)"
      by (simp add: list_all_iff keeps_core_def [of _ "Review _ _ _"])
    then show ?thesis
    proof (rule gone_through_kept [OF assms _ reviewed(1)])
      fix k e assume e: "dict_get (ls_events (as_learning st)) k = Some e"
      from reviewed(5) show "\<exists>e'. dict_get (ls_events (as_learning st')) k = Some e' \<and> le_to_dict e' = le_to_dict e"
      proof (elim disjE exE conjE)
        fix d assume "as_learning st' = fst (ls_record_rejected now d (as_learning st))"
        then have "ls_record_rejected now d (as_learning st) = (as_learning st', snd (ls_record_rejected now d (as_learning st)))"
          by simp
        from events_kept [OF disjI2 [OF this] e] show ?thesis .
      qed (use e in auto)
    qed
  qed
  then show ?thesis using AskReject run by simp
next
  case (AskComplete now tid b dm ctx)
  obtain st' r where run: "complete_writeback_task now tid b dm ctx st = (st', r)" by (rule prod.exhaust)
  obtain xs where xs: "as_decisions st' = ds_run xs (as_decisions st)"
    "set xs \<subseteq> {(now, Annotate i [(''verified_outcome'', v)]) | i v. True}"
    using complete_decisions [OF run] by blast
  have "case p of (now, x) \<Rightarrow> keeps_core i x" if "p \<in> set xs" for p
  proof -
    from xs(2) that obtain j v where "p = (now, Annotate j [(''verified_outcome'', v)])" by blast
    then show ?thesis using harmless_annotations(2) by (simp add: keeps_core_def dict_has_def)
  qed
  then have "gone_through i wb le st'"
    using gone_through_kept [OF assms _ xs(1)] complete_cases [OF run] by (simp add: list_all_iff)
  then show ?thesis using AskComplete run by simp
next
  case (StoreDecision now d)
  then show ?thesis
    using gone_through_kept [OF assms, of "[(now, Upsert d)]" "app_step env x st"]
    by (auto simp: keeps_core_def split: sum.splits prod.splits)
qed

lemma app_run_gone_through:
  "gone_through i wb le st \<Longrightarrow> ds_wf (as_decisions st) \<Longrightarrow> gone_through i wb le (app_run env xs st)"
  unfolding app_run_def
  by (induction xs arbitrary: st) (simp_all add: app_step_gone_through app_step_wf)

lemma moved_quantity:
  assumes "position now (moved_position tenant sku loc n state ref) = Inr p"
  shows "qty p = n"
proof -
  let ?v = "moved_position tenant sku loc n state ref"
  from assms obtain p0 where p0: "clean_fields position_fields ?v = Inr p0" by (auto simp: position_def bind_res_Inr_iff)
  have "dict_wf ?v" by (simp add: moved_position_def dict_wf_def)
  from clean_fields_Inr [OF p0 position_fields_distinct this] have "get p0 ''quantity'' = get ?v ''quantity''"
    by (simp add: position_fields_def)
  then have "get p0 ''quantity'' = PyInt n" by (simp add: moved_position_def)
  then have "py_int (py_or (get p0 ''quantity'') (PyInt 0)) = Inr n" by (simp add: py_or_def)
  then show ?thesis using assms p0 by (auto simp: position_def bind_res_Inr_iff Let_def split: if_splits)
qed

section \<open>Properties\<close>

definition demo_ctx :: tenant_context where
  "demo_ctx = \<lparr>tc_tenant_id = ''acme'', tc_user_id = ''thandi'', tc_role = MANAGER\<rparr>"

definition demo_pending :: pydict where
  "demo_pending = merged_record ''t0'' [] (dict_set ''status'' (PyStr ''pending'') demo_approved)"

definition demo_app :: app_state where
  "demo_app = \<lparr>as_decisions = [(''dec_7'', demo_pending)], as_tasks = [], as_learning = ls_empty, as_inventory = iv_empty\<rparr>"

definition demo_relocation :: pydict where
  "demo_relocation = [(''id'', PyStr ''task_1''), (''tenant_id'', PyStr ''acme''),
     (''action'', PyDict [(''type'', PyStr ''relocate_stock''), (''params'', PyDict [(''sku'', PyStr ''4011''),
        (''observed_location'', PyStr ''backroom-2''), (''expected_location'', PyStr ''shelf-1'')])]),
     (''completion_receipt'', PyDict [(''source_reference'', PyStr ''scan-9''), (''completed_units'', PyInt 5)])]"

definition demo_stocked :: inventory_store where
  "demo_stocked = \<lparr>iv_positions = [((''acme'', ''4011'', ''shelf'', ''shelf-1'', ''unassigned''),
     [(''quantity'', PyInt 20)])], iv_receipts = []\<rparr>"

lemma demo_app_ok: "ds_wf (as_decisions demo_app)" "sink_ok (as_tasks demo_app)" "tasks_approved demo_app"
proof -
  have "record_ok demo_pending" unfolding demo_pending_def by (rule record_ok_merged) simp
  then show "ds_wf (as_decisions demo_app)" by (simp add: demo_app_def ds_wf_def dict_wf_def dict_all_def)
qed (simp_all add: demo_app_def sink_ok_def tasks_approved_def)

lemma demo_learned:
  "\<exists>l le. ls_record_approved ''t1'' (reviewed ''t1'' ''approved'' ''thandi'' demo_pending) ls_empty = (l, Inr le)"
proof -
  let ?d = "reviewed ''t1'' ''approved'' ''thandi'' demo_pending"
  have key: "approved_key ?d = Inr (''acme'', ''operational_twin'', ''dec_7'')" by code_simp
  have metric: "routed_metric ?d = Inr (''4011:reorder_stockout_exposure_minor_units'', ''4011'')" by code_simp
  have dm: "learning_domain ?d = Inr ''operational_twin''" by code_simp
  have f: "get ?d ''action'' = get demo_approved ''action''" "get ?d ''expected_outcome'' = get demo_approved ''expected_outcome''"
    by code_simp+
  have "exposure_of [''stockout_exposure_minor_units'', ''incremental_profit_minor_units'']
      [(''stockout_exposure_minor_units'', PyInt 900)] = Inr 900" by simp
  then obtain e where "build_learning_event ''t1'' ?d None = Inr e"
    using metric dm f
    by (simp add: build_learning_event_def exposure_event_def or_empty_def demo_approved_def str_or_def py_or_def Let_def)
  then show ?thesis using key metric by (simp add: ls_record_approved_def ls_empty_def)
qed

lemma demo_approval:
  "\<exists>st1 rr le task. approve_decision Map.empty ''t1'' ''dec_7'' None demo_ctx demo_app = (st1, Inr rr) \<and>
     rr_learning rr = Some le \<and>
     dict_get (as_tasks st1) (''acme'', ''operational_twin'', ''writeback:dec_7'') = Some task"
proof -
  let ?d = "reviewed ''t1'' ''approved'' ''thandi'' demo_pending"
  have "auth_mode Map.empty \<noteq> ''jwt''" by code_simp
  then have acc: "reject_cross_tenant_access Map.empty ''dec_7'' demo_ctx (as_decisions demo_app) = Inr ()"
    by (simp add: reject_cross_tenant_access_def)
  have p: "get demo_pending ''status'' = PyStr ''pending''" by code_simp
  have t: "ds_approve ''t1'' ''dec_7'' (tc_user_id demo_ctx) (as_decisions demo_app) = ([(''dec_7'', ?d)], Some ?d)"
    using p by (simp add: ds_approve_def ds_transition_def demo_app_def demo_ctx_def Let_def)
  obtain l le where l: "ls_record_approved ''t1'' ?d ls_empty = (l, Inr le)" using demo_learned by blast
  obtain ts task where w: "ensure_write_back ''t1'' ''dec_7'' ?d demo_ctx [] = (ts, PyDict task)"
    "dict_get ts (''acme'', ''operational_twin'', ''writeback:dec_7'') = Some task"
  proof -
    have "get ?d ''write_back'' = PyNone" "decision_tenant_id ?d (tc_tenant_id demo_ctx) = ''acme''"
      "str_or ?d ''data_domain'' ''world_simulation'' = ''operational_twin''" by code_simp+
    then show thesis using that by (simp add: ensure_write_back_def wb_create_task_def Let_def)
  qed
  show ?thesis using acc t l w
    by (simp add: approve_decision_def demo_app_def ds_annotate_def Let_def)
qed

text \<open>
  C9. No task without an approval: in every state the review handlers reach, by any users, in any
  order, with any decisions stored in between and tasks completed, each write-back task belongs to a
  decision that is approved. A rejected or pending decision never has a task.
\<close>

theorem no_task_without_approval:
  assumes "ds_wf (as_decisions st)" and "as_tasks st = []"
    and "dict_get (as_tasks (app_run env xs st)) (t, dm, k) = Some task"
  shows "\<exists>i r. k = ''writeback:'' @ i \<and> map_of (as_decisions (app_run env xs st)) i = Some r \<and>
    get r ''status'' = PyStr ''approved''"
proof -
  have "sink_ok (as_tasks st)" "tasks_approved st" using assms(2) by (simp_all add: sink_ok_def tasks_approved_def)
  from app_run_inv [OF assms(1) this, of env xs] assms(3) show ?thesis
    unfolding tasks_approved_def approved_in_def by (metis domI snd_conv)
qed

theorem no_task_without_approval_witness:
  "\<exists>task i r. dict_get (as_tasks (app_run Map.empty [AskApprove ''t1'' ''dec_7'' None demo_ctx] demo_app))
      (''acme'', ''operational_twin'', ''writeback:dec_7'') = Some task \<and> ''writeback:dec_7'' = ''writeback:'' @ i \<and>
     map_of (as_decisions (app_run Map.empty [AskApprove ''t1'' ''dec_7'' None demo_ctx] demo_app)) i = Some r \<and>
     get r ''status'' = PyStr ''approved''"
proof -
  obtain task where t: "dict_get (as_tasks (app_run Map.empty [AskApprove ''t1'' ''dec_7'' None demo_ctx] demo_app))
      (''acme'', ''operational_twin'', ''writeback:dec_7'') = Some task"
    using demo_approval by (auto simp: app_run_def)
  have "as_tasks demo_app = []" by (simp add: demo_app_def)
  from no_task_without_approval [OF demo_app_ok(1) this t] t show ?thesis by blast
qed

text \<open>
  C10. Approving is idempotent, for good: after an approval went through, and whatever is requested and
  stored afterwards, approving the decision again creates no task and no learning event, and answers
  with the same learning event and the same task; a late rejection changes neither and reports the
  decision as approved.
\<close>

theorem approval_happens_once:
  assumes "ds_wf (as_decisions st)" and "sink_ok (as_tasks st)"
    and "approve_decision env now i body ctx st = (st1, Inr rr)" and "rr_learning rr = Some le"
    and "st2 = app_run env xs st1"
    and "reject_cross_tenant_access env i ctx2 (as_decisions st2) = Inr u"
  shows "(\<exists>st3 rr2. approve_decision env now2 i body2 ctx2 st2 = (st3, Inr rr2) \<and>
      as_tasks st3 = as_tasks st2 \<and> as_learning st3 = as_learning st2 \<and> rr_learning rr2 = Some le \<and>
      get (rr_decision rr2) ''write_back'' = get (rr_decision rr) ''write_back'') \<and>
    (\<exists>st3 rr2. reject_decision env now2 i body2 ctx2 st2 = (st3, Inr rr2) \<and>
      as_tasks st3 = as_tasks st2 \<and> as_learning st3 = as_learning st2 \<and> rr_learning rr2 = None \<and>
      get (rr_decision rr2) ''status'' = PyStr ''approved'')"
proof
  obtain wb where wb: "gone_through i wb le st1" "get (rr_decision rr) ''write_back'' = wb"
    using approve_goes_through [OF assms(2,3,4)] by blast
  have "as_decisions (app_step env (AskApprove now i body ctx) st) = as_decisions st1" using assms(3) by simp
  then have "ds_wf (as_decisions st1)" using app_step_wf [OF assms(1)] by metis
  then have gone: "gone_through i wb le st2" using app_run_gone_through [OF wb(1)] assms(5) by simp
  obtain st3 r where run: "approve_decision env now2 i body2 ctx2 st2 = (st3, r)" by (rule prod.exhaust)
  from gone_through_again [OF gone assms(6) run] run wb(2)
  show "\<exists>st3 rr2. approve_decision env now2 i body2 ctx2 st2 = (st3, Inr rr2) \<and>
      as_tasks st3 = as_tasks st2 \<and> as_learning st3 = as_learning st2 \<and> rr_learning rr2 = Some le \<and>
      get (rr_decision rr2) ''write_back'' = get (rr_decision rr) ''write_back''" by auto
  obtain d where d: "map_of (as_decisions st2) i = Some d" "get d ''status'' = PyStr ''approved''"
    using gone by (auto simp: gone_through_def)
  then have t: "ds_reject now2 i (tc_user_id ctx2) (as_decisions st2) = (as_decisions st2, Some d)"
    by (simp add: ds_reject_def ds_transition_def terminal_status_def)
  have st: "get (annotated now2 d [(''correction'', c)]) ''status'' = PyStr ''approved''" for c
    using harmless_get [OF harmless_annotations(3), of "[(''correction'', c)]" "''status''"] d(2)
    by (simp add: identity_fields_def dict_wf_def)
  show "\<exists>st3 rr2. reject_decision env now2 i body2 ctx2 st2 = (st3, Inr rr2) \<and>
      as_tasks st3 = as_tasks st2 \<and> as_learning st3 = as_learning st2 \<and> rr_learning rr2 = None \<and>
      get (rr_decision rr2) ''status'' = PyStr ''approved''"
    using assms(6) t d st ds_annotate_found [OF d(1), of now2]
    by (auto simp: reject_decision_def split: option.splits)
qed

theorem approval_happens_once_witness:
  "\<exists>st1 rr le st3 rr2. approve_decision Map.empty ''t1'' ''dec_7'' None demo_ctx demo_app = (st1, Inr rr) \<and>
     rr_learning rr = Some le \<and>
     approve_decision Map.empty ''t2'' ''dec_7'' None demo_ctx st1 = (st3, Inr rr2) \<and>
     as_tasks st3 = as_tasks st1 \<and> rr_learning rr2 = Some le"
proof -
  obtain st1 rr le where a: "approve_decision Map.empty ''t1'' ''dec_7'' None demo_ctx demo_app = (st1, Inr rr)"
    "rr_learning rr = Some le" using demo_approval by blast
  have off: "reject_cross_tenant_access Map.empty ''dec_7'' demo_ctx (as_decisions st1) = Inr ()"
  proof -
    have "auth_mode Map.empty \<noteq> ''jwt''" by code_simp
    then show ?thesis by (simp add: reject_cross_tenant_access_def)
  qed
  have "st1 = app_run Map.empty [] st1" by (simp add: app_run_def)
  from approval_happens_once [OF demo_app_ok(1,2) a this off, of "''t2''" None] a show ?thesis by blast
qed



text \<open>
  A completed relocation overwrites the stock it touches: whatever the two positions held before,
  afterwards the source holds nothing and the destination exactly the units that were moved, so units
  that were already at the destination, or stay behind at the source, leave the ledger.
\<close>

theorem relocation_overwrites_stock:
  assumes "record_completed_movement now task s = (s', Inr ps)"
    and "get (dict_or_empty (get task ''action'')) ''type'' = PyStr ''relocate_stock''"
    and "get (dict_or_empty (get task ''completion_receipt'')) ''completed_units'' = PyInt n"
  shows "\<exists>p q. ps = [p, q] \<and> qty p = 0 \<and> qty q = n \<and>
    iv_positions s' = dict_set (position_key q) q (dict_set (position_key p) p (iv_positions s))"
proof -
  have n: "py_int (py_or (PyInt n) (PyInt 0)) = Inr n" by (simp add: py_or_def)
  from assms obtain tenant sku src dst ref p q where
    "position now (moved_position tenant sku src 0 ''relocated'' ref) = Inr p"
    "position now (moved_position tenant sku dst n ''available'' ref) = Inr q" "ps = [p, q]"
    "iv_positions s' = dict_set (position_key q) q (dict_set (position_key p) p (iv_positions s))"
    using n by (auto simp: record_completed_movement_def iv_upsert_def Let_def split: if_splits prod.splits sum.splits)
  moreover from this(1) have "qty p = 0" by (rule moved_quantity)
  moreover from calculation(2) have "qty q = n" by (rule moved_quantity)
  ultimately show ?thesis by simp
qed

theorem relocation_overwrites_stock_witness:
  "\<exists>s' p q. record_completed_movement ''t1'' demo_relocation demo_stocked = (s', Inr [p, q]) \<and> qty q = 5 \<and>
     qty_at (iv_positions demo_stocked) (''acme'', ''4011'', ''shelf'', ''shelf-1'', ''unassigned'') = 20"
proof -
  have clean: "clean_str (PyStr x)" if "x \<in> {''acme'', ''4011'', ''backroom'', ''shelf'', ''backroom-2'', ''shelf-1'', ''relocated'', ''available'', ''scan-9''}" for x
  proof -
    have "list_all (\<lambda>x. x \<noteq> [] \<and> strip x = x) [''acme'', ''4011'', ''backroom'', ''shelf'', ''backroom-2'', ''shelf-1'', ''relocated'', ''available'', ''scan-9'']"
      by code_simp
    then show ?thesis using that by auto
  qed
  have types: "physical_location_type ''backroom-2'' = ''backroom''" "physical_location_type ''shelf-1'' = ''shelf''"
    by code_simp+
  have pos: "\<exists>p. position ''t1'' (moved_position ''acme'' ''4011'' loc n st ''scan-9'') = Inr p"
    if "loc \<in> {''backroom-2'', ''shelf-1''}" "st \<in> {''relocated'', ''available''}" "0 \<le> n" for loc n st
  proof -
    let ?v = "moved_position ''acme'' ''4011'' loc n st ''scan-9''"
    have "dict_wf ?v" "get ?v ''quantity'' = PyInt n" by (simp_all add: moved_position_def dict_wf_def)
    moreover have "\<forall>f \<in> set position_fields. clean_str (get ?v f)"
      using that clean types by (auto simp: moved_position_def position_fields_def)
    ultimately show ?thesis using position_clean [of ?v n "''t1''"] that(3) by blast
  qed
  obtain p q where "position ''t1'' (moved_position ''acme'' ''4011'' ''backroom-2'' 0 ''relocated'' ''scan-9'') = Inr p"
    "position ''t1'' (moved_position ''acme'' ''4011'' ''shelf-1'' 5 ''available'' ''scan-9'') = Inr q"
    using pos [of "''backroom-2''" "''relocated''" 0] pos [of "''shelf-1''" "''available''" 5] by auto
  then obtain s' where m: "record_completed_movement ''t1'' demo_relocation demo_stocked = (s', Inr [p, q])"
    by (simp add: record_completed_movement_def demo_relocation_def iv_upsert_def str_or_def py_or_def Let_def)
  from relocation_overwrites_stock [OF m, of 5] m show ?thesis
    by (auto simp: demo_relocation_def demo_stocked_def qty_at_def)
qed

end
