(* ===== verification/Edge.thy ===== *)
theory Edge
  imports Storage PyVal Approvals
begin

text \<open>
  Edge devices: their registry in memory and in Postgres (\<open>src/shelfwise_edge/registry.py\<close>), the
  signature check (\<open>signing.py\<close>), and the routes that provision a device, revoke it and take in its
  signed batches (\<open>src/shelfwise_backend/routes_twin.py\<close>). Byte strings are strings. HMAC-SHA256, the
  Fernet cipher and the JSON decoding of a batch are arguments.
\<close>

section \<open>Signatures\<close>

definition max_edge_body_bytes :: nat where
  "max_edge_body_bytes = 512000"

definition verify_signed_body ::
  "(string \<Rightarrow> string \<Rightarrow> string) \<Rightarrow> string \<Rightarrow> string \<Rightarrow> string \<Rightarrow> bool" where
  "verify_signed_body hmac body signature secret =
     (if length body > max_edge_body_bytes \<or> secret = [] then False
      else if \<not> startswith signature ''sha256='' then False
      else (let supplied = removeprefix signature ''sha256='' in
            if length supplied \<noteq> 64 then False else supplied = hmac secret body))"

section \<open>The in-memory registry\<close>

record edge_device =
  dev_id :: string
  dev_tenant :: string
  dev_store :: string
  dev_secret :: string
  dev_active :: bool

type_synonym batch_states = "(string \<times> string, string) dict"

record edge_registry =
  reg_devices :: "(string, edge_device) dict"
  reg_batches :: batch_states

definition dev_register :: "edge_device \<Rightarrow> edge_registry \<Rightarrow> edge_registry result" where
  "dev_register d r =
     (if strip (dev_id d) = [] \<or> dev_secret d = []
      then Inl (ValueError ''device_id and hmac_secret are required'')
      else if dict_has (dev_id d) (reg_devices r) then Inl (ValueError ''device_id is already registered'')
      else Inr (r\<lparr>reg_devices := dict_set (dev_id d) d (reg_devices r)\<rparr>))"

definition device_row_dict :: "edge_device \<Rightarrow> pydict" where
  "device_row_dict d = [(''device_id'', PyStr (dev_id d)), (''tenant_id'', PyStr (dev_tenant d)),
     (''store_id'', PyStr (dev_store d)), (''active'', PyBool (dev_active d))]"

definition dev_list :: "string \<Rightarrow> string option \<Rightarrow> edge_registry \<Rightarrow> pydict list" where
  "dev_list tenant store r =
     map device_row_dict (sorted_by dev_id (filter (\<lambda>d. dev_tenant d = tenant \<and>
       (case store of None \<Rightarrow> True | Some x \<Rightarrow> dev_store d = x)) (map snd (reg_devices r))))"

definition dev_get_active :: "string \<Rightarrow> edge_registry \<Rightarrow> edge_device option" where
  "dev_get_active i r = (case dict_get (reg_devices r) i of
       Some d \<Rightarrow> if dev_active d then Some d else None | None \<Rightarrow> None)"

definition dev_revoke :: "string \<Rightarrow> string \<Rightarrow> string \<Rightarrow> edge_registry \<Rightarrow> edge_registry \<times> bool" where
  "dev_revoke i tenant store r = (case dict_get (reg_devices r) i of
       None \<Rightarrow> (r, False)
     | Some d \<Rightarrow>
         if \<not> dev_active d \<or> dev_tenant d \<noteq> tenant \<or> dev_store d \<noteq> store then (r, False)
         else (r\<lparr>reg_devices := dict_set i (d\<lparr>dev_active := False\<rparr>) (reg_devices r)\<rparr>, True))"

definition claim_batch :: "string \<Rightarrow> string \<Rightarrow> batch_states \<Rightarrow> batch_states \<times> string" where
  "claim_batch tenant bid b = (case dict_get b (tenant, bid) of
       Some st \<Rightarrow> (b, if st = ''claimed'' then ''in_progress'' else st)
     | None \<Rightarrow> (dict_set (tenant, bid) ''claimed'' b, ''claimed''))"

definition complete_batch :: "string \<Rightarrow> string \<Rightarrow> batch_states \<Rightarrow> batch_states \<times> bool" where
  "complete_batch tenant bid b =
     (if dict_get b (tenant, bid) \<noteq> Some ''claimed'' then (b, False)
      else (dict_set (tenant, bid) ''completed'' b, True))"

definition release_batch :: "string \<Rightarrow> string \<Rightarrow> batch_states \<Rightarrow> batch_states \<times> bool" where
  "release_batch tenant bid b =
     (if dict_get b (tenant, bid) \<noteq> Some ''claimed'' then (b, False) else (dict_del (tenant, bid) b, True))"

definition dev_clear :: "edge_registry \<Rightarrow> edge_registry" where
  "dev_clear r = \<lparr>reg_devices = [], reg_batches = []\<rparr>"

section \<open>The Postgres registry\<close>

text \<open>
  The table is not under row-level security: a device is looked up before its tenant is known. \<open>cipher\<close>
  is Fernet encryption under the key digested from the environment's secret, \<open>plain\<close> its decryption,
  \<open>None\<close> standing for an invalid token. The claims of batches are kept in the process, as in memory.
\<close>

record device_row =
  dv_id :: string
  dv_tenant :: string
  dv_store :: string
  dv_encrypted :: string
  dv_active :: bool

type_synonym device_table = "device_row list"

definition encryption_key :: "environ \<Rightarrow> string result" where
  "encryption_key env =
     (let raw = strip (getenv env ''SHELFWISE_CREDENTIAL_ENCRYPTION_KEY'' []) in
      if raw = [] then Inl (RuntimeError 
        ''SHELFWISE_CREDENTIAL_ENCRYPTION_KEY must be set to provision or verify edge device secrets - refusing to store an unkeyed or hardcoded default'') else Inr raw)"

definition encrypt_secret :: "environ \<Rightarrow> (string \<Rightarrow> string \<Rightarrow> string) \<Rightarrow> string \<Rightarrow> string result" where
  "encrypt_secret env cipher s = bind_res (encryption_key env) (\<lambda>k. Inr (cipher k s))"

definition decrypt_secret :: "environ \<Rightarrow> (string \<Rightarrow> string \<Rightarrow> string option) \<Rightarrow> string \<Rightarrow> string result" where
  "decrypt_secret env plain token = bind_res (encryption_key env) (\<lambda>k. case plain k token of
       Some s \<Rightarrow> Inr s
     | None \<Rightarrow> Inl (RuntimeError 
         ''stored device secret could not be decrypted - wrong encryption key or corrupted data''))"

definition pgd_register ::
  "environ \<Rightarrow> (string \<Rightarrow> string \<Rightarrow> string) \<Rightarrow> edge_device \<Rightarrow> device_table \<Rightarrow> device_table result" where
  "pgd_register env cipher d tbl =
     (if strip (dev_id d) = [] \<or> dev_secret d = []
      then Inl (ValueError ''device_id and hmac_secret are required'')
      else bind_res (encrypt_secret env cipher (dev_secret d)) (\<lambda>enc.
        if \<exists>r \<in> set tbl. dv_id r = dev_id d then Inl (ValueError ''device_id is already registered'')
        else Inr (tbl @ [\<lparr>dv_id = dev_id d, dv_tenant = dev_tenant d, dv_store = dev_store d,
               dv_encrypted = enc, dv_active = dev_active d\<rparr>])))"

definition pgd_list :: "string \<Rightarrow> string option \<Rightarrow> device_table \<Rightarrow> pydict list" where
  "pgd_list tenant store tbl =
     map (\<lambda>r. [(''device_id'', PyStr (dv_id r)), (''tenant_id'', PyStr (dv_tenant r)),
               (''store_id'', PyStr (dv_store r)), (''active'', PyBool (dv_active r))])
       (sorted_by dv_id (filter (\<lambda>r. dv_tenant r = tenant \<and>
         (case store of None \<Rightarrow> True | Some x \<Rightarrow> dv_store r = x)) tbl))"

definition device_of :: "environ \<Rightarrow> (string \<Rightarrow> string \<Rightarrow> string option) \<Rightarrow> device_row \<Rightarrow> edge_device result" where
  "device_of env plain r = bind_res (decrypt_secret env plain (dv_encrypted r)) (\<lambda>s.
     Inr \<lparr>dev_id = dv_id r, dev_tenant = dv_tenant r, dev_store = dv_store r, dev_secret = s,
          dev_active = dv_active r\<rparr>)"

definition pgd_get_active ::
  "environ \<Rightarrow> (string \<Rightarrow> string \<Rightarrow> string option) \<Rightarrow> string \<Rightarrow> device_table \<Rightarrow> edge_device option result" where
  "pgd_get_active env plain i tbl = (case find_first (\<lambda>r. dv_id r = i) tbl of
       None \<Rightarrow> Inr None
     | Some r \<Rightarrow> if \<not> dv_active r then Inr None
         else bind_res (device_of env plain r) (\<lambda>d. Inr (Some d)))"

definition pgd_revoke :: "string \<Rightarrow> string \<Rightarrow> string \<Rightarrow> device_table \<Rightarrow> device_table \<times> bool" where
  "pgd_revoke i tenant store tbl =
     (let hit = (\<lambda>r. dv_id r = i \<and> dv_tenant r = tenant \<and> dv_store r = store \<and> dv_active r)
      in (map (\<lambda>r. if hit r then r\<lparr>dv_active := False\<rparr> else r) tbl, \<exists>r \<in> set tbl. hit r))"

definition pgd_clear :: "device_table \<times> batch_states \<Rightarrow> device_table \<times> batch_states" where
  "pgd_clear st = ([], [])"

section \<open>The routes\<close>

definition register_twin_device ::
  "string \<Rightarrow> string option \<Rightarrow> string \<Rightarrow> string \<Rightarrow> tenant_context \<Rightarrow> edge_registry \<Rightarrow>
   edge_registry \<times> (string \<times> string) result" where
  "register_twin_device store wanted random_id secret ctx r =
     (let i = strip (case wanted of Some (c # s) \<Rightarrow> c # s | _ \<Rightarrow> ''edge_'' @ random_id) in
      case dev_register \<lparr>dev_id = i, dev_tenant = tc_tenant_id ctx, dev_store = store,
             dev_secret = secret, dev_active = True\<rparr> r of
        Inr r' \<Rightarrow> (r', Inr (i, secret))
      | Inl (ValueError m) \<Rightarrow> (r, Inl (HTTPException 422 m))
      | Inl x \<Rightarrow> (r, Inl (HTTPException 503 ''Device provisioning is not configured'')))"

definition revoke_twin_device ::
  "string \<Rightarrow> string \<Rightarrow> tenant_context \<Rightarrow> edge_registry \<Rightarrow> edge_registry \<times> unit result" where
  "revoke_twin_device store i ctx r = (case dev_revoke i (tc_tenant_id ctx) store r of
       (r', True) \<Rightarrow> (r', Inr ())
     | (r', False) \<Rightarrow> (r', Inl (HTTPException 404 ''Device not found for this store'')))"

record 'o edge_batch =
  eb_id :: string
  eb_tenant :: string
  eb_store :: string
  eb_device :: string
  eb_sent_aware :: bool
  eb_observations :: "(string \<times> string \<times> 'o) list"

text \<open>
  The field constraints and validators of the batch model; \<open>eb_sent_aware\<close> says whether \<open>sent_at\<close> carries a
  time zone, and an observation is its tenant, its store and the rest. The decoding itself is pydantic's.
\<close>

definition batch_valid :: "'o edge_batch \<Rightarrow> bool" where
  "batch_valid b \<longleftrightarrow> 8 \<le> length (eb_id b) \<and> length (eb_id b) \<le> 160 \<and>
     1 \<le> length (eb_tenant b) \<and> length (eb_tenant b) \<le> 100 \<and>
     1 \<le> length (eb_store b) \<and> length (eb_store b) \<le> 100 \<and>
     8 \<le> length (eb_device b) \<and> length (eb_device b) \<le> 160 \<and> eb_sent_aware b \<and>
     1 \<le> length (eb_observations b) \<and> length (eb_observations b) \<le> 100 \<and>
     length (remdups (map (\<lambda>(t, st, ob). st) (eb_observations b))) \<le> 1"

text \<open>The request up to the claim of its batch: an error, a duplicate, or a batch to project.\<close>

datatype 'o admission = Duplicate string | Admitted "'o edge_batch"

definition batch_in_scope :: "'o edge_batch \<Rightarrow> edge_device \<Rightarrow> bool" where
  "batch_in_scope b d \<longleftrightarrow> eb_device b = dev_id d \<and> eb_tenant b = dev_tenant d \<and> eb_store b = dev_store d \<and>
     list_all (\<lambda>(t, s, ob). t = dev_tenant d \<and> s = dev_store d) (eb_observations b)"

definition admit_edge_batch ::
  "(string \<Rightarrow> string \<Rightarrow> string) \<Rightarrow> (string \<Rightarrow> 'o edge_batch option) \<Rightarrow> string \<Rightarrow> string \<Rightarrow> string \<Rightarrow>
   edge_registry \<Rightarrow> edge_registry \<times> 'o admission result" where
  "admit_edge_batch hmac decode body i signature r =
     (if body = [] \<or> length body > 512000 then (r, Inl (HTTPException 413 ''Invalid edge payload size''))
      else (case dev_get_active i r of
          None \<Rightarrow> (r, Inl (HTTPException 401 ''Invalid edge device signature''))
        | Some d \<Rightarrow>
            if \<not> verify_signed_body hmac body signature (dev_secret d)
            then (r, Inl (HTTPException 401 ''Invalid edge device signature''))
            else (case decode body of
                None \<Rightarrow> (r, Inl (HTTPException 422 ''Invalid derived observation batch''))
              | Some b \<Rightarrow>
                  if \<not> batch_valid b then (r, Inl (HTTPException 422 ''Invalid derived observation batch''))
                  else if \<not> batch_in_scope b d then (r, Inl (HTTPException 403 ''Edge batch scope mismatch''))
                  else (case claim_batch (eb_tenant b) (eb_id b) (reg_batches r) of
                      (bs, st) \<Rightarrow>
                        (let r' = r\<lparr>reg_batches := bs\<rparr> in
                         if st = ''completed'' then (r', Inr (Duplicate (eb_id b)))
                         else if st = ''in_progress''
                         then (r', Inl (HTTPException 409 ''Edge batch is already being projected''))
                         else (r', Inr (Admitted b)))))))"

text \<open>What follows the projection: release on failure, complete on success.\<close>

definition settle_edge_batch ::
  "'o edge_batch \<Rightarrow> bool \<Rightarrow> edge_registry \<Rightarrow> edge_registry \<times> unit result" where
  "settle_edge_batch b projected r =
     (if \<not> projected
      then (r\<lparr>reg_batches := fst (release_batch (eb_tenant b) (eb_id b) (reg_batches r))\<rparr>,
            Inl (HTTPException 503 ''Edge batch projection failed; retry the same signed batch''))
      else (case complete_batch (eb_tenant b) (eb_id b) (reg_batches r) of
          (bs, True) \<Rightarrow> (r\<lparr>reg_batches := bs\<rparr>, Inr ())
        | (bs, False) \<Rightarrow> (r\<lparr>reg_batches := bs\<rparr>,
            Inl (HTTPException 409 ''Edge batch claim was lost before completion''))))"

section \<open>Requests in flight\<close>

text \<open>
  Requests interleave between their admission and their settlement. The system keeps the batches
  being projected and those whose projection was completed, in order.
\<close>

record edge_sys =
  sy_registry :: edge_registry
  sy_inflight :: "(string \<times> string) list"
  sy_projected :: "(string \<times> string) list"

definition edge_init :: edge_sys where
  "edge_init = \<lparr>sy_registry = \<lparr>reg_devices = [], reg_batches = []\<rparr>, sy_inflight = [], sy_projected = []\<rparr>"

inductive edge_step ::
  "(string \<Rightarrow> string \<Rightarrow> string) \<Rightarrow> (string \<Rightarrow> 'o edge_batch option) \<Rightarrow> edge_sys \<Rightarrow> edge_sys \<Rightarrow> bool"
  for hmac decode where
  provision: "dev_register d (sy_registry s) = Inr r \<Longrightarrow> edge_step hmac decode s (s\<lparr>sy_registry := r\<rparr>)"
| revoke: "dev_revoke i tenant store (sy_registry s) = (r, revoked) \<Longrightarrow> edge_step hmac decode s (s\<lparr>sy_registry := r\<rparr>)"
| admit: "admit_edge_batch hmac decode body i sg (sy_registry s) = (r, Inr (Admitted b)) \<Longrightarrow>
    edge_step hmac decode s (s\<lparr>sy_registry := r, sy_inflight := (eb_tenant b, eb_id b) # sy_inflight s\<rparr>)"
| turn_away: "admit_edge_batch hmac decode body i sg (sy_registry s) = (r, res) \<Longrightarrow>
    (\<forall>b. res \<noteq> Inr (Admitted b)) \<Longrightarrow> edge_step hmac decode s (s\<lparr>sy_registry := r\<rparr>)"
| finish: "(eb_tenant b, eb_id b) \<in> set (sy_inflight s) \<Longrightarrow>
    settle_edge_batch (b :: 'o edge_batch) True (sy_registry s) = (r, Inr ()) \<Longrightarrow>
    edge_step hmac decode s (s\<lparr>sy_registry := r, sy_inflight := remove1 (eb_tenant b, eb_id b) (sy_inflight s),
      sy_projected := sy_projected s @ [(eb_tenant b, eb_id b)]\<rparr>)"
| failed: "(eb_tenant b, eb_id b) \<in> set (sy_inflight s) \<Longrightarrow>
    settle_edge_batch (b :: 'o edge_batch) False (sy_registry s) = (r, res) \<Longrightarrow>
    edge_step hmac decode s (s\<lparr>sy_registry := r, sy_inflight := remove1 (eb_tenant b, eb_id b) (sy_inflight s)\<rparr>)"

inductive edge_reachable ::
  "(string \<Rightarrow> string \<Rightarrow> string) \<Rightarrow> (string \<Rightarrow> 'o edge_batch option) \<Rightarrow> edge_sys \<Rightarrow> bool"
  for hmac decode where
  start: "edge_reachable hmac decode edge_init"
| step: "edge_reachable hmac decode s \<Longrightarrow> edge_step hmac decode s s' \<Longrightarrow> edge_reachable hmac decode s'"

section \<open>Claims on batches\<close>

definition edge_inv :: "edge_sys \<Rightarrow> bool" where
  "edge_inv s \<longleftrightarrow> distinct (sy_inflight s) \<and> distinct (sy_projected s) \<and>
     (\<forall>k. (k \<in> set (sy_inflight s)) = (dict_get (reg_batches (sy_registry s)) k = Some ''claimed'')) \<and>
     (\<forall>k. (k \<in> set (sy_projected s)) = (dict_get (reg_batches (sy_registry s)) k = Some ''completed'')) \<and>
     (\<forall>k. dict_get (reg_batches (sy_registry s)) k \<in> {None, Some ''claimed'', Some ''completed''})"

lemma edge_invI:
  assumes "distinct (sy_inflight s)" "distinct (sy_projected s)"
    and "\<And>k. (k \<in> set (sy_inflight s)) = (dict_get (reg_batches (sy_registry s)) k = Some ''claimed'')"
    and "\<And>k. (k \<in> set (sy_projected s)) = (dict_get (reg_batches (sy_registry s)) k = Some ''completed'')"
    and "\<And>k. dict_get (reg_batches (sy_registry s)) k \<in> {None, Some ''claimed'', Some ''completed''}"
  shows "edge_inv s"
  using assms unfolding edge_inv_def by blast

lemma edge_invD:
  assumes "edge_inv s"
  shows "distinct (sy_inflight s)" "distinct (sy_projected s)"
    and "k \<in> set (sy_inflight s) \<longleftrightarrow> dict_get (reg_batches (sy_registry s)) k = Some ''claimed''"
    and "k \<in> set (sy_projected s) \<longleftrightarrow> dict_get (reg_batches (sy_registry s)) k = Some ''completed''"
    and "dict_get (reg_batches (sy_registry s)) k \<in> {None, Some ''claimed'', Some ''completed''}"
  using assms unfolding edge_inv_def by blast+

lemma edge_inv_stateD:
  "edge_inv s \<Longrightarrow> dict_get (reg_batches (sy_registry s)) k = Some x \<Longrightarrow> x = ''claimed'' \<or> x = ''completed''"
  using edge_invD(5) [of s k] by simp

lemma edge_inv_same_batches:
  "edge_inv s \<Longrightarrow> reg_batches r = reg_batches (sy_registry s) \<Longrightarrow> edge_inv (s\<lparr>sy_registry := r\<rparr>)"
  by (simp add: edge_inv_def)

lemma claim_batch_cases:
  assumes "claim_batch tenant bid b = (b', st)"
  obtains (fresh) "dict_get b (tenant, bid) = None" "b' = dict_set (tenant, bid) ''claimed'' b" "st = ''claimed''"
  | (running) "dict_get b (tenant, bid) = Some ''claimed''" "b' = b" "st = ''in_progress''"
  | (other) x where "dict_get b (tenant, bid) = Some x" "x \<noteq> ''claimed''" "b' = b" "st = x"
proof (cases "dict_get b (tenant, bid)")
  case None
  show thesis by (rule fresh) (use assms None in \<open>auto simp: claim_batch_def\<close>)
next
  case (Some x)
  show thesis
  proof (cases "x = ''claimed''")
    case True
    show thesis by (rule running) (use assms Some True in \<open>simp_all add: claim_batch_def\<close>)
  next
    case False
    show thesis by (rule other [of x]) (use assms Some False in \<open>simp_all add: claim_batch_def\<close>)
  qed
qed

text \<open>An admitted batch passed every check of the request and its claim was free.\<close>

lemma admitted_batch:
  assumes "admit_edge_batch hmac decode body i signature r = (r', Inr (Admitted b))"
  obtains d bs st where "dict_get (reg_devices r) i = Some d" "dev_active d"
    "verify_signed_body hmac body signature (dev_secret d)" "decode body = Some b" "batch_valid b" "batch_in_scope b d"
    "claim_batch (eb_tenant b) (eb_id b) (reg_batches r) = (bs, st)" "st \<noteq> ''completed''" "st \<noteq> ''in_progress''"
    "r' = r\<lparr>reg_batches := bs\<rparr>"
  using assms
  by (auto simp: admit_edge_batch_def dev_get_active_def Let_def split: if_splits option.splits prod.splits)

lemma turned_away_batches:
  assumes "admit_edge_batch hmac decode body i signature r = (r', res)" "\<forall>b. res \<noteq> Inr (Admitted b)"
  shows "reg_batches r' = reg_batches r"
  using assms
  by (auto simp: admit_edge_batch_def claim_batch_def Let_def split: if_splits option.splits prod.splits)

lemma registry_ops_keep_batches:
  "dev_register d r = Inr r' \<Longrightarrow> reg_batches r' = reg_batches r"
  "dev_revoke i tenant store r = (r'', hit) \<Longrightarrow> reg_batches r'' = reg_batches r"
  by (auto simp: dev_register_def dev_revoke_def split: if_splits option.splits)

lemma edge_inv_admit:
  assumes inv: "edge_inv s"
    and adm: "admit_edge_batch hmac decode body i sg (sy_registry s) = (r, Inr (Admitted b))"
  shows "edge_inv (s\<lparr>sy_registry := r, sy_inflight := (eb_tenant b, eb_id b) # sy_inflight s\<rparr>)"
proof -
  let ?k = "(eb_tenant b, eb_id b)"
  from adm obtain d bs st where c: "claim_batch (eb_tenant b) (eb_id b) (reg_batches (sy_registry s)) = (bs, st)"
    "st \<noteq> ''completed''" "st \<noteq> ''in_progress''" "r = (sy_registry s)\<lparr>reg_batches := bs\<rparr>"
    by (rule admitted_batch)
  from c(1) have "dict_get (reg_batches (sy_registry s)) ?k = None \<and>
      bs = dict_set ?k ''claimed'' (reg_batches (sy_registry s))"
  proof (cases rule: claim_batch_cases)
    case (other x)
    then show ?thesis using edge_invD(5) [OF inv, of ?k] c by auto
  qed (use c in auto)
  then show ?thesis
    using inv c(4) by (intro edge_invI) (auto simp: edge_invD dest: edge_inv_stateD)
qed

lemma edge_inv_finish:
  assumes inv: "edge_inv s" and k: "(eb_tenant b, eb_id b) \<in> set (sy_inflight s)"
    and fin: "settle_edge_batch b True (sy_registry s) = (r, Inr ())"
  shows "edge_inv (s\<lparr>sy_registry := r, sy_inflight := remove1 (eb_tenant b, eb_id b) (sy_inflight s),
    sy_projected := sy_projected s @ [(eb_tenant b, eb_id b)]\<rparr>)"
proof -
  let ?k = "(eb_tenant b, eb_id b)"
  have cl: "dict_get (reg_batches (sy_registry s)) ?k = Some ''claimed''" using k inv edge_invD(3) by blast
  then have r: "r = (sy_registry s)\<lparr>reg_batches := dict_set ?k ''completed'' (reg_batches (sy_registry s))\<rparr>"
    using fin by (simp add: settle_edge_batch_def complete_batch_def)
  have np: "?k \<notin> set (sy_projected s)" using cl edge_invD(4) [OF inv, of ?k] by simp
  show ?thesis
    using inv cl np unfolding r by (intro edge_invI) (auto simp: edge_invD dest: edge_inv_stateD)
qed

lemma edge_inv_failed:
  assumes inv: "edge_inv s" and k: "(eb_tenant b, eb_id b) \<in> set (sy_inflight s)"
    and rel: "settle_edge_batch b False (sy_registry s) = (r, res)"
  shows "edge_inv (s\<lparr>sy_registry := r, sy_inflight := remove1 (eb_tenant b, eb_id b) (sy_inflight s)\<rparr>)"
proof -
  let ?k = "(eb_tenant b, eb_id b)"
  have cl: "dict_get (reg_batches (sy_registry s)) ?k = Some ''claimed''" using k inv edge_invD(3) by blast
  then have r: "r = (sy_registry s)\<lparr>reg_batches := dict_del ?k (reg_batches (sy_registry s))\<rparr>"
    using rel by (simp add: settle_edge_batch_def release_batch_def)
  have np: "?k \<notin> set (sy_projected s)" using cl edge_invD(4) [OF inv, of ?k] by simp
  show ?thesis
    using inv cl np unfolding r by (intro edge_invI) (auto simp: edge_invD dest: edge_inv_stateD)
qed

lemma edge_reachable_inv: "edge_reachable hmac decode s \<Longrightarrow> edge_inv s"
proof (induction rule: edge_reachable.induct)
  case start
  then show ?case by (simp add: edge_inv_def edge_init_def)
next
  case (step s s')
  from step.hyps(2) step.IH show ?case
  proof (cases rule: edge_step.cases)
    case (provision d r)
    then show ?thesis using step.IH by (simp add: edge_inv_same_batches registry_ops_keep_batches)
  next
    case (revoke i tenant store r revoked)
    then show ?thesis using step.IH by (simp add: edge_inv_same_batches registry_ops_keep_batches(2))
  next
    case (turn_away body i sg r res)
    then show ?thesis using step.IH edge_inv_same_batches turned_away_batches by blast
  qed (auto intro: edge_inv_admit edge_inv_finish edge_inv_failed)
qed

section \<open>What a device registry promises\<close>

text \<open>
  A registry answers by the device's identifier with its tenant, its store, the sealed secret and
  whether it is active. \<open>seal\<close> and \<open>unseal\<close> are how the registry stores a secret: as it is in memory,
  encrypted in Postgres.
\<close>

datatype registry_op = Provision edge_device | Revoke string string string

fun registry_run ::
  "(edge_device \<Rightarrow> 's \<Rightarrow> 's) \<Rightarrow> (string \<Rightarrow> string \<Rightarrow> string \<Rightarrow> 's \<Rightarrow> 's) \<Rightarrow> registry_op list \<Rightarrow> 's \<Rightarrow> 's" where
  "registry_run reg rvk [] s = s"
| "registry_run reg rvk (Provision d # ops) s = registry_run reg rvk ops (reg d s)"
| "registry_run reg rvk (Revoke i tenant store # ops) s = registry_run reg rvk ops (rvk i tenant store s)"

locale device_registry =
  fixes inv :: "'s \<Rightarrow> bool"
    and view :: "'s \<Rightarrow> string \<Rightarrow> (string \<times> string \<times> 'c \<times> bool) option"
    and seal :: "string \<Rightarrow> 'c result"
    and unseal :: "'c \<Rightarrow> string result"
    and reg :: "edge_device \<Rightarrow> 's \<Rightarrow> 's"
    and rvk :: "string \<Rightarrow> string \<Rightarrow> string \<Rightarrow> 's \<Rightarrow> 's"
    and active :: "string \<Rightarrow> 's \<Rightarrow> edge_device option result"
  assumes reg_inv: "inv s \<Longrightarrow> inv (reg d s)"
    and rev_inv: "inv s \<Longrightarrow> inv (rvk i tenant store s)"
    and reg_view: "inv s \<Longrightarrow> view (reg d s) j =
      (case seal (dev_secret d) of
         Inr c \<Rightarrow> if strip (dev_id d) \<noteq> [] \<and> dev_secret d \<noteq> [] \<and> j = dev_id d \<and> view s j = None
                  then Some (dev_tenant d, dev_store d, c, dev_active d) else view s j
       | Inl x \<Rightarrow> view s j)"
    and rev_view: "inv s \<Longrightarrow> view (rvk i tenant store s) j =
      (case view s j of
         Some (t, st, c, a) \<Rightarrow> Some (t, st, c, a \<and> \<not> (j = i \<and> t = tenant \<and> st = store))
       | None \<Rightarrow> None)"
    and active_view: "inv s \<Longrightarrow> active i s =
      (case view s i of
         Some (t, st, c, True) \<Rightarrow> bind_res (unseal c) (\<lambda>k. Inr (Some
           \<lparr>dev_id = i, dev_tenant = t, dev_store = st, dev_secret = k, dev_active = True\<rparr>))
       | _ \<Rightarrow> Inr None)"
begin

lemma run_inv: "inv s \<Longrightarrow> inv (registry_run reg rvk ops s)"
proof (induction ops arbitrary: s)
  case (Cons x ops)
  then show ?case by (cases x) (simp_all add: reg_inv rev_inv)
qed simp

text \<open>An identity, once registered, keeps its scope and its secret; only the active flag can drop.\<close>

lemma identity_kept:
  "inv s \<Longrightarrow> view s i = Some (t, st, c, a) \<Longrightarrow>
   view (registry_run reg rvk ops s) i = Some (t, st, c, a \<and> Revoke i t st \<notin> set ops)"
proof (induction ops arbitrary: s a)
  case (Cons x ops)
  show ?case
  proof (cases x)
    case (Provision d)
    then have "view (reg d s) i = Some (t, st, c, a)"
      using Cons.prems by (simp add: reg_view split: sum.splits)
    then show ?thesis using Cons.IH [of "reg d s" a] Cons.prems(1) Provision by (simp add: reg_inv)
  next
    case (Revoke j tenant store)
    then have "view (rvk j tenant store s) i = Some (t, st, c, a \<and> \<not> (i = j \<and> t = tenant \<and> st = store))"
      using Cons.prems by (simp add: rev_view)
    then show ?thesis
      using Cons.IH [of "rvk j tenant store s"] Cons.prems(1) Revoke by (auto simp: rev_inv)
  qed
qed simp

lemma revoked_stays_out:
  assumes "inv s" "view s i = Some (tenant, store, c, a)"
  shows "active i (registry_run reg rvk ops (rvk i tenant store s)) = Inr None"
  using identity_kept [OF rev_inv [OF assms(1)], of i tenant store i tenant store c False ops] assms
  by (simp add: active_view run_inv rev_inv rev_view)

lemma provisioned_is_served:
  assumes "inv s" "view s (dev_id d) = None" "strip (dev_id d) \<noteq> []" "dev_secret d \<noteq> []" "dev_active d"
    and "seal (dev_secret d) = Inr c" "unseal c = Inr (dev_secret d)"
    and "Revoke (dev_id d) (dev_tenant d) (dev_store d) \<notin> set ops"
  shows "active (dev_id d) (registry_run reg rvk ops (reg d s)) = Inr (Some d)"
proof -
  have "view (reg d s) (dev_id d) = Some (dev_tenant d, dev_store d, c, True)"
    using assms by (simp add: reg_view)
  then have "view (registry_run reg rvk ops (reg d s)) (dev_id d) = Some (dev_tenant d, dev_store d, c, True)"
    using identity_kept [OF reg_inv [OF assms(1)], of d "dev_id d" _ _ _ True ops] assms(8) by simp
  then show ?thesis using assms by (simp add: active_view run_inv reg_inv)
qed

end

text \<open>The state after a registration that may be refused, and after a revocation, in each registry.\<close>

definition dev_register_st :: "edge_device \<Rightarrow> edge_registry \<Rightarrow> edge_registry" where
  "dev_register_st d r = (case dev_register d r of Inr r' \<Rightarrow> r' | Inl x \<Rightarrow> r)"

definition dev_revoke_st :: "string \<Rightarrow> string \<Rightarrow> string \<Rightarrow> edge_registry \<Rightarrow> edge_registry" where
  "dev_revoke_st i tenant store r = fst (dev_revoke i tenant store r)"

definition pgd_register_st ::
  "environ \<Rightarrow> (string \<Rightarrow> string \<Rightarrow> string) \<Rightarrow> edge_device \<Rightarrow> device_table \<Rightarrow> device_table" where
  "pgd_register_st env cipher d tbl = (case pgd_register env cipher d tbl of Inr t \<Rightarrow> t | Inl x \<Rightarrow> tbl)"

definition pgd_revoke_st :: "string \<Rightarrow> string \<Rightarrow> string \<Rightarrow> device_table \<Rightarrow> device_table" where
  "pgd_revoke_st i tenant store tbl = fst (pgd_revoke i tenant store tbl)"

definition dev_scope :: "edge_device \<Rightarrow> string \<times> string \<times> string \<times> bool" where
  "dev_scope d = (dev_tenant d, dev_store d, dev_secret d, dev_active d)"

definition row_scope :: "device_row \<Rightarrow> string \<times> string \<times> string \<times> bool" where
  "row_scope r = (dv_tenant r, dv_store r, dv_encrypted r, dv_active r)"

definition registry_inv :: "edge_registry \<Rightarrow> bool" where
  "registry_inv r \<longleftrightarrow> (\<forall>i d. dict_get (reg_devices r) i = Some d \<longrightarrow> dev_id d = i)"

interpretation mem_devices: device_registry registry_inv
  "\<lambda>r i. map_option dev_scope (dict_get (reg_devices r) i)" Inr Inr dev_register_st dev_revoke_st
  "\<lambda>i r. Inr (dev_get_active i r)"
proof (unfold_locales, goal_cases)
  case (1 s d)
  then show ?case by (auto simp: registry_inv_def dev_register_st_def dev_register_def)
next
  case (2 s i tenant store)
  then show ?case by (auto simp: registry_inv_def dev_revoke_st_def dev_revoke_def split: option.splits)
next
  case (3 s d j)
  then show ?case
    by (auto simp: dev_register_st_def dev_register_def dev_scope_def dict_has_def split: option.splits)
next
  case (4 s i tenant store j)
  then show ?case
    by (auto simp: dev_revoke_st_def dev_revoke_def dev_scope_def split: option.splits)
next
  case (5 s i)
  then show ?case
    by (auto simp: registry_inv_def dev_get_active_def dev_scope_def split: option.splits bool.splits)
qed

interpretation pg_devices: device_registry "\<lambda>tbl. True"
  "\<lambda>tbl i. map_option row_scope (find_first (\<lambda>r. dv_id r = i) tbl)" "encrypt_secret env cipher"
  "decrypt_secret env plain" "pgd_register_st env cipher" pgd_revoke_st "pgd_get_active env plain"
  for env cipher plain
proof (unfold_locales, goal_cases)
  case (3 s d j)
  have taken: "(\<exists>r \<in> set s. dv_id r = dev_id d) \<longleftrightarrow> find_first (\<lambda>r. dv_id r = dev_id d) s \<noteq> None"
    by (auto simp: find_first_None_iff)
  show ?case
    by (cases "encrypt_secret env cipher (dev_secret d)"; cases "find_first (\<lambda>r. dv_id r = dev_id d) s")
      (auto simp: pgd_register_st_def pgd_register_def taken row_scope_def find_first_append split: option.splits)
next
  case (4 s i tenant store j)
  show ?case
    by (auto simp: pgd_revoke_st_def pgd_revoke_def row_scope_def Let_def find_first_map
        dest: find_first_SomeD split: option.splits)
next
  case (5 s i)
  show ?case
    by (auto simp: pgd_get_active_def device_of_def row_scope_def bind_res_def
        dest: find_first_SomeD split: option.splits sum.splits bool.splits)
qed simp_all

section \<open>Properties\<close>

text \<open>A batch of the example device of the witnesses, its signature and its decoding.\<close>

abbreviation demo_device :: edge_device where
  "demo_device \<equiv> \<lparr>dev_id = ''cam-0001'', dev_tenant = ''t1'', dev_store = ''s1'', dev_secret = ''k'',
     dev_active = True\<rparr>"

abbreviation demo_batch :: "nat edge_batch" where
  "demo_batch \<equiv> \<lparr>eb_id = ''batch-01'', eb_tenant = ''t1'', eb_store = ''s1'', eb_device = ''cam-0001'', eb_sent_aware = True,
     eb_observations = [(''t1'', ''s1'', 7)]\<rparr>"

abbreviation demo_hmac :: "string \<Rightarrow> string \<Rightarrow> string" where
  "demo_hmac \<equiv> \<lambda>secret body. replicate 64 (CHR ''a'')"

abbreviation demo_decode :: "string \<Rightarrow> nat edge_batch option" where
  "demo_decode \<equiv> \<lambda>body. if body = ''{}'' then Some demo_batch else None"

abbreviation demo_registry :: "batch_states \<Rightarrow> edge_registry" where
  "demo_registry bs \<equiv> \<lparr>reg_devices = [(''cam-0001'', demo_device)], reg_batches = bs\<rparr>"

lemma demo_admit:
  "admit_edge_batch demo_hmac demo_decode ''{}'' ''cam-0001'' (''sha256='' @ demo_hmac ''k'' ''{}'') (demo_registry []) =
     (demo_registry [((''t1'', ''batch-01''), ''claimed'')], Inr (Admitted demo_batch))"
  by (simp add: admit_edge_batch_def dev_get_active_def verify_signed_body_def max_edge_body_bytes_def
      removeprefix_def batch_valid_def batch_in_scope_def claim_batch_def Let_def)

text \<open>C34. However requests interleave - devices provisioned and revoked, batches admitted, turned away,
  projected or failed and retried - no batch is ever completed twice, no batch is in flight twice at
  once, and none is in flight once completed; the stored claims say exactly which are which.\<close>

theorem batch_projected_at_most_once:
  assumes "edge_reachable hmac decode s"
  shows "distinct (sy_projected s) \<and> distinct (sy_inflight s) \<and> set (sy_projected s) \<inter> set (sy_inflight s) = {} \<and>
    (\<forall>k. dict_get (reg_batches (sy_registry s)) k =
       (if k \<in> set (sy_projected s) then Some ''completed''
        else if k \<in> set (sy_inflight s) then Some ''claimed'' else None))"
proof -
  have inv: "edge_inv s" by (rule edge_reachable_inv [OF assms])
  have "dict_get (reg_batches (sy_registry s)) k =
      (if k \<in> set (sy_projected s) then Some ''completed''
       else if k \<in> set (sy_inflight s) then Some ''claimed'' else None)" for k
    using edge_invD(3-5) [OF inv, of k] by auto
  then show ?thesis using edge_invD(1-4) [OF inv] by auto
qed

lemma demo_reachable:
  "edge_reachable demo_hmac demo_decode
     \<lparr>sy_registry = demo_registry [((''t1'', ''batch-01''), ''completed'')], sy_inflight = [],
      sy_projected = [(''t1'', ''batch-01'')]\<rparr>"
proof -
  let ?s0 = "edge_init"
  let ?s1 = "?s0\<lparr>sy_registry := demo_registry []\<rparr>"
  let ?s2 = "?s1\<lparr>sy_registry := demo_registry [((''t1'', ''batch-01''), ''claimed'')], sy_inflight := [(''t1'', ''batch-01'')]\<rparr>"
  have "edge_step demo_hmac demo_decode ?s0 ?s1"
    by (rule edge_step.provision [of demo_device])
      (simp add: edge_init_def dev_register_def dict_has_def strip_def is_space_def)
  with edge_reachable.start have r1: "edge_reachable demo_hmac demo_decode ?s1" by (rule edge_reachable.step)
  have reg: "sy_registry ?s1 = demo_registry []" by simp
  have "edge_step demo_hmac demo_decode ?s1 (?s1\<lparr>sy_registry := demo_registry [((''t1'', ''batch-01''), ''claimed'')],
      sy_inflight := (eb_tenant demo_batch, eb_id demo_batch) # sy_inflight ?s1\<rparr>)"
    by (rule edge_step.admit) (subst reg, rule demo_admit)
  then have r2: "edge_reachable demo_hmac demo_decode ?s2"
    using edge_reachable.step [OF r1] by (simp add: edge_init_def)
  have "edge_step demo_hmac demo_decode ?s2 (?s2\<lparr>sy_registry := demo_registry [((''t1'', ''batch-01''), ''completed'')],
      sy_inflight := remove1 (eb_tenant demo_batch, eb_id demo_batch) (sy_inflight ?s2),
      sy_projected := sy_projected ?s2 @ [(eb_tenant demo_batch, eb_id demo_batch)]\<rparr>)"
    by (rule edge_step.finish) (simp_all add: settle_edge_batch_def complete_batch_def)
  then show ?thesis using edge_reachable.step [OF r2] by (simp add: edge_init_def)
qed

lemma batch_projected_at_most_once_witness:
  "distinct [(''t1'', ''batch-01'')] \<and>
   dict_get (reg_batches (demo_registry [((''t1'', ''batch-01''), ''completed'')])) (''t1'', ''batch-01'') = Some ''completed''"
  using batch_projected_at_most_once [OF demo_reachable] by simp

text \<open>C35. A batch that is admitted was sent under the identifier of a device that is registered and
  active, over a body of at most 512000 bytes signed with that device's secret, and names that device,
  its tenant and its store, as does each of its observations; its claim is then held.\<close>

theorem admitted_batch_is_authentic:
  assumes "admit_edge_batch hmac decode body i signature r = (r', Inr (Admitted b))"
  shows "\<exists>d. dict_get (reg_devices r) i = Some d \<and> dev_active d \<and> body \<noteq> [] \<and> length body \<le> 512000 \<and>
    signature = ''sha256='' @ hmac (dev_secret d) body \<and> decode body = Some b \<and>
    eb_device b = dev_id d \<and> eb_tenant b = dev_tenant d \<and> eb_store b = dev_store d \<and>
    (\<forall>ob \<in> set (eb_observations b). fst ob = dev_tenant d \<and> fst (snd ob) = dev_store d) \<and>
    reg_devices r' = reg_devices r \<and>
    dict_get (reg_batches r') (eb_tenant b, eb_id b) \<notin> {None, Some ''completed''}"
proof -
  from assms obtain d bs st where a: "dict_get (reg_devices r) i = Some d" "dev_active d"
    "verify_signed_body hmac body signature (dev_secret d)" "decode body = Some b" "batch_valid b" "batch_in_scope b d"
    "claim_batch (eb_tenant b) (eb_id b) (reg_batches r) = (bs, st)" "st \<noteq> ''completed''" "st \<noteq> ''in_progress''"
    "r' = r\<lparr>reg_batches := bs\<rparr>"
    by (rule admitted_batch)
  have size: "body \<noteq> []" "length body \<le> 512000"
    using assms by (auto simp: admit_edge_batch_def split: if_splits)
  have sg: "signature = ''sha256='' @ hmac (dev_secret d) body"
    using a(3) unfolding verify_signed_body_def removeprefix_def Let_def
    by (metis append_take_drop_id startswith_iff)
  have "dict_get bs (eb_tenant b, eb_id b) \<notin> {None, Some ''completed''}"
    using a(7) by (cases rule: claim_batch_cases) (use a(8) in auto)
  with a size sg show ?thesis
    by (auto simp: batch_in_scope_def list_all_iff)
qed

lemma admitted_batch_is_authentic_witness:
  "\<exists>d. dict_get (reg_devices (demo_registry [])) ''cam-0001'' = Some d \<and> dev_active d \<and> eb_tenant demo_batch = dev_tenant d"
  using admitted_batch_is_authentic [OF demo_admit] by blast

text \<open>In Postgres, once a revocation has hit a device, that identifier never authenticates again:
  whatever is provisioned or revoked afterwards, including a new registration of the same identifier.\<close>

theorem revocation_is_final:
  assumes "pgd_revoke i tenant store tbl = (tbl', True)" "distinct (map dv_id tbl)"
  shows "pgd_get_active env plain i (registry_run (pgd_register_st env cipher) pgd_revoke_st ops tbl') = Inr None"
proof -
  from assms(1) obtain r where r: "r \<in> set tbl" "dv_id r = i" "dv_tenant r = tenant" "dv_store r = store"
    by (auto simp: pgd_revoke_def Let_def)
  then obtain r' where f: "find_first (\<lambda>r. dv_id r = i) tbl = Some r'"
    by (cases "find_first (\<lambda>r. dv_id r = i) tbl") (auto simp: find_first_None_iff)
  then have "r' = r"
    using find_first_SomeD [OF f] r assms(2) by (auto simp: distinct_map dest: inj_onD)
  with f r have "map_option row_scope (find_first (\<lambda>r. dv_id r = i) tbl) = Some (tenant, store, dv_encrypted r, dv_active r)"
    by (simp add: row_scope_def)
  moreover have "tbl' = pgd_revoke_st i tenant store tbl" using assms(1) by (simp add: pgd_revoke_st_def)
  ultimately show ?thesis using pg_devices.revoked_stays_out by simp
qed

lemma revocation_is_final_witness:
  "pgd_get_active (\<lambda>x. Some ''key'') (\<lambda>k c. Some c) ''cam-0001''
     (registry_run (pgd_register_st (\<lambda>x. Some ''key'') (\<lambda>k s. s)) pgd_revoke_st [Provision demo_device]
       [\<lparr>dv_id = ''cam-0001'', dv_tenant = ''t1'', dv_store = ''s1'', dv_encrypted = ''k'', dv_active = False\<rparr>]) = Inr None"
  by (rule revocation_is_final [of "''cam-0001''" "''t1''" "''s1''"
        "[\<lparr>dv_id = ''cam-0001'', dv_tenant = ''t1'', dv_store = ''s1'', dv_encrypted = ''k'', dv_active = True\<rparr>]"])
    (simp_all add: pgd_revoke_def)

text \<open>A device registered in Postgres under a fresh identifier is returned to the signature check
  exactly as it was registered, its secret decrypted, after any further provisioning and revoking that
  does not revoke that very device; decryption is only assumed to invert encryption under one key.\<close>

theorem device_secret_roundtrip:
  assumes "encryption_key env = Inr k" "\<And>x. plain k (cipher k x) = Some x"
    and "pgd_register env cipher d tbl = Inr tbl'" "dev_active d"
    and "Revoke (dev_id d) (dev_tenant d) (dev_store d) \<notin> set ops"
  shows "pgd_get_active env plain (dev_id d)
    (registry_run (pgd_register_st env cipher) pgd_revoke_st ops tbl') = Inr (Some d)"
proof -
  have "find_first (\<lambda>r. dv_id r = dev_id d) tbl = None" "strip (dev_id d) \<noteq> []" "dev_secret d \<noteq> []"
    using assms(3) by (auto simp: pgd_register_def find_first_None_iff bind_res_Inr_iff split: if_splits)
  moreover have "tbl' = pgd_register_st env cipher d tbl" using assms(3) by (simp add: pgd_register_st_def)
  moreover have "encrypt_secret env cipher (dev_secret d) = Inr (cipher k (dev_secret d))"
    "decrypt_secret env plain (cipher k (dev_secret d)) = Inr (dev_secret d)"
    using assms(1,2) by (simp_all add: encrypt_secret_def decrypt_secret_def)
  ultimately show ?thesis using pg_devices.provisioned_is_served assms(4,5) by simp
qed

lemma device_secret_roundtrip_witness:
  "pgd_get_active (\<lambda>x. Some ''key'') (\<lambda>k c. Some (rev c)) ''cam-0001''
     (registry_run (pgd_register_st (\<lambda>x. Some ''key'') (\<lambda>k s. rev s)) pgd_revoke_st [Revoke ''cam-0001'' ''t2'' ''s1'']
       [\<lparr>dv_id = ''cam-0001'', dv_tenant = ''t1'', dv_store = ''s1'', dv_encrypted = rev ''k'', dv_active = True\<rparr>]) =
   Inr (Some demo_device)"
  using device_secret_roundtrip [of "\<lambda>x. Some ''key''" "''key''" "\<lambda>k c. Some (rev c)" "\<lambda>k s. rev s" demo_device "[]"
        "[\<lparr>dv_id = ''cam-0001'', dv_tenant = ''t1'', dv_store = ''s1'', dv_encrypted = rev ''k'', dv_active = True\<rparr>]"
        "[Revoke ''cam-0001'' ''t2'' ''s1'']"]
  by (simp add: encryption_key_def getenv_def strip_def is_space_def pgd_register_def encrypt_secret_def)

end
