(* ===== verification/Twin.thy ===== *)
theory Twin
  imports Contracts Storage PyCal
begin

text \<open>
  The digital twin of a store: the data model with its validation (\<open>src/shelfwise_twin/models.py\<close>), both
  twin stores (\<open>store.py\<close>) and the projector that keeps the current value of each property
  (\<open>projector.py\<close>). The projector is written against the storage contract of \<open>TwinProjectionStore\<close>; the
  locale \<open>twin_projection\<close> states that contract and both stores interpret it. Clock readings are
  arguments, and so is the multiplication \<open>fm\<close> of binary floating-point numbers.
\<close>

section \<open>The data model\<close>

datatype state_lane = REPORTED | ESTIMATED | DESIRED | PREDICTED

fun lane_value :: "state_lane \<Rightarrow> string" where
  "lane_value REPORTED = ''reported''"
| "lane_value ESTIMATED = ''estimated''"
| "lane_value DESIRED = ''desired''"
| "lane_value PREDICTED = ''predicted''"

datatype freshness_state = FRESH | DEGRADED | STALE | UNKNOWN

record twin_entity =
  te_twin_id :: string
  te_tenant :: string
  te_store :: string
  te_type :: string
  te_display :: string
  te_model_version :: string
  te_attributes :: pydict
  te_created_at :: datetime
  te_retired_at :: "datetime option"

record twin_relationship =
  tr_id :: string
  tr_tenant_id :: string
  tr_source :: string
  tr_type :: string
  tr_target :: string
  tr_attributes :: pydict
  tr_valid_from :: datetime
  tr_valid_to :: "datetime option"

record twin_observation =
  ob_id :: string
  ob_tenant :: string
  ob_store :: string
  ob_twin_id :: string
  ob_property :: string
  ob_lane :: state_lane
  ob_value :: pyval
  ob_unit :: "string option"
  ob_observed_at :: datetime
  ob_ingested_at :: datetime
  ob_source_system :: string
  ob_source_object :: string
  ob_sequence :: "string option"
  ob_quality :: rat
  ob_schema_version :: string
  ob_correlation_id :: string
  ob_causation_id :: "string option"
  ob_branch :: "string option"
  ob_hash :: string

record property_state =
  st_tenant :: string
  st_twin_id :: string
  st_property :: string
  st_lane :: state_lane
  st_value :: pyval
  st_unit :: "string option"
  st_observation_id :: string
  st_observed_at :: datetime
  st_projected_at :: datetime
  st_source_system :: string
  st_quality :: rat
  st_confidence :: rat
  st_freshness :: freshness_state
  st_branch :: "string option"

section \<open>Safe values\<close>

definition ascii_between :: "char \<Rightarrow> char \<Rightarrow> char \<Rightarrow> bool" where
  "ascii_between a b c \<longleftrightarrow> (of_char a :: nat) \<le> of_char c \<and> (of_char c :: nat) \<le> of_char b"

definition is_az :: "char \<Rightarrow> bool" where "is_az c = ascii_between (CHR ''a'') (CHR ''z'') c"
definition is_AZ :: "char \<Rightarrow> bool" where "is_AZ c = ascii_between (CHR ''A'') (CHR ''Z'') c"
definition is_09 :: "char \<Rightarrow> bool" where "is_09 c = ascii_between (CHR ''0'') (CHR ''9'') c"

definition safe_key :: "string \<Rightarrow> bool" where
  "safe_key k \<longleftrightarrow> 1 \<le> length k \<and> length k \<le> 120 \<and>
     list_all (\<lambda>c. is_az c \<or> is_AZ c \<or> is_09 c \<or> c \<in> set ''_.:-'') k"

definition media_key_parts :: "string list" where
  "media_key_parts = [''image'', ''video'', ''frame'', ''audio'', ''footage'', ''biometric'', ''raw_media'']"

definition media_key :: "string \<Rightarrow> bool" where
  "media_key k \<longleftrightarrow> list_ex (contains (lower k)) media_key_parts"

definition too_deep :: "unit result" where
  "too_deep = Inl (ValueError ''observation value is too deeply nested'')"

fun assert_safe_value :: "nat \<Rightarrow> pyval \<Rightarrow> unit result"
  and assert_safe_items :: "nat \<Rightarrow> pyval list \<Rightarrow> unit result"
  and assert_safe_fields :: "nat \<Rightarrow> (string \<times> pyval) list \<Rightarrow> unit result" where
  "assert_safe_value depth (PyStr s) = (if depth > 6 then too_deep
     else if length s > 4000 then Inl (ValueError ''observation text value is too long'') else Inr ())"
| "assert_safe_value depth (PyList xs) = (if depth > 6 then too_deep
     else if length xs > 100 then Inl (ValueError ''observation list is too large'')
     else assert_safe_items (depth + 1) xs)"
| "assert_safe_value depth (PyDict d) = (if depth > 6 then too_deep
     else if length d > 100 then Inl (ValueError ''observation object is too large'')
     else assert_safe_fields (depth + 1) d)"
| "assert_safe_value depth v = (if depth > 6 then too_deep else Inr ())"
| "assert_safe_items depth [] = Inr ()"
| "assert_safe_items depth (x # xs) =
     bind_res (assert_safe_value depth x) (\<lambda>u. assert_safe_items depth xs)"
| "assert_safe_fields depth [] = Inr ()"
| "assert_safe_fields depth ((k, x) # d) =
     (if \<not> safe_key k then Inl (ValueError ''observation contains an invalid field name'')
      else if media_key k then Inl (ValueError ''raw media and biometric fields are not accepted'')
      else bind_res (assert_safe_value depth x) (\<lambda>u. assert_safe_fields depth d))"

section \<open>Validation of the models\<close>

definition len_between :: "nat \<Rightarrow> nat \<Rightarrow> string \<Rightarrow> bool" where
  "len_between a b s \<longleftrightarrow> a \<le> length s \<and> length s \<le> b"

definition opt_len :: "nat \<Rightarrow> string option \<Rightarrow> bool" where
  "opt_len b x \<longleftrightarrow> (case x of None \<Rightarrow> True | Some s \<Rightarrow> length s \<le> b)"

definition aware :: "datetime \<Rightarrow> bool" where
  "aware t \<longleftrightarrow> dt_offset t \<noteq> None"

text \<open>The patterns \<open>^[a-z][a-z0-9_]{1,63}$\<close>, \<open>^[a-z][a-z0-9_.]{1,127}$\<close> and \<open>^[a-f0-9]{64}$\<close>.\<close>

definition name_pattern :: "string \<Rightarrow> nat \<Rightarrow> string \<Rightarrow> bool" where
  "name_pattern extra n s \<longleftrightarrow> (case s of [] \<Rightarrow> False | c # cs \<Rightarrow> is_az c \<and> len_between 1 n cs \<and>
     list_all (\<lambda>x. is_az x \<or> is_09 x \<or> x \<in> set extra) cs)"

definition hash_pattern :: "string \<Rightarrow> bool" where
  "hash_pattern s \<longleftrightarrow> length s = 64 \<and>
     list_all (\<lambda>c. ascii_between (CHR ''a'') (CHR ''f'') c \<or> is_09 c) s"

definition entity_valid :: "twin_entity \<Rightarrow> bool" where
  "entity_valid e \<longleftrightarrow> len_between 8 300 (te_twin_id e) \<and> len_between 1 100 (te_tenant e) \<and>
     len_between 1 100 (te_store e) \<and> name_pattern ''_'' 63 (te_type e) \<and> len_between 1 200 (te_display e) \<and>
     len_between 1 40 (te_model_version e) \<and> startswith (te_twin_id e) ''urn:shelfwise:'' \<and>
     aware (te_created_at e) \<and> (case te_retired_at e of None \<Rightarrow> True | Some t \<Rightarrow> aware t)"

definition relationship_valid :: "twin_relationship \<Rightarrow> bool" where
  "relationship_valid r \<longleftrightarrow> len_between 8 300 (tr_id r) \<and> len_between 1 100 (tr_tenant_id r) \<and>
     len_between 8 300 (tr_source r) \<and> name_pattern ''_'' 63 (tr_type r) \<and> len_between 8 300 (tr_target r) \<and>
     aware (tr_valid_from r) \<and> (case tr_valid_to r of None \<Rightarrow> True | Some t \<Rightarrow> aware t)"

text \<open>\<open>validate_lane_branch\<close>: an empty branch counts as none.\<close>

definition lane_branch_ok :: "state_lane \<Rightarrow> string option \<Rightarrow> bool" where
  "lane_branch_ok lane branch \<longleftrightarrow>
     (if lane = PREDICTED then branch \<notin> {None, Some []} else branch \<in> {None, Some []})"

definition observation_valid :: "twin_observation \<Rightarrow> bool" where
  "observation_valid ob \<longleftrightarrow> len_between 8 300 (ob_id ob) \<and> len_between 1 100 (ob_tenant ob) \<and>
     len_between 1 100 (ob_store ob) \<and> len_between 8 300 (ob_twin_id ob) \<and>
     name_pattern ''_.'' 127 (ob_property ob) \<and> opt_len 40 (ob_unit ob) \<and>
     len_between 1 80 (ob_source_system ob) \<and> len_between 1 300 (ob_source_object ob) \<and>
     opt_len 200 (ob_sequence ob) \<and> 0 \<le> ob_quality ob \<and> ob_quality ob \<le> 1 \<and>
     len_between 1 40 (ob_schema_version ob) \<and> len_between 1 300 (ob_correlation_id ob) \<and>
     opt_len 300 (ob_causation_id ob) \<and> opt_len 200 (ob_branch ob) \<and> hash_pattern (ob_hash ob) \<and>
     aware (ob_observed_at ob) \<and> aware (ob_ingested_at ob) \<and>
     assert_safe_value 0 (ob_value ob) = Inr () \<and> lane_branch_ok (ob_lane ob) (ob_branch ob)"

section \<open>The in-memory store\<close>

type_synonym property_key = "string \<times> string \<times> string \<times> string \<times> string"
type_synonym dedupe_key = "string \<times> string \<times> string \<times> string \<times> string \<times> string"

definition or_blank :: "string option \<Rightarrow> string" where
  "or_blank x = (case x of None \<Rightarrow> [] | Some s \<Rightarrow> s)"

definition property_key :: "string \<Rightarrow> string \<Rightarrow> string \<Rightarrow> state_lane \<Rightarrow> string option \<Rightarrow> property_key" where
  "property_key tenant twin prop lane branch = (tenant, twin, prop, lane_value lane, or_blank branch)"

definition state_key :: "property_state \<Rightarrow> property_key" where
  "state_key v = property_key (st_tenant v) (st_twin_id v) (st_property v) (st_lane v) (st_branch v)"

definition dedupe_key :: "twin_observation \<Rightarrow> dedupe_key" where
  "dedupe_key ob = (ob_tenant ob, ob_source_system ob, ob_source_object ob, ob_property ob,
     lane_value (ob_lane ob), ob_hash ob)"

record twin_store =
  tw_entities :: "(string \<times> string, twin_entity) dict"
  tw_relationships :: "(string \<times> string, twin_relationship) dict"
  tw_observations :: "(string \<times> string, twin_observation) dict"
  tw_dedupe :: "dedupe_key list"
  tw_properties :: "(property_key, property_state) dict"

definition tw_empty :: twin_store where
  "tw_empty = \<lparr>tw_entities = [], tw_relationships = [], tw_observations = [], tw_dedupe = [], tw_properties = []\<rparr>"

definition tw_ensure_entity :: "twin_entity \<Rightarrow> twin_store \<Rightarrow> twin_store \<times> twin_entity" where
  "tw_ensure_entity e s = (case dict_get (tw_entities s) (te_tenant e, te_twin_id e) of
       Some x \<Rightarrow> (s, x)
     | None \<Rightarrow> (s\<lparr>tw_entities := dict_set (te_tenant e, te_twin_id e) e (tw_entities s)\<rparr>, e))"

definition tw_get_entity :: "string \<Rightarrow> string \<Rightarrow> twin_store \<Rightarrow> twin_entity option" where
  "tw_get_entity tenant twin s = dict_get (tw_entities s) (tenant, twin)"

definition tw_list_entities :: "string \<Rightarrow> string option \<Rightarrow> twin_store \<Rightarrow> twin_entity list" where
  "tw_list_entities tenant store s = sorted_by te_twin_id (map snd (filter (\<lambda>((t, i), e).
     t = tenant \<and> (case store of None \<Rightarrow> True | Some x \<Rightarrow> te_store e = x)) (tw_entities s)))"

definition tw_add_relationship :: "twin_relationship \<Rightarrow> twin_store \<Rightarrow> twin_store \<times> twin_relationship" where
  "tw_add_relationship r s = (case dict_get (tw_relationships s) (tr_tenant_id r, tr_id r) of
       Some x \<Rightarrow> (s, x)
     | None \<Rightarrow> (s\<lparr>tw_relationships := dict_set (tr_tenant_id r, tr_id r) r (tw_relationships s)\<rparr>, r))"

definition entity_in_store :: "string \<Rightarrow> string \<Rightarrow> string \<Rightarrow> twin_store \<Rightarrow> bool" where
  "entity_in_store twin tenant store s = (case dict_get (tw_entities s) (tenant, twin) of
       None \<Rightarrow> False | Some e \<Rightarrow> te_store e = store)"

definition tw_list_relationships :: "string \<Rightarrow> string option \<Rightarrow> twin_store \<Rightarrow> twin_relationship list" where
  "tw_list_relationships tenant store s = sorted_by tr_id (map snd (filter (\<lambda>((t, i), r).
     t = tenant \<and> (case store of None \<Rightarrow> True
       | Some x \<Rightarrow> entity_in_store (tr_source r) tenant x s \<or> entity_in_store (tr_target r) tenant x s))
     (tw_relationships s)))"

definition tw_record_observation :: "twin_observation \<Rightarrow> twin_store \<Rightarrow> twin_store \<times> bool" where
  "tw_record_observation ob s =
     (if dict_has (ob_tenant ob, ob_id ob) (tw_observations s) \<or> dedupe_key ob \<in> set (tw_dedupe s) then (s, False)
      else (s\<lparr>tw_observations := dict_set (ob_tenant ob, ob_id ob) ob (tw_observations s),
              tw_dedupe := List.insert (dedupe_key ob) (tw_dedupe s)\<rparr>, True))"

definition tw_list_observations ::
  "string \<Rightarrow> string option \<Rightarrow> int \<Rightarrow> bool \<Rightarrow> twin_store \<Rightarrow> twin_observation list result" where
  "tw_list_observations tenant store limit include_predicted s = bind_res (validate_limit limit) (\<lambda>u.
     Inr (take (nat limit) (sorted_by_desc (\<lambda>ob. (instant (ob_observed_at ob), ob_id ob))
       (map snd (filter (\<lambda>((t, i), ob). t = tenant \<and>
          (case store of None \<Rightarrow> True | Some x \<Rightarrow> ob_store ob = x) \<and>
          (include_predicted \<or> ob_lane ob \<noteq> PREDICTED)) (tw_observations s))))))"

definition tw_get_property ::
  "string \<Rightarrow> string \<Rightarrow> string \<Rightarrow> state_lane \<Rightarrow> string option \<Rightarrow> twin_store \<Rightarrow> property_state option" where
  "tw_get_property tenant twin prop lane branch s =
     dict_get (tw_properties s) (property_key tenant twin prop lane branch)"

definition tw_upsert_property :: "property_state \<Rightarrow> twin_store \<Rightarrow> twin_store" where
  "tw_upsert_property v s = s\<lparr>tw_properties := dict_set (state_key v) v (tw_properties s)\<rparr>"

definition tw_list_properties :: "string \<Rightarrow> string option \<Rightarrow> bool \<Rightarrow> twin_store \<Rightarrow> property_state list" where
  "tw_list_properties tenant store include_predicted s = sorted_by (\<lambda>v. (st_twin_id v, st_property v))
     (map snd (filter (\<lambda>((t, twin, k), v). t = tenant \<and>
        (case store of None \<Rightarrow> True | Some x \<Rightarrow> entity_in_store twin tenant x s) \<and>
        (include_predicted \<or> st_lane v \<noteq> PREDICTED)) (tw_properties s)))"

definition tw_clear :: "twin_store \<Rightarrow> twin_store" where
  "tw_clear s = tw_empty"

section \<open>The Postgres store\<close>

text \<open>
  One list per table. Every statement runs in a session bound to the tenant it names, whose policy
  hides other tenants' rows and refuses to write them. A relationship or an observation refers to its
  entities by foreign key. A branch is stored as the empty string when there is none, and read back
  as none when it is empty.
\<close>

record twin_db =
  td_entities :: "twin_entity list"
  td_relationships :: "twin_relationship list"
  td_observations :: "twin_observation list"
  td_properties :: "property_state list"

definition td_empty :: twin_db where
  "td_empty = \<lparr>td_entities = [], td_relationships = [], td_observations = [], td_properties = []\<rparr>"

definition fk_violation :: "'a result" where
  "fk_violation = Inl (DatabaseError ''violates foreign key constraint'')"

definition rls_violation :: "'a result" where
  "rls_violation = Inl (DatabaseError ''new row violates row-level security policy'')"

definition entity_row :: "string \<Rightarrow> string \<Rightarrow> twin_entity \<Rightarrow> bool" where
  "entity_row tenant twin e \<longleftrightarrow> te_tenant e = tenant \<and> te_twin_id e = twin"

definition pgt_get_entity ::
  "environ \<Rightarrow> string option \<Rightarrow> string \<Rightarrow> string \<Rightarrow> twin_db \<Rightarrow> twin_entity option result" where
  "pgt_get_entity env ctx tenant twin db = bind_res (session_tenant env ctx (Some tenant)) (\<lambda>session.
     Inr (find_first (\<lambda>e. te_tenant e = session \<and> entity_row tenant twin e) (td_entities db)))"

definition pgt_ensure_entity ::
  "environ \<Rightarrow> string option \<Rightarrow> twin_entity \<Rightarrow> twin_db \<Rightarrow> (twin_db \<times> twin_entity) result" where
  "pgt_ensure_entity env ctx e db = bind_res (session_tenant env ctx (Some (te_tenant e))) (\<lambda>session.
     if te_tenant e \<noteq> session then rls_violation
     else let db' = (if list_ex (entity_row (te_tenant e) (te_twin_id e)) (td_entities db) then db
                     else db\<lparr>td_entities := td_entities db @ [e]\<rparr>)
          in bind_res (pgt_get_entity env ctx (te_tenant e) (te_twin_id e) db') (\<lambda>r.
               Inr (db', case r of Some x \<Rightarrow> x | None \<Rightarrow> e)))"

definition pgt_list_entities ::
  "environ \<Rightarrow> string option \<Rightarrow> string \<Rightarrow> string option \<Rightarrow> twin_db \<Rightarrow> twin_entity list result" where
  "pgt_list_entities env ctx tenant store db = bind_res (session_tenant env ctx (Some tenant)) (\<lambda>session.
     Inr (sorted_by te_twin_id (filter (\<lambda>e. te_tenant e = session \<and> te_tenant e = tenant \<and>
       (case store of None \<Rightarrow> True | Some x \<Rightarrow> te_store e = x)) (td_entities db))))"

definition pgt_add_relationship ::
  "environ \<Rightarrow> string option \<Rightarrow> twin_relationship \<Rightarrow> twin_db \<Rightarrow> (twin_db \<times> twin_relationship) result" where
  "pgt_add_relationship env ctx r db = bind_res (session_tenant env ctx (Some (tr_tenant_id r))) (\<lambda>session.
     if tr_tenant_id r \<noteq> session then rls_violation
     else if list_ex (\<lambda>x. tr_tenant_id x = tr_tenant_id r \<and> tr_id x = tr_id r) (td_relationships db) then Inr (db, r)
     else if \<not> list_ex (entity_row (tr_tenant_id r) (tr_source r)) (td_entities db) \<or>
             \<not> list_ex (entity_row (tr_tenant_id r) (tr_target r)) (td_entities db) then fk_violation
     else Inr (db\<lparr>td_relationships := td_relationships db @ [r]\<rparr>, r))"

definition pgt_list_relationships ::
  "environ \<Rightarrow> string option \<Rightarrow> string \<Rightarrow> string option \<Rightarrow> twin_db \<Rightarrow> twin_relationship list result" where
  "pgt_list_relationships env ctx tenant store db = bind_res (session_tenant env ctx (Some tenant)) (\<lambda>session.
     Inr (sorted_by tr_id (filter (\<lambda>r. tr_tenant_id r = session \<and> tr_tenant_id r = tenant \<and>
       (case store of None \<Rightarrow> True
        | Some x \<Rightarrow> list_ex (entity_row (tr_tenant_id r) (tr_source r)) (td_entities db) \<and>
            list_ex (\<lambda>e. te_store e = x \<and> (entity_row (tr_tenant_id r) (tr_source r) e \<or>
              entity_row (tr_tenant_id r) (tr_target r) e)) (td_entities db))) (td_relationships db))))"

definition pgt_record_observation ::
  "environ \<Rightarrow> string option \<Rightarrow> twin_observation \<Rightarrow> twin_db \<Rightarrow> (twin_db \<times> bool) result" where
  "pgt_record_observation env ctx ob db = bind_res (session_tenant env ctx (Some (ob_tenant ob))) (\<lambda>session.
     if ob_tenant ob \<noteq> session then rls_violation
     else if list_ex (\<lambda>x. (ob_tenant x, ob_id x) = (ob_tenant ob, ob_id ob) \<or> dedupe_key x = dedupe_key ob)
       (td_observations db) then Inr (db, False)
     else if \<not> list_ex (entity_row (ob_tenant ob) (ob_twin_id ob)) (td_entities db) then fk_violation
     else Inr (db\<lparr>td_observations := td_observations db @ [ob]\<rparr>, True))"

definition pgt_list_observations ::
  "environ \<Rightarrow> string option \<Rightarrow> string \<Rightarrow> string option \<Rightarrow> int \<Rightarrow> bool \<Rightarrow> twin_db \<Rightarrow> twin_observation list result" where
  "pgt_list_observations env ctx tenant store limit include_predicted db =
     bind_res (validate_limit limit) (\<lambda>u. bind_res (session_tenant env ctx (Some tenant)) (\<lambda>session.
       Inr (take (nat limit) (sorted_by_desc (\<lambda>ob. (instant (ob_observed_at ob), ob_id ob))
         (filter (\<lambda>ob. ob_tenant ob = session \<and> ob_tenant ob = tenant \<and>
            (case store of None \<Rightarrow> True | Some x \<Rightarrow> ob_store ob = x) \<and>
            (include_predicted \<or> lane_value (ob_lane ob) \<noteq> lane_value PREDICTED)) (td_observations db))))))"

definition norm_branch :: "property_state \<Rightarrow> property_state" where
  "norm_branch v = v\<lparr>st_branch := (case st_branch v of None \<Rightarrow> None | Some b \<Rightarrow> if b = [] then None else Some b)\<rparr>"

definition pgt_get_property ::
  "environ \<Rightarrow> string option \<Rightarrow> string \<Rightarrow> string \<Rightarrow> string \<Rightarrow> state_lane \<Rightarrow> string option \<Rightarrow> twin_db \<Rightarrow>
   property_state option result" where
  "pgt_get_property env ctx tenant twin prop lane branch db =
     bind_res (session_tenant env ctx (Some tenant)) (\<lambda>session.
       Inr (find_first (\<lambda>v. st_tenant v = session \<and> state_key v = property_key tenant twin prop lane branch)
         (td_properties db)))"

definition pgt_upsert_property ::
  "environ \<Rightarrow> string option \<Rightarrow> property_state \<Rightarrow> twin_db \<Rightarrow> twin_db result" where
  "pgt_upsert_property env ctx v db = bind_res (session_tenant env ctx (Some (st_tenant v))) (\<lambda>session.
     if st_tenant v \<noteq> session then rls_violation
     else if list_ex (\<lambda>x. state_key x = state_key v) (td_properties db)
     then Inr (db\<lparr>td_properties :=
            map (\<lambda>x. if state_key x = state_key v then norm_branch v else x) (td_properties db)\<rparr>)
     else Inr (db\<lparr>td_properties := td_properties db @ [norm_branch v]\<rparr>))"

definition pgt_list_properties ::
  "environ \<Rightarrow> string option \<Rightarrow> string \<Rightarrow> string option \<Rightarrow> bool \<Rightarrow> twin_db \<Rightarrow> property_state list result" where
  "pgt_list_properties env ctx tenant store include_predicted db =
     bind_res (session_tenant env ctx (Some tenant)) (\<lambda>session.
       Inr (sorted_by (\<lambda>v. (st_twin_id v, st_property v)) (filter (\<lambda>v. st_tenant v = session \<and> st_tenant v = tenant \<and>
         (case store of None \<Rightarrow> True
          | Some x \<Rightarrow> list_ex (\<lambda>e. entity_row (st_tenant v) (st_twin_id v) e \<and> te_store e = x) (td_entities db)) \<and>
         (include_predicted \<or> lane_value (st_lane v) \<noteq> lane_value PREDICTED)) (td_properties db))))"

section \<open>The projector\<close>

record source_policy =
  sp_source :: string
  sp_precedence :: int
  sp_max_age :: int
  sp_reliability :: rat

type_synonym policy_resolver = "string \<Rightarrow> string \<Rightarrow> source_policy"

definition hours :: "int \<Rightarrow> int" where
  "hours n = n * 3600000000"

definition default_source_policy :: policy_resolver where
  "default_source_policy prop source =
     (let n = lower (strip source) in
      if n = ''api'' then \<lparr>sp_source = n, sp_precedence = 10, sp_max_age = hours 1, sp_reliability = 95 / 100\<rparr>
      else if n = ''manual'' then \<lparr>sp_source = n, sp_precedence = 15, sp_max_age = hours 4, sp_reliability = 90 / 100\<rparr>
      else if n = ''scanner'' then \<lparr>sp_source = n, sp_precedence = 20, sp_max_age = hours 12, sp_reliability = 90 / 100\<rparr>
      else if n = ''pos_csv'' then \<lparr>sp_source = n, sp_precedence = 30, sp_max_age = hours 24, sp_reliability = 88 / 100\<rparr>
      else if n = ''wms_csv'' then \<lparr>sp_source = n, sp_precedence = 30, sp_max_age = hours 12, sp_reliability = 88 / 100\<rparr>
      else \<lparr>sp_source = (if n = [] then ''unknown'' else n), sp_precedence = 50, sp_max_age = hours 24,
            sp_reliability = 75 / 100\<rparr>)"

definition freshness_of :: "datetime \<Rightarrow> datetime \<Rightarrow> int \<Rightarrow> freshness_state \<times> rat" where
  "freshness_of now observed max_age =
     (let age = max 0 (instant now - instant observed) in
      if age \<le> max_age then (FRESH, 1) else if age \<le> max_age * 2 then (DEGRADED, 6 / 10) else (STALE, 0))"

definition state_of ::
  "policy_resolver \<Rightarrow> (rat \<Rightarrow> rat \<Rightarrow> rat) \<Rightarrow> datetime \<Rightarrow> twin_observation \<Rightarrow> property_state" where
  "state_of policy fm now ob =
     (let p = policy (ob_property ob) (ob_source_system ob);
          (fresh, factor) = freshness_of now (ob_observed_at ob) (sp_max_age p) in
      \<lparr>st_tenant = ob_tenant ob, st_twin_id = ob_twin_id ob, st_property = ob_property ob, st_lane = ob_lane ob,
       st_value = ob_value ob, st_unit = ob_unit ob, st_observation_id = ob_id ob,
       st_observed_at = ob_observed_at ob, st_projected_at = now, st_source_system = ob_source_system ob,
       st_quality = ob_quality ob,
       st_confidence = max 0 (min 1 (fm (fm (sp_reliability p) (ob_quality ob)) factor)),
       st_freshness = fresh, st_branch = ob_branch ob\<rparr>)"

definition may_replace :: "policy_resolver \<Rightarrow> property_state \<Rightarrow> twin_observation \<Rightarrow> bool" where
  "may_replace policy cur ob =
     (if instant (ob_observed_at ob) > instant (st_observed_at cur) then True
      else if instant (ob_observed_at ob) < instant (st_observed_at cur) then False
      else let p = policy (ob_property ob) (ob_source_system ob);
               q = policy (st_property cur) (st_source_system cur) in
           if sp_precedence p \<noteq> sp_precedence q then sp_precedence p < sp_precedence q
           else ob_id ob > st_observation_id cur)"

record projection_result =
  pr_status :: string
  pr_observation_id :: string
  pr_reason :: string
  pr_state :: "property_state option"

text \<open>The storage contract \<open>TwinProjectionStore\<close> the projector is written against.\<close>

record 's projection_store =
  ps_record :: "twin_observation \<Rightarrow> 's \<Rightarrow> ('s \<times> bool) result"
  ps_get :: "string \<Rightarrow> string \<Rightarrow> string \<Rightarrow> state_lane \<Rightarrow> string option \<Rightarrow> 's \<Rightarrow> property_state option result"
  ps_upsert :: "property_state \<Rightarrow> 's \<Rightarrow> 's result"

definition proj_apply ::
  "'s projection_store \<Rightarrow> policy_resolver \<Rightarrow> (rat \<Rightarrow> rat \<Rightarrow> rat) \<Rightarrow> datetime \<Rightarrow> twin_observation \<Rightarrow> 's \<Rightarrow>
   's \<times> projection_result result" where
  "proj_apply st policy fm now ob s = (case ps_record st ob s of
       Inl x \<Rightarrow> (s, Inl x)
     | Inr (s1, False) \<Rightarrow> (s1, Inr \<lparr>pr_status = ''duplicate'', pr_observation_id = ob_id ob,
         pr_reason = ''already recorded'', pr_state = None\<rparr>)
     | Inr (s1, True) \<Rightarrow>
         (case ps_get st (ob_tenant ob) (ob_twin_id ob) (ob_property ob) (ob_lane ob) (ob_branch ob) s1 of
            Inl x \<Rightarrow> (s1, Inl x)
          | Inr cur \<Rightarrow>
              if (case cur of None \<Rightarrow> False | Some c \<Rightarrow> \<not> may_replace policy c ob)
              then (s1, Inr \<lparr>pr_status = ''recorded_not_projected'', pr_observation_id = ob_id ob,
                     pr_reason = ''older or lower-authority observation'', pr_state = cur\<rparr>)
              else (let v = state_of policy fm now ob in
                case ps_upsert st v s1 of
                  Inl x \<Rightarrow> (s1, Inl x)
                | Inr s2 \<Rightarrow> (s2, Inr \<lparr>pr_status = ''projected'', pr_observation_id = ob_id ob,
                    pr_reason = ''accepted'', pr_state = Some v\<rparr>))))"

definition mem_twin :: "twin_store projection_store" where
  "mem_twin = \<lparr>ps_record = (\<lambda>ob s. Inr (tw_record_observation ob s)),
     ps_get = (\<lambda>t i p l b s. Inr (tw_get_property t i p l b s)),
     ps_upsert = (\<lambda>v s. Inr (tw_upsert_property v s))\<rparr>"

definition pg_twin :: "environ \<Rightarrow> string option \<Rightarrow> twin_db projection_store" where
  "pg_twin env ctx = \<lparr>ps_record = pgt_record_observation env ctx, ps_get = pgt_get_property env ctx,
     ps_upsert = pgt_upsert_property env ctx\<rparr>"

text \<open>Observations arrive one after another, each with its own clock reading.\<close>

fun proj_run ::
  "'s projection_store \<Rightarrow> policy_resolver \<Rightarrow> (rat \<Rightarrow> rat \<Rightarrow> rat) \<Rightarrow> (datetime \<times> twin_observation) list \<Rightarrow> 's \<Rightarrow> 's" where
  "proj_run st policy fm [] s = s"
| "proj_run st policy fm ((now, ob) # xs) s =
     proj_run st policy fm xs (fst (proj_apply st policy fm now ob s))"

section \<open>The order of observations\<close>

definition ob_key :: "twin_observation \<Rightarrow> property_key" where
  "ob_key ob = property_key (ob_tenant ob) (ob_twin_id ob) (ob_property ob) (ob_lane ob) (ob_branch ob)"

definition ob_rank :: "policy_resolver \<Rightarrow> twin_observation \<Rightarrow> int \<times> int \<times> string" where
  "ob_rank policy ob = (instant (ob_observed_at ob),
     - sp_precedence (policy (ob_property ob) (ob_source_system ob)), ob_id ob)"

definition st_rank :: "policy_resolver \<Rightarrow> property_state \<Rightarrow> int \<times> int \<times> string" where
  "st_rank policy v = (instant (st_observed_at v),
     - sp_precedence (policy (st_property v) (st_source_system v)), st_observation_id v)"

text \<open>What a state says apart from the clock and from how an absent branch is written.\<close>

definition substance :: "property_state \<Rightarrow>
  string \<times> string \<times> string \<times> state_lane \<times> pyval \<times> string option \<times> string \<times> datetime \<times> string \<times> rat" where
  "substance v = (st_tenant v, st_twin_id v, st_property v, st_lane v, st_value v, st_unit v,
     st_observation_id v, st_observed_at v, st_source_system v, st_quality v)"

definition ob_substance :: "twin_observation \<Rightarrow>
  string \<times> string \<times> string \<times> state_lane \<times> pyval \<times> string option \<times> string \<times> datetime \<times> string \<times> rat" where
  "ob_substance ob = (ob_tenant ob, ob_twin_id ob, ob_property ob, ob_lane ob, ob_value ob, ob_unit ob,
     ob_id ob, ob_observed_at ob, ob_source_system ob, ob_quality ob)"

lemma may_replace_rank: "may_replace policy cur ob \<longleftrightarrow> st_rank policy cur < ob_rank policy ob"
  by (auto simp: may_replace_def st_rank_def ob_rank_def Let_def)

lemma substance_rank: "substance v = ob_substance ob \<Longrightarrow> st_rank policy v = ob_rank policy ob"
  by (simp add: substance_def ob_substance_def st_rank_def ob_rank_def)

lemma state_of_simps [simp]:
  "substance (state_of policy fm now ob) = ob_substance ob"
  "state_key (state_of policy fm now ob) = ob_key ob"
  "st_tenant (state_of policy fm now ob) = ob_tenant ob"
  by (simp_all add: state_of_def Let_def substance_def ob_substance_def state_key_def ob_key_def split: prod.splits)

lemma state_of_confidence:
  "0 \<le> st_confidence (state_of policy fm now ob)" "st_confidence (state_of policy fm now ob) \<le> 1"
  by (simp_all add: state_of_def Let_def split: prod.splits)

lemma norm_branch_simps [simp]:
  "substance (norm_branch v) = substance v" "state_key (norm_branch v) = state_key v"
  "st_tenant (norm_branch v) = st_tenant v" "st_confidence (norm_branch v) = st_confidence v"
  by (auto simp: norm_branch_def substance_def state_key_def property_key_def or_blank_def split: option.splits)

definition collide :: "twin_observation \<Rightarrow> twin_observation \<Rightarrow> bool" where
  "collide a b \<longleftrightarrow> (ob_tenant a, ob_id a) = (ob_tenant b, ob_id b) \<or> dedupe_key a = dedupe_key b"

definition collision_free :: "twin_observation set \<Rightarrow> bool" where
  "collision_free S \<longleftrightarrow> (\<forall>a \<in> S. \<forall>b \<in> S. collide a b \<longrightarrow> a = b)"

text \<open>The content of an observation: all of it but the time it was taken in.\<close>

definition ob_content :: "twin_observation \<Rightarrow> twin_observation" where
  "ob_content ob = ob\<lparr>ob_ingested_at := ob_observed_at ob\<rparr>"

lemma ob_content_simps [simp]:
  "ob_key (ob_content ob) = ob_key ob" "ob_rank policy (ob_content ob) = ob_rank policy ob"
  "ob_substance (ob_content ob) = ob_substance ob" "collide (ob_content a) (ob_content b) = collide a b"
  by (simp_all add: ob_content_def ob_key_def ob_rank_def ob_substance_def collide_def dedupe_key_def)

section \<open>The best observation on record\<close>

text \<open>Each property shows the highest-ranked observation on record for it.\<close>

definition best_at ::
  "policy_resolver \<Rightarrow> twin_observation set \<Rightarrow> (property_key \<Rightarrow> property_state option) \<Rightarrow> property_key \<Rightarrow> bool" where
  "best_at policy R f k \<longleftrightarrow> (case f k of
       None \<Rightarrow> \<forall>ob \<in> R. ob_key ob \<noteq> k
     | Some v \<Rightarrow> \<exists>ob \<in> R. ob_key ob = k \<and> substance v = ob_substance ob \<and>
         0 \<le> st_confidence v \<and> st_confidence v \<le> 1 \<and>
         (\<forall>x \<in> R. ob_key x = k \<longrightarrow> ob_rank policy x \<le> ob_rank policy ob))"

definition shows_best ::
  "policy_resolver \<Rightarrow> twin_observation set \<Rightarrow> (property_key \<Rightarrow> property_state option) \<Rightarrow> bool" where
  "shows_best policy R f \<longleftrightarrow> (\<forall>k. best_at policy R f k)"

lemma shows_bestD: "shows_best policy R f \<Longrightarrow> best_at policy R f k"
  unfolding shows_best_def by (rule spec)

lemma shows_best_None: "shows_best policy R f \<Longrightarrow> f k = None \<Longrightarrow> ob \<in> R \<Longrightarrow> ob_key ob \<noteq> k"
  by (drule shows_bestD [where k = k]) (simp add: best_at_def)

lemma shows_best_Some:
  assumes "shows_best policy R f" "f k = Some v"
  obtains ob where "ob \<in> R" "ob_key ob = k" "substance v = ob_substance ob"
    "0 \<le> st_confidence v" "st_confidence v \<le> 1"
    "\<forall>x \<in> R. ob_key x = k \<longrightarrow> ob_rank policy x \<le> ob_rank policy ob"
  using shows_bestD [OF assms(1), of k] assms(2) by (auto simp: best_at_def)

lemma shows_best_None_iff:
  assumes "shows_best policy R f"
  shows "f k = None \<longleftrightarrow> (\<forall>ob \<in> R. ob_key ob \<noteq> k)"
proof (cases "f k")
  case (Some v)
  with assms obtain ob where "ob \<in> R" "ob_key ob = k" "substance v = ob_substance ob"
    "0 \<le> st_confidence v" "st_confidence v \<le> 1"
    "\<forall>x \<in> R. ob_key x = k \<longrightarrow> ob_rank policy x \<le> ob_rank policy ob" by (rule shows_best_Some)
  with Some show ?thesis by auto
qed (use shows_best_None [OF assms] in auto)

lemma shows_best_unique:
  assumes "shows_best policy R f" "shows_best policy R' g" "R = R'" "collision_free R"
  shows "map_option substance (f k) = map_option substance (g k)"
proof -
  have agree: "substance v = substance w" if "f k = Some v" "g k = Some w" for v w
  proof -
    from assms(1) that(1) obtain a where a: "a \<in> R" "ob_key a = k" "substance v = ob_substance a"
      "0 \<le> st_confidence v" "st_confidence v \<le> 1"
      "\<forall>x \<in> R. ob_key x = k \<longrightarrow> ob_rank policy x \<le> ob_rank policy a" by (rule shows_best_Some)
    from assms(2) that(2) obtain b where b: "b \<in> R'" "ob_key b = k" "substance w = ob_substance b"
      "0 \<le> st_confidence w" "st_confidence w \<le> 1"
      "\<forall>x \<in> R'. ob_key x = k \<longrightarrow> ob_rank policy x \<le> ob_rank policy b" by (rule shows_best_Some)
    have "ob_rank policy a = ob_rank policy b"
      using a(6) b(6) a(1,2) b(1,2) assms(3) by (intro antisym) auto
    then have "collide a b" using a(2) b(2) by (auto simp: collide_def ob_rank_def ob_key_def property_key_def)
    then have "a = b" using a(1) b(1) assms(3,4) unfolding collision_free_def by auto
    then show ?thesis using a b by simp
  qed
  have none: "f k = None \<longleftrightarrow> g k = None"
    by (simp only: shows_best_None_iff [OF assms(1)] shows_best_None_iff [OF assms(2)] assms(3))
  show ?thesis
  proof (cases "f k")
    case (Some v)
    with none obtain w where w: "g k = Some w" by auto
    show ?thesis unfolding Some w option.map by (simp only: agree [OF Some w])
  qed (use none in simp)
qed

lemma shows_best_content:
  assumes "shows_best policy R f"
  shows "shows_best policy (ob_content ` R) f"
proof -
  have "best_at policy (ob_content ` R) f k" for k
    using shows_bestD [OF assms, of k] by (simp add: best_at_def split: option.splits)
  then show ?thesis unfolding shows_best_def by blast
qed

section \<open>The contract of the projector's store\<close>

text \<open>
  \<open>recorded\<close> are the observations on record and \<open>shown\<close> the current states. A store may refuse an
  observation it is not \<open>ready\<close> for.
\<close>

locale twin_projection =
  fixes st :: "'s projection_store"
    and inv :: "'s \<Rightarrow> bool"
    and ready :: "'s \<Rightarrow> twin_observation \<Rightarrow> bool"
    and recorded :: "'s \<Rightarrow> twin_observation set"
    and shown :: "'s \<Rightarrow> property_key \<Rightarrow> property_state option"
  assumes record_spec: "inv s \<Longrightarrow> ready s ob \<Longrightarrow>
      \<exists>s' b. ps_record st ob s = Inr (s', b) \<and> inv s' \<and> shown s' = shown s \<and> ready s' = ready s \<and>
        b = (\<forall>x \<in> recorded s. \<not> collide x ob) \<and>
        recorded s' = (if b then insert ob (recorded s) else recorded s)"
    and get_spec: "inv s \<Longrightarrow> ready s ob \<Longrightarrow>
      ps_get st (ob_tenant ob) (ob_twin_id ob) (ob_property ob) (ob_lane ob) (ob_branch ob) s = Inr (shown s (ob_key ob))"
    and upsert_spec: "inv s \<Longrightarrow> ready s ob \<Longrightarrow> v = state_of policy fm now ob \<Longrightarrow>
      \<exists>s' w. ps_upsert st v s = Inr s' \<and> inv s' \<and> recorded s' = recorded s \<and> ready s' = ready s \<and>
        shown s' = (shown s)(ob_key ob \<mapsto> w) \<and> substance w = substance v \<and> st_confidence w = st_confidence v"
begin

abbreviation current :: "policy_resolver \<Rightarrow> 's \<Rightarrow> bool" where
  "current policy s \<equiv> shows_best policy (recorded s) (shown s)"

lemma apply_cases:
  assumes "inv s" "ready s ob"
  obtains (duplicate) s' r x where "proj_apply st policy fm now ob s = (s', Inr r)" "pr_status r = ''duplicate''"
      "x \<in> recorded s" "collide x ob" "inv s'" "recorded s' = recorded s" "shown s' = shown s" "ready s' = ready s"
  | (kept) s' r v where "proj_apply st policy fm now ob s = (s', Inr r)" "pr_status r = ''recorded_not_projected''"
      "\<forall>x \<in> recorded s. \<not> collide x ob" "inv s'" "recorded s' = insert ob (recorded s)" "shown s' = shown s"
      "ready s' = ready s" "shown s (ob_key ob) = Some v" "ob_rank policy ob \<le> st_rank policy v"
  | (projected) s' r w where "proj_apply st policy fm now ob s = (s', Inr r)" "pr_status r = ''projected''"
      "\<forall>x \<in> recorded s. \<not> collide x ob" "inv s'" "recorded s' = insert ob (recorded s)"
      "shown s' = (shown s)(ob_key ob \<mapsto> w)" "ready s' = ready s" "substance w = ob_substance ob"
      "0 \<le> st_confidence w" "st_confidence w \<le> 1"
      "\<forall>v. shown s (ob_key ob) = Some v \<longrightarrow> st_rank policy v < ob_rank policy ob"
proof -
  from record_spec [OF assms] obtain s1 b where r: "ps_record st ob s = Inr (s1, b)" "inv s1" "shown s1 = shown s"
    "ready s1 = ready s" "b = (\<forall>x \<in> recorded s. \<not> collide x ob)"
    "recorded s1 = (if b then insert ob (recorded s) else recorded s)" by blast
  have ready1: "ready s1 ob" using r(4) assms(2) by simp
  note g = get_spec [OF r(2) ready1]
  from upsert_spec [OF r(2) ready1 refl, of policy fm now] obtain s2 w where u:
    "ps_upsert st (state_of policy fm now ob) s1 = Inr s2" "inv s2" "recorded s2 = recorded s1"
    "ready s2 = ready s1" "shown s2 = (shown s1)(ob_key ob \<mapsto> w)"
    "substance w = substance (state_of policy fm now ob)"
    "st_confidence w = st_confidence (state_of policy fm now ob)" by blast
  show thesis
  proof (cases b)
    case False
    then obtain x where x: "x \<in> recorded s" "collide x ob" using r(5) by blast
    have res: "proj_apply st policy fm now ob s = (s1, Inr \<lparr>pr_status = ''duplicate'', pr_observation_id = ob_id ob,
        pr_reason = ''already recorded'', pr_state = None\<rparr>)"
      using r(1) False by (simp add: proj_apply_def)
    show thesis by (rule duplicate [OF res _ x r(2)]) (use r(3,4,6) False in simp_all)
  next
    case True
    show thesis
    proof (cases "case shown s1 (ob_key ob) of None \<Rightarrow> False | Some c \<Rightarrow> \<not> may_replace policy c ob")
      case hold: True
      then obtain v where v: "shown s1 (ob_key ob) = Some v" "\<not> may_replace policy v ob"
        by (auto split: option.splits)
      have res: "proj_apply st policy fm now ob s = (s1, Inr \<lparr>pr_status = ''recorded_not_projected'',
          pr_observation_id = ob_id ob, pr_reason = ''older or lower-authority observation'', pr_state = Some v\<rparr>)"
        using v(2) by (simp add: proj_apply_def r(1) True g v(1))
      show thesis
        by (rule kept [OF res _ _ r(2) _ r(3,4)])
          (use r(3,5,6) True v in \<open>simp_all add: may_replace_rank not_less\<close>)
    next
      case go: False
      have up: "\<forall>v. shown s (ob_key ob) = Some v \<longrightarrow> st_rank policy v < ob_rank policy ob"
        using go r(3) by (auto simp: may_replace_rank split: option.splits)
      have res: "proj_apply st policy fm now ob s = (s2, Inr \<lparr>pr_status = ''projected'', pr_observation_id = ob_id ob,
          pr_reason = ''accepted'', pr_state = Some (state_of policy fm now ob)\<rparr>)"
        using go by (simp add: proj_apply_def r(1) True g u(1))
      show thesis
        by (rule projected [where w = w, OF res _ _ u(2) _ _ _ _ _ _ up])
          (use r(3-6) u(3-7) True state_of_confidence [of policy fm now ob] in simp_all)
    qed
  qed
qed

lemma apply_current:
  fixes fm :: "rat \<Rightarrow> rat \<Rightarrow> rat" and now :: datetime
  assumes "inv s" "ready s ob" "current policy s"
  defines "s' \<equiv> fst (proj_apply st policy fm now ob s)"
  shows "inv s' \<and> ready s' = ready s \<and> current policy s' \<and>
    recorded s' = (if \<exists>x \<in> recorded s. collide x ob then recorded s else insert ob (recorded s))"
  using assms(1,2)
proof (cases rule: apply_cases [where policy = policy and fm = fm and now = now])
  case (duplicate s1 r x)
  have "best_at policy (recorded s1) (shown s1) k" for k
    using shows_bestD [OF assms(3), of k] unfolding best_at_def duplicate(6,7) .
  then show ?thesis using duplicate by (auto simp: s'_def shows_best_def)
next
  case (kept s1 r v)
  from assms(3) kept(8) obtain best where best: "best \<in> recorded s" "ob_key best = ob_key ob"
    "substance v = ob_substance best" "0 \<le> st_confidence v" "st_confidence v \<le> 1"
    "\<forall>x \<in> recorded s. ob_key x = ob_key ob \<longrightarrow> ob_rank policy x \<le> ob_rank policy best"
    by (rule shows_best_Some)
  have "ob_rank policy ob \<le> ob_rank policy best" using kept(9) substance_rank [OF best(3)] by simp
  then have "best_at policy (recorded s1) (shown s1) k" for k
    using shows_bestD [OF assms(3), of k] kept(5,6,8) best
    by (cases "k = ob_key ob") (auto simp: best_at_def split: option.splits)
  then have "current policy s1" unfolding shows_best_def by blast
  then show ?thesis using kept by (auto simp: s'_def)
next
  case (projected s1 r w)
  have top: "ob_rank policy x \<le> ob_rank policy ob" if x: "x \<in> recorded s" "ob_key x = ob_key ob" for x
  proof (cases "shown s (ob_key ob)")
    case None
    then show ?thesis using shows_best_None [OF assms(3) None x(1)] x(2) by simp
  next
    case (Some v)
    from assms(3) Some obtain best where best: "best \<in> recorded s" "ob_key best = ob_key ob"
      "substance v = ob_substance best" "0 \<le> st_confidence v" "st_confidence v \<le> 1"
      "\<forall>x \<in> recorded s. ob_key x = ob_key ob \<longrightarrow> ob_rank policy x \<le> ob_rank policy best"
      by (rule shows_best_Some)
    have "ob_rank policy best < ob_rank policy ob"
      using projected(11) Some substance_rank [OF best(3), of policy] by simp
    then show ?thesis using best(6) x by fastforce
  qed
  have "best_at policy (recorded s1) (shown s1) k" for k
    using shows_bestD [OF assms(3), of k] projected(5,6,8-10) top
    by (cases "k = ob_key ob") (auto simp: best_at_def split: option.splits)
  then have "current policy s1" unfolding shows_best_def by blast
  then show ?thesis using projected by (auto simp: s'_def)
qed

lemma run_current:
  assumes "inv s" "\<forall>x \<in> set xs. ready s (snd x)" "current policy s"
  shows "inv (proj_run st policy fm xs s) \<and> current policy (proj_run st policy fm xs s) \<and>
    ready (proj_run st policy fm xs s) = ready s \<and> recorded s \<subseteq> recorded (proj_run st policy fm xs s) \<and>
    recorded (proj_run st policy fm xs s) \<subseteq> recorded s \<union> snd ` set xs"
  using assms
proof (induction xs arbitrary: s)
  case (Cons x xs)
  obtain now ob where x: "x = (now, ob)" by (cases x)
  let ?s = "fst (proj_apply st policy fm now ob s)"
  have a: "inv ?s \<and> ready ?s = ready s \<and> current policy ?s \<and>
      recorded ?s = (if \<exists>x \<in> recorded s. collide x ob then recorded s else insert ob (recorded s))"
    using Cons.prems x by (intro apply_current) auto
  then have "\<forall>x \<in> set xs. ready ?s (snd x)" using Cons.prems(2) by simp
  with a Cons.IH [of ?s] show ?case by (auto simp: x split: if_splits)
qed simp

text \<open>Without collisions everything delivered is on record, whatever the order and the repetitions.\<close>

lemma run_recorded:
  assumes "inv s" "\<forall>x \<in> set xs. ready s (snd x)" "current policy s"
    and "collision_free (ob_content ` (recorded s \<union> snd ` set xs))"
  shows "ob_content ` recorded (proj_run st policy fm xs s) = ob_content ` (recorded s \<union> snd ` set xs)"
  using assms
proof (induction xs arbitrary: s)
  case (Cons x xs)
  obtain now ob where x: "x = (now, ob)" by (cases x)
  let ?s = "fst (proj_apply st policy fm now ob s)"
  have a: "inv ?s \<and> ready ?s = ready s \<and> current policy ?s \<and>
      recorded ?s = (if \<exists>x \<in> recorded s. collide x ob then recorded s else insert ob (recorded s))"
    using Cons.prems x by (intro apply_current) auto
  have rec: "ob_content ` recorded ?s = insert (ob_content ob) (ob_content ` recorded s)"
  proof (cases "\<exists>y \<in> recorded s. collide y ob")
    case True
    then obtain y where y: "y \<in> recorded s" "collide (ob_content y) (ob_content ob)" by auto
    then have "ob_content y = ob_content ob" using Cons.prems(4) x unfolding collision_free_def by auto
    then have "ob_content ob \<in> ob_content ` recorded s" using y(1) by (metis image_eqI)
    then show ?thesis using a True by auto
  qed (use a in simp)
  have "ob_content ` recorded (proj_run st policy fm xs ?s) = ob_content ` (recorded ?s \<union> snd ` set xs)"
  proof (rule Cons.IH)
    show "collision_free (ob_content ` (recorded ?s \<union> snd ` set xs))"
      using Cons.prems(4) unfolding image_Un rec by (simp add: x image_Un)
    show "\<forall>x \<in> set xs. ready ?s (snd x)" using Cons.prems(2) a by simp
  qed (use a in blast)+
  then show ?case unfolding image_Un rec by (simp add: x image_Un)
qed simp

text \<open>Deliveries only add to the record and only touch the properties they are about.\<close>

lemma run_frame:
  assumes "inv s" "\<forall>x \<in> set xs. ready s (snd x)"
  shows "inv (proj_run st policy fm xs s) \<and> ready (proj_run st policy fm xs s) = ready s \<and>
    recorded s \<subseteq> recorded (proj_run st policy fm xs s) \<and>
    ((\<forall>x \<in> set xs. ob_key (snd x) \<noteq> k) \<longrightarrow> shown (proj_run st policy fm xs s) k = shown s k)"
  using assms
proof (induction xs arbitrary: s)
  case (Cons x xs)
  obtain now ob where x: "x = (now, ob)" by (cases x)
  let ?s = "fst (proj_apply st policy fm now ob s)"
  have "inv s" "ready s ob" using Cons.prems x by auto
  then have a: "inv ?s \<and> ready ?s = ready s \<and> recorded s \<subseteq> recorded ?s \<and> (ob_key ob \<noteq> k \<longrightarrow> shown ?s k = shown s k)"
    by (cases rule: apply_cases [where policy = policy and fm = fm and now = now]) auto
  then have "\<forall>x \<in> set xs. ready ?s (snd x)" using Cons.prems(2) by simp
  with a Cons.IH [of ?s] show ?case by (auto simp: x)
qed simp

text \<open>An observation on record is never projected again.\<close>

lemma recorded_is_duplicate:
  assumes "inv s" "ready s ob" "ob \<in> recorded s"
  shows "\<exists>s' r. proj_apply st policy fm now ob s = (s', Inr r) \<and> pr_status r = ''duplicate'' \<and> shown s' = shown s"
  using assms(1,2)
  by (cases rule: apply_cases [where policy = policy and fm = fm and now = now])
    (use assms(3) in \<open>auto simp: collide_def\<close>)

end

section \<open>Both stores keep the contract\<close>

definition ob_ident :: "twin_observation \<Rightarrow> string \<times> string" where
  "ob_ident ob = (ob_tenant ob, ob_id ob)"

definition tw_recorded :: "twin_store \<Rightarrow> twin_observation set" where
  "tw_recorded s = {ob. dict_get (tw_observations s) (ob_ident ob) = Some ob}"

definition tw_ok :: "twin_store \<Rightarrow> bool" where
  "tw_ok s \<longleftrightarrow> (\<forall>k. \<forall>ob. dict_get (tw_observations s) k = Some ob \<longrightarrow> k = ob_ident ob) \<and>
     set (tw_dedupe s) = dedupe_key ` tw_recorded s"

lemma tw_okD: "tw_ok s \<Longrightarrow> dict_get (tw_observations s) k = Some ob \<Longrightarrow> ob_ident ob = k \<and> ob \<in> tw_recorded s"
  by (auto simp: tw_ok_def tw_recorded_def simp del: split_paired_All)

lemma tw_fresh_iff:
  assumes "tw_ok s"
  shows "dict_has (ob_tenant ob, ob_id ob) (tw_observations s) \<or> dedupe_key ob \<in> set (tw_dedupe s) \<longleftrightarrow>
    (\<exists>x \<in> tw_recorded s. collide x ob)"
proof -
  have "dict_has (ob_ident ob) (tw_observations s) \<longleftrightarrow> (\<exists>x \<in> tw_recorded s. ob_ident x = ob_ident ob)"
  proof
    assume "dict_has (ob_ident ob) (tw_observations s)"
    then obtain x where "dict_get (tw_observations s) (ob_ident ob) = Some x" by (auto simp: dict_has_def)
    then show "\<exists>x \<in> tw_recorded s. ob_ident x = ob_ident ob" using tw_okD [OF assms] by blast
  next
    assume "\<exists>x \<in> tw_recorded s. ob_ident x = ob_ident ob"
    then show "dict_has (ob_ident ob) (tw_observations s)"
      unfolding tw_recorded_def dict_has_def by (metis (mono_tags, lifting) mem_Collect_eq option.distinct(1))
  qed
  moreover have "dedupe_key ob \<in> set (tw_dedupe s) \<longleftrightarrow> (\<exists>x \<in> tw_recorded s. dedupe_key x = dedupe_key ob)"
    using assms unfolding tw_ok_def by (metis (no_types, lifting) image_iff)
  ultimately show ?thesis unfolding ob_ident_def collide_def by blast
qed

lemma tw_recorded_set:
  assumes "tw_ok s" "dict_get (tw_observations s) (ob_ident ob) = None"
  shows "tw_recorded (s\<lparr>tw_observations := dict_set (ob_ident ob) ob (tw_observations s), tw_dedupe := d\<rparr>) =
    insert ob (tw_recorded s)"
  using assms(2) by (auto simp: tw_recorded_def)

interpretation mem_projection: twin_projection mem_twin tw_ok "\<lambda>s ob. True" tw_recorded
  "\<lambda>s k. dict_get (tw_properties s) k"
proof (unfold_locales, goal_cases)
  case (1 s ob)
  show ?case
  proof (cases "\<exists>x \<in> tw_recorded s. collide x ob")
    case True
    then have "tw_record_observation ob s = (s, False)"
      using tw_fresh_iff [OF 1(1), of ob] by (simp add: tw_record_observation_def)
    then show ?thesis using True 1 by (auto simp: mem_twin_def)
  next
    case False
    let ?s = "s\<lparr>tw_observations := dict_set (ob_ident ob) ob (tw_observations s),
      tw_dedupe := List.insert (dedupe_key ob) (tw_dedupe s)\<rparr>"
    have r: "tw_record_observation ob s = (?s, True)"
      using tw_fresh_iff [OF 1(1), of ob] False by (simp add: tw_record_observation_def ob_ident_def)
    have n: "dict_get (tw_observations s) (ob_ident ob) = None"
      using tw_fresh_iff [OF 1(1), of ob] False
      by (cases "dict_get (tw_observations s) (ob_ident ob)") (auto simp: dict_has_def ob_ident_def)
    note rec = tw_recorded_set [OF 1(1) n]
    have "tw_ok ?s"
      using 1(1) unfolding tw_ok_def rec by (auto simp del: split_paired_All)
    then show ?thesis using r rec False by (auto simp: mem_twin_def)
  qed
next
  case (2 s ob)
  show ?case by (simp add: mem_twin_def tw_get_property_def ob_key_def)
next
  case (3 s ob v policy fm now)
  have "tw_recorded (s\<lparr>tw_properties := p\<rparr>) = tw_recorded s" for p by (simp add: tw_recorded_def)
  then have "tw_ok (s\<lparr>tw_properties := p\<rparr>)" for p using 3(1) unfolding tw_ok_def by simp
  moreover have "dict_get (dict_set (ob_key ob) v (tw_properties s)) = (dict_get (tw_properties s))(ob_key ob \<mapsto> v)"
    by (rule ext) simp
  moreover have "tw_recorded (s\<lparr>tw_properties := p\<rparr>) = tw_recorded s" for p by (simp add: tw_recorded_def)
  ultimately show ?case using 3(3)
    by (intro exI [of _ "tw_upsert_property v s"] exI [of _ v]) (simp add: mem_twin_def tw_upsert_property_def fun_upd_def)
qed

definition pgt_shown :: "twin_db \<Rightarrow> property_key \<Rightarrow> property_state option" where
  "pgt_shown db k = find_first (\<lambda>v. state_key v = k) (td_properties db)"

definition pgt_ready :: "environ \<Rightarrow> string option \<Rightarrow> twin_db \<Rightarrow> twin_observation \<Rightarrow> bool" where
  "pgt_ready env ctx db ob \<longleftrightarrow> session_tenant env ctx (Some (ob_tenant ob)) = Inr (ob_tenant ob) \<and>
     list_ex (entity_row (ob_tenant ob) (ob_twin_id ob)) (td_entities db)"

lemma find_first_replace_other:
  "k w = key \<Longrightarrow> j \<noteq> key \<Longrightarrow>
   find_first (\<lambda>v. k v = j) (map (\<lambda>x. if k x = key then w else x) xs) = find_first (\<lambda>v. k v = j) xs"
  by (induction xs) auto

lemma find_first_replace_same:
  "k w = key \<Longrightarrow> list_ex (\<lambda>x. k x = key) xs \<Longrightarrow>
   find_first (\<lambda>v. k v = key) (map (\<lambda>x. if k x = key then w else x) xs) = Some w"
  by (induction xs) auto

lemma find_first_absent: "\<not> list_ex p xs \<Longrightarrow> find_first p xs = None"
  by (induction xs) auto

lemma find_first_upsert:
  assumes "k w = key"
  shows "find_first (\<lambda>v. k v = j) (if list_ex (\<lambda>x. k x = key) xs
      then map (\<lambda>x. if k x = key then w else x) xs else xs @ [w]) =
    (if j = key then Some w else find_first (\<lambda>v. k v = j) xs)"
proof (cases "j = key")
  case True
  then show ?thesis
    using find_first_replace_same [of k w key xs] find_first_absent [of "\<lambda>x. k x = key" xs] assms
    by (simp add: find_first_append)
next
  case False
  then show ?thesis
    using find_first_replace_other [of k w key j xs] assms
    by (simp add: find_first_append split: option.splits)
qed

interpretation pg_projection: twin_projection "pg_twin env ctx" "\<lambda>db. True" "pgt_ready env ctx"
  "\<lambda>db. set (td_observations db)" pgt_shown
  for env ctx
proof (unfold_locales, goal_cases)
  case (1 db ob)
  then show ?case
    by (auto simp: pg_twin_def pgt_record_observation_def pgt_ready_def pgt_shown_def collide_def list_ex_iff fun_eq_iff)
next
  case (2 db ob)
  have "(st_tenant v = ob_tenant ob \<and> state_key v = ob_key ob) = (state_key v = ob_key ob)" for v
    by (auto simp: state_key_def ob_key_def property_key_def)
  then show ?case
    using 2 by (simp add: pg_twin_def pgt_get_property_def pgt_ready_def pgt_shown_def ob_key_def)
next
  case (3 db ob v policy fm now)
  let ?key = "ob_key ob"
  let ?db = "db\<lparr>td_properties := (if list_ex (\<lambda>x. state_key x = ?key) (td_properties db)
      then map (\<lambda>x. if state_key x = ?key then norm_branch v else x) (td_properties db)
      else td_properties db @ [norm_branch v])\<rparr>"
  have up: "ps_upsert (pg_twin env ctx) v db = Inr ?db"
    using 3 by (simp add: pg_twin_def pgt_upsert_property_def pgt_ready_def)
  have "pgt_shown ?db j = ((pgt_shown db)(?key \<mapsto> norm_branch v)) j" for j
    using find_first_upsert [of state_key "norm_branch v" ?key j "td_properties db"] 3(3)
    by (simp add: pgt_shown_def)
  then have "pgt_shown ?db = (pgt_shown db)(?key \<mapsto> norm_branch v)" by (rule ext)
  moreover have "pgt_ready env ctx ?db = pgt_ready env ctx db" by (rule ext) (simp add: pgt_ready_def)
  ultimately show ?case using up 3(3)
    by (intro exI [of _ ?db] exI [of _ "norm_branch v"]) simp
qed

section \<open>What a safe value is\<close>

fun val_depth :: "pyval \<Rightarrow> nat"
  and items_depth :: "pyval list \<Rightarrow> nat"
  and fields_depth :: "(string \<times> pyval) list \<Rightarrow> nat" where
  "val_depth (PyList xs) = items_depth xs"
| "val_depth (PyDict d) = fields_depth d"
| "val_depth v = 0"
| "items_depth [] = 0"
| "items_depth (x # xs) = max (Suc (val_depth x)) (items_depth xs)"
| "fields_depth [] = 0"
| "fields_depth ((k, x) # d) = max (Suc (val_depth x)) (fields_depth d)"

text \<open>Every value nested in a value, itself included, and every field name in it.\<close>

fun subvalues :: "pyval \<Rightarrow> pyval set"
  and items_subvalues :: "pyval list \<Rightarrow> pyval set"
  and fields_subvalues :: "(string \<times> pyval) list \<Rightarrow> pyval set" where
  "subvalues (PyList xs) = insert (PyList xs) (items_subvalues xs)"
| "subvalues (PyDict d) = insert (PyDict d) (fields_subvalues d)"
| "subvalues v = {v}"
| "items_subvalues [] = {}"
| "items_subvalues (x # xs) = subvalues x \<union> items_subvalues xs"
| "fields_subvalues [] = {}"
| "fields_subvalues ((k, x) # d) = subvalues x \<union> fields_subvalues d"

fun small_value :: "pyval \<Rightarrow> bool" where
  "small_value (PyStr s) \<longleftrightarrow> length s \<le> 4000"
| "small_value (PyList xs) \<longleftrightarrow> length xs \<le> 100"
| "small_value (PyDict d) \<longleftrightarrow> length d \<le> 100 \<and> (\<forall>k \<in> fst ` set d. safe_key k \<and> \<not> media_key k)"
| "small_value v \<longleftrightarrow> True"

lemma assert_safe_iff:
  "assert_safe_value n v = Inr () \<longleftrightarrow> n + val_depth v \<le> 6 \<and> (\<forall>w \<in> subvalues v. small_value w)"
  "0 < n \<Longrightarrow> assert_safe_items n xs = Inr () \<longleftrightarrow>
     (xs = [] \<or> n + items_depth xs \<le> 7) \<and> (\<forall>w \<in> items_subvalues xs. small_value w)"
  "0 < n \<Longrightarrow> assert_safe_fields n d = Inr () \<longleftrightarrow>
     (d = [] \<or> n + fields_depth d \<le> 7) \<and> (\<forall>k \<in> fst ` set d. safe_key k \<and> \<not> media_key k) \<and>
     (\<forall>w \<in> fields_subvalues d. small_value w)"
proof (induction n v and n xs and n d rule: assert_safe_value_assert_safe_items_assert_safe_fields.induct)
  case (2 n xs)
  then show ?case by (cases xs) (auto simp: too_deep_def)
next
  case (3 n d)
  then show ?case by (cases d) (auto simp: too_deep_def)
qed (auto simp: too_deep_def bind_res_Inr_iff)

section \<open>Properties\<close>

text \<open>C32. An observation's value is accepted exactly when it is nested at most six levels deep and every
  value in it is small: text of at most 4000 characters, lists and objects of at most 100 entries, and
  only safe field names, none of which names raw media or biometrics.\<close>

theorem safe_values_exact:
  "assert_safe_value 0 v = Inr () \<longleftrightarrow> val_depth v \<le> 6 \<and> subvalues v \<subseteq> {w. small_value w}"
  by (auto simp: assert_safe_iff)

lemma tw_empty_ok: "tw_ok tw_empty" "tw_recorded tw_empty = {}"
  by (simp_all add: tw_ok_def tw_recorded_def tw_empty_def)

lemma shows_best_empty: "shows_best policy {} (\<lambda>k. None)"
  by (simp add: shows_best_def best_at_def)

lemma mem_shows_best:
  "shows_best policy (ob_content ` tw_recorded (proj_run mem_twin policy fm zs tw_empty))
     (\<lambda>k. dict_get (tw_properties (proj_run mem_twin policy fm zs tw_empty)) k)"
  "collision_free (ob_content ` snd ` set zs) \<Longrightarrow>
   ob_content ` tw_recorded (proj_run mem_twin policy fm zs tw_empty) = ob_content ` snd ` set zs"
proof -
  have m0: "shows_best policy (tw_recorded tw_empty) (\<lambda>k. dict_get (tw_properties tw_empty) k)"
    unfolding tw_empty_ok(2) using shows_best_empty by (simp add: tw_empty_def)
  show "shows_best policy (ob_content ` tw_recorded (proj_run mem_twin policy fm zs tw_empty))
     (\<lambda>k. dict_get (tw_properties (proj_run mem_twin policy fm zs tw_empty)) k)"
    "collision_free (ob_content ` snd ` set zs) \<Longrightarrow>
     ob_content ` tw_recorded (proj_run mem_twin policy fm zs tw_empty) = ob_content ` snd ` set zs"
    using mem_projection.run_current [OF tw_empty_ok(1) _ m0, of zs fm]
      mem_projection.run_recorded [OF tw_empty_ok(1) _ m0, of zs fm]
    by (auto simp: tw_empty_ok intro: shows_best_content)
qed

lemma mem_runs_agree:
  assumes "ob_content ` snd ` set xs = ob_content ` snd ` set ys" "collision_free (ob_content ` snd ` set xs)"
  shows "map_option substance (dict_get (tw_properties (proj_run mem_twin policy fm xs tw_empty)) k) =
    map_option substance (dict_get (tw_properties (proj_run mem_twin policy fm ys tw_empty)) k)"
  using shows_best_unique [OF mem_shows_best(1) [where fm = fm and zs = xs] mem_shows_best(1) [where fm = fm and zs = ys], of policy k]
    mem_shows_best(2) [of xs policy fm] mem_shows_best(2) [of ys policy fm] assms by simp

text \<open>C29. The twin converges: two deliveries of the same observations - in any order, with any repetitions,
  taken in at any time and at any clock readings, in memory or in Postgres - leave every property with
  the same value, unit, provenance and observation, as long as no two observations of different content
  share an identifier or a source payload.\<close>

theorem twin_converges:
  assumes same: "ob_content ` snd ` set xs = ob_content ` snd ` set ys"
    and free: "collision_free (ob_content ` snd ` set xs)"
    and ready: "\<forall>y \<in> set ys. pgt_ready env ctx db (snd y)"
    and empty: "td_observations db = []" "td_properties db = []"
  shows "map_option substance (dict_get (tw_properties (proj_run mem_twin policy fm xs tw_empty)) k) =
      map_option substance (dict_get (tw_properties (proj_run mem_twin policy fm ys tw_empty)) k) \<and>
    map_option substance (dict_get (tw_properties (proj_run mem_twin policy fm xs tw_empty)) k) =
      map_option substance (pgt_shown (proj_run (pg_twin env ctx) policy fm ys db) k)"
proof -
  let ?p = "proj_run (pg_twin env ctx) policy fm ys db"
  have p0: "shows_best policy (set (td_observations db)) (pgt_shown db)"
  proof -
    have "pgt_shown db = (\<lambda>k. None)" by (rule ext) (simp add: pgt_shown_def empty)
    then show ?thesis using shows_best_empty by (simp add: empty)
  qed
  have "shows_best policy (set (td_observations ?p)) (pgt_shown ?p)"
    using pg_projection.run_current [OF TrueI ready p0, of fm] by blast
  then have pg: "shows_best policy (ob_content ` set (td_observations ?p)) (pgt_shown ?p)"
    by (rule shows_best_content)
  have pgr: "ob_content ` set (td_observations ?p) = ob_content ` snd ` set ys"
    using pg_projection.run_recorded [OF TrueI ready p0, of fm] free same by (simp add: empty)
  have "map_option substance (dict_get (tw_properties (proj_run mem_twin policy fm xs tw_empty)) k) =
      map_option substance (pgt_shown ?p k)"
    using shows_best_unique [OF mem_shows_best(1) [where fm = fm and zs = xs] pg, of k]
      mem_shows_best(2) [of xs policy fm] pgr same free by simp
  with mem_runs_agree [OF same free] show ?thesis by simp
qed


section \<open>Examples\<close>

abbreviation demo_time :: "nat \<Rightarrow> datetime" where
  "demo_time h \<equiv> \<lparr>dt_year = 2026, dt_month = 1, dt_day = 5, dt_hour = h, dt_minute = 0, dt_second = 0, dt_micro = 0,
     dt_offset = Some 0\<rparr>"

definition demo_observation :: "string \<Rightarrow> nat \<Rightarrow> int \<Rightarrow> twin_observation" where
  "demo_observation i h v = \<lparr>ob_id = i, ob_tenant = ''t1'', ob_store = ''s1'', ob_twin_id = ''urn:shelfwise:t1:s1:product:4011'',
     ob_property = ''inventory.on_hand'', ob_lane = REPORTED, ob_value = PyInt v, ob_unit = None,
     ob_observed_at = demo_time h, ob_ingested_at = demo_time h, ob_source_system = ''api'', ob_source_object = i,
     ob_sequence = None, ob_quality = 1, ob_schema_version = ''v1'', ob_correlation_id = i, ob_causation_id = None,
     ob_branch = None, ob_hash = replicate 64 (CHR ''a'')\<rparr>"

definition demo_twin_db :: twin_db where
  "demo_twin_db = \<lparr>td_entities = [\<lparr>te_twin_id = ''urn:shelfwise:t1:s1:product:4011'', te_tenant = ''t1'',
     te_store = ''s1'', te_type = ''product'', te_display = ''Apples'', te_model_version = ''twin-v1'', te_attributes = [],
     te_created_at = demo_time 0, te_retired_at = None\<rparr>], td_relationships = [], td_observations = [],
     td_properties = []\<rparr>"

lemma demo_ready: "pgt_ready Map.empty None demo_twin_db (demo_observation i h v)"
  by (simp add: pgt_ready_def entity_row_def demo_observation_def demo_twin_db_def session_tenant_def
      clean_tenant_id_def strip_def is_space_def Let_def)

lemma twin_converges_witness:
  "let a = demo_observation ''obs-0001'' 8 10; b = demo_observation ''obs-0002'' 9 7
   in map_option substance (dict_get (tw_properties (proj_run mem_twin default_source_policy (*)
          [(demo_time 9, a), (demo_time 9, b)] tw_empty)) (ob_key a)) =
      map_option substance (pgt_shown (proj_run (pg_twin Map.empty None) default_source_policy (*)
          [(demo_time 10, b), (demo_time 11, a), (demo_time 12, b)] demo_twin_db) (ob_key a))"
proof -
  let ?a = "demo_observation ''obs-0001'' 8 10" and ?b = "demo_observation ''obs-0002'' 9 7"
  have free: "collision_free {ob_content ?a, ob_content ?b}"
    by (auto simp: ob_content_def collision_free_def collide_def dedupe_key_def demo_observation_def)
  have "td_observations demo_twin_db = []" "td_properties demo_twin_db = []" by (simp_all add: demo_twin_db_def)
  with free show ?thesis
    using twin_converges [of "[(demo_time 9, ?a), (demo_time 9, ?b)]"
        "[(demo_time 10, ?b), (demo_time 11, ?a), (demo_time 12, ?b)]" Map.empty None demo_twin_db
        default_source_policy "(*)" "ob_key ?a"]
    by (auto simp: Let_def demo_ready)
qed


end
