(* ===== verification/PyJson.thy ===== *)
theory PyJson
  imports PyVal
begin

text \<open>
  \<open>json.dumps\<close> with sorted keys, the text that the code digests to compare two payloads.
\<close>

text \<open>\<open>json.dumps(x, sort_keys=True, separators=(",", ":"))\<close>, with ASCII escapes.\<close>

definition json_char :: "char \<Rightarrow> string" where
  "json_char c = (let n = (of_char c :: nat) in
     if c = CHR 0x22 then [CHR 0x5C, CHR 0x22]
     else if c = CHR 0x5C then [CHR 0x5C, CHR 0x5C]
     else if n = 10 then [CHR 0x5C, CHR ''n'']
     else if n = 13 then [CHR 0x5C, CHR ''r'']
     else if n = 9 then [CHR 0x5C, CHR ''t'']
     else if n = 8 then [CHR 0x5C, CHR ''b'']
     else if n = 12 then [CHR 0x5C, CHR ''f'']
     else if n < 32 \<or> 126 < n then [CHR 0x5C, CHR ''u'', CHR ''0'', CHR ''0'', hex_digit (n div 16), hex_digit (n mod 16)]
     else [c])"

definition json_str :: "string \<Rightarrow> string" where
  "json_str s = CHR 0x22 # concat (map json_char s) @ [CHR 0x22]"

fun json_dumps :: "pyval \<Rightarrow> string"
  and json_items :: "pyval list \<Rightarrow> string list"
  and json_fields :: "(string \<times> pyval) list \<Rightarrow> (string \<times> string) list" where
  "json_dumps PyNone = ''null''"
| "json_dumps (PyBool b) = (if b then ''true'' else ''false'')"
| "json_dumps (PyInt i) = str_int i"
| "json_dumps (PyFloat r) = (if r = ''nan'' then ''NaN'' else if r = ''inf'' then ''Infinity''
     else if r = ''-inf'' then ''-Infinity'' else r)"
| "json_dumps (PyStr s) = json_str s"
| "json_dumps (PyList xs) = ''['' @ join '','' (json_items xs) @ '']''"
| "json_dumps (PyDict d) =
     ''{'' @ join '','' (map (\<lambda>(k, t). json_str k @ '':'' @ t) (sorted_by fst (json_fields d))) @ ''}''"
| "json_items [] = []"
| "json_items (x # xs) = json_dumps x # json_items xs"
| "json_fields [] = []"
| "json_fields ((k, x) # d) = (k, json_dumps x) # json_fields d"

end
