(* ===== verification/TwinService.thy ===== *)
theory TwinService
  imports Twin PyJson
begin

text \<open>
  The twin service (\<open>src/shelfwise_twin/service.py\<close>): how a canonical event becomes observations, how an
  observation finds its entity, onboarding of a store, the rebuild of a twin from its events, and the
  outcome the ingest pipeline reports (\<open>src/shelfwise_backend/twin_projection.py\<close>), over the operations of
  either twin store. \<open>sha\<close> is the hexadecimal SHA-256 of a text. Clock readings are numbered.
\<close>

section \<open>Text helpers\<close>

definition text_of :: "pyval \<Rightarrow> string option" where
  "text_of v = (if v = PyNone then None
     else let r = strip (py_str v) in if r = [] then None else Some r)"

definition slug_char :: "char \<Rightarrow> bool" where
  "slug_char c \<longleftrightarrow> is_az c \<or> is_AZ c \<or> is_09 c \<or> c \<in> set ''_.-''"

text \<open>\<open>re.sub(r"[^a-zA-Z0-9_.-]+", "_", s)\<close>; the flag says that the last character was replaced.\<close>

fun sub_unsafe :: "bool \<Rightarrow> string \<Rightarrow> string" where
  "sub_unsafe inside [] = []"
| "sub_unsafe inside (c # s) =
     (if slug_char c then c # sub_unsafe False s
      else if inside then sub_unsafe True s else CHR ''_'' # sub_unsafe True s)"

definition slug :: "string \<Rightarrow> string" where
  "slug s = (let r = take 120 (sub_unsafe False (strip s)) in if r = [] then ''unknown'' else r)"

definition urn :: "string \<Rightarrow> string \<Rightarrow> string \<Rightarrow> string \<Rightarrow> string" where
  "urn tenant store etype local = ''urn:shelfwise:'' @ join '':'' [slug tenant, slug store, slug etype, slug local]"

definition local_id :: "string \<Rightarrow> string" where
  "local_id twin = last (split_on (CHR '':'') twin)"

definition first_text :: "pydict \<Rightarrow> string list \<Rightarrow> string option" where
  "first_text payload ks = (case find_first (\<lambda>k. text_of (get payload k) \<noteq> None) ks of
       None \<Rightarrow> None | Some k \<Rightarrow> text_of (get payload k))"

definition store_id_of :: "pydict \<Rightarrow> string option" where
  "store_id_of payload = first_text payload [''store_id'', ''site_id'', ''location'', ''location_id'']"

section \<open>Numbers\<close>

text \<open>
  Arithmetic in the default decimal context rounds to 28 significant digits, half to even. \<open>k\<close> is large
  enough for \<open>10 ^ k\<close> to clear the denominator of a decimal fraction.
\<close>

definition dec_prec28 :: "rat \<Rightarrow> rat" where
  "dec_prec28 q =
     (let k = 4 * length (str_nat (nat (snd (quotient_of q)))); n = \<lfloor>q * 10 ^ k\<rfloor>; d = length (str_nat (nat \<bar>n\<bar>)) in
      if d \<le> 28 then q
      else of_int (round_half_even (of_int n / 10 ^ (d - 28))) * 10 ^ (d - 28) / 10 ^ k)"

definition int_or_none :: "pyval \<Rightarrow> int option result" where
  "int_or_none v = (case py_int v of
       Inr i \<Rightarrow> Inr (Some i)
     | Inl (TypeError m) \<Rightarrow> Inr None
     | Inl (ValueError m) \<Rightarrow> Inr None
     | Inl x \<Rightarrow> Inl x)"

definition money_minor_units :: "pyval \<Rightarrow> pyval \<Rightarrow> int option result" where
  "money_minor_units amt explicit =
     (if explicit \<noteq> PyNone then int_or_none explicit
      else case amt of
        PyDict d \<Rightarrow> if dict_has ''minor_units'' d then int_or_none (get d ''minor_units'') else Inr None
      | PyNone \<Rightarrow> Inr None
      | _ \<Rightarrow> (case parse_decimal (py_str amt) of
            Some (DecFin q) \<Rightarrow>
              (let n = round_half_even (dec_prec28 (q * 100)) in Inr (if \<bar>n\<bar> < 10 ^ 28 then Some n else None))
          | _ \<Rightarrow> Inr None))"

definition clamp01 :: "rat \<Rightarrow> rat" where
  "clamp01 q = max 0 (min 1 q)"

text \<open>\<open>_source_quality\<close>: not-a-number passes the clamp as 1, like infinity; a malformed value is 0.\<close>

definition quality_text :: "string \<Rightarrow> rat" where
  "quality_text s = (if startswith (lower (strip s)) ''snan'' then 0 else case parse_decimal s of
       Some (DecFin q) \<Rightarrow> clamp01 q
     | Some DecInf \<Rightarrow> if startswith (strip s) ''-'' then 0 else 1
     | Some DecNaN \<Rightarrow> 1
     | None \<Rightarrow> 0)"

definition source_quality :: "pydict \<Rightarrow> rat result" where
  "source_quality payload = (case get_or payload ''source_quality'' (PyFloat ''1.0'') of
       PyBool b \<Rightarrow> Inr (if b then 1 else 0)
     | PyInt i \<Rightarrow> if 2 ^ 1024 - 2 ^ 970 \<le> \<bar>i\<bar> then Inl (OverflowError ''int too large to convert to float'')
         else Inr (clamp01 (of_int i))
     | PyFloat r \<Rightarrow> Inr (quality_text r)
     | PyStr s \<Rightarrow> Inr (quality_text s)
     | _ \<Rightarrow> Inr 0)"

section \<open>From events to observations\<close>

record observation_spec =
  sp_twin_id :: string
  sp_entity_type :: string
  sp_display :: string
  sp_property :: string
  sp_value :: pyval
  sp_unit :: "string option"

definition present :: "string \<Rightarrow> string \<Rightarrow> string \<Rightarrow> string \<Rightarrow> pyval \<Rightarrow> string option \<Rightarrow> observation_spec list" where
  "present twin etype disp pname v unit = (if v = PyNone then []
     else [\<lparr>sp_twin_id = twin, sp_entity_type = etype, sp_display = disp, sp_property = pname, sp_value = v,
            sp_unit = unit\<rparr>])"

definition opt_int_val :: "int option \<Rightarrow> pyval" where
  "opt_int_val x = (case x of None \<Rightarrow> PyNone | Some i \<Rightarrow> PyInt i)"

definition stock_specs :: "string \<Rightarrow> string \<Rightarrow> pydict \<Rightarrow> observation_spec list result" where
  "stock_specs twin name p =
     bind_res (money_minor_units (get p ''unit_cost'')
       (get_or p ''unit_cost_cents'' (get p ''unit_cost_minor_units''))) (\<lambda>cost.
     bind_res (money_minor_units (get p ''unit_price'')
       (get_or p ''catalog_price_cents'' (get p ''unit_price_minor_units''))) (\<lambda>price.
     Inr (let put = present twin ''product'' name in
       put ''inventory.on_hand'' (get_or p ''on_hand'' (get p ''quantity'')) (Some ''units'') @
       put ''inventory.reorder_point'' (get p ''reorder_point'') (Some ''units'') @
       put ''inventory.stock_state'' (get p ''stock_state'') None @
       put ''catalog.category'' (get p ''category'') None @
       put ''catalog.unit_cost_minor_units'' (opt_int_val cost) (Some ''ZAR cents'') @
       put ''catalog.unit_price_minor_units'' (opt_int_val price) (Some ''ZAR cents'') @
       put ''sourcing.supplier_id'' (get_or p ''supplier'' (get p ''supplier_id'')) None)))"

definition sale_specs :: "string \<Rightarrow> string \<Rightarrow> pydict \<Rightarrow> observation_spec list" where
  "sale_specs twin name p = (let put = present twin ''product'' name in
     put ''sales.units'' (get_or p ''units'' (get p ''quantity'')) (Some ''units'') @
     put ''sales.till_price_cents'' (get_or p ''unit_price_cents'' (get p ''unit_price_minor_units''))
       (Some ''ZAR cents'') @
     put ''sales.catalog_price_cents'' (get p ''catalog_price_cents'') (Some ''ZAR cents'') @
     put ''catalog.category'' (get p ''category'') None)"

definition cold_chain_specs :: "string \<Rightarrow> string \<Rightarrow> pydict \<Rightarrow> observation_spec list" where
  "cold_chain_specs twin name p = (let put = present twin ''asset'' name in
     put ''cold_chain.diagnosis'' (get p ''diagnosis'') None @
     put ''cold_chain.severity'' (get p ''severity'') None @
     put ''cold_chain.predicted_minutes_to_unsafe'' (get p ''predicted_minutes_to_unsafe'') (Some ''minutes'') @
     put ''cold_chain.measured_outage_hours'' (get p ''measured_outage_hours'') (Some ''hours'') @
     put ''cold_chain.average_temp_c'' (get_or p ''temp_c'' (get p ''average_temp_c'')) (Some ''degC'') @
     (case get p ''stock_at_risk'' of
        PyDict d \<Rightarrow> put ''cold_chain.stock_at_risk_minor_units'' (get d ''minor_units'') (Some ''ZAR cents'')
      | _ \<Rightarrow> []))"

definition supplier_specs ::
  "string \<Rightarrow> string \<Rightarrow> string option \<Rightarrow> string \<Rightarrow> pydict \<Rightarrow> observation_spec list" where
  "supplier_specs tenant store product_twin name p =
     (let supplier = (case text_of (get p ''supplier'') of Some s \<Rightarrow> s | None \<Rightarrow> ''unknown'');
          put = present (urn tenant store ''supplier'' supplier) ''supplier'' supplier in
      put ''supplier.lead_time_days'' (get_or p ''lead_time_days'' (get p ''avg_lead_time_days'')) (Some ''days'') @
      put ''supplier.recent_delay'' (get p ''recent_delay'') None @
      put ''supplier.fill_rate'' (get p ''fill_rate'') None @
      put ''supplier.available_units'' (get p ''available_units'') (Some ''units'') @
      put ''supplier.distance_km'' (get p ''distance_km'') (Some ''km'') @
      (case product_twin of None \<Rightarrow> []
       | Some twin \<Rightarrow> present twin ''product'' name ''sourcing.supplier_id'' (PyStr supplier) None))"

definition event_specs :: "event \<Rightarrow> string \<Rightarrow> observation_spec list result" where
  "event_specs e store =
     (let p = ev_payload e; tenant = ev_tenant_id e;
          sku = text_of (get p ''sku'');
          subject = (case sku of Some s \<Rightarrow> s | None \<Rightarrow> (case text_of (get p ''asset_id'') of Some s \<Rightarrow> s
            | None \<Rightarrow> (case text_of (get p ''supplier'') of Some s \<Rightarrow> s | None \<Rightarrow> store)));
          name = (case text_of (get p ''product'') of Some s \<Rightarrow> s | None \<Rightarrow> ''Entity '' @ subject);
          product_twin = map_option (urn tenant store ''product'') sku;
          twin = (case product_twin of Some t \<Rightarrow> t | None \<Rightarrow> urn tenant store ''asset'' subject) in
      case ev_type e of
        STOCK_UPDATE \<Rightarrow> stock_specs twin name p
      | SALE \<Rightarrow> Inr (sale_specs twin name p)
      | SCAN \<Rightarrow> Inr (present twin ''product'' name ''scan.sku'' (case sku of None \<Rightarrow> PyNone | Some s \<Rightarrow> PyStr s) None @
          present twin ''product'' name ''scan.barcode'' (get p ''barcode'') None)
      | EXPIRY_ENTRY \<Rightarrow> Inr (present twin ''product'' name ''expiry.days_to_expiry'' (get p ''days_to_expiry'') (Some ''days'') @
          present twin ''product'' name ''expiry.batch_id'' (get p ''batch_id'') None @
          present twin ''product'' name ''expiry.storage'' (get p ''storage'') None)
      | COLD_CHAIN_ALERT \<Rightarrow> Inr (cold_chain_specs twin name p)
      | SHIPMENT \<Rightarrow>
          (let order = (case text_of (get p ''order_id'') of Some s \<Rightarrow> s | None \<Rightarrow> ev_id e);
               put = present (urn tenant store ''order'' order) ''order'' (''Order '' @ order) in
           Inr (put ''logistics.ordered_units'' (get p ''ordered_units'') (Some ''units'') @
                put ''logistics.eta'' (get p ''eta'') None))
      | SUPPLIER_UPDATE \<Rightarrow> Inr (supplier_specs tenant store product_twin name p)
      | _ \<Rightarrow>
          (let prefix = (if ev_type e = RECALL_NOTICE then ''quality.recall'' else ''inventory.exception'');
               put = present twin (if sku \<noteq> None then ''product'' else ''store'') name in
           Inr (put (prefix @ ''.status'') (PyStr ''active'') None @
                put (prefix @ ''.detail'') (get_or p ''reason'' (get p ''notice'')) None)))"

definition event_digest :: "(string \<Rightarrow> string) \<Rightarrow> event \<Rightarrow> observation_spec \<Rightarrow> string" where
  "event_digest sha e spec = sha (json_dumps (PyDict [(''event_id'', PyStr (ev_id e)),
     (''property'', PyStr (sp_property spec)), (''value'', sp_value spec)]))"

definition observation_for_spec ::
  "(string \<Rightarrow> string) \<Rightarrow> event \<Rightarrow> observation_spec \<Rightarrow> string \<Rightarrow> string \<Rightarrow> datetime \<Rightarrow> twin_observation result" where
  "observation_for_spec sha e spec twin store ingested = bind_res (source_quality (ev_payload e)) (\<lambda>quality.
     let digest = event_digest sha e spec;
         ob = \<lparr>ob_id = ''obs_'' @ take 32 digest, ob_tenant = ev_tenant_id e, ob_store = store, ob_twin_id = twin,
           ob_property = sp_property spec, ob_lane = REPORTED, ob_value = sp_value spec, ob_unit = sp_unit spec,
           ob_observed_at = ev_ts e, ob_ingested_at = ingested, ob_source_system = event_source_value (ev_source e),
           ob_source_object = ev_id e, ob_sequence = text_of (get (ev_payload e) ''sequence''), ob_quality = quality,
           ob_schema_version = ev_schema_version e, ob_correlation_id = ev_correlation_id e,
           ob_causation_id = ev_causation_id e, ob_branch = None, ob_hash = digest\<rparr>
     in if observation_valid ob then Inr ob else Inl (ValueError ''validation error for TwinObservation''))"

section \<open>The service\<close>

text \<open>The operations of a twin store the service calls.\<close>

record 's twin_ops =
  op_proj :: "'s projection_store"
  op_get_entity :: "string \<Rightarrow> string \<Rightarrow> 's \<Rightarrow> twin_entity option result"
  op_ensure :: "twin_entity \<Rightarrow> 's \<Rightarrow> ('s \<times> twin_entity) result"
  op_relate :: "twin_relationship \<Rightarrow> 's \<Rightarrow> ('s \<times> twin_relationship) result"
  op_entities :: "string \<Rightarrow> string option \<Rightarrow> 's \<Rightarrow> twin_entity list result"
  op_relationships :: "string \<Rightarrow> string option \<Rightarrow> 's \<Rightarrow> twin_relationship list result"
  op_observations :: "string \<Rightarrow> string option \<Rightarrow> int \<Rightarrow> bool \<Rightarrow> 's \<Rightarrow> twin_observation list result"
  op_properties :: "string \<Rightarrow> string option \<Rightarrow> bool \<Rightarrow> 's \<Rightarrow> property_state list result"

definition mem_twin_ops :: "twin_store twin_ops" where
  "mem_twin_ops = \<lparr>op_proj = mem_twin,
     op_get_entity = (\<lambda>t i s. Inr (tw_get_entity t i s)), op_ensure = (\<lambda>e s. Inr (tw_ensure_entity e s)),
     op_relate = (\<lambda>r s. Inr (tw_add_relationship r s)),
     op_entities = (\<lambda>t st s. Inr (tw_list_entities t st s)),
     op_relationships = (\<lambda>t st s. Inr (tw_list_relationships t st s)),
     op_observations = tw_list_observations,
     op_properties = (\<lambda>t st b s. Inr (tw_list_properties t st b s))\<rparr>"

definition pg_twin_ops :: "environ \<Rightarrow> string option \<Rightarrow> twin_db twin_ops" where
  "pg_twin_ops env ctx = \<lparr>op_proj = pg_twin env ctx, op_get_entity = pgt_get_entity env ctx,
     op_ensure = pgt_ensure_entity env ctx, op_relate = pgt_add_relationship env ctx,
     op_entities = pgt_list_entities env ctx, op_relationships = pgt_list_relationships env ctx,
     op_observations = pgt_list_observations env ctx, op_properties = pgt_list_properties env ctx\<rparr>"

text \<open>Sequencing of statements that may raise and keep the state they have reached.\<close>

definition and_then :: "('s \<Rightarrow> 's \<times> 'a result) \<Rightarrow> ('a \<Rightarrow> 's \<Rightarrow> 's \<times> 'b result) \<Rightarrow> 's \<Rightarrow> 's \<times> 'b result" where
  "and_then m f s = (case m s of (s1, Inl x) \<Rightarrow> (s1, Inl x) | (s1, Inr v) \<Rightarrow> f v s1)"

definition statement :: "('s \<Rightarrow> ('s \<times> 'a) result) \<Rightarrow> 's \<Rightarrow> 's \<times> 'a result" where
  "statement m s = (case m s of Inl x \<Rightarrow> (s, Inl x) | Inr (s1, v) \<Rightarrow> (s1, Inr v))"

definition service_entity ::
  "string \<Rightarrow> string \<Rightarrow> string \<Rightarrow> string \<Rightarrow> string \<Rightarrow> datetime \<Rightarrow> string option \<Rightarrow> string \<Rightarrow> pydict \<Rightarrow> twin_entity" where
  "service_entity tenant store etype local disp created twin version attrs =
     \<lparr>te_twin_id = (case twin of Some (c # cs) \<Rightarrow> c # cs | _ \<Rightarrow> urn tenant store etype local),
      te_tenant = tenant, te_store = store, te_type = etype, te_display = take 200 disp,
      te_model_version = version, te_attributes = attrs, te_created_at = created, te_retired_at = None\<rparr>"

definition ensure_entity :: "'s twin_ops \<Rightarrow> twin_entity \<Rightarrow> 's \<Rightarrow> 's \<times> twin_entity result" where
  "ensure_entity ops e s = (if \<not> entity_valid e then (s, Inl (ValueError ''validation error for TwinEntity''))
     else statement (op_ensure ops e) s)"

definition link :: "'s twin_ops \<Rightarrow> (string \<Rightarrow> string) \<Rightarrow> string \<Rightarrow> string \<Rightarrow> string \<Rightarrow> string \<Rightarrow> datetime \<Rightarrow> 's \<Rightarrow>
   's \<times> twin_relationship result" where
  "link ops sha tenant source target rtype ts s =
     (let r = \<lparr>tr_id = ''rel_'' @ take 24 (sha (join ''|'' [tenant, source, rtype, target])), tr_tenant_id = tenant,
            tr_source = source, tr_type = rtype, tr_target = target, tr_attributes = [], tr_valid_from = ts,
            tr_valid_to = None\<rparr> in
      if \<not> relationship_valid r then (s, Inl (ValueError ''validation error for TwinRelationship''))
      else statement (op_relate ops r) s)"

text \<open>The fixed parts of a service: the digest, the source policies and the float multiplication.\<close>

record service_cfg =
  cf_sha :: "string \<Rightarrow> string"
  cf_policy :: policy_resolver
  cf_fm :: "rat \<Rightarrow> rat \<Rightarrow> rat"

definition accept_observation ::
  "'s twin_ops \<Rightarrow> service_cfg \<Rightarrow> datetime \<Rightarrow> twin_observation \<Rightarrow> 's \<Rightarrow> 's \<times> projection_result result" where
  "accept_observation ops cfg now ob s = (case op_get_entity ops (ob_tenant ob) (ob_twin_id ob) s of
       Inl x \<Rightarrow> (s, Inl x)
     | Inr (Some e) \<Rightarrow> proj_apply (op_proj ops) (cf_policy cfg) (cf_fm cfg) now ob s
     | Inr None \<Rightarrow> and_then (ensure_entity ops (service_entity (ob_tenant ob) (ob_store ob) ''observed_entity''
           (local_id (ob_twin_id ob)) (local_id (ob_twin_id ob)) (ob_observed_at ob) (Some (ob_twin_id ob)) ''twin-v1'' []))
         (\<lambda>e. proj_apply (op_proj ops) (cf_policy cfg) (cf_fm cfg) now ob) s)"

definition spec_entity :: "event \<Rightarrow> string \<Rightarrow> observation_spec \<Rightarrow> twin_entity" where
  "spec_entity e store spec = service_entity (ev_tenant_id e) store (sp_entity_type spec)
     (local_id (sp_twin_id spec)) (sp_display spec) (ev_ts e) None ''twin-v1'' []"

definition project_spec ::
  "'s twin_ops \<Rightarrow> service_cfg \<Rightarrow> event \<Rightarrow> string \<Rightarrow> string \<Rightarrow> datetime \<Rightarrow> datetime \<Rightarrow> observation_spec \<Rightarrow> 's \<Rightarrow>
   's \<times> projection_result result" where
  "project_spec ops cfg e store anchor ingested now spec =
     and_then (ensure_entity ops (spec_entity e store spec)) (\<lambda>entity.
     and_then (link ops (cf_sha cfg) (ev_tenant_id e) anchor (te_twin_id entity) ''contains'' (ev_ts e)) (\<lambda>r s.
       case observation_for_spec (cf_sha cfg) e spec (te_twin_id entity) store ingested of
         Inl x \<Rightarrow> (s, Inl x)
       | Inr ob \<Rightarrow> proj_apply (op_proj ops) (cf_policy cfg) (cf_fm cfg) now ob s))"

fun project_specs ::
  "'s twin_ops \<Rightarrow> service_cfg \<Rightarrow> event \<Rightarrow> string \<Rightarrow> string \<Rightarrow> (nat \<Rightarrow> datetime) \<Rightarrow> nat \<Rightarrow> observation_spec list \<Rightarrow> 's \<Rightarrow>
   's \<times> projection_result list result" where
  "project_specs ops cfg e store anchor clock n [] s = (s, Inr [])"
| "project_specs ops cfg e store anchor clock n (spec # specs) s =
     and_then (project_spec ops cfg e store anchor (clock n) (clock (n + 1)) spec) (\<lambda>r.
     and_then (project_specs ops cfg e store anchor clock (n + 2) specs) (\<lambda>rs s'. (s', Inr (r # rs)))) s"

definition project_event ::
  "'s twin_ops \<Rightarrow> service_cfg \<Rightarrow> (nat \<Rightarrow> datetime) \<Rightarrow> event \<Rightarrow> 's \<Rightarrow> 's \<times> projection_result list result" where
  "project_event ops cfg clock e s =
     (if ev_data_domain e \<noteq> OPERATIONAL_TWIN
      then (s, Inl (DataDomainBoundaryError (''operational twin projection requires data_domain='' @
             repr_str (domain_value OPERATIONAL_TWIN) @ ''; received '' @ repr_str (domain_value (ev_data_domain e)))))
      else case store_id_of (ev_payload e) of
        None \<Rightarrow> (s, Inr [])
      | Some store \<Rightarrow>
          and_then (ensure_entity ops (service_entity (ev_tenant_id e) store ''store'' store (''Store '' @ store) (ev_ts e)
              None ''twin-v1'' [])) (\<lambda>anchor s1.
            case event_specs e store of
              Inl x \<Rightarrow> (s1, Inl x)
            | Inr specs \<Rightarrow> project_specs ops cfg e store (te_twin_id anchor) clock 0 specs s1) s)"

record twin_outcome =
  to_status :: string
  to_event_id :: string
  to_results :: "projection_result list"

definition project_twin_event ::
  "'s twin_ops \<Rightarrow> service_cfg \<Rightarrow> (nat \<Rightarrow> datetime) \<Rightarrow> event \<Rightarrow> 's \<Rightarrow> 's \<times> twin_outcome" where
  "project_twin_event ops cfg clock e s = (case project_event ops cfg clock e s of
       (s', Inl (DataDomainBoundaryError m)) \<Rightarrow>
         (s', \<lparr>to_status = ''skipped_non_operational'', to_event_id = ev_id e, to_results = []\<rparr>)
     | (s', Inl x) \<Rightarrow> (s', \<lparr>to_status = ''quarantined'', to_event_id = ev_id e, to_results = []\<rparr>)
     | (s', Inr rs) \<Rightarrow> (s', \<lparr>to_status = (if rs = [] then ''ignored_no_store'' else ''projected''),
         to_event_id = ev_id e, to_results = rs\<rparr>))"

section \<open>Onboarding, snapshots and the rebuild\<close>

record entity_seed =
  sd_local :: string
  sd_type :: string
  sd_display :: string
  sd_attributes :: pydict

record onboarding_manifest =
  mf_tenant :: string
  mf_store :: string
  mf_display :: string
  mf_timezone :: string
  mf_version :: string
  mf_entities :: "entity_seed list"

definition local_pattern :: "string \<Rightarrow> bool" where
  "local_pattern s \<longleftrightarrow> s \<noteq> [] \<and> list_all (\<lambda>c. is_az c \<or> is_AZ c \<or> is_09 c \<or> c \<in> set ''_.:-'') s"

definition seed_valid :: "entity_seed \<Rightarrow> bool" where
  "seed_valid d \<longleftrightarrow> len_between 1 120 (sd_local d) \<and> local_pattern (sd_local d) \<and> name_pattern ''_'' 63 (sd_type d) \<and>
     len_between 1 200 (sd_display d) \<and> assert_safe_value 0 (PyDict (sd_attributes d)) = Inr ()"

definition manifest_valid :: "onboarding_manifest \<Rightarrow> bool" where
  "manifest_valid m \<longleftrightarrow> len_between 1 100 (mf_tenant m) \<and> len_between 1 100 (mf_store m) \<and> local_pattern (mf_store m) \<and>
     len_between 1 200 (mf_display m) \<and> len_between 1 80 (mf_timezone m) \<and> len_between 1 40 (mf_version m) \<and>
     length (mf_entities m) \<le> 500 \<and> list_all seed_valid (mf_entities m)"

type_synonym manifests = "(string \<times> string, onboarding_manifest) dict"

definition mf_save :: "onboarding_manifest \<Rightarrow> manifests \<Rightarrow> manifests" where
  "mf_save m ms = dict_set (mf_tenant m, mf_store m) m ms"

definition mf_get :: "string \<Rightarrow> string \<Rightarrow> manifests \<Rightarrow> onboarding_manifest option" where
  "mf_get tenant store ms = dict_get ms (tenant, store)"

definition mf_list :: "string \<Rightarrow> int \<Rightarrow> manifests \<Rightarrow> onboarding_manifest list result" where
  "mf_list tenant limit ms =
     (if limit < 1 \<or> limit > 100 then Inl (ValueError ''limit must be between 1 and 100'')
      else Inr (take (nat limit) (sorted_by mf_store (map snd (filter (\<lambda>((t, st), m). t = tenant) ms)))))"

definition mf_clear :: "manifests \<Rightarrow> manifests" where
  "mf_clear ms = []"

text \<open>
  What a snapshot hashes: the listed entities, relationships and properties without the fields stamped
  from the clock. Rendering it as JSON and hashing it is \<open>digest\<close>.
\<close>

type_synonym entity_view = "string \<times> string \<times> string \<times> string \<times> string \<times> string \<times> pydict \<times> datetime option"
type_synonym relationship_view = "string \<times> string \<times> string \<times> string \<times> string \<times> pydict \<times> datetime option"
type_synonym property_view =
  "(string \<times> string \<times> string \<times> state_lane \<times> pyval \<times> string option \<times> string \<times> datetime \<times> string \<times> rat) \<times> string option"

record snapshot_view =
  sv_entities :: "entity_view list"
  sv_relationships :: "relationship_view list"
  sv_properties :: "property_view list"

definition entity_view :: "twin_entity \<Rightarrow> entity_view" where
  "entity_view e = (te_twin_id e, te_tenant e, te_store e, te_type e, te_display e, te_model_version e, te_attributes e,
     te_retired_at e)"

definition relationship_view :: "twin_relationship \<Rightarrow> relationship_view" where
  "relationship_view r = (tr_id r, tr_tenant_id r, tr_source r, tr_type r, tr_target r, tr_attributes r, tr_valid_to r)"

definition property_view :: "property_state \<Rightarrow> property_view" where
  "property_view v = (substance v, st_branch v)"

record twin_snapshot =
  sn_tenant :: string
  sn_store :: string
  sn_id :: string
  sn_generated_at :: datetime
  sn_entities :: nat
  sn_relationships :: nat
  sn_properties :: nat
  sn_observations :: nat
  sn_hash :: string

definition snapshot_content :: "'s twin_ops \<Rightarrow> string \<Rightarrow> string \<Rightarrow> 's \<Rightarrow> snapshot_view result" where
  "snapshot_content ops tenant store s =
     bind_res (op_entities ops tenant (Some store) s) (\<lambda>es.
     bind_res (op_relationships ops tenant (Some store) s) (\<lambda>rs.
     bind_res (op_properties ops tenant (Some store) False s) (\<lambda>ps.
       Inr \<lparr>sv_entities = map entity_view es, sv_relationships = map relationship_view rs,
            sv_properties = map property_view ps\<rparr>)))"

definition snapshot ::
  "'s twin_ops \<Rightarrow> (snapshot_view \<Rightarrow> string) \<Rightarrow> string \<Rightarrow> string \<Rightarrow> datetime \<Rightarrow> 's \<Rightarrow> twin_snapshot result" where
  "snapshot ops digest tenant store generated s =
     bind_res (snapshot_content ops tenant store s) (\<lambda>v.
     bind_res (op_observations ops tenant (Some store) 500 False s) (\<lambda>obs.
       let h = digest v in
       Inr \<lparr>sn_tenant = tenant, sn_store = store, sn_id = ''snapshot_'' @ take 24 h, sn_generated_at = generated,
            sn_entities = length (sv_entities v), sn_relationships = length (sv_relationships v),
            sn_properties = length (sv_properties v), sn_observations = length obs, sn_hash = h\<rparr>))"

fun onboard_seeds ::
  "'s twin_ops \<Rightarrow> service_cfg \<Rightarrow> onboarding_manifest \<Rightarrow> twin_entity \<Rightarrow> entity_seed list \<Rightarrow> 's \<Rightarrow> 's \<times> unit result" where
  "onboard_seeds ops cfg m anchor [] s = (s, Inr ())"
| "onboard_seeds ops cfg m anchor (d # ds) s =
     and_then (ensure_entity ops (service_entity (mf_tenant m) (mf_store m) (sd_type d) (sd_local d) (sd_display d)
         (te_created_at anchor) None (mf_version m) (sd_attributes d))) (\<lambda>entity.
     and_then (link ops (cf_sha cfg) (mf_tenant m) (te_twin_id anchor) (te_twin_id entity) ''contains'' (te_created_at anchor))
       (\<lambda>r. onboard_seeds ops cfg m anchor ds)) s"

definition onboard_topology ::
  "'s twin_ops \<Rightarrow> service_cfg \<Rightarrow> datetime \<Rightarrow> onboarding_manifest \<Rightarrow> 's \<Rightarrow> 's \<times> twin_entity result" where
  "onboard_topology ops cfg now m =
     and_then (ensure_entity ops (service_entity (mf_tenant m) (mf_store m) ''store'' (mf_store m) (mf_display m) now None
         (mf_version m) [(''timezone'', PyStr (mf_timezone m)), (''onboarding'', PyStr ''explicit'')])) (\<lambda>anchor.
     and_then (onboard_seeds ops cfg m anchor (mf_entities m)) (\<lambda>u s. (s, Inr anchor)))"

definition onboard ::
  "'s twin_ops \<Rightarrow> service_cfg \<Rightarrow> (snapshot_view \<Rightarrow> string) \<Rightarrow> datetime \<Rightarrow> onboarding_manifest \<Rightarrow> manifests \<times> 's \<Rightarrow>
   (manifests \<times> 's) \<times> twin_snapshot result" where
  "onboard ops cfg digest now m st = (case st of (ms, s) \<Rightarrow>
     let ms' = mf_save m ms in
     case onboard_topology ops cfg now m s of
       (s', Inl x) \<Rightarrow> ((ms', s'), Inl x)
     | (s', Inr anchor) \<Rightarrow> ((ms', s'), snapshot ops digest (mf_tenant m) (mf_store m) (te_created_at anchor) s'))"

fun project_all ::
  "'s twin_ops \<Rightarrow> service_cfg \<Rightarrow> (nat \<Rightarrow> nat \<Rightarrow> datetime) \<Rightarrow> nat \<Rightarrow> event list \<Rightarrow> 's \<Rightarrow> 's \<times> projection_result list result" where
  "project_all ops cfg clock n [] s = (s, Inr [])"
| "project_all ops cfg clock n (e # es) s =
     and_then (project_event ops cfg (clock n) e) (\<lambda>rs.
     and_then (project_all ops cfg clock (n + 1) es) (\<lambda>rest s'. (s', Inr (rs @ rest)))) s"

record bootstrap_report =
  bs_considered :: nat
  bs_operational :: nat
  bs_skipped :: nat
  bs_processed :: nat
  bs_projected :: nat
  bs_duplicates :: nat
  bs_snapshot :: twin_snapshot

definition bootstrap_relevant :: "string \<Rightarrow> string \<Rightarrow> event list \<Rightarrow> event list" where
  "bootstrap_relevant tenant store es =
     filter (\<lambda>e. ev_tenant_id e = tenant \<and> store_id_of (ev_payload e) = Some store) es"

definition bootstrap_order :: "string \<Rightarrow> string \<Rightarrow> event list \<Rightarrow> event list" where
  "bootstrap_order tenant store es = sorted_by (\<lambda>e. (instant (ev_ts e), ev_id e))
     (filter (\<lambda>e. ev_data_domain e = OPERATIONAL_TWIN) (bootstrap_relevant tenant store es))"

definition bootstrap_events ::
  "'s twin_ops \<Rightarrow> service_cfg \<Rightarrow> (snapshot_view \<Rightarrow> string) \<Rightarrow> (nat \<Rightarrow> nat \<Rightarrow> datetime) \<Rightarrow> datetime \<Rightarrow> datetime \<Rightarrow>
   event list \<Rightarrow> string \<Rightarrow> string \<Rightarrow> manifests \<times> 's \<Rightarrow> (manifests \<times> 's) \<times> bootstrap_report result" where
  "bootstrap_events ops cfg digest clock onboarded generated es tenant store st =
     and_then (\<lambda>st. case mf_get tenant store (fst st) of
         None \<Rightarrow> (st, Inr ())
       | Some m \<Rightarrow> (case onboard ops cfg digest onboarded m st of (st', Inl x) \<Rightarrow> (st', Inl x) | (st', Inr v) \<Rightarrow> (st', Inr ())))
     (\<lambda>u (ms, s). case project_all ops cfg clock 0 (bootstrap_order tenant store es) s of
         (s', Inl x) \<Rightarrow> ((ms, s'), Inl x)
       | (s', Inr rs) \<Rightarrow> ((ms, s'), bind_res (snapshot ops digest tenant store generated s') (\<lambda>sn.
           let relevant = length (bootstrap_relevant tenant store es);
               operational = length (bootstrap_order tenant store es) in
           Inr \<lparr>bs_considered = relevant, bs_operational = operational, bs_skipped = relevant - operational,
                bs_processed = length rs,
                bs_projected = length (filter (\<lambda>r. pr_status r = ''projected'') rs),
                bs_duplicates = length (filter (\<lambda>r. pr_status r = ''duplicate'') rs), bs_snapshot = sn\<rparr>))) st"

section \<open>Slugs and identifiers\<close>

lemma sub_unsafe_safe: "c \<in> set (sub_unsafe b s) \<Longrightarrow> slug_char c"
  by (induction b s rule: sub_unsafe.induct) (auto simp: slug_char_def split: if_splits)

lemma sub_unsafe_id: "list_all slug_char s \<Longrightarrow> sub_unsafe False s = s"
  by (induction s) auto

lemma slug_safe: "list_all slug_char (slug s)"
  by (auto simp: slug_def Let_def list_all_iff dest: in_set_takeD sub_unsafe_safe)
    (auto simp: slug_char_def is_az_def ascii_between_def)

lemma slug_char_not_space: "slug_char c \<Longrightarrow> \<not> is_space c"
  unfolding slug_char_def is_space_def is_az_def is_AZ_def is_09_def ascii_between_def Let_def by auto

lemma slug_char_not_colon: "slug_char c \<Longrightarrow> c \<noteq> CHR '':''"
  unfolding slug_char_def is_az_def is_AZ_def is_09_def ascii_between_def by auto

lemma slug_nonempty: "slug s \<noteq> []"
  by (simp add: slug_def Let_def)

lemma strip_slug_chars: "list_all slug_char s \<Longrightarrow> strip s = s"
proof -
  assume "list_all slug_char s"
  then have "\<forall>c \<in> set s. \<not> is_space c" by (auto simp: list_all_iff slug_char_not_space)
  moreover have d: "dropWhile is_space t = t" if "\<forall>c \<in> set t. \<not> is_space c" for t using that by (cases t) auto
  ultimately show ?thesis using d [of s] d [of "rev s"] by (simp add: strip_def)
qed

lemma slug_idem: "slug (slug s) = slug s"
proof -
  have "length (slug s) \<le> 120" by (simp add: slug_def Let_def)
  then show ?thesis
    using slug_safe [of s] slug_nonempty [of s]
    by (simp add: slug_def [of "slug s"] strip_slug_chars sub_unsafe_id Let_def)
qed

lemma split_on_any: "split_on d (s @ d # t) = split_on d s @ split_on d t"
  by (induction s) (auto simp: split_on_nonempty split: list.splits)

lemma local_id_urn: "local_id (urn tenant store etype local) = slug local"
proof -
  have "\<forall>c \<in> set (slug local). c \<noteq> CHR '':''"
    using slug_safe [of local] slug_char_not_colon by (auto simp: list_all_iff)
  then have "split_on (CHR '':'') (slug local) = [slug local]" by (intro split_on_no_sep) auto
  moreover have "urn tenant store etype local =
      (''urn:shelfwise:'' @ slug tenant @ '':'' @ slug store @ '':'' @ slug etype) @ CHR '':'' # slug local"
    by (simp add: urn_def)
  ultimately show ?thesis unfolding local_id_def by (simp only: split_on_any) simp
qed

text \<open>The identifier of an entity is stable: building it again from its own last segment gives it back.\<close>

lemma urn_stable: "urn tenant store etype (local_id (urn tenant store etype' local)) = urn tenant store etype local"
  unfolding local_id_urn by (simp add: urn_def slug_idem)

section \<open>The service on the in-memory store\<close>

definition proj_part :: "twin_store \<Rightarrow>
  (string \<times> string, twin_observation) dict \<times> dedupe_key list \<times> (property_key, property_state) dict" where
  "proj_part s = (tw_observations s, tw_dedupe s, tw_properties s)"

definition ents_ok :: "twin_store \<Rightarrow> bool" where
  "ents_ok s \<longleftrightarrow> (\<forall>k. \<forall>e. dict_get (tw_entities s) k = Some e \<longrightarrow> k = (te_tenant e, te_twin_id e))"

lemma ents_okD: "ents_ok s \<Longrightarrow> dict_get (tw_entities s) k = Some e \<Longrightarrow> k = (te_tenant e, te_twin_id e)"
  unfolding ents_ok_def by blast

lemma mem_ops_simps [simp]:
  "op_proj mem_twin_ops = mem_twin" "op_ensure mem_twin_ops e s = Inr (tw_ensure_entity e s)"
  "op_relate mem_twin_ops r s = Inr (tw_add_relationship r s)"
  "op_get_entity mem_twin_ops t i s = Inr (tw_get_entity t i s)"
  by (simp_all add: mem_twin_ops_def)

lemma and_then_Inr:
  "and_then m f s = (s', Inr v) \<longleftrightarrow> (\<exists>s1 u. m s = (s1, Inr u) \<and> f u s1 = (s', Inr v))"
  by (auto simp: and_then_def split: prod.splits sum.splits)

lemma raise_Inr:
  "(case r of Inl x \<Rightarrow> (s, Inl x) | Inr v \<Rightarrow> f v) = (s', Inr w) \<longleftrightarrow> (\<exists>v. r = Inr v \<and> f v = (s', Inr w))"
  by (cases r) auto

lemma raise_pair_Inr:
  "(case p of (s', Inl x) \<Rightarrow> ((ms, s'), Inl x) | (s', Inr v) \<Rightarrow> ((ms, s'), g s' v)) = (st, Inr w) \<longleftrightarrow>
   (\<exists>s' v. p = (s', Inr v) \<and> st = (ms, s') \<and> g s' v = Inr w)"
  by (cases p; cases "snd p") auto

lemma ensure_mem:
  assumes "ensure_entity mem_twin_ops e s = (s', Inr x)"
  shows "entity_valid e" "tw_ensure_entity e s = (s', x)"
  using assms by (auto simp: ensure_entity_def statement_def split: if_splits prod.splits)

lemma tw_ensure_frame:
  assumes "tw_ensure_entity e s = (s', x)" "ents_ok s"
  shows "proj_part s' = proj_part s" "ents_ok s'" "te_twin_id x = te_twin_id e" "te_tenant x = te_tenant e"
    "tw_relationships s' = tw_relationships s" "dict_get (tw_entities s') (te_tenant e, te_twin_id e) = Some x"
    "dict_get (tw_entities s) k = Some y \<Longrightarrow> dict_get (tw_entities s') k = Some y"
proof -
  show "te_twin_id x = te_twin_id e" "te_tenant x = te_tenant e"
  proof (atomize (full), cases "dict_get (tw_entities s) (te_tenant e, te_twin_id e)")
    case (Some y)
    then have "x = y" using assms(1) by (simp add: tw_ensure_entity_def)
    with ents_okD [OF assms(2) Some] show "te_twin_id x = te_twin_id e \<and> te_tenant x = te_tenant e" by simp
  qed (use assms(1) in \<open>simp add: tw_ensure_entity_def\<close>)
  show "ents_ok s'"
  proof (cases "dict_get (tw_entities s) (te_tenant e, te_twin_id e)")
    case None
    then have s': "tw_entities s' = dict_set (te_tenant e, te_twin_id e) e (tw_entities s)"
      using assms(1) by (auto simp: tw_ensure_entity_def)
    have "k = (te_tenant y, te_twin_id y)" if "dict_get (tw_entities s') k = Some y" for k y
      using that ents_okD [OF assms(2), of k y] unfolding s' by (simp split: if_splits)
    then show ?thesis unfolding ents_ok_def by blast
  next
    case (Some y)
    then show ?thesis using assms by (simp add: tw_ensure_entity_def)
  qed
qed (use assms(1) in \<open>auto simp: tw_ensure_entity_def proj_part_def split: option.splits\<close>)

lemma tw_relate_frame:
  assumes "tw_add_relationship r s = (s', x)"
  shows "proj_part s' = proj_part s" "tw_entities s' = tw_entities s"
    "dict_get (tw_relationships s') (tr_tenant_id r, tr_id r) \<noteq> None"
    "dict_get (tw_relationships s) k \<noteq> None \<Longrightarrow> dict_get (tw_relationships s') k \<noteq> None"
  using assms by (auto simp: tw_add_relationship_def proj_part_def split: option.splits)

text \<open>A delivery reads and writes only the projection's part of the store, and never raises.\<close>

lemma proj_apply_mem_eq:
  "proj_apply mem_twin policy fm now ob s =
    (if dict_has (ob_tenant ob, ob_id ob) (tw_observations s) \<or> dedupe_key ob \<in> set (tw_dedupe s)
     then (s, Inr \<lparr>pr_status = ''duplicate'', pr_observation_id = ob_id ob, pr_reason = ''already recorded'', pr_state = None\<rparr>)
     else let s1 = fst (tw_record_observation ob s); cur = dict_get (tw_properties s) (ob_key ob);
              v = state_of policy fm now ob in
       if (case cur of None \<Rightarrow> False | Some c \<Rightarrow> \<not> may_replace policy c ob)
       then (s1, Inr \<lparr>pr_status = ''recorded_not_projected'', pr_observation_id = ob_id ob,
              pr_reason = ''older or lower-authority observation'', pr_state = cur\<rparr>)
       else (tw_upsert_property v s1, Inr \<lparr>pr_status = ''projected'', pr_observation_id = ob_id ob,
              pr_reason = ''accepted'', pr_state = Some v\<rparr>))"
  by (simp add: proj_apply_def mem_twin_def tw_record_observation_def tw_get_property_def ob_key_def Let_def)

lemma proj_apply_mem:
  "\<exists>s' r. proj_apply mem_twin policy fm now ob s = (s', Inr r) \<and> tw_entities s' = tw_entities s \<and>
     tw_relationships s' = tw_relationships s"
  by (simp add: proj_apply_mem_eq tw_record_observation_def tw_upsert_property_def Let_def)

lemma proj_apply_part:
  assumes "proj_part s = proj_part t"
  shows "proj_part (fst (proj_apply mem_twin policy fm now ob s)) = proj_part (fst (proj_apply mem_twin policy fm now ob t))"
proof -
  have eq: "tw_observations s = tw_observations t" "tw_dedupe s = tw_dedupe t" "tw_properties s = tw_properties t"
    using assms by (simp_all add: proj_part_def)
  show ?thesis unfolding proj_apply_mem_eq eq
    by (simp add: tw_record_observation_def tw_upsert_property_def proj_part_def Let_def eq)
qed

lemma proj_run_part:
  "proj_part s = proj_part t \<Longrightarrow>
   proj_part (proj_run mem_twin policy fm xs s) = proj_part (proj_run mem_twin policy fm xs t)"
proof (induction xs arbitrary: s t)
  case (Cons x xs)
  obtain now ob where x: "x = (now, ob)" by (cases x)
  show ?case unfolding x proj_run.simps by (rule Cons.IH [OF proj_apply_part [OF Cons.prems]])
qed simp

lemma proj_run_append:
  "proj_run st policy fm (xs @ ys) s = proj_run st policy fm ys (proj_run st policy fm xs s)"
  by (induction st policy fm xs s rule: proj_run.induct) auto

section \<open>The observations of an event\<close>

text \<open>The content of an observation does not depend on when it is taken in.\<close>

lemma observation_content:
  assumes "observation_for_spec sha e spec twin store t = Inr ob"
  shows "observation_for_spec sha e spec twin store (ev_ts e) = Inr (ob_content ob)"
    and "aware t' \<Longrightarrow> \<exists>ob'. observation_for_spec sha e spec twin store t' = Inr ob' \<and> ob_content ob' = ob_content ob"
  using assms
  by (auto simp: observation_for_spec_def Let_def bind_res_Inr_iff ob_content_def observation_valid_def split: if_splits)

definition spec_content :: "(string \<Rightarrow> string) \<Rightarrow> event \<Rightarrow> string \<Rightarrow> observation_spec \<Rightarrow> twin_observation option" where
  "spec_content sha e store spec =
     (case observation_for_spec sha e spec (te_twin_id (spec_entity e store spec)) store (ev_ts e) of
        Inr ob \<Rightarrow> Some ob | Inl x \<Rightarrow> None)"

definition event_contents :: "(string \<Rightarrow> string) \<Rightarrow> event \<Rightarrow> twin_observation list" where
  "event_contents sha e = (if ev_data_domain e \<noteq> OPERATIONAL_TWIN then []
     else case store_id_of (ev_payload e) of
       None \<Rightarrow> []
     | Some store \<Rightarrow> (case event_specs e store of
         Inl x \<Rightarrow> [] | Inr specs \<Rightarrow> List.map_filter (spec_content sha e store) specs))"

lemma link_mem:
  assumes "link mem_twin_ops sha tenant source target rtype ts s = (s', Inr r)"
  shows "proj_part s' = proj_part s" "tw_entities s' = tw_entities s"
  using assms tw_relate_frame by (auto simp: link_def statement_def Let_def split: if_splits prod.splits)

lemma ents_ok_cong: "tw_entities s' = tw_entities s \<Longrightarrow> ents_ok s' = ents_ok s"
  by (simp add: ents_ok_def)

lemma project_spec_mem:
  assumes "project_spec mem_twin_ops cfg e store anchor ingested now spec s = (s', Inr r)" "ents_ok s"
  shows "\<exists>ob. ents_ok s' \<and> spec_content (cf_sha cfg) e store spec = Some (ob_content ob) \<and>
    proj_part s' = proj_part (fst (proj_apply mem_twin (cf_policy cfg) (cf_fm cfg) now ob s))"
proof -
  from assms(1) obtain s1 x s2 y ob where
    a: "ensure_entity mem_twin_ops (spec_entity e store spec) s = (s1, Inr x)"
    and b: "link mem_twin_ops (cf_sha cfg) (ev_tenant_id e) anchor (te_twin_id x) ''contains'' (ev_ts e) s1 = (s2, Inr y)"
    and c: "observation_for_spec (cf_sha cfg) e spec (te_twin_id x) store ingested = Inr ob"
    and d: "proj_apply mem_twin (cf_policy cfg) (cf_fm cfg) now ob s2 = (s', Inr r)"
    by (auto simp: project_spec_def and_then_Inr raise_Inr)
  note en = tw_ensure_frame [OF ensure_mem(2) [OF a] assms(2)]
  have part: "proj_part s2 = proj_part s" using link_mem(1) [OF b] en(1) by simp
  have "ents_ok s'"
  proof -
    from proj_apply_mem [of "cf_policy cfg" "cf_fm cfg" now ob s2] d have "tw_entities s' = tw_entities s2" by auto
    then have "tw_entities s' = tw_entities s1" using link_mem(2) [OF b] by simp
    from ents_ok_cong [OF this] en(2) show ?thesis by simp
  qed
  moreover have "spec_content (cf_sha cfg) e store spec = Some (ob_content ob)"
    using observation_content(1) [OF c] en(3) by (simp add: spec_content_def)
  moreover have "proj_part s' = proj_part (fst (proj_apply mem_twin (cf_policy cfg) (cf_fm cfg) now ob s))"
    using proj_apply_part [OF part, of "cf_policy cfg" "cf_fm cfg" now ob] d by simp
  ultimately show ?thesis by blast
qed

lemma project_specs_mem:
  assumes "project_specs mem_twin_ops cfg e store anchor clock n specs s = (s', Inr rs)" "ents_ok s"
  shows "\<exists>zs. ents_ok s' \<and> map (\<lambda>z. ob_content (snd z)) zs = List.map_filter (spec_content (cf_sha cfg) e store) specs \<and>
    proj_part s' = proj_part (proj_run mem_twin (cf_policy cfg) (cf_fm cfg) zs s)"
  using assms
proof (induction specs arbitrary: n s rs)
  case Nil
  then show ?case by (intro exI [of _ "[]"]) simp
next
  case (Cons spec specs)
  let ?run = "proj_run mem_twin (cf_policy cfg) (cf_fm cfg)"
  from Cons.prems(1) obtain s1 r qs where
    a: "project_spec mem_twin_ops cfg e store anchor (clock n) (clock (n + 1)) spec s = (s1, Inr r)"
    and b: "project_specs mem_twin_ops cfg e store anchor clock (n + 2) specs s1 = (s', Inr qs)"
    by (auto simp: and_then_Inr)
  from project_spec_mem [OF a Cons.prems(2)] obtain ob where ob: "ents_ok s1"
    "spec_content (cf_sha cfg) e store spec = Some (ob_content ob)"
    "proj_part s1 = proj_part (fst (proj_apply mem_twin (cf_policy cfg) (cf_fm cfg) (clock (n + 1)) ob s))" by blast
  from Cons.IH [OF b ob(1)] obtain zs where zs: "ents_ok s'"
    "map (\<lambda>z. ob_content (snd z)) zs = List.map_filter (spec_content (cf_sha cfg) e store) specs"
    "proj_part s' = proj_part (?run zs s1)" by blast
  have "proj_part s' = proj_part (?run ((clock (n + 1), ob) # zs) s)"
    unfolding proj_run.simps zs(3) by (rule proj_run_part [OF ob(3)])
  then show ?case using zs ob(2) by (intro exI [of _ "(clock (n + 1), ob) # zs"]) simp
qed

lemma project_event_mem:
  assumes "project_event mem_twin_ops cfg clock e s = (s', Inr rs)" "ents_ok s"
  shows "\<exists>zs. ents_ok s' \<and> map (\<lambda>z. ob_content (snd z)) zs = event_contents (cf_sha cfg) e \<and>
    proj_part s' = proj_part (proj_run mem_twin (cf_policy cfg) (cf_fm cfg) zs s)"
proof (cases "store_id_of (ev_payload e)")
  case None
  then show ?thesis using assms
    by (intro exI [of _ "[]"]) (auto simp: project_event_def event_contents_def split: if_splits)
next
  case (Some store)
  from assms(1) Some obtain s1 x specs where dom: "ev_data_domain e = OPERATIONAL_TWIN"
    and a: "ensure_entity mem_twin_ops (service_entity (ev_tenant_id e) store ''store'' store (''Store '' @ store) (ev_ts e)
       None ''twin-v1'' []) s = (s1, Inr x)"
    and sp: "event_specs e store = Inr specs"
    and b: "project_specs mem_twin_ops cfg e store (te_twin_id x) clock 0 specs s1 = (s', Inr rs)"
    by (auto simp: project_event_def and_then_Inr raise_Inr split: if_splits)
  note en = tw_ensure_frame [OF ensure_mem(2) [OF a] assms(2)]
  from project_specs_mem [OF b en(2)] obtain zs where zs: "ents_ok s'"
    "map (\<lambda>z. ob_content (snd z)) zs = List.map_filter (spec_content (cf_sha cfg) e store) specs"
    "proj_part s' = proj_part (proj_run mem_twin (cf_policy cfg) (cf_fm cfg) zs s1)" by blast
  have "proj_part s' = proj_part (proj_run mem_twin (cf_policy cfg) (cf_fm cfg) zs s)"
    unfolding zs(3) by (rule proj_run_part [OF en(1)])
  then show ?thesis using zs dom sp Some by (auto simp: event_contents_def)
qed

lemma project_all_mem:
  assumes "project_all mem_twin_ops cfg clock n es s = (s', Inr rs)" "ents_ok s"
  shows "\<exists>zs. ents_ok s' \<and> map (\<lambda>z. ob_content (snd z)) zs = concat (map (event_contents (cf_sha cfg)) es) \<and>
    proj_part s' = proj_part (proj_run mem_twin (cf_policy cfg) (cf_fm cfg) zs s)"
  using assms
proof (induction es arbitrary: n s rs)
  case Nil
  then show ?case by (intro exI [of _ "[]"]) simp
next
  case (Cons e es)
  let ?run = "proj_run mem_twin (cf_policy cfg) (cf_fm cfg)"
  from Cons.prems(1) obtain s1 r qs where
    a: "project_event mem_twin_ops cfg (clock n) e s = (s1, Inr r)"
    and b: "project_all mem_twin_ops cfg clock (n + 1) es s1 = (s', Inr qs)"
    by (auto simp: and_then_Inr)
  from project_event_mem [OF a Cons.prems(2)] obtain ys where ys: "ents_ok s1"
    "map (\<lambda>z. ob_content (snd z)) ys = event_contents (cf_sha cfg) e" "proj_part s1 = proj_part (?run ys s)" by blast
  from Cons.IH [OF b ys(1)] obtain zs where zs: "ents_ok s'"
    "map (\<lambda>z. ob_content (snd z)) zs = concat (map (event_contents (cf_sha cfg)) es)" "proj_part s' = proj_part (?run zs s1)" by blast
  have "proj_part s' = proj_part (?run (ys @ zs) s)"
    unfolding proj_run_append zs(3) by (rule proj_run_part [OF ys(3)])
  then show ?case using zs ys(2) by (intro exI [of _ "ys @ zs"]) simp
qed

section \<open>The rebuild\<close>

lemma onboard_seeds_mem:
  "onboard_seeds mem_twin_ops cfg m anchor ds s = (s', r) \<Longrightarrow> ents_ok s \<Longrightarrow> ents_ok s' \<and> proj_part s' = proj_part s"
proof (induction ds arbitrary: s)
  case (Cons d ds)
  let ?e = "service_entity (mf_tenant m) (mf_store m) (sd_type d) (sd_local d) (sd_display d)
    (te_created_at anchor) None (mf_version m) (sd_attributes d)"
  obtain s1 x where a: "ensure_entity mem_twin_ops ?e s = (s1, x)" by force
  show ?case
  proof (cases x)
    case (Inl y)
    then have "s1 = s" using a by (auto simp: ensure_entity_def statement_def split: if_splits prod.splits)
    then show ?thesis using Cons.prems a Inl by (simp add: and_then_def)
  next
    case (Inr y)
    note en = tw_ensure_frame [OF ensure_mem(2) [OF a [unfolded Inr]] Cons.prems(2)]
    obtain s2 z where b: "link mem_twin_ops (cf_sha cfg) (mf_tenant m) (te_twin_id anchor) (te_twin_id y) ''contains''
        (te_created_at anchor) s1 = (s2, z)" by force
    show ?thesis
    proof (cases z)
      case Inl2: (Inl w)
      then have "s2 = s1" using b by (auto simp: link_def statement_def Let_def split: if_splits prod.splits)
      then show ?thesis using Cons.prems(1) a b Inr Inl2 en by (simp add: and_then_def)
    next
      case Inr2: (Inr w)
      note ln = link_mem [OF b [unfolded Inr2]]
      have "onboard_seeds mem_twin_ops cfg m anchor ds s2 = (s', r)"
        using Cons.prems(1) a b Inr Inr2 by (simp add: and_then_def)
      from Cons.IH [OF this] ents_ok_cong [OF ln(2)] ln(1) en(1,2) show ?thesis by simp
    qed
  qed
qed simp

lemma onboard_mem:
  assumes "onboard mem_twin_ops cfg digest now m (ms, s) = ((ms', s'), Inr v)" "ents_ok s"
  shows "ents_ok s' \<and> proj_part s' = proj_part s"
proof -
  from assms(1) obtain anchor where "onboard_topology mem_twin_ops cfg now m s = (s', Inr anchor)"
    by (auto simp: onboard_def Let_def raise_pair_Inr)
  then obtain s1 x u where
    a: "ensure_entity mem_twin_ops (service_entity (mf_tenant m) (mf_store m) ''store'' (mf_store m) (mf_display m) now None
         (mf_version m) [(''timezone'', PyStr (mf_timezone m)), (''onboarding'', PyStr ''explicit'')]) s = (s1, Inr x)"
    and b: "onboard_seeds mem_twin_ops cfg m x (mf_entities m) s1 = (s', u)"
    by (auto simp: onboard_topology_def and_then_Inr)
  note en = tw_ensure_frame [OF ensure_mem(2) [OF a] assms(2)]
  from onboard_seeds_mem [OF b en(2)] en(1) show ?thesis by simp
qed

lemma bootstrap_mem:
  assumes "bootstrap_events mem_twin_ops cfg digest clock t1 t2 es tenant store (ms, s) = ((ms', s'), Inr rep)" "ents_ok s"
  shows "\<exists>s1 rs. ents_ok s1 \<and> proj_part s1 = proj_part s \<and>
    project_all mem_twin_ops cfg clock 0 (bootstrap_order tenant store es) s1 = (s', Inr rs)"
proof -
  from assms(1) obtain ms1 s1 where
    pre: "(case mf_get tenant store ms of None \<Rightarrow> ((ms, s), Inr ())
       | Some m \<Rightarrow> (case onboard mem_twin_ops cfg digest t1 m (ms, s) of (st', Inl x) \<Rightarrow> (st', Inl x)
           | (st', Inr v) \<Rightarrow> (st', Inr ()))) = ((ms1, s1), Inr ())"
    and post: "\<exists>rs. project_all mem_twin_ops cfg clock 0 (bootstrap_order tenant store es) s1 = (s', Inr rs)"
    by (auto simp: bootstrap_events_def and_then_Inr raise_pair_Inr)
  have "ents_ok s1 \<and> proj_part s1 = proj_part s"
  proof (cases "mf_get tenant store ms")
    case None
    then show ?thesis using pre assms(2) by simp
  next
    case (Some m)
    then obtain v where "onboard mem_twin_ops cfg digest t1 m (ms, s) = ((ms1, s1), Inr v)"
      using pre by (auto split: prod.splits sum.splits)
    then show ?thesis using onboard_mem assms(2) by blast
  qed
  with post show ?thesis by blast
qed

lemma map_content_image: "map (\<lambda>z. ob_content (snd z)) zs = ys \<Longrightarrow> ob_content ` snd ` set zs = set ys"
  unfolding image_image by (metis list.set_map)

lemma tw_empty_ents: "ents_ok tw_empty"
  by (simp add: ents_ok_def tw_empty_def)

text \<open>C30. A rebuild loses no fact: when a store's operational events were projected as they arrived, in any
  order and any number of times, and the twin is later rebuilt from those events, with whatever
  onboarding manifest is on file, every property shows the same value, unit, provenance and observation
  as before - provided the digests of different observations differ.\<close>

theorem rebuild_restores_every_property:
  assumes live: "project_all mem_twin_ops cfg clock n arrived tw_empty = (s1, Inr rs)"
    and rebuilt: "bootstrap_events mem_twin_ops cfg digest clock' t1 t2 es tenant store (ms, tw_empty) = ((ms', s2), Inr rep)"
    and same: "set arrived = set (bootstrap_order tenant store es)"
    and digests: "collision_free (set (concat (map (event_contents (cf_sha cfg)) arrived)))"
  shows "map_option substance (dict_get (tw_properties s1) k) = map_option substance (dict_get (tw_properties s2) k)"
proof -
  let ?run = "\<lambda>zs. proj_run mem_twin (cf_policy cfg) (cf_fm cfg) zs tw_empty"
  from project_all_mem [OF live tw_empty_ents] obtain xs where xs:
    "map (\<lambda>z. ob_content (snd z)) xs = concat (map (event_contents (cf_sha cfg)) arrived)"
    "proj_part s1 = proj_part (?run xs)" by blast
  from bootstrap_mem [OF rebuilt tw_empty_ents] obtain s0 qs where s0: "ents_ok s0" "proj_part s0 = proj_part tw_empty"
    "project_all mem_twin_ops cfg clock' 0 (bootstrap_order tenant store es) s0 = (s2, Inr qs)" by blast
  from project_all_mem [OF s0(3,1)] obtain ys where ys:
    "map (\<lambda>z. ob_content (snd z)) ys = concat (map (event_contents (cf_sha cfg)) (bootstrap_order tenant store es))"
    "proj_part s2 = proj_part (proj_run mem_twin (cf_policy cfg) (cf_fm cfg) ys s0)" by blast
  have eq: "ob_content ` snd ` set xs = ob_content ` snd ` set ys"
    unfolding map_content_image [OF xs(1)] map_content_image [OF ys(1)] using same by simp
  have "collision_free (ob_content ` snd ` set xs)" unfolding map_content_image [OF xs(1)] by (rule digests)
  from mem_runs_agree [OF eq this] have
    "map_option substance (dict_get (tw_properties (?run xs)) k) = map_option substance (dict_get (tw_properties (?run ys)) k)" .
  moreover have "tw_properties s1 = tw_properties (?run xs)" using xs(2) by (simp add: proj_part_def)
  moreover have "proj_part s2 = proj_part (?run ys)" unfolding ys(2) by (rule proj_run_part [OF s0(2)])
  then have "tw_properties s2 = tw_properties (?run ys)" by (simp add: proj_part_def)
  ultimately show ?thesis by simp
qed

section \<open>Replaying an event\<close>

definition relation_of :: "(string \<Rightarrow> string) \<Rightarrow> string \<Rightarrow> string \<Rightarrow> string \<Rightarrow> string \<Rightarrow> datetime \<Rightarrow> twin_relationship" where
  "relation_of sha tenant source target rtype ts =
     \<lparr>tr_id = ''rel_'' @ take 24 (sha (join ''|'' [tenant, source, rtype, target])), tr_tenant_id = tenant,
      tr_source = source, tr_type = rtype, tr_target = target, tr_attributes = [], tr_valid_from = ts, tr_valid_to = None\<rparr>"

text \<open>What an event leaves in the store for one of its properties.\<close>

definition settled_spec :: "service_cfg \<Rightarrow> event \<Rightarrow> string \<Rightarrow> string \<Rightarrow> observation_spec \<Rightarrow> twin_store \<Rightarrow> bool" where
  "settled_spec cfg e store anchor spec s \<longleftrightarrow>
     (let twin = te_twin_id (spec_entity e store spec);
          r = relation_of (cf_sha cfg) (ev_tenant_id e) anchor twin ''contains'' (ev_ts e) in
      entity_valid (spec_entity e store spec) \<and> relationship_valid r \<and>
      dict_get (tw_entities s) (ev_tenant_id e, twin) \<noteq> None \<and>
      dict_get (tw_relationships s) (tr_tenant_id r, tr_id r) \<noteq> None \<and>
      (\<exists>c. spec_content (cf_sha cfg) e store spec = Some c \<and>
         (dict_has (ob_tenant c, ob_id c) (tw_observations s) \<or> dedupe_key c \<in> set (tw_dedupe s))))"

definition grows :: "twin_store \<Rightarrow> twin_store \<Rightarrow> bool" where
  "grows s s' \<longleftrightarrow> (\<forall>k. dict_get (tw_entities s) k \<noteq> None \<longrightarrow> dict_get (tw_entities s') k \<noteq> None) \<and>
     (\<forall>k. dict_get (tw_relationships s) k \<noteq> None \<longrightarrow> dict_get (tw_relationships s') k \<noteq> None) \<and>
     (\<forall>k. dict_has k (tw_observations s) \<longrightarrow> dict_has k (tw_observations s')) \<and> set (tw_dedupe s) \<subseteq> set (tw_dedupe s')"

lemma grows_refl: "grows s s" and grows_trans: "grows s t \<Longrightarrow> grows t u \<Longrightarrow> grows s u"
  unfolding grows_def by blast+

lemma settled_grows: "settled_spec cfg e store anchor spec s \<Longrightarrow> grows s s' \<Longrightarrow> settled_spec cfg e store anchor spec s'"
  unfolding settled_spec_def grows_def Let_def by blast

lemma grows_ensure: "tw_ensure_entity e s = (s', x) \<Longrightarrow> grows s s'"
  by (auto simp: grows_def tw_ensure_entity_def simp del: split_paired_All split: option.splits)

lemma grows_relate: "tw_add_relationship r s = (s', x) \<Longrightarrow> grows s s'"
  by (auto simp: grows_def tw_add_relationship_def simp del: split_paired_All split: option.splits)

lemma grows_apply: "grows s (fst (proj_apply mem_twin policy fm now ob s))"
  by (simp add: proj_apply_mem_eq grows_def tw_record_observation_def tw_upsert_property_def Let_def dict_has_def
      subset_insertI del: split_paired_All)

lemma link_relation:
  "link mem_twin_ops sha tenant source target rtype ts s =
    (let r = relation_of sha tenant source target rtype ts in
     if \<not> relationship_valid r then (s, Inl (ValueError ''validation error for TwinRelationship''))
     else (fst (tw_add_relationship r s), Inr (snd (tw_add_relationship r s))))"
  by (simp add: link_def relation_of_def statement_def Let_def split: prod.splits)

lemma applied_is_recorded:
  "let s' = fst (proj_apply mem_twin policy fm now ob s) in
   dict_has (ob_tenant ob, ob_id ob) (tw_observations s') \<or> dedupe_key ob \<in> set (tw_dedupe s')"
  by (simp add: proj_apply_mem_eq tw_record_observation_def tw_upsert_property_def Let_def dict_has_def)

lemma project_spec_settles:
  assumes "project_spec mem_twin_ops cfg e store anchor ingested now spec s = (s', Inr r)" "ents_ok s"
  shows "grows s s' \<and> settled_spec cfg e store anchor spec s'"
proof -
  from assms(1) obtain s1 x s2 y ob where
    a: "ensure_entity mem_twin_ops (spec_entity e store spec) s = (s1, Inr x)"
    and b: "link mem_twin_ops (cf_sha cfg) (ev_tenant_id e) anchor (te_twin_id x) ''contains'' (ev_ts e) s1 = (s2, Inr y)"
    and c: "observation_for_spec (cf_sha cfg) e spec (te_twin_id x) store ingested = Inr ob"
    and d: "proj_apply mem_twin (cf_policy cfg) (cf_fm cfg) now ob s2 = (s', Inr r)"
    by (auto simp: project_spec_def and_then_Inr raise_Inr)
  let ?r = "relation_of (cf_sha cfg) (ev_tenant_id e) anchor (te_twin_id x) ''contains'' (ev_ts e)"
  note en = tw_ensure_frame [OF ensure_mem(2) [OF a] assms(2)]
  have rel: "relationship_valid ?r" "tw_add_relationship ?r s1 = (s2, y)"
    using b by (auto simp: link_relation Let_def split: if_splits)
  have g: "grows s1 s2" "grows s2 s'"
    using grows_relate [OF rel(2)] grows_apply [of s2 "cf_policy cfg" "cf_fm cfg" now ob] d by simp_all
  have ten: "te_tenant (spec_entity e store spec) = ev_tenant_id e" by (simp add: spec_entity_def service_entity_def)
  have "dict_get (tw_entities s1) (ev_tenant_id e, te_twin_id (spec_entity e store spec)) \<noteq> None"
    using en(6) unfolding ten by simp
  then have "dict_get (tw_entities s') (ev_tenant_id e, te_twin_id (spec_entity e store spec)) \<noteq> None"
    using g unfolding grows_def by blast
  moreover have "dict_get (tw_relationships s') (tr_tenant_id ?r, tr_id ?r) \<noteq> None"
    using tw_relate_frame(3) [OF rel(2)] g(2) unfolding grows_def by blast
  moreover have "dict_has (ob_tenant (ob_content ob), ob_id (ob_content ob)) (tw_observations s') \<or>
      dedupe_key (ob_content ob) \<in> set (tw_dedupe s')"
    using applied_is_recorded [of "cf_policy cfg" "cf_fm cfg" now ob s2] d
    by (simp add: ob_content_def dedupe_key_def Let_def)
  moreover have "spec_content (cf_sha cfg) e store spec = Some (ob_content ob)"
    using observation_content(1) [OF c] en(3) by (simp add: spec_content_def)
  ultimately have "settled_spec cfg e store anchor spec s'"
    unfolding settled_spec_def Let_def using rel(1) ensure_mem(1) [OF a] en(3) by auto
  then show ?thesis using grows_trans [OF grows_ensure [OF ensure_mem(2) [OF a]]] grows_trans [OF g] by blast
qed

lemma ensure_present:
  assumes "entity_valid e" "dict_get (tw_entities s) (te_tenant e, te_twin_id e) \<noteq> None" "ents_ok s"
  shows "\<exists>x. ensure_entity mem_twin_ops e s = (s, Inr x) \<and> te_twin_id x = te_twin_id e"
proof -
  obtain x where x: "dict_get (tw_entities s) (te_tenant e, te_twin_id e) = Some x" using assms(2) by auto
  then have "ensure_entity mem_twin_ops e s = (s, Inr x)"
    using assms(1) by (simp add: ensure_entity_def statement_def tw_ensure_entity_def)
  moreover have "te_twin_id x = te_twin_id e" using ents_okD [OF assms(3) x] by simp
  ultimately show ?thesis by blast
qed

lemma settled_spec_inert:
  assumes "settled_spec cfg e store anchor spec s" "ents_ok s" "aware ingested"
  shows "\<exists>r. project_spec mem_twin_ops cfg e store anchor ingested now spec s = (s, Inr r) \<and> pr_status r = ''duplicate''"
proof -
  let ?twin = "te_twin_id (spec_entity e store spec)"
  let ?r = "relation_of (cf_sha cfg) (ev_tenant_id e) anchor ?twin ''contains'' (ev_ts e)"
  from assms(1) obtain c where st: "entity_valid (spec_entity e store spec)" "relationship_valid ?r"
    "dict_get (tw_entities s) (ev_tenant_id e, ?twin) \<noteq> None" "dict_get (tw_relationships s) (tr_tenant_id ?r, tr_id ?r) \<noteq> None"
    "spec_content (cf_sha cfg) e store spec = Some c"
    "dict_has (ob_tenant c, ob_id c) (tw_observations s) \<or> dedupe_key c \<in> set (tw_dedupe s)"
    unfolding settled_spec_def Let_def by blast
  have ten: "te_tenant (spec_entity e store spec) = ev_tenant_id e" by (simp add: spec_entity_def service_entity_def)
  from ensure_present [OF st(1) _ assms(2)] st(3) ten obtain x where x:
    "ensure_entity mem_twin_ops (spec_entity e store spec) s = (s, Inr x)" "te_twin_id x = ?twin" by auto
  obtain y where y: "link mem_twin_ops (cf_sha cfg) (ev_tenant_id e) anchor ?twin ''contains'' (ev_ts e) s = (s, Inr y)"
    using st(2,4) by (auto simp: link_relation Let_def tw_add_relationship_def)
  have "observation_for_spec (cf_sha cfg) e spec ?twin store (ev_ts e) = Inr c"
    using st(5) by (simp add: spec_content_def split: sum.splits)
  from observation_content(2) [OF this assms(3)] observation_content(1) [OF this] obtain ob where
    ob: "observation_for_spec (cf_sha cfg) e spec ?twin store ingested = Inr ob" "ob_content ob = ob_content c" by blast
  have "ob_tenant ob = ob_tenant c \<and> ob_id ob = ob_id c \<and> dedupe_key ob = dedupe_key c"
  proof -
    have "ob_tenant (ob_content ob) = ob_tenant ob" "ob_id (ob_content ob) = ob_id ob" "dedupe_key (ob_content ob) = dedupe_key ob" for ob
      by (simp_all add: ob_content_def dedupe_key_def)
    then show ?thesis using ob(2) by metis
  qed
  then have "proj_apply mem_twin (cf_policy cfg) (cf_fm cfg) now ob s = (s, Inr \<lparr>pr_status = ''duplicate'',
      pr_observation_id = ob_id ob, pr_reason = ''already recorded'', pr_state = None\<rparr>)"
    using st(6) by (simp add: proj_apply_mem_eq)
  then show ?thesis using x y ob(1) by (simp add: project_spec_def and_then_def)
qed

lemma project_specs_settles:
  assumes "project_specs mem_twin_ops cfg e store anchor clock n specs s = (s', Inr rs)" "ents_ok s"
  shows "grows s s' \<and> (\<forall>spec \<in> set specs. settled_spec cfg e store anchor spec s')"
  using assms
proof (induction specs arbitrary: n s rs)
  case Nil
  then show ?case by (simp add: grows_refl)
next
  case (Cons spec specs)
  from Cons.prems(1) obtain s1 r qs where
    a: "project_spec mem_twin_ops cfg e store anchor (clock n) (clock (n + 1)) spec s = (s1, Inr r)"
    and b: "project_specs mem_twin_ops cfg e store anchor clock (n + 2) specs s1 = (s', Inr qs)"
    by (auto simp: and_then_Inr)
  have "ents_ok s1" using project_spec_mem [OF a Cons.prems(2)] by blast
  from Cons.IH [OF b this] project_spec_settles [OF a Cons.prems(2)] show ?case
    by (auto intro: grows_trans settled_grows)
qed

lemma settled_specs_inert:
  assumes "\<forall>spec \<in> set specs. settled_spec cfg e store anchor spec s" "ents_ok s" "\<And>n. aware (clock n)"
  shows "\<exists>rs. project_specs mem_twin_ops cfg e store anchor clock n specs s = (s, Inr rs) \<and>
    list_all (\<lambda>r. pr_status r = ''duplicate'') rs"
  using assms(1)
proof (induction specs arbitrary: n)
  case (Cons spec specs)
  from settled_spec_inert [OF _ assms(2,3), of cfg e store anchor spec n "clock (n + 1)"] Cons.prems obtain r where
    "project_spec mem_twin_ops cfg e store anchor (clock n) (clock (n + 1)) spec s = (s, Inr r)" "pr_status r = ''duplicate''" by auto
  moreover from Cons obtain rs where
    "project_specs mem_twin_ops cfg e store anchor clock (n + 2) specs s = (s, Inr rs)" "list_all (\<lambda>r. pr_status r = ''duplicate'') rs"
    by (auto dest: Cons.IH [of "n + 2"])
  ultimately show ?case by (simp add: and_then_def)
qed simp

lemma project_event_grows:
  assumes "project_event mem_twin_ops cfg clock e s = (s', Inr rs)" "ents_ok s"
  shows "grows s s'"
proof (cases "store_id_of (ev_payload e)")
  case None
  then show ?thesis using assms by (auto simp: project_event_def grows_refl split: if_splits)
next
  case (Some store)
  from assms(1) Some obtain s1 x specs where
    a: "ensure_entity mem_twin_ops (service_entity (ev_tenant_id e) store ''store'' store (''Store '' @ store) (ev_ts e)
       None ''twin-v1'' []) s = (s1, Inr x)"
    and b: "project_specs mem_twin_ops cfg e store (te_twin_id x) clock 0 specs s1 = (s', Inr rs)"
    by (auto simp: project_event_def and_then_Inr raise_Inr split: if_splits)
  note en = tw_ensure_frame [OF ensure_mem(2) [OF a] assms(2)]
  show ?thesis
    using grows_ensure [OF ensure_mem(2) [OF a]] project_specs_settles [OF b en(2)] grows_trans by blast
qed

lemma project_all_grows:
  "project_all mem_twin_ops cfg clock n es s = (s', Inr rs) \<Longrightarrow> ents_ok s \<Longrightarrow> grows s s'"
proof (induction es arbitrary: n s rs)
  case (Cons e es)
  from Cons.prems(1) obtain s1 r qs where
    a: "project_event mem_twin_ops cfg (clock n) e s = (s1, Inr r)"
    and b: "project_all mem_twin_ops cfg clock (n + 1) es s1 = (s', Inr qs)"
    by (auto simp: and_then_Inr)
  have "ents_ok s1" using project_event_mem [OF a Cons.prems(2)] by blast
  from Cons.IH [OF b this] project_event_grows [OF a Cons.prems(2)] show ?case by (rule grows_trans [rotated])
qed (simp add: grows_refl)

text \<open>C31. Projecting an event is idempotent for good: once it has been projected, and whatever other events
  are projected afterwards, projecting it again changes nothing in the whole store - topology, record
  and properties - and reports every one of its observations as a duplicate.\<close>

theorem replayed_event_is_inert:
  assumes first: "project_event mem_twin_ops cfg clock e s = (s1, Inr rs)" and ok: "ents_ok s"
    and between: "project_all mem_twin_ops cfg clocks n es s1 = (s2, Inr qs)"
    and aware: "\<forall>m. aware (clock' m)"
  shows "\<exists>ds. project_event mem_twin_ops cfg clock' e s2 = (s2, Inr ds) \<and> list_all (\<lambda>r. pr_status r = ''duplicate'') ds"
proof (cases "store_id_of (ev_payload e)")
  case None
  then show ?thesis using first by (auto simp: project_event_def split: if_splits)
next
  case (Some store)
  let ?root = "service_entity (ev_tenant_id e) store ''store'' store (''Store '' @ store) (ev_ts e) None ''twin-v1'' []"
  from first Some obtain t x specs where dom: "ev_data_domain e = OPERATIONAL_TWIN"
    and a: "ensure_entity mem_twin_ops ?root s = (t, Inr x)"
    and sp: "event_specs e store = Inr specs"
    and b: "project_specs mem_twin_ops cfg e store (te_twin_id x) clock 0 specs t = (s1, Inr rs)"
    by (auto simp: project_event_def and_then_Inr raise_Inr split: if_splits)
  note en = tw_ensure_frame [OF ensure_mem(2) [OF a] ok]
  have ok1: "ents_ok s1" using project_event_mem [OF first ok] by blast
  have ok2: "ents_ok s2" using project_all_mem [OF between ok1] by blast
  note st = project_specs_settles [OF b en(2)] and g = project_all_grows [OF between ok1]
  have settled: "\<forall>spec \<in> set specs. settled_spec cfg e store (te_twin_id x) spec s2" using st g settled_grows by blast
  have "dict_get (tw_entities t) (te_tenant ?root, te_twin_id ?root) \<noteq> None" using en(6) by simp
  then have "dict_get (tw_entities s2) (te_tenant ?root, te_twin_id ?root) \<noteq> None"
    using st g unfolding grows_def by blast
  from ensure_present [OF ensure_mem(1) [OF a] this ok2] obtain y where y:
    "ensure_entity mem_twin_ops ?root s2 = (s2, Inr y)" "te_twin_id y = te_twin_id x" using en(3) by auto
  from settled_specs_inert [OF settled ok2, of clock' 0] aware obtain ds where
    "project_specs mem_twin_ops cfg e store (te_twin_id x) clock' 0 specs s2 = (s2, Inr ds)"
    "list_all (\<lambda>r. pr_status r = ''duplicate'') ds" by blast
  then show ?thesis using dom Some sp y by (simp add: project_event_def and_then_def)
qed

section \<open>An example store\<close>

definition demo_cfg :: service_cfg where
  "demo_cfg = \<lparr>cf_sha = (\<lambda>s. if contains s ''ev-00002'' then replicate 64 (CHR ''b'') else replicate 64 (CHR ''a'')),
     cf_policy = default_source_policy, cf_fm = (*)\<rparr>"

definition demo_scan_event :: "string \<Rightarrow> nat \<Rightarrow> string \<Rightarrow> event" where
  "demo_scan_event i h name = \<lparr>ev_id = i, ev_type = SCAN, ev_ts = demo_time h, ev_actor = ''till'',
     ev_payload = [(''store_id'', PyStr ''s1''), (''sku'', PyStr ''4011''), (''product'', PyStr name),
       (''source_quality'', PyInt 1)],
     ev_source = API, ev_tenant_id = ''t1'', ev_data_domain = OPERATIONAL_TWIN, ev_correlation_id = i,
     ev_causation_id = None, ev_schema_version = ''v1''\<rparr>"

definition demo_store_entity :: "nat \<Rightarrow> twin_entity" where
  "demo_store_entity h = service_entity ''t1'' ''s1'' ''store'' ''s1'' (''Store '' @ ''s1'') (demo_time h) None ''twin-v1'' []"

definition demo_product :: "nat \<Rightarrow> string \<Rightarrow> twin_entity" where
  "demo_product h name = service_entity ''t1'' ''s1'' ''product'' ''4011'' name (demo_time h) None ''twin-v1'' []"

definition demo_spec :: "string \<Rightarrow> observation_spec" where
  "demo_spec name = \<lparr>sp_twin_id = ''urn:shelfwise:t1:s1:product:4011'', sp_entity_type = ''product'', sp_display = name,
     sp_property = ''scan.sku'', sp_value = PyStr ''4011'', sp_unit = None\<rparr>"

lemma demo_urns:
  "urn ''t1'' ''s1'' ''product'' ''4011'' = ''urn:shelfwise:t1:s1:product:4011''"
  "urn ''t1'' ''s1'' ''store'' ''s1'' = ''urn:shelfwise:t1:s1:store:s1''"
  "local_id ''urn:shelfwise:t1:s1:product:4011'' = ''4011''"
  by code_simp+

lemma demo_texts: "text_of (PyStr ''s1'') = Some ''s1''" "text_of (PyStr ''4011'') = Some ''4011''"
  "text_of (PyStr ''Apples'') = Some ''Apples''" "text_of (PyStr ''Red apples'') = Some ''Red apples''"
  by code_simp+

lemma demo_json:
  "contains (json_dumps (PyDict [(''event_id'', PyStr ''ev-00001''), (''property'', PyStr ''scan.sku''), (''value'', PyStr ''4011'')])) ''ev-00002'' = False"
  "contains (json_dumps (PyDict [(''event_id'', PyStr ''ev-00002''), (''property'', PyStr ''scan.sku''), (''value'', PyStr ''4011'')])) ''ev-00002'' = True"
  by code_simp+

lemma demo_store_id: "store_id_of (ev_payload (demo_scan_event i h name)) = Some ''s1''"
  by (simp add: demo_scan_event_def store_id_of_def first_text_def get_def demo_texts)

lemma demo_specs:
  "name = ''Apples'' \<or> name = ''Red apples'' \<Longrightarrow> event_specs (demo_scan_event i h name) ''s1'' = Inr [demo_spec name]"
  by (auto simp: event_specs_def demo_scan_event_def demo_spec_def get_def demo_texts demo_urns present_def Let_def
      text_of_def [of PyNone])

lemma demo_entities_valid:
  "name = ''Apples'' \<or> name = ''Red apples'' \<Longrightarrow> entity_valid (demo_product h name)"
  "entity_valid (demo_store_entity h)"
  by (auto simp: entity_valid_def demo_product_def demo_store_entity_def service_entity_def demo_urns len_between_def
      name_pattern_def is_az_def ascii_between_def aware_def)

definition demo_content :: "string \<Rightarrow> nat \<Rightarrow> twin_observation" where
  "demo_content i h = (let d = (if i = ''ev-00002'' then replicate 64 (CHR ''b'') else replicate 64 (CHR ''a'')) in
     \<lparr>ob_id = ''obs_'' @ take 32 d, ob_tenant = ''t1'', ob_store = ''s1'', ob_twin_id = ''urn:shelfwise:t1:s1:product:4011'',
      ob_property = ''scan.sku'', ob_lane = REPORTED, ob_value = PyStr ''4011'', ob_unit = None,
      ob_observed_at = demo_time h, ob_ingested_at = demo_time h, ob_source_system = ''api'', ob_source_object = i,
      ob_sequence = None, ob_quality = 1, ob_schema_version = ''v1'', ob_correlation_id = i, ob_causation_id = None,
      ob_branch = None, ob_hash = d\<rparr>)"

lemma demo_observed:
  assumes "i = ''ev-00001'' \<or> i = ''ev-00002''"
  shows "observation_for_spec (cf_sha demo_cfg) (demo_scan_event i h name) (demo_spec name)
    ''urn:shelfwise:t1:s1:product:4011'' ''s1'' (demo_time h) = Inr (demo_content i h)"
proof -
  have dg: "event_digest (cf_sha demo_cfg) (demo_scan_event i h name) (demo_spec name) = ob_hash (demo_content i h)"
    using assms by (elim disjE)
      (simp_all only: event_digest_def demo_cfg_def demo_scan_event_def demo_spec_def service_cfg.simps event.simps
        observation_spec.simps demo_json, simp_all add: demo_content_def)
  have q: "source_quality (ev_payload (demo_scan_event i h name)) = Inr 1"
    by (simp add: source_quality_def demo_scan_event_def get_or_def clamp01_def)
  have v: "observation_valid (demo_content i h)"
    using assms by (auto simp: observation_valid_def demo_content_def len_between_def opt_len_def name_pattern_def
        hash_pattern_def is_az_def is_09_def ascii_between_def aware_def lane_branch_ok_def Let_def list_all_iff)
  have c: "demo_content i h = \<lparr>ob_id = ''obs_'' @ take 32 (ob_hash (demo_content i h)), ob_tenant = ''t1'', ob_store = ''s1'',
      ob_twin_id = ''urn:shelfwise:t1:s1:product:4011'', ob_property = ''scan.sku'', ob_lane = REPORTED,
      ob_value = PyStr ''4011'', ob_unit = None, ob_observed_at = demo_time h, ob_ingested_at = demo_time h,
      ob_source_system = ''api'', ob_source_object = i, ob_sequence = None, ob_quality = 1, ob_schema_version = ''v1'',
      ob_correlation_id = i, ob_causation_id = None, ob_branch = None, ob_hash = ob_hash (demo_content i h)\<rparr>"
    by (simp add: demo_content_def Let_def)
  show ?thesis
    unfolding observation_for_spec_def q bind_res_simps dg Let_def
    using v c by (simp add: demo_scan_event_def demo_spec_def get_def text_of_def)
qed

definition ens :: "twin_entity \<Rightarrow> (string \<times> string, twin_entity) dict \<Rightarrow> (string \<times> string, twin_entity) dict" where
  "ens e d = (case dict_get d (te_tenant e, te_twin_id e) of Some x \<Rightarrow> d | None \<Rightarrow> dict_set (te_tenant e, te_twin_id e) e d)"

lemma ensure_ens:
  assumes "entity_valid e" "ents_ok s"
  shows "\<exists>s' x. ensure_entity mem_twin_ops e s = (s', Inr x) \<and> ents_ok s' \<and> te_twin_id x = te_twin_id e \<and>
    tw_entities s' = ens e (tw_entities s)"
proof -
  obtain s' x where a: "tw_ensure_entity e s = (s', x)" by force
  then have "ensure_entity mem_twin_ops e s = (s', Inr x)" using assms(1) by (simp add: ensure_entity_def statement_def)
  moreover have "tw_entities s' = ens e (tw_entities s)"
    using a by (auto simp: tw_ensure_entity_def ens_def split: option.splits)
  ultimately show ?thesis using tw_ensure_frame(2,3) [OF a assms(2)] by blast
qed

lemma demo_event_projects:
  assumes "ents_ok s" "i = ''ev-00001'' \<or> i = ''ev-00002''" "name = ''Apples'' \<or> name = ''Red apples''" "\<And>n. aware (clock n)"
  shows "\<exists>s' rs. project_event mem_twin_ops demo_cfg clock (demo_scan_event i h name) s = (s', Inr rs) \<and> ents_ok s' \<and>
    tw_entities s' = ens (demo_product h name) (ens (demo_store_entity h) (tw_entities s))"
proof -
  let ?e = "demo_scan_event i h name" and ?twin = "''urn:shelfwise:t1:s1:product:4011''"
  have ev: "ev_data_domain ?e = OPERATIONAL_TWIN" "ev_tenant_id ?e = ''t1''" "ev_ts ?e = demo_time h"
    by (simp_all add: demo_scan_event_def)
  have se: "spec_entity ?e ''s1'' (demo_spec name) = demo_product h name"
    by (simp add: spec_entity_def demo_product_def demo_spec_def demo_urns ev)
  have ids: "te_twin_id (demo_product h name) = ?twin" "te_twin_id (demo_store_entity h) = ''urn:shelfwise:t1:s1:store:s1''"
    by (simp_all add: demo_product_def demo_store_entity_def service_entity_def demo_urns)
  from ensure_ens [OF demo_entities_valid(2) assms(1), of h] obtain s1 x where a:
    "ensure_entity mem_twin_ops (demo_store_entity h) s = (s1, Inr x)" "ents_ok s1"
    "te_twin_id x = ''urn:shelfwise:t1:s1:store:s1''" "tw_entities s1 = ens (demo_store_entity h) (tw_entities s)"
    using ids by auto
  from ensure_ens [OF demo_entities_valid(1) [OF assms(3)] a(2), of h] obtain s2 y where b:
    "ensure_entity mem_twin_ops (demo_product h name) s1 = (s2, Inr y)" "ents_ok s2" "te_twin_id y = ?twin"
    "tw_entities s2 = ens (demo_product h name) (tw_entities s1)" using ids by auto
  obtain s3 z where c: "link mem_twin_ops (cf_sha demo_cfg) ''t1'' (te_twin_id x) (te_twin_id y) ''contains'' (demo_time h) s2 = (s3, Inr z)"
  proof -
    have "link mem_twin_ops (cf_sha demo_cfg) ''t1'' (te_twin_id x) (te_twin_id y) ''contains'' (demo_time h) s2 =
        (fst (link mem_twin_ops (cf_sha demo_cfg) ''t1'' (te_twin_id x) (te_twin_id y) ''contains'' (demo_time h) s2),
         Inr (projr (snd (link mem_twin_ops (cf_sha demo_cfg) ''t1'' (te_twin_id x) (te_twin_id y) ''contains'' (demo_time h) s2))))"
      by (auto simp: link_def statement_def Let_def relationship_valid_def len_between_def name_pattern_def is_az_def
          ascii_between_def aware_def a(3) b(3) demo_cfg_def split: prod.splits)
    then show thesis by (rule that)
  qed
  from observation_content(2) [OF demo_observed [OF assms(2), of h name], of "clock 0"] assms(4) obtain ob where
    ob: "observation_for_spec (cf_sha demo_cfg) ?e (demo_spec name) ?twin ''s1'' (clock 0) = Inr ob" by blast
  obtain s4 r where d: "proj_apply mem_twin (cf_policy demo_cfg) (cf_fm demo_cfg) (clock 1) ob s3 = (s4, Inr r)"
    "tw_entities s4 = tw_entities s3"
    using proj_apply_mem [of "cf_policy demo_cfg" "cf_fm demo_cfg" "clock 1" ob s3] by blast
  have ent: "tw_entities s4 = tw_entities s2" using d(2) link_mem(2) [OF c] by simp
  have "project_event mem_twin_ops demo_cfg clock ?e s = (s4, Inr [r])"
    using a(1) b(1,3) c ob d(1)
    by (simp add: project_event_def ev demo_store_id demo_specs [OF assms(3)] and_then_def project_spec_def se
        demo_store_entity_def)
  moreover have "ents_ok s4" using ents_ok_cong [OF ent] b(2) by simp
  moreover have "tw_entities s4 = ens (demo_product h name) (ens (demo_store_entity h) (tw_entities s))"
    using ent b(4) a(4) by simp
  ultimately show ?thesis by blast
qed

text \<open>Two scans of one product, the later one under a new product name, arriving late first.\<close>

abbreviation demo_early :: event where "demo_early \<equiv> demo_scan_event ''ev-00001'' 8 ''Apples''"
abbreviation demo_late :: event where "demo_late \<equiv> demo_scan_event ''ev-00002'' 9 ''Red apples''"

lemma demo_pair_projects:
  assumes "{e1, e2} = {demo_early, demo_late}" "\<And>n m. aware (clock n m)" "ents_ok s"
    "e1 = demo_scan_event i1 h1 n1" "e2 = demo_scan_event i2 h2 n2"
    "i1 = ''ev-00001'' \<or> i1 = ''ev-00002''" "i2 = ''ev-00001'' \<or> i2 = ''ev-00002''"
    "n1 = ''Apples'' \<or> n1 = ''Red apples''" "n2 = ''Apples'' \<or> n2 = ''Red apples''"
  shows "\<exists>s' rs. project_all mem_twin_ops demo_cfg clock k [e1, e2] s = (s', Inr rs) \<and> ents_ok s' \<and>
    tw_entities s' = ens (demo_product h2 n2) (ens (demo_store_entity h2) (ens (demo_product h1 n1) (ens (demo_store_entity h1) (tw_entities s))))"
proof -
  from demo_event_projects [OF assms(3,6,8), of "clock k" h1] assms(2,4) obtain s1 r1 where a:
    "project_event mem_twin_ops demo_cfg (clock k) e1 s = (s1, Inr r1)" "ents_ok s1"
    "tw_entities s1 = ens (demo_product h1 n1) (ens (demo_store_entity h1) (tw_entities s))" by blast
  from demo_event_projects [OF a(2) assms(7,9), of "clock (k + 1)" h2] assms(2,5) obtain s2 r2 where b:
    "project_event mem_twin_ops demo_cfg (clock (k + 1)) e2 s1 = (s2, Inr r2)" "ents_ok s2"
    "tw_entities s2 = ens (demo_product h2 n2) (ens (demo_store_entity h2) (tw_entities s1))" by blast
  have "project_all mem_twin_ops demo_cfg clock k [e1, e2] s = (s2, Inr (r1 @ r2))"
    using a(1) b(1) by (simp add: and_then_def)
  then show ?thesis using b(2,3) unfolding a(3) by blast
qed

lemma demo_ens:
  "ens (demo_product h2 n2) (ens (demo_store_entity h2) (ens (demo_product h1 n1) (ens (demo_store_entity h1) []))) =
   [((''t1'', ''urn:shelfwise:t1:s1:store:s1''), demo_store_entity h1),
    ((''t1'', ''urn:shelfwise:t1:s1:product:4011''), demo_product h1 n1)]"
  by (simp add: ens_def demo_product_def demo_store_entity_def service_entity_def demo_urns)

lemma demo_order: "bootstrap_order ''t1'' ''s1'' [demo_late, demo_early] = [demo_early, demo_late]"
proof -
  have r: "bootstrap_relevant ''t1'' ''s1'' [demo_late, demo_early] = [demo_late, demo_early]"
    by (simp add: bootstrap_relevant_def demo_store_id) (simp add: demo_scan_event_def)
  have "instant (ev_ts demo_early) < instant (ev_ts demo_late)"
    by (simp add: demo_scan_event_def instant_def hms_us_def)
  moreover have "ev_data_domain demo_late = OPERATIONAL_TWIN" "ev_data_domain demo_early = OPERATIONAL_TWIN"
    by (simp_all add: demo_scan_event_def)
  ultimately show ?thesis unfolding bootstrap_order_def r by (simp add: sorted_by_def)
qed

lemma snapshot_mem: "\<exists>sn. snapshot mem_twin_ops digest tenant store generated s = Inr sn"
  by (simp add: snapshot_def snapshot_content_def mem_twin_ops_def tw_list_observations_def validate_limit_def
      default_max_limit_def Let_def)

lemma demo_runs:
  obtains s1 rs s2 rep where
    "project_all mem_twin_ops demo_cfg (\<lambda>n m. demo_time 10) 0 [demo_late, demo_early] tw_empty = (s1, Inr rs)"
    "bootstrap_events mem_twin_ops demo_cfg digest (\<lambda>n m. demo_time 11) (demo_time 11) (demo_time 11)
       [demo_late, demo_early] ''t1'' ''s1'' ([], tw_empty) = (([], s2), Inr rep)"
    "tw_entities s1 = [((''t1'', ''urn:shelfwise:t1:s1:store:s1''), demo_store_entity 9),
       ((''t1'', ''urn:shelfwise:t1:s1:product:4011''), demo_product 9 ''Red apples'')]"
    "tw_entities s2 = [((''t1'', ''urn:shelfwise:t1:s1:store:s1''), demo_store_entity 8),
       ((''t1'', ''urn:shelfwise:t1:s1:product:4011''), demo_product 8 ''Apples'')]"
proof -
  have aw: "aware (demo_time h)" for h by (simp add: aware_def)
  have e0: "tw_entities tw_empty = []" by (simp add: tw_empty_def)
  from demo_pair_projects [of demo_late demo_early "\<lambda>n m. demo_time 10" tw_empty "''ev-00002''" 9 "''Red apples''" "''ev-00001''" 8 "''Apples''" 0]
  obtain s1 rs where a: "project_all mem_twin_ops demo_cfg (\<lambda>n m. demo_time 10) 0 [demo_late, demo_early] tw_empty = (s1, Inr rs)"
    "tw_entities s1 = [((''t1'', ''urn:shelfwise:t1:s1:store:s1''), demo_store_entity 9),
       ((''t1'', ''urn:shelfwise:t1:s1:product:4011''), demo_product 9 ''Red apples'')]"
    using aw tw_empty_ents by (auto simp: e0 demo_ens)
  from demo_pair_projects [of demo_early demo_late "\<lambda>n m. demo_time 11" tw_empty "''ev-00001''" 8 "''Apples''" "''ev-00002''" 9 "''Red apples''" 0]
  obtain s2 qs where b: "project_all mem_twin_ops demo_cfg (\<lambda>n m. demo_time 11) 0 [demo_early, demo_late] tw_empty = (s2, Inr qs)"
    "tw_entities s2 = [((''t1'', ''urn:shelfwise:t1:s1:store:s1''), demo_store_entity 8),
       ((''t1'', ''urn:shelfwise:t1:s1:product:4011''), demo_product 8 ''Apples'')]"
    using aw tw_empty_ents by (auto simp: e0 demo_ens)
  obtain rep where "bootstrap_events mem_twin_ops demo_cfg digest (\<lambda>n m. demo_time 11) (demo_time 11) (demo_time 11)
       [demo_late, demo_early] ''t1'' ''s1'' ([], tw_empty) = (([], s2), Inr rep)"
  proof -
    obtain sn where sn: "snapshot mem_twin_ops digest ''t1'' ''s1'' (demo_time 11) s2 = Inr sn" using snapshot_mem by blast
    show thesis
      by (rule that) (simp add: bootstrap_events_def and_then_def mf_get_def demo_order b(1) sn Let_def
          del: project_all.simps One_nat_def)
  qed
  with a b(2) show thesis by (rule_tac that)
qed

lemma replayed_event_is_inert_witness:
  "\<exists>s1 rs s2 qs ds. project_event mem_twin_ops demo_cfg (\<lambda>n. demo_time 10) demo_late tw_empty = (s1, Inr rs) \<and>
     project_all mem_twin_ops demo_cfg (\<lambda>n m. demo_time 10) 0 [demo_early] s1 = (s2, Inr qs) \<and>
     project_event mem_twin_ops demo_cfg (\<lambda>n. demo_time 11) demo_late s2 = (s2, Inr ds) \<and>
     list_all (\<lambda>r. pr_status r = ''duplicate'') ds"
proof -
  have aw: "aware (demo_time h)" for h by (simp add: aware_def)
  from demo_event_projects [OF tw_empty_ents, of "''ev-00002''" "''Red apples''" "\<lambda>n. demo_time 10" 9] aw obtain s1 rs where
    a: "project_event mem_twin_ops demo_cfg (\<lambda>n. demo_time 10) demo_late tw_empty = (s1, Inr rs)" "ents_ok s1" by blast
  from demo_event_projects [OF a(2), of "''ev-00001''" "''Apples''" "\<lambda>n. demo_time 10" 8] aw obtain s2 qs where
    b: "project_event mem_twin_ops demo_cfg (\<lambda>n. demo_time 10) demo_early s1 = (s2, Inr qs)" by blast
  then have c: "project_all mem_twin_ops demo_cfg (\<lambda>n m. demo_time 10) 0 [demo_early] s1 = (s2, Inr qs)"
    by (simp add: and_then_def)
  from replayed_event_is_inert [OF a(1) tw_empty_ents c, of "\<lambda>n. demo_time 11"] aw a(1) c show ?thesis by blast
qed

lemma rebuild_restores_every_property_witness:
  "\<exists>s1 rs s2 rep. project_all mem_twin_ops demo_cfg (\<lambda>n m. demo_time 10) 0 [demo_late, demo_early] tw_empty = (s1, Inr rs) \<and>
     bootstrap_events mem_twin_ops demo_cfg (\<lambda>v. []) (\<lambda>n m. demo_time 11) (demo_time 11) (demo_time 11)
       [demo_late, demo_early] ''t1'' ''s1'' ([], tw_empty) = (([], s2), Inr rep) \<and>
     map_option substance (dict_get (tw_properties s1) (ob_key (demo_content ''ev-00001'' 8))) =
     map_option substance (dict_get (tw_properties s2) (ob_key (demo_content ''ev-00001'' 8)))"
proof -
  obtain s1 rs s2 rep where r:
    "project_all mem_twin_ops demo_cfg (\<lambda>n m. demo_time 10) 0 [demo_late, demo_early] tw_empty = (s1, Inr rs)"
    "bootstrap_events mem_twin_ops demo_cfg (\<lambda>v. []) (\<lambda>n m. demo_time 11) (demo_time 11) (demo_time 11)
       [demo_late, demo_early] ''t1'' ''s1'' ([], tw_empty) = (([], s2), Inr rep)"
    by (rule demo_runs)
  have se: "te_twin_id (spec_entity (demo_scan_event i h name) ''s1'' (demo_spec name)) = ''urn:shelfwise:t1:s1:product:4011''" for i h name
    by (simp add: spec_entity_def service_entity_def demo_spec_def demo_urns demo_scan_event_def)
  have ts: "ev_ts (demo_scan_event i h name) = demo_time h" for i h name by (simp add: demo_scan_event_def)
  have "spec_content (cf_sha demo_cfg) (demo_scan_event i h name) ''s1'' (demo_spec name) = Some (demo_content i h)"
    if "i = ''ev-00001'' \<or> i = ''ev-00002''" for i h name
    unfolding spec_content_def se ts demo_observed [OF that] by simp
  then have c: "event_contents (cf_sha demo_cfg) (demo_scan_event i h name) = [demo_content i h]"
    if "i = ''ev-00001'' \<or> i = ''ev-00002''" "name = ''Apples'' \<or> name = ''Red apples''" for i h name
    using that by (simp add: event_contents_def demo_store_id demo_specs) (simp add: demo_scan_event_def)
  have "collision_free {demo_content ''ev-00002'' 9, demo_content ''ev-00001'' 8}"
    by (auto simp: collision_free_def collide_def dedupe_key_def demo_content_def Let_def)
  then have free: "collision_free (set (concat (map (event_contents (cf_sha demo_cfg)) [demo_late, demo_early])))"
    by (simp add: c)
  have same: "set [demo_late, demo_early] = set (bootstrap_order ''t1'' ''s1'' [demo_late, demo_early])"
    unfolding demo_order by auto
  show ?thesis using r rebuild_restores_every_property [OF r same free] by blast
qed

text \<open>A rebuild does not always reproduce the snapshot hash: two scans of one product under different
  product names, arriving late first, leave a live twin whose snapshot shows the later name, and a
  rebuilt twin, from the same events, whose snapshot shows the earlier one.\<close>

theorem rebuild_changes_the_snapshot:
  "\<exists>s1 rs s2 rep v w.
     project_all mem_twin_ops demo_cfg (\<lambda>n m. demo_time 10) 0 [demo_late, demo_early] tw_empty = (s1, Inr rs) \<and>
     bootstrap_events mem_twin_ops demo_cfg digest (\<lambda>n m. demo_time 11) (demo_time 11) (demo_time 11)
       [demo_late, demo_early] ''t1'' ''s1'' ([], tw_empty) = (([], s2), Inr rep) \<and>
     snapshot_content mem_twin_ops ''t1'' ''s1'' s1 = Inr v \<and> snapshot_content mem_twin_ops ''t1'' ''s1'' s2 = Inr w \<and> v \<noteq> w"
proof -
  obtain s1 rs s2 rep where r:
    "project_all mem_twin_ops demo_cfg (\<lambda>n m. demo_time 10) 0 [demo_late, demo_early] tw_empty = (s1, Inr rs)"
    "bootstrap_events mem_twin_ops demo_cfg digest (\<lambda>n m. demo_time 11) (demo_time 11) (demo_time 11)
       [demo_late, demo_early] ''t1'' ''s1'' ([], tw_empty) = (([], s2), Inr rep)"
    and ents: "tw_entities s1 = [((''t1'', ''urn:shelfwise:t1:s1:store:s1''), demo_store_entity 9),
       ((''t1'', ''urn:shelfwise:t1:s1:product:4011''), demo_product 9 ''Red apples'')]"
      "tw_entities s2 = [((''t1'', ''urn:shelfwise:t1:s1:store:s1''), demo_store_entity 8),
       ((''t1'', ''urn:shelfwise:t1:s1:product:4011''), demo_product 8 ''Apples'')]"
    by (rule demo_runs)
  have vs: "entity_view (demo_product h name) = (''urn:shelfwise:t1:s1:product:4011'', ''t1'', ''s1'', ''product'',
      take 200 name, ''twin-v1'', [], None)" for h name
    by (simp add: entity_view_def demo_product_def service_entity_def demo_urns)
  have st: "te_store (demo_product h name) = ''s1''" "te_store (demo_store_entity h) = ''s1''"
      "te_type (demo_store_entity h) = ''store''" for h name
    by (simp_all add: demo_product_def demo_store_entity_def service_entity_def)
  obtain v w where vw: "snapshot_content mem_twin_ops ''t1'' ''s1'' s1 = Inr v" "snapshot_content mem_twin_ops ''t1'' ''s1'' s2 = Inr w"
    by (simp add: snapshot_content_def mem_twin_ops_def)
  have "set (sv_entities v) = {entity_view (demo_store_entity 9), entity_view (demo_product 9 ''Red apples'')}"
    "set (sv_entities w) = {entity_view (demo_store_entity 8), entity_view (demo_product 8 ''Apples'')}"
    using vw by (auto simp: snapshot_content_def mem_twin_ops_def tw_list_entities_def ents st)
  moreover have "entity_view (demo_product 9 ''Red apples'') \<notin> {entity_view (demo_store_entity 8), entity_view (demo_product 8 ''Apples'')}"
    unfolding vs using st(3) by (simp add: entity_view_def)
  ultimately have "v \<noteq> w" by auto
  with r vw show ?thesis by blast
qed

end
