(* ===== verification/Tokens.thy ===== *)
theory Tokens
  imports Approvals PyCal
begin

text \<open>
  Signed tokens and password credentials: \<open>src/shelfwise_backend/tenant.py\<close> (HS256 tokens and the
  session context read from them), \<open>account_tokens.py\<close> (single-purpose tokens of invitations and
  password resets) and \<open>auth_credentials.py\<close> (scrypt credentials). Base64, hexadecimal digits and
  constant-time comparison are modelled; HMAC-SHA256, SHA-256, scrypt and the JSON codec are the
  fields of the record \<open>crypto\<close>. Byte strings are strings.
\<close>

section \<open>Primitives\<close>

text \<open>
  \<open>cr_hmac\<close> takes the key and the message; \<open>cr_sha256\<close> is \<open>hexdigest\<close>; \<open>cr_scrypt\<close> takes password, salt
  and length and is \<open>None\<close> where \<open>hashlib.scrypt\<close> raises \<open>ValueError\<close>; \<open>cr_loads\<close> decodes bytes as UTF-8
  JSON, \<open>None\<close> where either step fails.
\<close>

record crypto =
  cr_hmac :: "string \<Rightarrow> string \<Rightarrow> string"
  cr_sha256 :: "string \<Rightarrow> string"
  cr_scrypt :: "string \<Rightarrow> string \<Rightarrow> nat \<Rightarrow> string option"
  cr_dumps :: "pydict \<Rightarrow> string"
  cr_loads :: "string \<Rightarrow> pyval option"

definition is_ascii :: "string \<Rightarrow> bool" where
  "is_ascii s = list_all (\<lambda>c. ord_char c < (128::nat)) s"

text \<open>\<open>hmac.compare_digest\<close> on two \<open>str\<close> raises unless both are ASCII.\<close>

definition compare_digest :: "string \<Rightarrow> string \<Rightarrow> bool result" where
  "compare_digest a b =
     (if is_ascii a \<and> is_ascii b then Inr (a = b)
      else Inl (TypeError ''comparing strings with non-ASCII characters is not supported''))"

subsection \<open>Base64 with the URL-safe alphabet\<close>

definition b64_char :: "nat \<Rightarrow> char" where
  "b64_char n = (if n < 26 then char_of (65 + n) else if n < 52 then char_of (71 + n)
     else if n < 62 then char_of (n - 4) else if n = 62 then CHR ''-'' else CHR ''_'')"

definition b64_val :: "char \<Rightarrow> nat option" where
  "b64_val c = (let n = ord_char c in
     if 65 \<le> n \<and> n \<le> 90 then Some (n - 65)
     else if 97 \<le> n \<and> n \<le> 122 then Some (n - 71)
     else if 48 \<le> n \<and> n \<le> 57 then Some (n + 4)
     else if c = CHR ''-'' \<or> c = CHR ''+'' then Some 62
     else if c = CHR ''_'' \<or> c = CHR ''/'' then Some 63 else None)"

fun urlsafe_b64encode :: "string \<Rightarrow> string" where
  "urlsafe_b64encode [] = []"
| "urlsafe_b64encode [a] = (let i = ord_char a in
     [b64_char (i div 4), b64_char (i mod 4 * 16), CHR ''='', CHR ''=''])"
| "urlsafe_b64encode [a, b] = (let i = ord_char a; j = ord_char b in
     [b64_char (i div 4), b64_char (i mod 4 * 16 + j div 16), b64_char (j mod 16 * 4), CHR ''=''])"
| "urlsafe_b64encode (a # b # c # s) = (let i = ord_char a; j = ord_char b; k = ord_char c in
     [b64_char (i div 4), b64_char (i mod 4 * 16 + j div 16), b64_char (j mod 16 * 4 + k div 64),
      b64_char (k mod 64)] @ urlsafe_b64encode s)"

text \<open>
  The decoder is the one of \<open>binascii\<close> in its lenient mode: characters outside the alphabet are
  skipped, and enough padding ends the input. \<open>quad\<close> is the position in the group of four, \<open>left\<close>
  the bits not yet written, \<open>pads\<close> the padding seen since the last digit.
\<close>

fun a2b_base64 :: "nat \<Rightarrow> nat \<Rightarrow> nat \<Rightarrow> string \<Rightarrow> string option" where
  "a2b_base64 quad left pads [] = (if quad = 0 then Some [] else None)"
| "a2b_base64 quad left pads (c # s) =
     (if c = CHR ''='' then
        (if 2 \<le> quad then (if 4 \<le> quad + pads + 1 then Some [] else a2b_base64 quad left (pads + 1) s)
         else a2b_base64 quad left pads s)
      else (case b64_val c of
          None \<Rightarrow> a2b_base64 quad left pads s
        | Some v \<Rightarrow>
            if quad = 0 then a2b_base64 1 v 0 s
            else if quad = 1 then map_option ((#) (char_of (left * 4 + v div 16))) (a2b_base64 2 (v mod 16) 0 s)
            else if quad = 2 then map_option ((#) (char_of (left * 16 + v div 4))) (a2b_base64 3 (v mod 4) 0 s)
            else map_option ((#) (char_of (left * 64 + v))) (a2b_base64 0 0 0 s)))"

definition urlsafe_b64decode :: "string \<Rightarrow> string option" where
  "urlsafe_b64decode s = a2b_base64 0 0 0 s"

definition rstrip_pad :: "string \<Rightarrow> string" where
  "rstrip_pad s = rev (dropWhile (\<lambda>c. c = CHR ''='') (rev s))"

definition pad :: "string \<Rightarrow> string" where
  "pad v = v @ replicate (nat ((- int (length v)) mod 4)) (CHR ''='')"

subsection \<open>Hexadecimal\<close>

definition to_hex :: "string \<Rightarrow> string" where
  "to_hex bs = concat (map (\<lambda>c. [hex_digit (ord_char c div 16), hex_digit (ord_char c mod 16)]) bs)"

definition hex_val :: "char \<Rightarrow> nat option" where
  "hex_val c = (let n = ord_char c in
     if 48 \<le> n \<and> n \<le> 57 then Some (n - 48)
     else if 97 \<le> n \<and> n \<le> 102 then Some (n - 87)
     else if 65 \<le> n \<and> n \<le> 70 then Some (n - 55) else None)"

definition is_c_space :: "char \<Rightarrow> bool" where
  "is_c_space c = (let n = ord_char c in 9 \<le> n \<and> n \<le> 13 \<or> n = (32::nat))"

text \<open>\<open>bytes.fromhex\<close>: pairs of digits, white space allowed between the pairs.\<close>

fun from_hex :: "string \<Rightarrow> string option" where
  "from_hex [] = Some []"
| "from_hex [c] = (if is_c_space c then Some [] else None)"
| "from_hex (c # d # s) = (if is_c_space c then from_hex (d # s)
     else (case (hex_val c, hex_val d) of
         (Some x, Some y) \<Rightarrow> map_option ((#) (char_of (16 * x + y))) (from_hex s)
       | _ \<Rightarrow> None))"

section \<open>HS256 tokens\<close>

definition tok_dumps :: "crypto \<Rightarrow> pydict \<Rightarrow> string" where
  "tok_dumps cr d = rstrip_pad (urlsafe_b64encode (cr_dumps cr d))"

definition tok_loads :: "crypto \<Rightarrow> string \<Rightarrow> pydict result" where
  "tok_loads cr s = (case Option.bind (urlsafe_b64decode (pad s)) (cr_loads cr) of
       None \<Rightarrow> Inl (ValueError ''invalid token encoding'')
     | Some (PyDict d) \<Rightarrow> Inr d
     | Some v \<Rightarrow> Inl (ValueError ''invalid token payload''))"

definition tok_sign :: "crypto \<Rightarrow> string \<Rightarrow> string \<Rightarrow> string" where
  "tok_sign cr signing secret = rstrip_pad (urlsafe_b64encode (cr_hmac cr secret signing))"

definition jwt_header :: pydict where
  "jwt_header = [(''alg'', PyStr ''HS256''), (''typ'', PyStr ''JWT'')]"

definition encode_hs256_token :: "crypto \<Rightarrow> pydict \<Rightarrow> string \<Rightarrow> string" where
  "encode_hs256_token cr claims secret =
     (let h = tok_dumps cr jwt_header; p = tok_dumps cr claims;
          sg = tok_sign cr (h @ ''.'' @ p) secret
      in h @ ''.'' @ p @ ''.'' @ sg)"

text \<open>The clock is the current instant; \<open>time.time()\<close> counts from 1970, day 719163 of the calendar.\<close>

definition epoch :: int where
  "epoch = 719163 * day_us"

definition unix_time :: "int \<Rightarrow> int" where
  "unix_time clock = (clock - epoch) div 1000000"

definition decode_hs256_claims :: "crypto \<Rightarrow> int \<Rightarrow> string \<Rightarrow> string \<Rightarrow> pydict result" where
  "decode_hs256_claims cr clock token secret =
     (if secret = [] then Inl (ValueError ''token secret is not configured'')
      else (case split_on (CHR ''.'') token of
          [h, p, sg] \<Rightarrow>
            bind_res (tok_loads cr h) (\<lambda>header.
            if get header ''alg'' \<noteq> PyStr ''HS256'' then Inl (ValueError ''unsupported token algorithm'')
            else bind_res (compare_digest (tok_sign cr (h @ ''.'' @ p) secret) sg) (\<lambda>same.
              if \<not> same then Inl (ValueError ''invalid token signature'')
              else bind_res (tok_loads cr p) (\<lambda>payload.
                if get payload ''exp'' = PyNone then Inr payload
                else bind_res (py_int (get payload ''exp'')) (\<lambda>x.
                  if x < unix_time clock then Inl (ValueError ''token expired'') else Inr payload))))
        | _ \<Rightarrow> Inl (ValueError ''invalid token shape'')))"

definition required_string :: "pydict \<Rightarrow> string \<Rightarrow> string result" where
  "required_string payload name = (case get payload name of
       PyStr s \<Rightarrow> if strip s = [] then Inl (ValueError (''token missing '' @ name)) else Inr (strip s)
     | _ \<Rightarrow> Inl (ValueError (''token missing '' @ name)))"

definition role_of :: "string \<Rightarrow> role result" where
  "role_of s = (case find_first (\<lambda>r. role_value r = s)
       [OWNER, EXECUTIVE, MANAGER, INVENTORY, ANALYST, AUDITOR] of
       Some r \<Rightarrow> Inr r
     | None \<Rightarrow> Inl (ValueError (repr_str s @ '' is not a valid Role'')))"

record session_context = tenant_context +
  sc_version :: "int option"
  sc_password_change :: bool

definition session_dict :: "'x tenant_context_scheme \<Rightarrow> pydict" where
  "session_dict c = [(''tenant_id'', PyStr (tc_tenant_id c)), (''user_id'', PyStr (tc_user_id c)),
     (''role'', PyStr (role_value (tc_role c)))]"

definition token_claims :: "session_context \<Rightarrow> pydict" where
  "token_claims c = (case sc_version c of
       None \<Rightarrow> session_dict c
     | Some v \<Rightarrow> session_dict c @ [(''session_version'', PyInt v)])"

definition tenant_context_from_jwt :: "crypto \<Rightarrow> int \<Rightarrow> string \<Rightarrow> string \<Rightarrow> session_context result" where
  "tenant_context_from_jwt cr clock token secret =
     bind_res (decode_hs256_claims cr clock token secret) (\<lambda>payload.
     bind_res (required_string payload ''tenant_id'') (\<lambda>tenant.
     bind_res (required_string payload ''user_id'') (\<lambda>user.
     bind_res (bind_res (required_string payload ''role'') role_of) (\<lambda>rl.
     bind_res (if get payload ''session_version'' = PyNone then Inr None
               else bind_res (py_int (get payload ''session_version'')) (\<lambda>v. Inr (Some v))) (\<lambda>ver.
     if (case ver of Some v \<Rightarrow> v < 1 | None \<Rightarrow> False) then Inl (ValueError ''invalid session version'')
     else Inr \<lparr>tc_tenant_id = tenant, tc_user_id = user, tc_role = rl, sc_version = ver,
               sc_password_change = False\<rparr>)))))"

definition verify_bearer_token :: "crypto \<Rightarrow> int \<Rightarrow> string option \<Rightarrow> string \<Rightarrow> session_context result" where
  "verify_bearer_token cr clock auth secret = (case auth of
       None \<Rightarrow> Inl (ValueError ''missing bearer token'')
     | Some a \<Rightarrow>
         if \<not> startswith a ''Bearer '' then Inl (ValueError ''missing bearer token'')
         else tenant_context_from_jwt cr clock (strip (removeprefix a ''Bearer '')) secret)"

section \<open>Account tokens\<close>

record issued_token =
  it_token :: string
  it_hash :: string
  it_expires_at :: string

text \<open>The token's nonce is \<open>secrets.token_urlsafe(24)\<close>.\<close>

definition issue_account_token ::
  "crypto \<Rightarrow> int \<Rightarrow> string \<Rightarrow> string \<Rightarrow> string \<Rightarrow> string \<Rightarrow> string \<Rightarrow> int \<Rightarrow> issued_token result" where
  "issue_account_token cr clock nonce purpose tenant account secret lifetime =
     (if secret = [] then Inl (ValueError ''Tenant authentication is unavailable'')
      else if lifetime < 60 then Inl (ValueError ''Account token lifetime must be at least 60 seconds'')
      else (let x = unix_time clock + lifetime;
                token = encode_hs256_token cr [(''purpose'', PyStr purpose), (''tenant_id'', PyStr tenant),
                  (''account_id'', PyStr account), (''nonce'', PyStr nonce), (''exp'', PyInt x)] secret
            in (case of_instant (epoch + x * 1000000) of
                None \<Rightarrow> Inl (ValueError ''year is out of range'')
              | Some t \<Rightarrow> Inr \<lparr>it_token = token, it_hash = cr_sha256 cr token, it_expires_at = isoformat t\<rparr>)))"

definition required_claim :: "pydict \<Rightarrow> string \<Rightarrow> string result" where
  "required_claim claims name = (case get claims name of
       PyStr s \<Rightarrow> if strip s = [] then Inl (ValueError ''Invalid account token'') else Inr (strip s)
     | _ \<Rightarrow> Inl (ValueError ''Invalid account token''))"

definition verify_account_token ::
  "crypto \<Rightarrow> int \<Rightarrow> string \<Rightarrow> string \<Rightarrow> string \<Rightarrow> (string \<times> string) result" where
  "verify_account_token cr clock token purpose secret =
     bind_res (decode_hs256_claims cr clock token secret) (\<lambda>claims.
     if get claims ''purpose'' \<noteq> PyStr purpose then Inl (ValueError ''Invalid account token'')
     else bind_res (required_claim claims ''tenant_id'') (\<lambda>tenant.
          bind_res (required_claim claims ''account_id'') (\<lambda>account.
          bind_res (required_claim claims ''nonce'') (\<lambda>n. Inr (tenant, account)))))"

definition token_digest :: "crypto \<Rightarrow> string \<Rightarrow> string" where
  "token_digest cr token = cr_sha256 cr token"

section \<open>Password credentials\<close>

definition scrypt_password_hash :: "crypto \<Rightarrow> string \<Rightarrow> string \<Rightarrow> string result" where
  "scrypt_password_hash cr password salt = (case cr_scrypt cr password salt 64 of
       None \<Rightarrow> Inl (ValueError ''scrypt'')
     | Some digest \<Rightarrow> Inr (''scrypt$'' @ to_hex salt @ ''$'' @ to_hex digest))"

text \<open>\<open>s.split("$", 2)\<close> unpacked into three names.\<close>

definition split_credential :: "string \<Rightarrow> (string \<times> string \<times> string) option" where
  "split_credential s =
     (let a = takeWhile (\<lambda>c. c \<noteq> CHR ''$'') s; r = dropWhile (\<lambda>c. c \<noteq> CHR ''$'') s in
      if r = [] then None
      else (let b = takeWhile (\<lambda>c. c \<noteq> CHR ''$'') (tl r); q = dropWhile (\<lambda>c. c \<noteq> CHR ''$'') (tl r) in
            if q = [] then None else Some (a, b, tl q)))"

definition credential_digests :: "crypto \<Rightarrow> string \<Rightarrow> string \<Rightarrow> (string \<times> string) option" where
  "credential_digests cr password configured =
     Option.bind (split_credential configured) (\<lambda>(scheme, salt_hex, hash_hex).
     if scheme \<noteq> ''scrypt'' then None
     else Option.bind (from_hex hash_hex) (\<lambda>expected.
          Option.bind (from_hex salt_hex) (\<lambda>salt.
          Option.bind (cr_scrypt cr password salt (length expected)) (\<lambda>computed.
          Some (computed, expected)))))"

definition login_credentials_valid ::
  "crypto \<Rightarrow> string \<Rightarrow> string \<Rightarrow> string \<Rightarrow> string \<Rightarrow> bool result" where
  "login_credentials_valid cr email password configured_email configured_hash =
     (case credential_digests cr password configured_hash of
        None \<Rightarrow> Inr False
      | Some (computed, expected) \<Rightarrow>
          bind_res (compare_digest (lower (strip email)) configured_email) (\<lambda>email_ok.
          Inr (email_ok \<and> computed = expected)))"

section \<open>Base64 and hexadecimal round trips\<close>

lemma ord_char_less: "ord_char c < (256::nat)"
  by (metis of_char_mod_256 mod_less_divisor zero_less_numeral)

lemma b64_char_ord: "n < 64 \<Longrightarrow> ord_char (b64_char n) =
   (if n < 26 then 65 + n else if n < 52 then 71 + n else if n < 62 then n - 4 else if n = 62 then 45 else (95::nat))"
  by (auto simp: b64_char_def of_char_mod_256)

lemma b64_val_char: "n < 64 \<Longrightarrow> b64_val (b64_char n) = Some n"
  using b64_char_ord [of n] by (auto simp: b64_val_def Let_def b64_char_def)

lemma b64_char_plain:
  assumes "n < 64"
  shows "b64_char n \<noteq> CHR ''=''" and "b64_char n \<noteq> CHR ''.''" and "ord_char (b64_char n) < (128::nat)"
    and "\<not> is_space (b64_char n)"
proof -
  note o = b64_char_ord [OF assms]
  show "ord_char (b64_char n) < (128::nat)" unfolding o using assms by (auto split: if_splits)
  have "ord_char (b64_char n) \<noteq> (61::nat)" "ord_char (b64_char n) \<noteq> (46::nat)"
    using assms by (auto simp: o)
  then show "b64_char n \<noteq> CHR ''=''" "b64_char n \<noteq> CHR ''.''" by auto
  show "\<not> is_space (b64_char n)" using assms unfolding is_space_def Let_def o by (auto split: if_splits)
qed

lemma a2b_digit:
  assumes "n < 64"
  shows "a2b_base64 0 left pads (b64_char n # s) = a2b_base64 (Suc 0) n 0 s"
    and "a2b_base64 (Suc 0) left pads (b64_char n # s) =
      map_option ((#) (char_of (left * 4 + n div 16))) (a2b_base64 2 (n mod 16) 0 s)"
    and "a2b_base64 2 left pads (b64_char n # s) =
      map_option ((#) (char_of (left * 16 + n div 4))) (a2b_base64 3 (n mod 4) 0 s)"
    and "a2b_base64 3 left pads (b64_char n # s) = map_option ((#) (char_of (left * 64 + n))) (a2b_base64 0 0 0 s)"
  using b64_val_char [OF assms] b64_char_plain [OF assms] by simp_all

lemma a2b_padding: "a2b_base64 2 left 0 [CHR ''='', CHR ''=''] = Some []" "a2b_base64 3 left 0 [CHR ''=''] = Some []"
  by simp_all

lemma b64_sextets:
  fixes i j k :: nat
  assumes "i < 256" "j < 256" "k < 256"
  shows "i div 4 < 64" "i mod 4 * 16 < 64" "i mod 4 * 16 + j div 16 < 64" "j mod 16 * 4 < 64"
    "j mod 16 * 4 + k div 64 < 64" "k mod 64 < 64"
    "j div 16 div 16 = 0" "j div 16 mod 16 = j div 16" "k div 64 div 4 = 0" "k div 64 mod 4 = k div 64"
proof -
  have "i mod 4 < 4" "j mod 16 < 16" by simp_all
  moreover have "j div 16 < 16" "k div 64 < 4" using assms by (simp_all add: less_mult_imp_div_less)
  ultimately show "i mod 4 * 16 < 64" "i mod 4 * 16 + j div 16 < 64" "j mod 16 * 4 < 64" "j mod 16 * 4 + k div 64 < 64"
    "j div 16 div 16 = 0" "j div 16 mod 16 = j div 16" "k div 64 div 4 = 0" "k div 64 mod 4 = k div 64" by simp_all
qed (use assms in auto)

lemmas b64_bytes = b64_sextets [OF ord_char_less ord_char_less ord_char_less]

lemma a2b_encode: "a2b_base64 0 left pads (urlsafe_b64encode s) = Some s"
  by (induction s arbitrary: left pads rule: urlsafe_b64encode.induct)
    (simp_all add: Let_def a2b_digit a2b_padding b64_bytes del: a2b_base64.simps(2))

text \<open>An encoding is a body of digits followed by the padding that \<open>rstrip\<close> removes and \<open>_pad\<close> restores.\<close>

lemma encode_shape:
  obtains b where "set b \<subseteq> b64_char ` {..<64}" "urlsafe_b64encode s = pad b"
proof -
  have "\<exists>b. (set b \<subseteq> b64_char ` {..<64}) \<and> urlsafe_b64encode s = pad b"
  proof (induction s rule: urlsafe_b64encode.induct)
    case 1
    show ?case by (rule exI [of _ "[]"]) (simp add: pad_def)
  next
    case (2 a)
    show ?case
      by (rule exI [of _ "[b64_char (ord_char a div 4), b64_char (ord_char a mod 4 * 16)]"])
        (auto simp: pad_def Let_def b64_bytes numeral_2_eq_2)
  next
    case (3 a b)
    show ?case
      by (rule exI [of _ "[b64_char (ord_char a div 4), b64_char (ord_char a mod 4 * 16 + ord_char b div 16),
          b64_char (ord_char b mod 16 * 4)]"])
        (auto simp: pad_def Let_def b64_bytes)
  next
    case (4 a b c s)
    then obtain w where w: "set w \<subseteq> b64_char ` {..<64}" "urlsafe_b64encode s = pad w"
      by meson
    let ?g = "[b64_char (ord_char a div 4), b64_char (ord_char a mod 4 * 16 + ord_char b div 16),
      b64_char (ord_char b mod 16 * 4 + ord_char c div 64), b64_char (ord_char c mod 64)]"
    have "(- int (length (?g @ w))) mod 4 = (- int (length w)) mod 4"
      by (simp add: mod_simps) presburger
    then have "urlsafe_b64encode (a # b # c # s) = pad (?g @ w)"
      using w(2) by (simp add: pad_def Let_def)
    then show ?case
      using w(1) by (intro exI [of _ "?g @ w"]) (auto simp: b64_bytes)
  qed
  then show thesis using that by blast
qed

lemma digits_plain:
  assumes "set b \<subseteq> b64_char ` {..<64}"
  shows "CHR ''='' \<notin> set b" and "CHR ''.'' \<notin> set b" and "is_ascii b" and "\<forall>c \<in> set b. \<not> is_space c"
proof -
  have "\<forall>c \<in> set b. \<exists>n < 64. c = b64_char n" using assms by auto
  then show "CHR ''='' \<notin> set b" "CHR ''.'' \<notin> set b" "is_ascii b" "\<forall>c \<in> set b. \<not> is_space c"
    unfolding is_ascii_def list_all_iff using b64_char_plain by metis+
qed

lemma rstrip_pad_pad: "CHR ''='' \<notin> set b \<Longrightarrow> rstrip_pad (pad b) = b"
proof -
  assume "CHR ''='' \<notin> set b"
  then have "rev b = [] \<or> \<not> hd (rev b) = CHR ''=''" by (metis hd_in_set set_rev)
  then have "dropWhile (\<lambda>c. c = CHR ''='') (rev b) = rev b" by (rule dropWhile_hd)
  moreover have "dropWhile (\<lambda>c. c = d) (replicate n d @ xs) = dropWhile (\<lambda>c. c = d) xs" for n d and xs :: string
    by (induction n) auto
  ultimately show ?thesis by (simp add: rstrip_pad_def pad_def rev_replicate)
qed

definition b64_segment :: "string \<Rightarrow> bool" where
  "b64_segment b \<longleftrightarrow> CHR ''.'' \<notin> set b \<and> is_ascii b \<and> (\<forall>c \<in> set b. \<not> is_space c)"

lemma segment_shape: "b64_segment (rstrip_pad (urlsafe_b64encode s))"
  by (rule encode_shape [of s]) (simp add: b64_segment_def rstrip_pad_pad digits_plain)

lemma segment_decodes: "urlsafe_b64decode (pad (rstrip_pad (urlsafe_b64encode s))) = Some s"
proof (rule encode_shape [of s])
  fix b assume b: "set b \<subseteq> b64_char ` {..<64}" "urlsafe_b64encode s = pad b"
  then show ?thesis
    using a2b_encode [of 0 0 s] by (simp add: rstrip_pad_pad digits_plain urlsafe_b64decode_def)
qed

lemma hex_val_digit: "n < 16 \<Longrightarrow> hex_val (hex_digit n) = Some n \<and> \<not> is_c_space (hex_digit n) \<and> hex_digit n \<noteq> CHR ''$''"
proof -
  assume "n < 16"
  then have "ord_char (hex_digit n) = (if n < 10 then 48 + n else 87 + n)"
    by (auto simp: hex_digit_def of_char_mod_256)
  moreover from this have "hex_digit n \<noteq> CHR ''$''" by (auto split: if_splits)
  ultimately show ?thesis using \<open>n < 16\<close> by (auto simp: hex_val_def is_c_space_def Let_def)
qed

lemma byte_digits: "ord_char c div 16 < (16::nat)" "ord_char c mod 16 < (16::nat)"
  using ord_char_less [of c] by (auto simp: less_mult_imp_div_less)

lemma from_to_hex: "from_hex (to_hex bs) = Some bs"
  by (induction bs) (auto simp: to_hex_def hex_val_digit byte_digits)

lemma to_hex_plain: "CHR ''$'' \<notin> set (to_hex bs)"
proof (induction bs)
  case (Cons c bs)
  have "CHR ''$'' \<noteq> hex_digit n" if "n < 16" for n using hex_val_digit [OF that] by metis
  with Cons show ?case by (simp add: to_hex_def byte_digits)
qed (simp add: to_hex_def)

lemma split_credential_hash:
  assumes "CHR ''$'' \<notin> set a" "CHR ''$'' \<notin> set b"
  shows "split_credential (a @ CHR ''$'' # b @ CHR ''$'' # c) = Some (a, b, c)"
proof -
  have "takeWhile (\<lambda>c. c \<noteq> d) (x @ d # y) = x \<and> dropWhile (\<lambda>c. c \<noteq> d) (x @ d # y) = d # y"
    if "d \<notin> set x" for d and x y :: string
    using that by (induction x) auto
  with assms show ?thesis by (simp add: split_credential_def Let_def)
qed

section \<open>What a token proves\<close>

text \<open>\<open>json.loads\<close> reads back what \<open>json.dumps\<close> wrote, up to the order of the keys, which \<open>sort_keys\<close> changes.\<close>

definition codec_ok :: "crypto \<Rightarrow> pydict \<Rightarrow> bool" where
  "codec_ok cr d \<longleftrightarrow> (\<exists>e. cr_loads cr (cr_dumps cr d) = Some (PyDict e) \<and> get e = get d)"

lemma loads_dumps:
  assumes "codec_ok cr d"
  obtains e where "tok_loads cr (tok_dumps cr d) = Inr e" "get e = get d"
  using assms unfolding codec_ok_def tok_loads_def tok_dumps_def by (auto simp: segment_decodes)

lemma tok_segments: "b64_segment (tok_dumps cr d)" "b64_segment (tok_sign cr m k)"
  by (simp_all add: tok_dumps_def tok_sign_def segment_shape)

lemma decode_encode:
  assumes "codec_ok cr jwt_header" "codec_ok cr claims" "secret \<noteq> []" and x: "get claims ''exp'' = PyInt x"
  obtains e where "get e = get claims"
    "decode_hs256_claims cr clock (encode_hs256_token cr claims secret) secret =
       (if x < unix_time clock then Inl (ValueError ''token expired'') else Inr e)"
proof -
  obtain h where h: "tok_loads cr (tok_dumps cr jwt_header) = Inr h" "get h = get jwt_header"
    using loads_dumps [OF assms(1)] by blast
  obtain e where e: "tok_loads cr (tok_dumps cr claims) = Inr e" "get e = get claims"
    using loads_dumps [OF assms(2)] by blast
  let ?h = "tok_dumps cr jwt_header" and ?p = "tok_dumps cr claims"
  let ?s = "tok_sign cr (?h @ ''.'' @ ?p) secret"
  have "split_on (CHR ''.'') (encode_hs256_token cr claims secret) = [?h, ?p, ?s]"
    using tok_segments by (simp add: encode_hs256_token_def Let_def split_on_append split_on_no_sep b64_segment_def)
  moreover have "get h ''alg'' = PyStr ''HS256''" by (simp add: h(2) jwt_header_def)
  moreover have "compare_digest ?s ?s = Inr True"
    using tok_segments(2) by (simp add: compare_digest_def b64_segment_def)
  ultimately have "decode_hs256_claims cr clock (encode_hs256_token cr claims secret) secret =
       (if x < unix_time clock then Inl (ValueError ''token expired'') else Inr e)"
    using assms(3) h(1) e x by (simp add: decode_hs256_claims_def)
  then show thesis using that e(2) by blast
qed

lemma encoded_stripped: "strip (encode_hs256_token cr claims secret) = encode_hs256_token cr claims secret"
proof (rule strip_hd_last)
  let ?t = "encode_hs256_token cr claims secret"
  have "\<forall>c \<in> set ?t. \<not> is_space c"
    using tok_segments by (auto simp: encode_hs256_token_def Let_def b64_segment_def is_space_def)
  moreover have "?t \<noteq> []" by (simp add: encode_hs256_token_def Let_def)
  ultimately show "?t = [] \<or> \<not> is_space (hd ?t) \<and> \<not> is_space (last ?t)" by simp
qed

lemma required_string_plain:
  "get d k = PyStr s \<Longrightarrow> strip s = s \<Longrightarrow> s \<noteq> [] \<Longrightarrow> required_string d k = Inr s"
  "get d k = PyStr s \<Longrightarrow> strip s = s \<Longrightarrow> s \<noteq> [] \<Longrightarrow> required_claim d k = Inr s"
  by (simp_all add: required_string_def required_claim_def)

lemma role_value_plain: "strip (role_value r) = role_value r \<and> role_value r \<noteq> [] \<and> role_of (role_value r) = Inr r"
  by (cases r) (simp_all, (code_simp)+)

definition plain_text :: "string \<Rightarrow> bool" where
  "plain_text s \<longleftrightarrow> s \<noteq> [] \<and> strip s = s"

lemma session_token_read_back:
  assumes "codec_ok cr jwt_header" and "codec_ok cr (token_claims c @ [(''exp'', PyInt x)])" and "secret \<noteq> []"
    and "plain_text (tc_tenant_id c)" "plain_text (tc_user_id c)"
    and "case sc_version c of Some v \<Rightarrow> 1 \<le> v | None \<Rightarrow> True"
  shows "verify_bearer_token cr clock
           (Some (''Bearer '' @ encode_hs256_token cr (token_claims c @ [(''exp'', PyInt x)]) secret)) secret =
         (if x < unix_time clock then Inl (ValueError ''token expired'')
          else Inr (c\<lparr>sc_password_change := False\<rparr>))"
proof -
  let ?claims = "token_claims c @ [(''exp'', PyInt x)]"
  have x: "get ?claims ''exp'' = PyInt x"
    by (simp add: token_claims_def session_dict_def split: option.splits)
  obtain e where e: "get e = get ?claims" and d:
    "decode_hs256_claims cr clock (encode_hs256_token cr ?claims secret) secret =
       (if x < unix_time clock then Inl (ValueError ''token expired'') else Inr e)"
    using decode_encode [OF assms(1-3) x] by blast
  have g: "get e ''tenant_id'' = PyStr (tc_tenant_id c)" "get e ''user_id'' = PyStr (tc_user_id c)"
    "get e ''role'' = PyStr (role_value (tc_role c))"
    "get e ''session_version'' = (case sc_version c of None \<Rightarrow> PyNone | Some v \<Rightarrow> PyInt v)"
    by (simp_all add: e token_claims_def session_dict_def split: option.splits)
  have "strip (removeprefix (''Bearer '' @ encode_hs256_token cr ?claims secret) ''Bearer '') =
    encode_hs256_token cr ?claims secret"
    using encoded_stripped by (simp add: removeprefix_def)
  moreover have "startswith (''Bearer '' @ encode_hs256_token cr ?claims secret) ''Bearer ''"
    by (rule startswith_append)
  moreover have "c\<lparr>sc_password_change := False\<rparr> = \<lparr>tc_tenant_id = tc_tenant_id c, tc_user_id = tc_user_id c,
    tc_role = tc_role c, sc_version = sc_version c, sc_password_change = False\<rparr>" by simp
  ultimately show ?thesis
    using assms(4-6) g role_value_plain [of "tc_role c"] unfolding plain_text_def verify_bearer_token_def
    by (auto simp: tenant_context_from_jwt_def d required_string_plain split: option.splits)
qed

lemma account_token_verifies:
  assumes "issue_account_token cr clock nonce purpose tenant account secret lifetime = Inr it"
    and "codec_ok cr jwt_header"
    and "codec_ok cr [(''purpose'', PyStr purpose), (''tenant_id'', PyStr tenant), (''account_id'', PyStr account),
           (''nonce'', PyStr nonce), (''exp'', PyInt (unix_time clock + lifetime))]"
    and "plain_text tenant" "plain_text account" "plain_text nonce"
  shows "verify_account_token cr later (it_token it) wanted secret =
         (if unix_time clock + lifetime < unix_time later then Inl (ValueError ''token expired'')
          else if wanted = purpose then Inr (tenant, account) else Inl (ValueError ''Invalid account token'')) \<and>
         (\<exists>m. tenant_context_from_jwt cr later (it_token it) secret = Inl (ValueError m))"
proof -
  let ?x = "unix_time clock + lifetime"
  let ?claims = "[(''purpose'', PyStr purpose), (''tenant_id'', PyStr tenant), (''account_id'', PyStr account),
    (''nonce'', PyStr nonce), (''exp'', PyInt ?x)]"
  from assms(1) have it: "it_token it = encode_hs256_token cr ?claims secret" and s: "secret \<noteq> []"
    by (auto simp: issue_account_token_def Let_def split: if_splits option.splits)
  have x: "get ?claims ''exp'' = PyInt ?x" by simp
  obtain e where e: "get e = get ?claims" and d:
    "decode_hs256_claims cr later (it_token it) secret =
       (if ?x < unix_time later then Inl (ValueError ''token expired'') else Inr e)"
    unfolding it using decode_encode [OF assms(2,3) s x] by blast
  have g: "required_claim e ''tenant_id'' = Inr tenant" "required_claim e ''account_id'' = Inr account"
    "required_claim e ''nonce'' = Inr nonce" "required_string e ''tenant_id'' = Inr tenant"
    "get e ''purpose'' = PyStr purpose" "required_string e ''user_id'' = Inl (ValueError ''token missing user_id'')"
    using assms(4-6) by (simp_all add: e plain_text_def required_string_def required_claim_def)
  have "verify_account_token cr later (it_token it) wanted secret =
         (if ?x < unix_time later then Inl (ValueError ''token expired'')
          else if wanted = purpose then Inr (tenant, account) else Inl (ValueError ''Invalid account token''))"
    by (simp add: verify_account_token_def d g)
  moreover have "\<exists>m. tenant_context_from_jwt cr later (it_token it) secret = Inl (ValueError m)"
    by (simp add: tenant_context_from_jwt_def d g)
  ultimately show ?thesis by blast
qed

text \<open>
  C22. A session token is read back as the context it was made for: the bearer header that carries
  \<open>encode_hs256_token\<close> of the claims of a context gives that context again until the second it expires,
  and a \<open>ValueError\<close> after it. The codec is only assumed to restore the two dictionaries written.
\<close>

theorem session_token_roundtrip:
  assumes "codec_ok cr jwt_header" and "codec_ok cr (token_claims c @ [(''exp'', PyInt x)])" and "secret \<noteq> []"
    and "plain_text (tc_tenant_id c)" "plain_text (tc_user_id c)"
    and "case sc_version c of Some v \<Rightarrow> 1 \<le> v | None \<Rightarrow> True"
  shows "verify_bearer_token cr clock
           (Some (''Bearer '' @ encode_hs256_token cr (token_claims c @ [(''exp'', PyInt x)]) secret)) secret =
         (if x < unix_time clock then Inl (ValueError ''token expired'')
          else Inr (c\<lparr>sc_password_change := False\<rparr>))"
  by (rule session_token_read_back [OF assms])

text \<open>
  C23. Tokens are good for one purpose. What \<open>issue_account_token\<close> mints for a purpose, a tenant and an
  account verifies for exactly that purpose and names that tenant and account until it expires; for
  any other purpose it is refused, and it is never accepted as a session.
\<close>

theorem account_tokens_have_one_purpose:
  assumes "issue_account_token cr clock nonce purpose tenant account secret lifetime = Inr it"
    and "codec_ok cr jwt_header"
    and "codec_ok cr [(''purpose'', PyStr purpose), (''tenant_id'', PyStr tenant), (''account_id'', PyStr account),
           (''nonce'', PyStr nonce), (''exp'', PyInt (unix_time clock + lifetime))]"
    and "plain_text tenant" "plain_text account" "plain_text nonce"
  shows "verify_account_token cr later (it_token it) wanted secret =
         (if unix_time clock + lifetime < unix_time later then Inl (ValueError ''token expired'')
          else if wanted = purpose then Inr (tenant, account) else Inl (ValueError ''Invalid account token'')) \<and>
         (\<exists>m. tenant_context_from_jwt cr later (it_token it) secret = Inl (ValueError m))"
  by (rule account_token_verifies [OF assms])


section \<open>Witnesses\<close>

text \<open>A codec that writes the header as one letter and one set of claims as another.\<close>

definition demo_crypto :: "pydict \<Rightarrow> crypto" where
  "demo_crypto claims = \<lparr>cr_hmac = (\<lambda>k m. ''sig''), cr_sha256 = (\<lambda>t. ''digest''),
     cr_scrypt = (\<lambda>p s n. Some (replicate n (hd (p @ ''x'')))),
     cr_dumps = (\<lambda>d. if d = jwt_header then ''h'' else ''p''),
     cr_loads = (\<lambda>b. Some (PyDict (if b = ''h'' then jwt_header else claims)))\<rparr>"

lemma demo_codec: "codec_ok (demo_crypto claims) jwt_header" "claims \<noteq> jwt_header \<Longrightarrow> codec_ok (demo_crypto claims) claims"
  by (auto simp: codec_ok_def demo_crypto_def)

definition demo_session :: session_context where
  "demo_session = \<lparr>tc_tenant_id = ''acme'', tc_user_id = ''u1'', tc_role = MANAGER, sc_version = Some 3,
     sc_password_change = False\<rparr>"

theorem session_token_roundtrip_witness:
  "verify_bearer_token (demo_crypto (token_claims demo_session @ [(''exp'', PyInt 100)])) epoch
     (Some (''Bearer '' @ encode_hs256_token (demo_crypto (token_claims demo_session @ [(''exp'', PyInt 100)]))
        (token_claims demo_session @ [(''exp'', PyInt 100)]) ''k'')) ''k'' = Inr demo_session"
proof -
  let ?claims = "token_claims demo_session @ [(''exp'', PyInt 100)]"
  have "?claims \<noteq> jwt_header" by (simp add: token_claims_def demo_session_def session_dict_def jwt_header_def)
  then have "verify_bearer_token (demo_crypto ?claims) epoch
      (Some (''Bearer '' @ encode_hs256_token (demo_crypto ?claims) ?claims ''k'')) ''k'' =
    (if 100 < unix_time epoch then Inl (ValueError ''token expired'')
     else Inr (demo_session\<lparr>sc_password_change := False\<rparr>))"
    by (intro session_token_roundtrip demo_codec)
      (simp_all add: demo_session_def plain_text_def, code_simp+)
  then show ?thesis by (simp add: unix_time_def demo_session_def)
qed

abbreviation demo_claims :: pydict where
  "demo_claims \<equiv> [(''purpose'', PyStr ''activation''), (''tenant_id'', PyStr ''acme''), (''account_id'', PyStr ''a1''),
     (''nonce'', PyStr ''n''), (''exp'', PyInt 3600)]"

lemma demo_issue: "\<exists>it. issue_account_token (demo_crypto demo_claims) epoch ''n'' ''activation'' ''acme'' ''a1'' ''k'' 3600 = Inr it"
proof -
  have "\<exists>t. of_instant (epoch + (unix_time epoch + 3600) * 1000000) = Some t"
    by (simp add: of_instant_def unix_time_def epoch_def day_us_def Let_def split: prod.splits)
  then show ?thesis by (auto simp: issue_account_token_def Let_def)
qed

theorem account_tokens_have_one_purpose_witness:
  "\<exists>it. issue_account_token (demo_crypto demo_claims) epoch ''n'' ''activation'' ''acme'' ''a1'' ''k'' 3600 = Inr it \<and>
    verify_account_token (demo_crypto demo_claims) epoch (it_token it) ''activation'' ''k'' = Inr (''acme'', ''a1'') \<and>
    verify_account_token (demo_crypto demo_claims) epoch (it_token it) ''password_reset'' ''k'' =
      Inl (ValueError ''Invalid account token'')"
proof -
  obtain it where it: "issue_account_token (demo_crypto demo_claims) epoch ''n'' ''activation'' ''acme'' ''a1'' ''k'' 3600 = Inr it"
    using demo_issue by blast
  have z: "unix_time epoch = 0" by (simp add: unix_time_def)
  have c: "codec_ok (demo_crypto demo_claims) jwt_header" "codec_ok (demo_crypto demo_claims)
    [(''purpose'', PyStr ''activation''), (''tenant_id'', PyStr ''acme''), (''account_id'', PyStr ''a1''),
     (''nonce'', PyStr ''n''), (''exp'', PyInt (unix_time epoch + 3600))]"
    using demo_codec [of demo_claims] by (simp_all add: jwt_header_def z)
  have p: "plain_text ''acme''" "plain_text ''a1''" "plain_text ''n''" by (simp_all add: plain_text_def, code_simp+)
  show ?thesis
    using it account_tokens_have_one_purpose [OF it c p, of epoch "''activation''"]
      account_tokens_have_one_purpose [OF it c p, of epoch "''password_reset''"]
    by (auto simp: z)
qed

end
