(* ===== verification/Accounts.thy ===== *)
theory Accounts
  imports Tokens
begin

text \<open>
  Workforce accounts, \<open>src/shelfwise_storage/accounts.py\<close>: the account record, the store in memory and
  the store in Postgres. An account is a dictionary, as in the source. The clock is an instant, and
  identifiers drawn by \<open>uuid4\<close> are arguments. Both stores are values of one record of operations,
  which the routes take as an argument, and both interpret one contract on how an operation changes
  the account it names.
\<close>

section \<open>Records\<close>

definition now_iso :: "int \<Rightarrow> string" where
  "now_iso clock = (case of_instant clock of Some t \<Rightarrow> isoformat t | None \<Rightarrow> [])"

definition private_account_fields :: "string list" where
  "private_account_fields = [''password_hash'', ''invitation_token_hash'', ''reset_token_hash'', ''session_version'']"

definition public_account :: "pydict \<Rightarrow> pydict" where
  "public_account a = filter (\<lambda>(k, v). k \<notin> set private_account_fields) a"

definition acc_tenant :: "string \<Rightarrow> string result" where
  "acc_tenant v = (if strip v = [] then Inl (ValueError ''tenant_id is required'') else Inr (strip v))"

definition acc_email :: "string \<Rightarrow> string result" where
  "acc_email v =
     (let e = lower (strip v) in
      if CHR ''@'' \<notin> set e \<or> hd e = CHR ''@'' \<or> last e = CHR ''@'' \<or> 200 < length e
      then Inl (ValueError ''A valid work email is required'') else Inr e)"

definition required_account_fields :: "string list" where
  "required_account_fields = [''tenant_id'', ''email'', ''given_name'', ''surname'', ''position'', ''role'']"

definition account_record :: "string \<Rightarrow> int \<Rightarrow> pydict \<Rightarrow> pydict result" where
  "account_record uid clock a =
     (let text = (\<lambda>k. strip (str_or a k [])) in
      if list_ex (\<lambda>k. text k = []) required_account_fields
      then Inl (ValueError ''All work-account identity fields are required'')
      else (let ph = text ''password_hash'';
                status = strip (str_or a ''status'' (if ph \<noteq> [] then ''active'' else ''invited''))
            in if status = ''active'' \<and> ph = []
               then Inl (ValueError ''An active work account requires a password credential'')
               else bind_res (acc_email (text ''email'')) (\<lambda>e.
                    bind_res (py_int (get_or a ''session_version'' (PyInt 1))) (\<lambda>v.
                    Inr [(''tenant_id'', PyStr (text ''tenant_id'')), (''email'', PyStr e),
                         (''given_name'', PyStr (text ''given_name'')), (''surname'', PyStr (text ''surname'')),
                         (''position'', PyStr (text ''position'')), (''role'', PyStr (text ''role'')),
                         (''id'', PyStr (str_or a ''id'' uid)),
                         (''active'', PyBool (truthy (get_or a ''active'' (PyBool (status = ''active''))))),
                         (''status'', PyStr status), (''password_hash'', PyStr ph),
                         (''must_change_password'', PyBool (truthy (get_or a ''must_change_password'' (PyBool False)))),
                         (''session_version'', PyInt v),
                         (''invitation_token_hash'', get a ''invitation_token_hash''),
                         (''invitation_expires_at'', get a ''invitation_expires_at''),
                         (''reset_token_hash'', get a ''reset_token_hash''),
                         (''reset_expires_at'', get a ''reset_expires_at''),
                         (''created_at'', PyStr (str_or a ''created_at'' (now_iso clock))),
                         (''updated_at'', PyStr (now_iso clock))]))))"

definition owner_payload :: "pydict \<Rightarrow> pydict" where
  "owner_payload a = dict_update a
     [(''role'', PyStr ''owner''), (''active'', PyBool True), (''status'', PyStr ''active'')]"

definition audit_record :: "string \<Rightarrow> int \<Rightarrow> string \<Rightarrow> string \<Rightarrow> string \<Rightarrow> string \<Rightarrow> pydict result" where
  "audit_record uid clock tenant action account actor =
     (if strip action = [] \<or> strip account = [] \<or> strip actor = []
      then Inl (ValueError ''Account audit action, account, and actor are required'')
      else bind_res (acc_tenant tenant) (\<lambda>t.
        Inr [(''tenant_id'', PyStr t), (''event_id'', PyStr (''acct_audit_'' @ uid)), (''action'', PyStr (strip action)),
             (''account_id'', PyStr (strip account)), (''actor_id'', PyStr (strip actor)),
             (''created_at'', PyStr (now_iso clock))]))"

definition expired :: "int \<Rightarrow> pyval \<Rightarrow> bool" where
  "expired clock v =
     (if \<not> truthy v then True
      else (case fromisoformat (replace_char (CHR ''Z'') ''+00:00'' (py_str v)) of
          None \<Rightarrow> True
        | Some t \<Rightarrow> instant t < clock))"

section \<open>The store in memory\<close>

record account_mem =
  am_accounts :: "(string \<times> string, pydict) dict"
  am_audit :: "pydict list"

definition account_key :: "pydict \<Rightarrow> string \<times> string" where
  "account_key a = (py_str (get a ''tenant_id''), py_str (get a ''email''))"

definition is_account :: "string \<Rightarrow> string \<Rightarrow> pydict \<Rightarrow> bool" where
  "is_account t i a \<longleftrightarrow> get a ''tenant_id'' = PyStr t \<and> get a ''id'' = PyStr i"

definition mem_create :: "string \<Rightarrow> int \<Rightarrow> pydict \<Rightarrow> account_mem \<Rightarrow> (account_mem \<times> pydict) result" where
  "mem_create uid clock a s = bind_res (account_record uid clock a) (\<lambda>r.
     if dict_has (account_key r) (am_accounts s)
     then Inl (ValueError ''An account with this work email already exists'')
     else Inr (s\<lparr>am_accounts := dict_set (account_key r) r (am_accounts s)\<rparr>, public_account r))"

definition mem_first_owner :: "string \<Rightarrow> int \<Rightarrow> pydict \<Rightarrow> account_mem \<Rightarrow> (account_mem \<times> pydict) result" where
  "mem_first_owner uid clock a s = bind_res (account_record uid clock (owner_payload a)) (\<lambda>r.
     if list_ex (\<lambda>(k, b). get b ''tenant_id'' = get r ''tenant_id'') (am_accounts s)
     then Inl (ValueError ''This client already has a workforce account'')
     else Inr (s\<lparr>am_accounts := dict_set (account_key r) r (am_accounts s)\<rparr>, public_account r))"

definition mem_by_email :: "string \<Rightarrow> string \<Rightarrow> account_mem \<Rightarrow> pydict option result" where
  "mem_by_email tenant email s =
     bind_res (acc_tenant tenant) (\<lambda>t. bind_res (acc_email email) (\<lambda>e. Inr (dict_get (am_accounts s) (t, e))))"

text \<open>
  The search of a store by identifier. The source strips the tenant inside the loop, so a blank tenant
  raises only when there is an account to compare with; the callers pass non-blank tenants.
\<close>

definition mem_by_id :: "string \<Rightarrow> string \<Rightarrow> account_mem \<Rightarrow> pydict option result" where
  "mem_by_id tenant i s =
     (if am_accounts s = [] then Inr None
      else bind_res (acc_tenant tenant) (\<lambda>t.
        Inr (map_option snd (find_first (\<lambda>(k, a). is_account t i a) (am_accounts s)))))"

definition mem_list :: "string \<Rightarrow> account_mem \<Rightarrow> pydict list result" where
  "mem_list tenant s = bind_res (acc_tenant tenant) (\<lambda>t.
     Inr (sorted_by (\<lambda>a. (py_str (get a ''surname''), py_str (get a ''given_name'')))
       (map public_account (filter (\<lambda>a. get a ''tenant_id'' = PyStr t) (map snd (am_accounts s))))))"

definition mem_update ::
  "int \<Rightarrow> string \<Rightarrow> string \<Rightarrow> pydict \<Rightarrow> bool \<Rightarrow> account_mem \<Rightarrow> (account_mem \<times> pydict option) result" where
  "mem_update clock tenant i values invalidate s = bind_res (acc_tenant tenant) (\<lambda>t.
     case find_first (\<lambda>(k, a). is_account t i a) (am_accounts s) of
       None \<Rightarrow> Inr (s, None)
     | Some (k, a) \<Rightarrow>
         (let u = dict_set ''updated_at'' (PyStr (now_iso clock)) (dict_update a values) in
          bind_res (if invalidate
              then bind_res (py_int (get_or a ''session_version'' (PyInt 1))) (\<lambda>v.
                   Inr (dict_set ''session_version'' (PyInt (v + 1)) u))
              else Inr u) (\<lambda>u'.
          Inr (s\<lparr>am_accounts := dict_set k u' (am_accounts s)\<rparr>, Some (public_account u')))))"

definition active_values :: "bool \<Rightarrow> pydict" where
  "active_values b = [(''active'', PyBool b), (''status'', PyStr (if b then ''active'' else ''inactive''))]"

definition password_values :: "string \<Rightarrow> pydict" where
  "password_values h = [(''password_hash'', PyStr h), (''must_change_password'', PyBool False)]"

definition invitation_values :: "string \<Rightarrow> string \<Rightarrow> pydict" where
  "invitation_values h e = [(''active'', PyBool False), (''status'', PyStr ''invited''),
     (''invitation_token_hash'', PyStr h), (''invitation_expires_at'', PyStr e)]"

definition reset_values :: "string \<Rightarrow> string \<Rightarrow> pydict" where
  "reset_values h e = [(''reset_token_hash'', PyStr h), (''reset_expires_at'', PyStr e)]"

definition activated_values :: "string \<Rightarrow> pydict" where
  "activated_values h = [(''active'', PyBool True), (''status'', PyStr ''active''), (''password_hash'', PyStr h),
     (''must_change_password'', PyBool False), (''invitation_token_hash'', PyNone), (''invitation_expires_at'', PyNone)]"

definition consumed_values :: "string \<Rightarrow> pydict" where
  "consumed_values h = [(''password_hash'', PyStr h), (''reset_token_hash'', PyNone), (''reset_expires_at'', PyNone)]"

definition mem_set_active ::
  "int \<Rightarrow> string \<Rightarrow> string \<Rightarrow> bool \<Rightarrow> account_mem \<Rightarrow> (account_mem \<times> pydict option) result" where
  "mem_set_active clock tenant i b = mem_update clock tenant i (active_values b) True"

definition mem_set_role ::
  "int \<Rightarrow> string \<Rightarrow> string \<Rightarrow> string \<Rightarrow> account_mem \<Rightarrow> (account_mem \<times> pydict option) result" where
  "mem_set_role clock tenant i r = mem_update clock tenant i [(''role'', PyStr r)] True"

definition mem_set_password ::
  "int \<Rightarrow> string \<Rightarrow> string \<Rightarrow> string \<Rightarrow> account_mem \<Rightarrow> (account_mem \<times> pydict option) result" where
  "mem_set_password clock tenant i h = mem_update clock tenant i (password_values h) True"

definition mem_set_invitation ::
  "int \<Rightarrow> string \<Rightarrow> string \<Rightarrow> string \<Rightarrow> string \<Rightarrow> account_mem \<Rightarrow> (account_mem \<times> pydict option) result" where
  "mem_set_invitation clock tenant i h e = mem_update clock tenant i (invitation_values h e) False"

definition mem_set_reset_token ::
  "int \<Rightarrow> string \<Rightarrow> string \<Rightarrow> string \<Rightarrow> string \<Rightarrow> account_mem \<Rightarrow> (account_mem \<times> pydict option) result" where
  "mem_set_reset_token clock tenant i h e = mem_update clock tenant i (reset_values h e) False"

definition mem_consume ::
  "int \<Rightarrow> string \<Rightarrow> string \<Rightarrow> (pydict \<Rightarrow> bool) \<Rightarrow> pydict \<Rightarrow> account_mem \<Rightarrow> (account_mem \<times> pydict option) result" where
  "mem_consume clock tenant i accepts values s = bind_res (acc_tenant tenant) (\<lambda>t.
     case find_first (\<lambda>(k, a). is_account t i a) (am_accounts s) of
       None \<Rightarrow> Inr (s, None)
     | Some (k, a) \<Rightarrow>
         if \<not> accepts a then Inr (s, None)
         else bind_res (py_int (get_or a ''session_version'' (PyInt 1))) (\<lambda>v.
           let u = dict_update a (values @ [(''session_version'', PyInt (v + 1)), (''updated_at'', PyStr (now_iso clock))])
           in Inr (s\<lparr>am_accounts := dict_set k u (am_accounts s)\<rparr>, Some (public_account u))))"

definition mem_invitation_open :: "int \<Rightarrow> string \<Rightarrow> pydict \<Rightarrow> bool" where
  "mem_invitation_open clock h a \<longleftrightarrow> get a ''status'' = PyStr ''invited'' \<and>
     get a ''invitation_token_hash'' = PyStr h \<and> \<not> expired clock (get a ''invitation_expires_at'')"

definition mem_reset_open :: "int \<Rightarrow> string \<Rightarrow> pydict \<Rightarrow> bool" where
  "mem_reset_open clock h a \<longleftrightarrow>
     get a ''reset_token_hash'' = PyStr h \<and> \<not> expired clock (get a ''reset_expires_at'')"

definition mem_activate_invitation ::
  "int \<Rightarrow> string \<Rightarrow> string \<Rightarrow> string \<Rightarrow> string \<Rightarrow> account_mem \<Rightarrow> (account_mem \<times> pydict option) result" where
  "mem_activate_invitation clock tenant i h ph =
     mem_consume clock tenant i (mem_invitation_open clock h) (activated_values ph)"

definition mem_consume_reset_token ::
  "int \<Rightarrow> string \<Rightarrow> string \<Rightarrow> string \<Rightarrow> string \<Rightarrow> account_mem \<Rightarrow> (account_mem \<times> pydict option) result" where
  "mem_consume_reset_token clock tenant i h ph =
     mem_consume clock tenant i (mem_reset_open clock h) (consumed_values ph)"

definition mem_record_audit ::
  "string \<Rightarrow> int \<Rightarrow> string \<Rightarrow> string \<Rightarrow> string \<Rightarrow> string \<Rightarrow> account_mem \<Rightarrow> (account_mem \<times> pydict) result" where
  "mem_record_audit uid clock tenant action account actor s =
     bind_res (audit_record uid clock tenant action account actor) (\<lambda>e.
     Inr (s\<lparr>am_audit := am_audit s @ [e]\<rparr>, e))"

text \<open>\<open>rows[-limit:]\<close> keeps all rows when the limit is zero and drops from the front when it is negative.\<close>

definition mem_list_audit :: "int \<Rightarrow> string \<Rightarrow> account_mem \<Rightarrow> pydict list result" where
  "mem_list_audit limit tenant s = bind_res (acc_tenant tenant) (\<lambda>t.
     let rows = filter (\<lambda>e. get e ''tenant_id'' = PyStr t) (am_audit s)
     in Inr (rev (if 0 < limit then take_last (nat limit) rows else drop (nat (- limit)) rows)))"

definition mem_clear :: "account_mem \<Rightarrow> account_mem" where
  "mem_clear s = \<lparr>am_accounts = [], am_audit = []\<rparr>"

section \<open>The store in Postgres\<close>

text \<open>
  Every statement names the tenant it is for, and the session is bound to that tenant, so row-level
  security hides no further row; \<open>clear\<close> alone runs under the ambient tenant. \<open>tz\<close> is the cast of text
  to \<open>timestamptz\<close>, \<open>None\<close> where it fails; a session version is cast to a 32-bit integer.
\<close>

record account_row =
  wa_tenant :: string
  wa_email :: string
  wa_payload :: pydict

record audit_row =
  au_tenant :: string
  au_event :: string
  au_payload :: pydict
  au_created :: int

record account_pg =
  ap_accounts :: "account_row list"
  ap_audit :: "audit_row list"

definition pga_insert :: "pydict \<Rightarrow> account_pg \<Rightarrow> account_pg option" where
  "pga_insert r s =
     (if \<exists>x \<in> set (ap_accounts s). (wa_tenant x, wa_email x) = account_key r then None
      else Some (s\<lparr>ap_accounts := ap_accounts s @
        [\<lparr>wa_tenant = fst (account_key r), wa_email = snd (account_key r), wa_payload = r\<rparr>]\<rparr>))"

definition pga_create :: "string \<Rightarrow> int \<Rightarrow> pydict \<Rightarrow> account_pg \<Rightarrow> (account_pg \<times> pydict) result" where
  "pga_create uid clock a s = bind_res (account_record uid clock a) (\<lambda>r.
     case pga_insert r s of
       None \<Rightarrow> Inl (ValueError ''An account with this work email already exists'')
     | Some s' \<Rightarrow> Inr (s', public_account r))"

definition pga_first_owner :: "string \<Rightarrow> int \<Rightarrow> pydict \<Rightarrow> account_pg \<Rightarrow> (account_pg \<times> pydict) result" where
  "pga_first_owner uid clock a s = bind_res (account_record uid clock (owner_payload a)) (\<lambda>r.
     if \<exists>x \<in> set (ap_accounts s). wa_tenant x = fst (account_key r)
     then Inl (ValueError ''This client already has a workforce account'')
     else (case pga_insert r s of
         None \<Rightarrow> Inl (DatabaseError ''duplicate key value violates unique constraint'')
       | Some s' \<Rightarrow> Inr (s', public_account r)))"

definition pga_by_email :: "string \<Rightarrow> string \<Rightarrow> account_pg \<Rightarrow> pydict option result" where
  "pga_by_email tenant email s =
     bind_res (acc_tenant tenant) (\<lambda>t. bind_res (acc_email email) (\<lambda>e.
     Inr (map_option wa_payload (find_first (\<lambda>x. wa_tenant x = t \<and> wa_email x = e) (ap_accounts s)))))"

definition is_row :: "string \<Rightarrow> string \<Rightarrow> account_row \<Rightarrow> bool" where
  "is_row t i x \<longleftrightarrow> wa_tenant x = t \<and> get (wa_payload x) ''id'' = PyStr i"

definition pga_by_id :: "string \<Rightarrow> string \<Rightarrow> account_pg \<Rightarrow> pydict option result" where
  "pga_by_id tenant i s = bind_res (acc_tenant tenant) (\<lambda>t.
     Inr (map_option wa_payload (find_first (is_row t i) (ap_accounts s))))"

definition pga_list :: "string \<Rightarrow> account_pg \<Rightarrow> pydict list result" where
  "pga_list tenant s = bind_res (acc_tenant tenant) (\<lambda>t.
     Inr (map (\<lambda>x. public_account (wa_payload x))
       (sorted_by wa_email (filter (\<lambda>x. wa_tenant x = t) (ap_accounts s)))))"

definition pg_next_version :: "pydict \<Rightarrow> int result" where
  "pg_next_version a =
     (let out = Inl (DatabaseError ''integer out of range'');
          succ = (\<lambda>v. if - (2 ^ 31) \<le> v \<and> v + 1 < 2 ^ 31 then Inr (v + 1) else out) in
      case get a ''session_version'' of
        PyNone \<Rightarrow> Inr 2
      | PyInt v \<Rightarrow> succ v
      | v \<Rightarrow> (case parse_int (py_str v) of Some n \<Rightarrow> succ n
                | None \<Rightarrow> Inl (DatabaseError ''invalid input syntax for type integer'')))"

text \<open>An \<open>update ... set payload = ... where ... returning payload\<close>: all matching rows change, or the statement fails.\<close>

definition pga_modify ::
  "(account_row \<Rightarrow> bool) \<Rightarrow> (pydict \<Rightarrow> pydict result) \<Rightarrow> account_pg \<Rightarrow> (account_pg \<times> pydict option) result" where
  "pga_modify hit f s =
     bind_res (map_res (\<lambda>x. if hit x then bind_res (f (wa_payload x)) (\<lambda>p. Inr (x\<lparr>wa_payload := p\<rparr>)) else Inr x)
         (ap_accounts s)) (\<lambda>rows.
     bind_res (case find_first hit (ap_accounts s) of
         None \<Rightarrow> Inr None
       | Some x \<Rightarrow> bind_res (f (wa_payload x)) (\<lambda>p. Inr (Some (public_account p)))) (\<lambda>out.
     Inr (s\<lparr>ap_accounts := rows\<rparr>, out)))"

definition pga_update_payload ::
  "int \<Rightarrow> string \<Rightarrow> string \<Rightarrow> pydict \<Rightarrow> bool \<Rightarrow> account_pg \<Rightarrow> (account_pg \<times> pydict option) result" where
  "pga_update_payload clock tenant i values invalidate s = bind_res (acc_tenant tenant) (\<lambda>t.
     pga_modify (is_row t i) (\<lambda>a.
       let u = dict_update a (values @ [(''updated_at'', PyStr (now_iso clock))]) in
       if invalidate then bind_res (pg_next_version a) (\<lambda>v. Inr (dict_set ''session_version'' (PyInt v) u))
       else Inr u) s)"

text \<open>
  The condition on the expiry, an error where the cast fails. The condition is evaluated on the rows
  that match the other conditions.
\<close>

definition pg_token_open :: "(string \<Rightarrow> int option) \<Rightarrow> int \<Rightarrow> string \<Rightarrow> string \<Rightarrow> string \<Rightarrow> pydict \<Rightarrow> bool" where
  "pg_token_open tz clock token_field expiry_field h a \<longleftrightarrow> get a token_field = PyStr h \<and>
     (case get a expiry_field of PyStr e \<Rightarrow> (case tz e of Some x \<Rightarrow> clock \<le> x | None \<Rightarrow> False) | _ \<Rightarrow> False)"

definition pg_cast_fails :: "(string \<Rightarrow> int option) \<Rightarrow> string \<Rightarrow> string \<Rightarrow> string \<Rightarrow> pydict \<Rightarrow> bool" where
  "pg_cast_fails tz token_field expiry_field h a \<longleftrightarrow> get a token_field = PyStr h \<and>
     (case get a expiry_field of PyStr e \<Rightarrow> tz e = None | PyNone \<Rightarrow> False | _ \<Rightarrow> True)"

definition pga_consume_token ::
  "(string \<Rightarrow> int option) \<Rightarrow> int \<Rightarrow> string \<Rightarrow> string \<Rightarrow> string \<Rightarrow> string \<Rightarrow> string \<Rightarrow> pydict \<Rightarrow> account_pg \<Rightarrow>
   (account_pg \<times> pydict option) result" where
  "pga_consume_token tz clock tenant i token_field expiry_field h values s = bind_res (acc_tenant tenant) (\<lambda>t.
     if \<exists>x \<in> set (ap_accounts s). is_row t i x \<and> pg_cast_fails tz token_field expiry_field h (wa_payload x)
     then Inl (DatabaseError ''invalid input syntax for type timestamp with time zone'')
     else pga_modify (\<lambda>x. is_row t i x \<and> pg_token_open tz clock token_field expiry_field h (wa_payload x)) (\<lambda>a.
       bind_res (pg_next_version a) (\<lambda>v. Inr (dict_set ''session_version'' (PyInt v)
         (dict_update a (values @ [(''updated_at'', PyStr (now_iso clock))]))))) s)"

definition pga_set_active ::
  "int \<Rightarrow> string \<Rightarrow> string \<Rightarrow> bool \<Rightarrow> account_pg \<Rightarrow> (account_pg \<times> pydict option) result" where
  "pga_set_active clock tenant i b = pga_update_payload clock tenant i (active_values b) True"

definition pga_set_role ::
  "int \<Rightarrow> string \<Rightarrow> string \<Rightarrow> string \<Rightarrow> account_pg \<Rightarrow> (account_pg \<times> pydict option) result" where
  "pga_set_role clock tenant i r = pga_update_payload clock tenant i [(''role'', PyStr r)] True"

definition pga_set_password ::
  "int \<Rightarrow> string \<Rightarrow> string \<Rightarrow> string \<Rightarrow> account_pg \<Rightarrow> (account_pg \<times> pydict option) result" where
  "pga_set_password clock tenant i h = pga_update_payload clock tenant i (password_values h) True"

definition pga_set_invitation ::
  "int \<Rightarrow> string \<Rightarrow> string \<Rightarrow> string \<Rightarrow> string \<Rightarrow> account_pg \<Rightarrow> (account_pg \<times> pydict option) result" where
  "pga_set_invitation clock tenant i h e = pga_update_payload clock tenant i (invitation_values h e) False"

definition pga_set_reset_token ::
  "int \<Rightarrow> string \<Rightarrow> string \<Rightarrow> string \<Rightarrow> string \<Rightarrow> account_pg \<Rightarrow> (account_pg \<times> pydict option) result" where
  "pga_set_reset_token clock tenant i h e = pga_update_payload clock tenant i (reset_values h e) False"

definition pga_activate_invitation ::
  "(string \<Rightarrow> int option) \<Rightarrow> int \<Rightarrow> string \<Rightarrow> string \<Rightarrow> string \<Rightarrow> string \<Rightarrow> account_pg \<Rightarrow>
   (account_pg \<times> pydict option) result" where
  "pga_activate_invitation tz clock tenant i h ph =
     pga_consume_token tz clock tenant i ''invitation_token_hash'' ''invitation_expires_at'' h (activated_values ph)"

definition pga_consume_reset_token ::
  "(string \<Rightarrow> int option) \<Rightarrow> int \<Rightarrow> string \<Rightarrow> string \<Rightarrow> string \<Rightarrow> string \<Rightarrow> account_pg \<Rightarrow>
   (account_pg \<times> pydict option) result" where
  "pga_consume_reset_token tz clock tenant i h ph =
     pga_consume_token tz clock tenant i ''reset_token_hash'' ''reset_expires_at'' h (consumed_values ph)"

definition pga_record_audit ::
  "string \<Rightarrow> int \<Rightarrow> string \<Rightarrow> string \<Rightarrow> string \<Rightarrow> string \<Rightarrow> account_pg \<Rightarrow> (account_pg \<times> pydict) result" where
  "pga_record_audit uid clock tenant action account actor s =
     bind_res (audit_record uid clock tenant action account actor) (\<lambda>e.
     let t = py_str (get e ''tenant_id''); ev = py_str (get e ''event_id'') in
     if \<exists>x \<in> set (ap_audit s). au_tenant x = t \<and> au_event x = ev
     then Inl (DatabaseError ''duplicate key value violates unique constraint'')
     else Inr (s\<lparr>ap_audit := ap_audit s @ [\<lparr>au_tenant = t, au_event = ev, au_payload = e, au_created = clock\<rparr>]\<rparr>, e))"

definition pga_list_audit :: "int \<Rightarrow> string \<Rightarrow> account_pg \<Rightarrow> pydict list result" where
  "pga_list_audit limit tenant s = bind_res (acc_tenant tenant) (\<lambda>t.
     Inr (map au_payload (take (nat (max 1 (min limit 500)))
       (sorted_by_desc au_created (filter (\<lambda>x. au_tenant x = t) (ap_audit s))))))"

definition pga_clear :: "environ \<Rightarrow> string option \<Rightarrow> account_pg \<Rightarrow> account_pg result" where
  "pga_clear env ctx s = bind_res (session_tenant env ctx None) (\<lambda>t.
     Inr \<lparr>ap_accounts = filter (\<lambda>x. wa_tenant x \<noteq> t) (ap_accounts s),
          ap_audit = filter (\<lambda>x. au_tenant x \<noteq> t) (ap_audit s)\<rparr>)"

section \<open>Either store\<close>

record 's account_ops =
  ao_create :: "string \<Rightarrow> int \<Rightarrow> pydict \<Rightarrow> 's \<Rightarrow> ('s \<times> pydict) result"
  ao_first_owner :: "string \<Rightarrow> int \<Rightarrow> pydict \<Rightarrow> 's \<Rightarrow> ('s \<times> pydict) result"
  ao_by_email :: "string \<Rightarrow> string \<Rightarrow> 's \<Rightarrow> pydict option result"
  ao_by_id :: "string \<Rightarrow> string \<Rightarrow> 's \<Rightarrow> pydict option result"
  ao_list :: "string \<Rightarrow> 's \<Rightarrow> pydict list result"
  ao_set_active :: "int \<Rightarrow> string \<Rightarrow> string \<Rightarrow> bool \<Rightarrow> 's \<Rightarrow> ('s \<times> pydict option) result"
  ao_set_role :: "int \<Rightarrow> string \<Rightarrow> string \<Rightarrow> string \<Rightarrow> 's \<Rightarrow> ('s \<times> pydict option) result"
  ao_set_password :: "int \<Rightarrow> string \<Rightarrow> string \<Rightarrow> string \<Rightarrow> 's \<Rightarrow> ('s \<times> pydict option) result"
  ao_set_invitation :: "int \<Rightarrow> string \<Rightarrow> string \<Rightarrow> string \<Rightarrow> string \<Rightarrow> 's \<Rightarrow> ('s \<times> pydict option) result"
  ao_activate :: "int \<Rightarrow> string \<Rightarrow> string \<Rightarrow> string \<Rightarrow> string \<Rightarrow> 's \<Rightarrow> ('s \<times> pydict option) result"
  ao_set_reset :: "int \<Rightarrow> string \<Rightarrow> string \<Rightarrow> string \<Rightarrow> string \<Rightarrow> 's \<Rightarrow> ('s \<times> pydict option) result"
  ao_consume_reset :: "int \<Rightarrow> string \<Rightarrow> string \<Rightarrow> string \<Rightarrow> string \<Rightarrow> 's \<Rightarrow> ('s \<times> pydict option) result"
  ao_record_audit :: "string \<Rightarrow> int \<Rightarrow> string \<Rightarrow> string \<Rightarrow> string \<Rightarrow> string \<Rightarrow> 's \<Rightarrow> ('s \<times> pydict) result"
  ao_list_audit :: "int \<Rightarrow> string \<Rightarrow> 's \<Rightarrow> pydict list result"

definition mem_accounts :: "account_mem account_ops" where
  "mem_accounts = \<lparr>ao_create = mem_create, ao_first_owner = mem_first_owner, ao_by_email = mem_by_email,
     ao_by_id = mem_by_id, ao_list = mem_list, ao_set_active = mem_set_active, ao_set_role = mem_set_role,
     ao_set_password = mem_set_password, ao_set_invitation = mem_set_invitation,
     ao_activate = mem_activate_invitation, ao_set_reset = mem_set_reset_token,
     ao_consume_reset = mem_consume_reset_token, ao_record_audit = mem_record_audit, ao_list_audit = mem_list_audit\<rparr>"

definition pg_accounts :: "(string \<Rightarrow> int option) \<Rightarrow> account_pg account_ops" where
  "pg_accounts tz = \<lparr>ao_create = pga_create, ao_first_owner = pga_first_owner, ao_by_email = pga_by_email,
     ao_by_id = pga_by_id, ao_list = pga_list, ao_set_active = pga_set_active, ao_set_role = pga_set_role,
     ao_set_password = pga_set_password, ao_set_invitation = pga_set_invitation,
     ao_activate = pga_activate_invitation tz, ao_set_reset = pga_set_reset_token,
     ao_consume_reset = pga_consume_reset_token tz, ao_record_audit = pga_record_audit, ao_list_audit = pga_list_audit\<rparr>"

section \<open>The contract of a store\<close>

datatype account_op =
    OpCreate string pydict
  | OpFirstOwner string pydict
  | OpActive string string bool
  | OpRole string string string
  | OpPassword string string string
  | OpInvite string string string string
  | OpActivate string string string string
  | OpReset string string string string
  | OpConsume string string string string
  | OpAudit string string string string string

definition new_state :: "('s \<times> 'a) result \<Rightarrow> 's result" where
  "new_state r = bind_res r (\<lambda>(s, x). Inr s)"

fun account_step :: "'s account_ops \<Rightarrow> int \<Rightarrow> account_op \<Rightarrow> 's \<Rightarrow> 's result" where
  "account_step ao clock (OpCreate uid a) s = new_state (ao_create ao uid clock a s)"
| "account_step ao clock (OpFirstOwner uid a) s = new_state (ao_first_owner ao uid clock a s)"
| "account_step ao clock (OpActive t i b) s = new_state (ao_set_active ao clock t i b s)"
| "account_step ao clock (OpRole t i r) s = new_state (ao_set_role ao clock t i r s)"
| "account_step ao clock (OpPassword t i h) s = new_state (ao_set_password ao clock t i h s)"
| "account_step ao clock (OpInvite t i h e) s = new_state (ao_set_invitation ao clock t i h e s)"
| "account_step ao clock (OpActivate t i h p) s = new_state (ao_activate ao clock t i h p s)"
| "account_step ao clock (OpReset t i h e) s = new_state (ao_set_reset ao clock t i h e s)"
| "account_step ao clock (OpConsume t i h p) s = new_state (ao_consume_reset ao clock t i h p s)"
| "account_step ao clock (OpAudit uid t action account actor) s = new_state (ao_record_audit ao uid clock t action account actor s)"

text \<open>A call that raises leaves the store as it was.\<close>

fun account_run :: "'s account_ops \<Rightarrow> (int \<times> account_op) list \<Rightarrow> 's \<Rightarrow> 's" where
  "account_run ao [] s = s"
| "account_run ao ((clock, op) # ops) s =
     account_run ao ops (case account_step ao clock op s of Inr s' \<Rightarrow> s' | Inl e \<Rightarrow> s)"

text \<open>An account is created without an identifier of its own, and \<open>uuid4\<close> draws one the tenant does not have.\<close>

fun op_fresh :: "'s account_ops \<Rightarrow> account_op \<Rightarrow> 's \<Rightarrow> bool" where
  "op_fresh ao (OpCreate uid a) s = (get a ''id'' = PyNone \<and>
     (case ao_by_id ao (str_or a ''tenant_id'' []) uid s of Inr (Some b) \<Rightarrow> False | _ \<Rightarrow> True))"
| "op_fresh ao (OpFirstOwner uid a) s = (get a ''id'' = PyNone \<and>
     (case ao_by_id ao (str_or a ''tenant_id'' []) uid s of Inr (Some b) \<Rightarrow> False | _ \<Rightarrow> True))"
| "op_fresh ao op s = True"

fun fresh_run :: "'s account_ops \<Rightarrow> (int \<times> account_op) list \<Rightarrow> 's \<Rightarrow> bool" where
  "fresh_run ao [] s = True"
| "fresh_run ao ((clock, op) # ops) s = (op_fresh ao op s \<and>
     fresh_run ao ops (case account_step ao clock op s of Inr s' \<Rightarrow> s' | Inl e \<Rightarrow> s))"

text \<open>The account an operation is for, and what the operation makes of it.\<close>

fun op_target :: "account_op \<Rightarrow> (string \<times> string) option" where
  "op_target (OpActive t i b) = Some (strip t, i)"
| "op_target (OpRole t i r) = Some (strip t, i)"
| "op_target (OpPassword t i h) = Some (strip t, i)"
| "op_target (OpInvite t i h e) = Some (strip t, i)"
| "op_target (OpActivate t i h p) = Some (strip t, i)"
| "op_target (OpReset t i h e) = Some (strip t, i)"
| "op_target (OpConsume t i h p) = Some (strip t, i)"
| "op_target op = None"

text \<open>The operations that end the sessions of their account.\<close>

fun op_revokes :: "account_op \<Rightarrow> bool" where
  "op_revokes (OpActive t i b) = True"
| "op_revokes (OpRole t i r) = True"
| "op_revokes (OpPassword t i h) = True"
| "op_revokes op = False"

definition version :: "pydict \<Rightarrow> int" where
  "version a = (case get a ''session_version'' of PyInt v \<Rightarrow> v | _ \<Rightarrow> 0)"

definition stamped :: "int \<Rightarrow> pydict \<Rightarrow> pydict \<Rightarrow> pydict" where
  "stamped clock values a = dict_update a (values @ [(''updated_at'', PyStr (now_iso clock))])"

definition bumped :: "int \<Rightarrow> pydict \<Rightarrow> pydict \<Rightarrow> pydict" where
  "bumped clock values a = dict_set ''session_version'' (PyInt (version a + 1)) (stamped clock values a)"

fun op_result ::
  "(int \<Rightarrow> string \<Rightarrow> pydict \<Rightarrow> bool) \<Rightarrow> (int \<Rightarrow> string \<Rightarrow> pydict \<Rightarrow> bool) \<Rightarrow> int \<Rightarrow> account_op \<Rightarrow> pydict \<Rightarrow> pydict" where
  "op_result inv_open res_open clock (OpActive t i b) = bumped clock (active_values b)"
| "op_result inv_open res_open clock (OpRole t i r) = bumped clock [(''role'', PyStr r)]"
| "op_result inv_open res_open clock (OpPassword t i h) = bumped clock (password_values h)"
| "op_result inv_open res_open clock (OpInvite t i h e) = stamped clock (invitation_values h e)"
| "op_result inv_open res_open clock (OpActivate t i h p) =
     (\<lambda>a. if inv_open clock h a then bumped clock (activated_values p) a else a)"
| "op_result inv_open res_open clock (OpReset t i h e) = stamped clock (reset_values h e)"
| "op_result inv_open res_open clock (OpConsume t i h p) =
     (\<lambda>a. if res_open clock h a then bumped clock (consumed_values p) a else a)"
| "op_result inv_open res_open clock op = (\<lambda>a. a)"

definition same_account :: "pydict \<Rightarrow> pydict \<Rightarrow> bool" where
  "same_account a b \<longleftrightarrow> get a = get b"

text \<open>A step of a store changes the account it is for in the given way, and no other.\<close>

definition changes_account ::
  "('s \<Rightarrow> bool) \<Rightarrow> (string \<Rightarrow> string \<Rightarrow> 's \<Rightarrow> pydict option result) \<Rightarrow> (string \<times> string) option \<Rightarrow> (pydict \<Rightarrow> pydict) \<Rightarrow>
   's \<Rightarrow> 's \<Rightarrow> bool" where
  "changes_account good by_id target f s s' \<longleftrightarrow> good s' \<and> (\<forall>t i a. by_id t i s = Inr (Some a) \<longrightarrow>
     (\<exists>b. by_id t i s' = Inr (Some b) \<and> same_account b (if target = Some (strip t, i) then f a else a)))"

lemmas value_defs = active_values_def password_values_def invitation_values_def reset_values_def
  activated_values_def consumed_values_def

lemma get_stamped:
  assumes "dict_wf values" "''updated_at'' \<notin> fst ` set values"
  shows "get (stamped clock values a) k = (if k = ''updated_at'' then PyStr (now_iso clock)
     else case map_of values k of Some v \<Rightarrow> v | None \<Rightarrow> get a k)"
proof -
  have "map_of values ''updated_at'' = None" using assms(2) by (simp add: map_of_eq_None_iff)
  moreover have "dict_wf (values @ [(''updated_at'', PyStr (now_iso clock))])"
    using assms by (auto simp: dict_wf_def)
  ultimately show ?thesis
    by (auto simp: stamped_def get_update map_add_def split: option.splits)
qed

lemma get_bumped:
  "dict_wf values \<Longrightarrow> ''updated_at'' \<notin> fst ` set values \<Longrightarrow>
   get (bumped clock values a) k = (if k = ''session_version'' then PyInt (version a + 1)
     else if k = ''updated_at'' then PyStr (now_iso clock)
     else case map_of values k of Some v \<Rightarrow> v | None \<Rightarrow> get a k)"
  by (simp add: bumped_def get_stamped)

lemmas get_changed = get_stamped get_bumped value_defs dict_wf_def

locale account_store =
  fixes ao :: "'s account_ops" and good :: "'s \<Rightarrow> bool"
    and inv_open res_open :: "int \<Rightarrow> string \<Rightarrow> pydict \<Rightarrow> bool"
  assumes step_law: "good s \<Longrightarrow> op_fresh ao op s \<Longrightarrow> account_step ao clock op s = Inr s' \<Longrightarrow>
      changes_account good (ao_by_id ao) (op_target op) (op_result inv_open res_open clock op) s s'"
    and has_version: "good s \<Longrightarrow> ao_by_id ao t i s = Inr (Some a) \<Longrightarrow> get a ''session_version'' = PyInt (version a)"
    and activate_open: "good s \<Longrightarrow> ao_activate ao clock t i h p s = Inr (s', Some r) \<Longrightarrow>
      \<exists>a. ao_by_id ao t i s = Inr (Some a) \<and> inv_open clock h a"
    and consume_open: "good s \<Longrightarrow> ao_consume_reset ao clock t i h p s = Inr (s', Some r) \<Longrightarrow>
      \<exists>a. ao_by_id ao t i s = Inr (Some a) \<and> res_open clock h a"
    and inv_open_hash: "inv_open clock h a \<Longrightarrow> get a ''invitation_token_hash'' = PyStr h"
    and res_open_hash: "res_open clock h a \<Longrightarrow> get a ''reset_token_hash'' = PyStr h"
begin

lemma step_keeps: "good s \<Longrightarrow> op_fresh ao op s \<Longrightarrow> account_step ao clock op s = Inr s' \<Longrightarrow> good s'"
  using step_law unfolding changes_account_def by blast

lemma step_changes:
  "good s \<Longrightarrow> op_fresh ao op s \<Longrightarrow> account_step ao clock op s = Inr s' \<Longrightarrow> ao_by_id ao t i s = Inr (Some a) \<Longrightarrow>
   \<exists>b. ao_by_id ao t i s' = Inr (Some b) \<and>
     same_account b (if op_target op = Some (strip t, i) then op_result inv_open res_open clock op a else a)"
  using step_law unfolding changes_account_def by blast

lemma run_cases:
  assumes "good s" "op_fresh ao op s"
  shows "good (case account_step ao clock op s of Inr s' \<Rightarrow> s' | Inl e \<Rightarrow> s)"
    and "ao_by_id ao t i s = Inr (Some a) \<Longrightarrow>
      \<exists>b. ao_by_id ao t i (case account_step ao clock op s of Inr s' \<Rightarrow> s' | Inl e \<Rightarrow> s) = Inr (Some b) \<and>
        (same_account b a \<or>
         op_target op = Some (strip t, i) \<and> same_account b (op_result inv_open res_open clock op a))"
  using assms step_keeps [of s op clock] step_changes [of s op clock _ t i a]
  by (auto simp: same_account_def split: sum.splits if_splits) 

lemma run_keeps: "good s \<Longrightarrow> fresh_run ao ops s \<Longrightarrow> good (account_run ao ops s)"
proof (induction ops arbitrary: s)
  case (Cons p ops)
  then show ?case using run_cases(1) [OF Cons.prems(1)] by (cases p) simp
qed simp

lemma result_version:
  "get a ''session_version'' = PyInt (version a) \<Longrightarrow> version a \<le> version (op_result inv_open res_open clock op a)"
  by (cases op) (simp_all add: version_def get_changed)

lemma version_grows:
  assumes "good s" and "fresh_run ao ops s" and "ao_by_id ao t i s = Inr (Some a)"
  shows "\<exists>b. ao_by_id ao t i (account_run ao ops s) = Inr (Some b) \<and> version a \<le> version b"
  using assms
proof (induction ops arbitrary: s a)
  case (Cons p ops)
  obtain clock op where p: "p = (clock, op)" by force
  let ?s = "case account_step ao clock op s of Inr s' \<Rightarrow> s' | Inl e \<Rightarrow> s"
  obtain b where b: "ao_by_id ao t i ?s = Inr (Some b)" "same_account b a \<or>
      op_target op = Some (strip t, i) \<and> same_account b (op_result inv_open res_open clock op a)"
    using run_cases(2) [OF Cons.prems(1) _ Cons.prems(3)] Cons.prems(2) p by auto
  have "version a \<le> version b"
    using b(2) result_version [OF has_version [OF Cons.prems(1,3)], of clock op] by (auto simp: same_account_def version_def)
  then show ?case
    using Cons.IH [OF run_cases(1) [OF Cons.prems(1)] _ b(1)] Cons.prems(2) p by force
qed auto

text \<open>A change of role, status or password outdates the version for good.\<close>

lemma version_outdated:
  assumes "good s" "ao_by_id ao t i s = Inr (Some a)" "account_step ao clock op s = Inr s'"
    and "fresh_run ao ops s'" and "op_target op = Some (strip t, i)"
    and "op_revokes op"
  shows "\<exists>b. ao_by_id ao t i (account_run ao ops s') = Inr (Some b) \<and> version a < version b"
proof -
  have f: "op_fresh ao op s" using assms(6) by (cases op) auto
  obtain b where b: "ao_by_id ao t i s' = Inr (Some b)" "same_account b (op_result inv_open res_open clock op a)"
    using step_changes [OF assms(1) f assms(3,2)] assms(5) by auto
  have "version b = version a + 1"
    using b(2) assms(6) by (cases op) (simp_all add: same_account_def version_def get_changed)
  then show ?thesis
    using version_grows [OF step_keeps [OF assms(1) f assms(3)] assms(4) b(1)] by auto
qed

text \<open>A token digest that is not stored comes back only by being stored again.\<close>

lemma result_hashes:
  shows "get a ''reset_token_hash'' \<noteq> PyStr h \<Longrightarrow> \<forall>u j e. op \<noteq> OpReset u j h e \<Longrightarrow>
      get (op_result inv_open res_open clock op a) ''reset_token_hash'' \<noteq> PyStr h"
    and "get a ''invitation_token_hash'' \<noteq> PyStr h \<Longrightarrow> \<forall>u j e. op \<noteq> OpInvite u j h e \<Longrightarrow>
      get (op_result inv_open res_open clock op a) ''invitation_token_hash'' \<noteq> PyStr h"
  by (cases op; simp add: get_changed)+

lemma field_kept:
  assumes "good s" "fresh_run ao ops s" "ao_by_id ao t i s = Inr (Some a)" "P (get a f)"
    and "\<forall>(c, op) \<in> set ops. op_target op = Some (strip t, i) \<longrightarrow>
      (\<forall>a. P (get a f) \<longrightarrow> P (get (op_result inv_open res_open c op a) f))"
  shows "good (account_run ao ops s) \<and> (\<exists>b. ao_by_id ao t i (account_run ao ops s) = Inr (Some b) \<and> P (get b f))"
  using assms
proof (induction ops arbitrary: s a)
  case (Cons p ops)
  obtain clock op where p: "p = (clock, op)" by force
  obtain b where b: "ao_by_id ao t i (case account_step ao clock op s of Inr s' \<Rightarrow> s' | Inl e \<Rightarrow> s) = Inr (Some b)"
    "same_account b a \<or> op_target op = Some (strip t, i) \<and> same_account b (op_result inv_open res_open clock op a)"
    using run_cases(2) [OF Cons.prems(1) _ Cons.prems(3)] Cons.prems(2) p by auto
  have "P (get b f)"
    using b(2) Cons.prems(4,5) by (auto simp: same_account_def p)
  then show ?case
    using Cons.IH [OF run_cases(1) [OF Cons.prems(1)] _ b(1)] Cons.prems(2,5) p by simp
qed auto

lemma reset_token_single_use:
  assumes "good s" "ao_consume_reset ao clock t i h p s = Inr (s', Some r)"
    and new: "fresh_run ao ops s'" and fresh: "\<forall>(c, op) \<in> set ops. \<forall>u e. op \<noteq> OpReset u i h e"
  shows "ao_consume_reset ao later t i h p' (account_run ao ops s') \<noteq> Inr (s'', Some r')"
proof
  assume again: "ao_consume_reset ao later t i h p' (account_run ao ops s') = Inr (s'', Some r')"
  obtain a where a: "ao_by_id ao t i s = Inr (Some a)" "res_open clock h a" using consume_open [OF assms(1,2)] by blast
  have st: "account_step ao clock (OpConsume t i h p) s = Inr s'" using assms(2) by (simp add: new_state_def)
  obtain b where b: "ao_by_id ao t i s' = Inr (Some b)" "same_account b (bumped clock (consumed_values p) a)"
    using step_changes [OF assms(1) _ st a(1)] a(2) by auto
  have "get b ''reset_token_hash'' \<noteq> PyStr h" using b(2) by (simp add: same_account_def get_changed)
  moreover have kept: "\<forall>(c, op) \<in> set ops. op_target op = Some (strip t, i) \<longrightarrow> (\<forall>a. get a ''reset_token_hash'' \<noteq> PyStr h \<longrightarrow>
      get (op_result inv_open res_open c op a) ''reset_token_hash'' \<noteq> PyStr h)"
  proof clarify
    fix c op a
    assume m: "(c, op) \<in> set ops" "op_target op = Some (strip t, i)" and n: "get a ''reset_token_hash'' \<noteq> PyStr h"
      and eq: "get (op_result inv_open res_open c op a) ''reset_token_hash'' = PyStr h"
    have "\<forall>u j e. op \<noteq> OpReset u j h e" using m fresh by auto
    then show False using result_hashes(1) [OF n] eq by blast
  qed
  ultimately have "good (account_run ao ops s') \<and> (\<exists>b. ao_by_id ao t i (account_run ao ops s') = Inr (Some b) \<and>
      get b ''reset_token_hash'' \<noteq> PyStr h)"
    using field_kept [where P = "\<lambda>v. v \<noteq> PyStr h", OF step_keeps [OF assms(1) _ st] new b(1) _ kept] by simp
  then show False using consume_open [OF _ again] res_open_hash by auto
qed

lemma invitation_single_use:
  assumes "good s" "ao_activate ao clock t i h p s = Inr (s', Some r)"
    and new: "fresh_run ao ops s'" and fresh: "\<forall>(c, op) \<in> set ops. \<forall>u e. op \<noteq> OpInvite u i h e"
  shows "ao_activate ao later t i h p' (account_run ao ops s') \<noteq> Inr (s'', Some r')"
proof
  assume again: "ao_activate ao later t i h p' (account_run ao ops s') = Inr (s'', Some r')"
  obtain a where a: "ao_by_id ao t i s = Inr (Some a)" "inv_open clock h a" using activate_open [OF assms(1,2)] by blast
  have st: "account_step ao clock (OpActivate t i h p) s = Inr s'" using assms(2) by (simp add: new_state_def)
  obtain b where b: "ao_by_id ao t i s' = Inr (Some b)" "same_account b (bumped clock (activated_values p) a)"
    using step_changes [OF assms(1) _ st a(1)] a(2) by auto
  have "get b ''invitation_token_hash'' \<noteq> PyStr h" using b(2) by (simp add: same_account_def get_changed)
  moreover have kept: "\<forall>(c, op) \<in> set ops. op_target op = Some (strip t, i) \<longrightarrow> (\<forall>a. get a ''invitation_token_hash'' \<noteq> PyStr h \<longrightarrow>
      get (op_result inv_open res_open c op a) ''invitation_token_hash'' \<noteq> PyStr h)"
  proof clarify
    fix c op a
    assume m: "(c, op) \<in> set ops" "op_target op = Some (strip t, i)" and n: "get a ''invitation_token_hash'' \<noteq> PyStr h"
      and eq: "get (op_result inv_open res_open c op a) ''invitation_token_hash'' = PyStr h"
    have "\<forall>u j e. op \<noteq> OpInvite u j h e" using m fresh by auto
    then show False using result_hashes(2) [OF n] eq by blast
  qed
  ultimately have "good (account_run ao ops s') \<and> (\<exists>b. ao_by_id ao t i (account_run ao ops s') = Inr (Some b) \<and>
      get b ''invitation_token_hash'' \<noteq> PyStr h)"
    using field_kept [where P = "\<lambda>v. v \<noteq> PyStr h", OF step_keeps [OF assms(1) _ st] new b(1) _ kept] by simp
  then show False using activate_open [OF _ again] inv_open_hash by auto
qed

end

section \<open>The store in memory keeps the contract\<close>

definition versioned :: "pydict \<Rightarrow> bool" where
  "versioned a \<longleftrightarrow> get a ''session_version'' = PyInt (version a)"

definition mem_good :: "account_mem \<Rightarrow> bool" where
  "mem_good s \<longleftrightarrow> dict_wf (am_accounts s) \<and>
     (\<forall>k a. (k, a) \<in> set (am_accounts s) \<longrightarrow> versioned a \<and> get a ''tenant_id'' = PyStr (fst k))"

lemma dict_set_as_map:
  "dict_wf d \<Longrightarrow> map_of d k = Some v \<Longrightarrow> dict_set k u d = map (\<lambda>(j, w). if j = k then (k, u) else (j, w)) d"
proof (induction d)
  case (Cons p d)
  have "map (\<lambda>(j, w). if j = k then (k, u) else (j, w)) d = d" if "k \<notin> fst ` set d"
    using that by (induction d) auto
  with Cons show ?case by (cases p) (auto simp: dict_wf_def)
qed simp

text \<open>Replacing an account by one with the same identity leaves every search by identity in place.\<close>

lemma find_replaced:
  assumes "dict_wf d" "find_first (\<lambda>(k, a). is_account t i a) d = Some (k, a)"
    and "get b ''tenant_id'' = get a ''tenant_id''" "get b ''id'' = get a ''id''"
  shows "map_option snd (find_first (\<lambda>(k, a). is_account u j a) (dict_set k b d)) =
    (if (u, j) = (t, i) then Some b else map_option snd (find_first (\<lambda>(k, a). is_account u j a) d))"
proof -
  have ka: "(k, a) \<in> set d" "is_account t i a" using find_first_SomeD [OF assms(2)] by auto
  then have m: "map_of d k = Some a" using assms(1) by (simp add: dict_wf_def)
  let ?r = "\<lambda>(j, w). if j = k then (k, b) else (j, w)"
  have same: "w = a" if "(k, w) \<in> set d" for w using that assms(1) m by (simp add: dict_wf_def)
  have "find_first (\<lambda>(k, a). is_account u j a) (dict_set k b d) =
      map_option ?r (find_first (\<lambda>(k, a). is_account u j a) d)"
    unfolding dict_set_as_map [OF assms(1) m]
    by (rule find_first_map) (use same assms(3,4) in \<open>auto simp: is_account_def split: if_splits\<close>)
  moreover have "?r x = x \<or> (u, j) = (t, i)" if "find_first (\<lambda>(k, a). is_account u j a) d = Some x" for x
    using find_first_SomeD [OF that] same ka(2) by (auto simp: is_account_def split: prod.splits)
  ultimately show ?thesis
    using assms(2) by (cases "find_first (\<lambda>(k, a). is_account u j a) d") auto
qed

lemma mem_by_id_Some:
  "mem_by_id t i s = Inr (Some a) \<longleftrightarrow> strip t \<noteq> [] \<and>
     map_option snd (find_first (\<lambda>(k, a). is_account (strip t) i a) (am_accounts s)) = Some a"
  by (cases "am_accounts s = []") (auto simp: mem_by_id_def acc_tenant_def)

lemma mem_good_set:
  assumes "mem_good s" "versioned b" "get b ''tenant_id'' = PyStr (fst k)"
  shows "mem_good (s\<lparr>am_accounts := dict_set k b (am_accounts s)\<rparr>)"
  using assms set_dict_set [of "am_accounts s" k b] by (auto simp: mem_good_def simp del: split_paired_All)

lemma mem_goodD:
  "mem_good s \<Longrightarrow> dict_wf (am_accounts s)"
  "mem_good s \<Longrightarrow> (k, a) \<in> set (am_accounts s) \<Longrightarrow> versioned a"
  "mem_good s \<Longrightarrow> (k, a) \<in> set (am_accounts s) \<Longrightarrow> get a ''tenant_id'' = PyStr (fst k)"
  unfolding mem_good_def by blast+

lemma mem_found:
  assumes "mem_good s" "find_first (\<lambda>(k, a). is_account u j a) (am_accounts s) = Some (k, a)"
  shows "versioned a" "get a ''tenant_id'' = PyStr (fst k)"
proof -
  have "(k, a) \<in> set (am_accounts s)" using find_first_SomeD [OF assms(2)] by simp
  then show "versioned a" "get a ''tenant_id'' = PyStr (fst k)" using mem_goodD [OF assms(1)] by blast+
qed

lemma mem_replace:
  assumes "mem_good s" "find_first (\<lambda>(k, a). is_account u j a) (am_accounts s) = Some (k, a)"
    and "get b ''tenant_id'' = get a ''tenant_id''" "get b ''id'' = get a ''id''" "versioned b"
  shows "mem_good (s\<lparr>am_accounts := dict_set k b (am_accounts s)\<rparr>)"
    and "mem_by_id t i s = Inr (Some c) \<Longrightarrow>
      mem_by_id t i (s\<lparr>am_accounts := dict_set k b (am_accounts s)\<rparr>) =
        Inr (Some (if (u, j) = (strip t, i) then b else c)) \<and> ((u, j) = (strip t, i) \<longrightarrow> c = a)"
proof -
  show "mem_good (s\<lparr>am_accounts := dict_set k b (am_accounts s)\<rparr>)"
    using mem_good_set [OF assms(1,5)] mem_found [OF assms(1,2)] assms(3) by simp
  show "mem_by_id t i s = Inr (Some c) \<Longrightarrow>
      mem_by_id t i (s\<lparr>am_accounts := dict_set k b (am_accounts s)\<rparr>) =
        Inr (Some (if (u, j) = (strip t, i) then b else c)) \<and> ((u, j) = (strip t, i) \<longrightarrow> c = a)"
    using find_replaced [OF mem_goodD(1) [OF assms(1)] assms(2-4), of "strip t" i] assms(2)
    by (auto simp: mem_by_id_Some)
qed

definition identity_free :: "pydict \<Rightarrow> bool" where
  "identity_free values \<longleftrightarrow> dict_wf values \<and>
     set (map fst values) \<inter> {''tenant_id'', ''id'', ''session_version'', ''updated_at''} = {}"

lemma identity_free_values:
  "identity_free (active_values b)" "identity_free (password_values h)" "identity_free (invitation_values h e)"
  "identity_free (reset_values h e)" "identity_free (activated_values h)" "identity_free (consumed_values h)"
  "identity_free [(''role'', v)]"
  by (simp_all add: identity_free_def value_defs dict_wf_def)

lemma changed_identity:
  assumes "identity_free values"
  shows "get (stamped clock values a) ''tenant_id'' = get a ''tenant_id''" "get (stamped clock values a) ''id'' = get a ''id''"
    "get (bumped clock values a) ''tenant_id'' = get a ''tenant_id''" "get (bumped clock values a) ''id'' = get a ''id''"
    "versioned a \<Longrightarrow> versioned (stamped clock values a)" "versioned (bumped clock values a)"
proof -
  have v: "dict_wf values" "''updated_at'' \<notin> fst ` set values" "map_of values ''tenant_id'' = None"
    "map_of values ''id'' = None" "map_of values ''session_version'' = None"
    using assms by (auto simp: identity_free_def map_of_eq_None_iff)
  show "get (stamped clock values a) ''tenant_id'' = get a ''tenant_id''" "get (stamped clock values a) ''id'' = get a ''id''"
    "get (bumped clock values a) ''tenant_id'' = get a ''tenant_id''" "get (bumped clock values a) ''id'' = get a ''id''"
    "versioned a \<Longrightarrow> versioned (stamped clock values a)" "versioned (bumped clock values a)"
    using v by (simp_all add: get_stamped get_bumped versioned_def version_def)
qed

lemma stamped_then: "dict_set ''updated_at'' (PyStr (now_iso clock)) (dict_update a values) = stamped clock values a"
  by (simp add: stamped_def dict_update_def)

lemma versioned_next:
  "versioned a \<Longrightarrow> py_int (get_or a ''session_version'' d) = Inr (version a)"
  by (auto simp: versioned_def get_def get_or_def split: option.splits)

text \<open>What the two ways to change an account in memory do.\<close>

lemma mem_update_Inr:
  assumes "mem_good s" "identity_free values" "mem_update clock u j values invalidate s = Inr (s', r)"
  shows "changes_account mem_good mem_by_id (Some (strip u, j))
    (if invalidate then bumped clock values else stamped clock values) s s'"
proof (cases "find_first (\<lambda>(k, a). is_account (strip u) j a) (am_accounts s)")
  case None
  then have s': "s' = s" using assms(3) by (auto simp: mem_update_def acc_tenant_def split: if_splits)
  show ?thesis using assms(1) None by (auto simp: changes_account_def s' same_account_def mem_by_id_Some)
next
  case (Some p)
  obtain k a where p: "p = (k, a)" by (rule prod.exhaust)
  note found = Some [unfolded p]
  note va = mem_found(1) [OF assms(1) found]
  let ?b = "if invalidate then bumped clock values a else stamped clock values a"
  have s': "s' = s\<lparr>am_accounts := dict_set k ?b (am_accounts s)\<rparr>"
    using assms(3) found va
    by (auto simp: mem_update_def acc_tenant_def stamped_then versioned_next bumped_def Let_def split: if_splits)
  have "get ?b ''tenant_id'' = get a ''tenant_id''" "get ?b ''id'' = get a ''id''" "versioned ?b"
    using changed_identity [OF assms(2), where clock = clock and a = a] va by simp_all
  note rep = mem_replace [OF assms(1) found this, folded s']
  show ?thesis using rep(1) rep(2) by (auto simp: changes_account_def same_account_def)
qed

lemma mem_consume_Inr:
  assumes "mem_good s" "identity_free values" "mem_consume clock u j accepts values s = Inr (s', r)"
  shows "changes_account mem_good mem_by_id (Some (strip u, j)) (\<lambda>c. if accepts c then bumped clock values c else c) s s' \<and>
    (r \<noteq> None \<longrightarrow> (\<exists>a. mem_by_id u j s = Inr (Some a) \<and> accepts a))"
proof -
  have u: "strip u \<noteq> []" using assms(3) by (auto simp: mem_consume_def acc_tenant_def split: if_splits)
  show ?thesis
  proof (cases "find_first (\<lambda>(k, a). is_account (strip u) j a) (am_accounts s)")
    case None
    then have s': "s' = s" "r = None" using assms(3) u by (auto simp: mem_consume_def acc_tenant_def)
    show ?thesis using assms(1) None by (auto simp: changes_account_def s' same_account_def mem_by_id_Some)
  next
    case (Some p)
    obtain k a where p: "p = (k, a)" by (rule prod.exhaust)
    note found = Some [unfolded p]
    have m: "mem_by_id u j s = Inr (Some a)" using u found by (simp add: mem_by_id_Some)
    note va = mem_found(1) [OF assms(1) found]
    show ?thesis
    proof (cases "accepts a")
      case False
      then have s': "s' = s" "r = None" using assms(3) u found by (auto simp: mem_consume_def acc_tenant_def)
      show ?thesis using assms(1) found False by (auto simp: changes_account_def s' same_account_def mem_by_id_Some)
    next
      case True
      let ?b = "dict_update a (values @ [(''session_version'', PyInt (version a + 1)), (''updated_at'', PyStr (now_iso clock))])"
      have s': "s' = s\<lparr>am_accounts := dict_set k ?b (am_accounts s)\<rparr>"
        using assms(3) u found va True by (simp add: mem_consume_def acc_tenant_def versioned_next Let_def)
      have g: "get ?b = get (bumped clock values a)"
        by (rule ext) (simp add: bumped_def stamped_def dict_update_def)
      then have "get ?b ''tenant_id'' = get a ''tenant_id''" "get ?b ''id'' = get a ''id''" "versioned ?b"
        using changed_identity(3,4,6) [OF assms(2), where clock = clock and a = a] by (simp_all add: versioned_def version_def)
      note rep = mem_replace [OF assms(1) found this, folded s']
      have "\<exists>b. mem_by_id t i s' = Inr (Some b) \<and> same_account b (if Some (strip u, j) = Some (strip t, i)
          then (if accepts c then bumped clock values c else c) else c)"
        if "mem_by_id t i s = Inr (Some c)" for t i c
        using rep(2) [OF that] g True by (cases "(strip u, j) = (strip t, i)") (auto simp: same_account_def)
      then show ?thesis unfolding changes_account_def using rep(1) m True by blast
    qed
  qed
qed

lemma record_versioned: "account_record uid clock a = Inr r \<Longrightarrow> versioned r"
  by (auto simp: account_record_def Let_def bind_res_Inr_iff versioned_def version_def split: if_splits)

lemma record_key: "account_record uid clock a = Inr r \<Longrightarrow> get r ''tenant_id'' = PyStr (fst (account_key r))"
  by (auto simp: account_record_def Let_def bind_res_Inr_iff account_key_def split: if_splits)

lemma mem_insert:
  assumes "mem_good s" "account_record uid clock a = Inr r" "dict_get (am_accounts s) (account_key r) = None"
  shows "mem_good (s\<lparr>am_accounts := dict_set (account_key r) r (am_accounts s)\<rparr>)"
    and "mem_by_id t i s = Inr (Some c) \<Longrightarrow>
      mem_by_id t i (s\<lparr>am_accounts := dict_set (account_key r) r (am_accounts s)\<rparr>) = Inr (Some c)"
  using mem_good_set [OF assms(1) record_versioned [OF assms(2)] record_key [OF assms(2)]] assms(3)
  by (auto simp: mem_by_id_Some dict_set_fresh find_first_append)

lemma new_state_Inr: "new_state r = Inr s \<longleftrightarrow> (\<exists>x. r = Inr (s, x))"
  by (cases r) (auto simp: new_state_def)

lemma mem_create_Inr:
  assumes "mem_good s" "mem_create uid clock a s = Inr (s', x)"
  shows "changes_account mem_good mem_by_id None f s s'"
  using assms mem_insert [OF assms(1)]
  by (auto simp: changes_account_def same_account_def mem_create_def bind_res_Inr_iff dict_has_def split: if_splits)

lemma first_owner_key:
  assumes "mem_good s" "account_record uid clock a = Inr r"
    and "\<not> list_ex (\<lambda>(k, b). get b ''tenant_id'' = get r ''tenant_id'') (am_accounts s)"
  shows "dict_get (am_accounts s) (account_key r) = None"
proof (cases "dict_get (am_accounts s) (account_key r)")
  case (Some b)
  then have "(account_key r, b) \<in> set (am_accounts s)" by (rule map_of_SomeD)
  moreover from this have "get b ''tenant_id'' = get r ''tenant_id''"
    using mem_goodD(3) [OF assms(1)] record_key [OF assms(2)] by metis
  ultimately show ?thesis using assms(3) by (auto simp: list_ex_iff)
qed

lemma mem_first_owner_Inr:
  assumes "mem_good s" "mem_first_owner uid clock a s = Inr (s', x)"
  shows "changes_account mem_good mem_by_id None f s s'"
proof -
  obtain r where r: "account_record uid clock (owner_payload a) = Inr r"
    "\<not> list_ex (\<lambda>(k, b). get b ''tenant_id'' = get r ''tenant_id'') (am_accounts s)"
    "s' = s\<lparr>am_accounts := dict_set (account_key r) r (am_accounts s)\<rparr>"
    using assms(2) by (auto simp: mem_first_owner_def bind_res_Inr_iff split: if_splits)
  have "dict_get (am_accounts s) (account_key r) = None" by (rule first_owner_key [OF assms(1) r(1,2)])
  then show ?thesis using mem_insert [OF assms(1) r(1)] r(3) by (auto simp: changes_account_def same_account_def)
qed

lemma mem_record_audit_Inr:
  assumes "mem_good s" "mem_record_audit uid clock t action account actor s = Inr (s', x)"
  shows "changes_account mem_good mem_by_id None f s s'"
  using assms by (auto simp: changes_account_def same_account_def mem_record_audit_def bind_res_Inr_iff mem_good_def mem_by_id_def)

lemmas mem_op_defs = mem_accounts_def mem_set_active_def mem_set_role_def mem_set_password_def mem_set_invitation_def
  mem_set_reset_token_def mem_activate_invitation_def mem_consume_reset_token_def

lemma mem_step:
  assumes "mem_good s" "account_step mem_accounts clock op s = Inr s'"
  shows "changes_account mem_good mem_by_id (op_target op) (op_result mem_invitation_open mem_reset_open clock op) s s'"
  using assms(2)
  by (cases op)
    (auto simp: mem_op_defs new_state_Inr
      dest: mem_create_Inr [OF assms(1)] mem_first_owner_Inr [OF assms(1)] mem_record_audit_Inr [OF assms(1)]
        mem_consume_Inr [OF assms(1) identity_free_values(5)] mem_consume_Inr [OF assms(1) identity_free_values(6)]
        mem_update_Inr [OF assms(1) identity_free_values(1)] mem_update_Inr [OF assms(1) identity_free_values(2)]
        mem_update_Inr [OF assms(1) identity_free_values(3)] mem_update_Inr [OF assms(1) identity_free_values(4)]
        mem_update_Inr [OF assms(1) identity_free_values(7)])

interpretation mem: account_store mem_accounts mem_good mem_invitation_open mem_reset_open
proof unfold_locales
  fix s clock op s'
  show "mem_good s \<Longrightarrow> op_fresh mem_accounts op s \<Longrightarrow> account_step mem_accounts clock op s = Inr s' \<Longrightarrow>
      changes_account mem_good (ao_by_id mem_accounts) (op_target op)
        (op_result mem_invitation_open mem_reset_open clock op) s s'"
    using mem_step by (simp add: mem_accounts_def)
next
  fix s clock t i h p s' r
  show "mem_good s \<Longrightarrow> ao_activate mem_accounts clock t i h p s = Inr (s', Some r) \<Longrightarrow>
      \<exists>a. ao_by_id mem_accounts t i s = Inr (Some a) \<and> mem_invitation_open clock h a"
    using mem_consume_Inr [OF _ identity_free_values(5)] by (fastforce simp: mem_op_defs)
  show "mem_good s \<Longrightarrow> ao_consume_reset mem_accounts clock t i h p s = Inr (s', Some r) \<Longrightarrow>
      \<exists>a. ao_by_id mem_accounts t i s = Inr (Some a) \<and> mem_reset_open clock h a"
    using mem_consume_Inr [OF _ identity_free_values(6)] by (fastforce simp: mem_op_defs)
next
  fix s t i a
  show "mem_good s \<Longrightarrow> ao_by_id mem_accounts t i s = Inr (Some a) \<Longrightarrow> get a ''session_version'' = PyInt (version a)"
    using mem_found(1) by (fastforce simp: mem_accounts_def mem_by_id_Some versioned_def)
qed (auto simp: mem_invitation_open_def mem_reset_open_def)

section \<open>The store in Postgres keeps the contract\<close>

definition row_id :: "account_row \<Rightarrow> string \<times> pyval" where
  "row_id x = (wa_tenant x, get (wa_payload x) ''id'')"

definition pga_good :: "account_pg \<Rightarrow> bool" where
  "pga_good s \<longleftrightarrow> distinct (map row_id (ap_accounts s)) \<and> (\<forall>x \<in> set (ap_accounts s). versioned (wa_payload x))"

lemma is_row_id: "is_row t i x \<longleftrightarrow> row_id x = (t, PyStr i)"
  by (simp add: is_row_def row_id_def)

lemma pga_by_id_Some:
  "pga_by_id t i s = Inr (Some a) \<longleftrightarrow> strip t \<noteq> [] \<and>
     (\<exists>x. find_first (is_row (strip t) i) (ap_accounts s) = Some x \<and> wa_payload x = a)"
  by (auto simp: pga_by_id_def acc_tenant_def)

lemma map_res_map:
  "map_res f xs = Inr ys \<Longrightarrow> (\<And>x y. x \<in> set xs \<Longrightarrow> f x = Inr y \<Longrightarrow> y = g x) \<Longrightarrow> ys = map g xs"
  by (induction xs arbitrary: ys) (auto simp: bind_res_Inr_iff)

lemma find_first_distinct:
  "distinct (map f xs) \<Longrightarrow> x \<in> set xs \<Longrightarrow> f x = v \<Longrightarrow> find_first (\<lambda>y. f y = v) xs = Some x"
  by (induction xs) (auto simp: image_iff)

lemma pga_modify_Inr:
  assumes "pga_good s" "strip u \<noteq> []"
    and "pga_modify (\<lambda>x. is_row (strip u) j x \<and> accepts (wa_payload x)) f s = Inr (s', out)"
    and f: "\<And>a b. versioned a \<Longrightarrow> f a = Inr b \<Longrightarrow> b = F a"
    and F: "\<And>a. versioned a \<Longrightarrow> versioned (F a) \<and> get (F a) ''id'' = get a ''id''"
  shows "changes_account pga_good pga_by_id (Some (strip u, j)) (\<lambda>c. if accepts c then F c else c) s s' \<and>
    (out \<noteq> None \<longrightarrow> (\<exists>a. pga_by_id u j s = Inr (Some a) \<and> accepts a))"
proof -
  let ?hit = "\<lambda>x. is_row (strip u) j x \<and> accepts (wa_payload x)"
  let ?g = "\<lambda>x. if ?hit x then x\<lparr>wa_payload := F (wa_payload x)\<rparr> else x"
  have v: "versioned (wa_payload x)" if "x \<in> set (ap_accounts s)" for x using assms(1) that by (simp add: pga_good_def)
  obtain rows where rows: "map_res (\<lambda>x. if ?hit x then bind_res (f (wa_payload x)) (\<lambda>p. Inr (x\<lparr>wa_payload := p\<rparr>)) else Inr x)
      (ap_accounts s) = Inr rows" "s' = s\<lparr>ap_accounts := rows\<rparr>" and out: "out \<noteq> None \<longrightarrow> find_first ?hit (ap_accounts s) \<noteq> None"
    using assms(3) by (auto simp: pga_modify_def bind_res_Inr_iff split: option.splits)
  have map: "rows = map ?g (ap_accounts s)"
    using map_res_map [OF rows(1), of ?g] v f by (fastforce simp: bind_res_Inr_iff split: if_splits)
  have same: "row_id (?g x) = row_id x" if "x \<in> set (ap_accounts s)" for x
    using F [OF v [OF that]] by (simp add: row_id_def)
  have good: "pga_good s'"
    using assms(1) same v F unfolding rows(2) map pga_good_def by (auto simp: o_def cong: map_cong)
  have by_id: "find_first (is_row t i) (ap_accounts s') = map_option ?g (find_first (is_row t i) (ap_accounts s))" for t i
    unfolding rows(2) map using same by (simp add: is_row_id find_first_map)
  have "\<exists>b. pga_by_id t i s' = Inr (Some b) \<and>
      same_account b (if Some (strip u, j) = Some (strip t, i) then (if accepts a then F a else a) else a)"
    if "pga_by_id t i s = Inr (Some a)" for t i a
  proof -
    from that obtain x where x: "strip t \<noteq> []" "find_first (is_row (strip t) i) (ap_accounts s) = Some x" "wa_payload x = a"
      by (auto simp: pga_by_id_Some)
    have "is_row (strip t) i x" using find_first_SomeD [OF x(2)] by blast
    then have "is_row (strip u) j x \<longleftrightarrow> (strip u, j) = (strip t, i)" by (auto simp: is_row_def)
    then show ?thesis using x by_id [of "strip t" i] by (auto simp: pga_by_id_Some same_account_def)
  qed
  moreover have "\<exists>a. pga_by_id u j s = Inr (Some a) \<and> accepts a" if some: "out \<noteq> None"
  proof -
    obtain x where "x \<in> set (ap_accounts s)" "is_row (strip u) j x" "accepts (wa_payload x)"
      using out some find_first_SomeD [of ?hit "ap_accounts s"] by blast
    moreover from this have "find_first (is_row (strip u) j) (ap_accounts s) = Some x"
      using find_first_distinct [of row_id "ap_accounts s" x] assms(1) by (simp add: pga_good_def is_row_id [abs_def])
    ultimately show ?thesis using assms(2) by (auto simp: pga_by_id_Some)
  qed
  ultimately show ?thesis unfolding changes_account_def using good by blast
qed

lemma pg_next_versioned: "versioned a \<Longrightarrow> pg_next_version a = Inr v \<Longrightarrow> v = version a + 1"
  by (auto simp: pg_next_version_def versioned_def Let_def split: if_splits)

lemma pga_update_Inr:
  assumes "pga_good s" "identity_free values" "pga_update_payload clock u j values invalidate s = Inr (s', r)"
  shows "changes_account pga_good pga_by_id (Some (strip u, j))
    (if invalidate then bumped clock values else stamped clock values) s s'"
proof -
  let ?f = "\<lambda>a. if invalidate then bind_res (pg_next_version a) (\<lambda>v.
      Inr (dict_set ''session_version'' (PyInt v) (stamped clock values a))) else Inr (stamped clock values a)"
  let ?F = "if invalidate then bumped clock values else stamped clock values"
  have u: "strip u \<noteq> []" and m: "pga_modify (\<lambda>x. is_row (strip u) j x \<and> True) ?f s = Inr (s', r)"
    using assms(3) by (auto simp: pga_update_payload_def acc_tenant_def Let_def stamped_def [symmetric] split: if_splits)
  have f: "b = ?F a" if "versioned a" "?f a = Inr b" for a b
    using that by (auto simp: bind_res_Inr_iff bumped_def dest!: pg_next_versioned split: if_splits)
  have F: "versioned (?F a) \<and> get (?F a) ''id'' = get a ''id''" if "versioned a" for a
    using that changed_identity [OF assms(2)] by simp
  show ?thesis
    using pga_modify_Inr [where accepts = "\<lambda>x. True" and F = ?F, OF assms(1) u m f F] by simp
qed

lemma pga_consume_Inr:
  assumes "pga_good s" "identity_free values" "pga_consume_token tz clock u j tf ef h values s = Inr (s', r)"
  shows "changes_account pga_good pga_by_id (Some (strip u, j))
      (\<lambda>c. if pg_token_open tz clock tf ef h c then bumped clock values c else c) s s' \<and>
    (r \<noteq> None \<longrightarrow> (\<exists>a. pga_by_id u j s = Inr (Some a) \<and> pg_token_open tz clock tf ef h a))"
proof -
  let ?f = "\<lambda>a. bind_res (pg_next_version a) (\<lambda>v. Inr (dict_set ''session_version'' (PyInt v) (stamped clock values a)))"
  have u: "strip u \<noteq> []" and m: "pga_modify (\<lambda>x. is_row (strip u) j x \<and> pg_token_open tz clock tf ef h (wa_payload x)) ?f s = Inr (s', r)"
    using assms(3) by (auto simp: pga_consume_token_def acc_tenant_def stamped_def split: if_splits)
  have f: "b = bumped clock values a" if "versioned a" "?f a = Inr b" for a b
    using that by (auto simp: bind_res_Inr_iff bumped_def dest!: pg_next_versioned)
  have F: "versioned (bumped clock values a) \<and> get (bumped clock values a) ''id'' = get a ''id''" for a
    using changed_identity [OF assms(2)] by simp
  show ?thesis
    using pga_modify_Inr [where F = "bumped clock values", OF assms(1) u m f F] by simp
qed

lemma record_id: "account_record uid clock a = Inr r \<Longrightarrow> get a ''id'' = PyNone \<Longrightarrow>
    get r ''id'' = PyStr uid \<and> fst (account_key r) = strip (str_or a ''tenant_id'' []) \<and> strip (str_or a ''tenant_id'' []) \<noteq> []"
  by (auto simp: account_record_def Let_def bind_res_Inr_iff account_key_def required_account_fields_def
      str_or_def [of a "''id''"] py_or_def split: if_splits)

lemma pga_insert_Inr:
  assumes "pga_good s" "account_record uid clock a = Inr r" "get a ''id'' = PyNone" "pga_insert r s = Some s'"
    and "case pga_by_id (str_or a ''tenant_id'' []) uid s of Inr (Some b) \<Rightarrow> False | _ \<Rightarrow> True"
  shows "changes_account pga_good pga_by_id None f s s'"
proof -
  note r = record_id [OF assms(2,3)]
  have "find_first (is_row (fst (account_key r)) uid) (ap_accounts s) = None"
    using assms(5) r by (auto simp: pga_by_id_def acc_tenant_def split: option.splits)
  then have "\<forall>x \<in> set (ap_accounts s). row_id x \<noteq> (fst (account_key r), get r ''id'')"
    using r by (simp add: find_first_None_iff is_row_id)
  then have "(fst (account_key r), get r ''id'') \<notin> row_id ` set (ap_accounts s)" by (metis imageE)
  moreover obtain n where "ap_accounts s' = ap_accounts s @ [n]" "row_id n = (fst (account_key r), get r ''id'')"
    "wa_payload n = r"
    using assms(4) by (auto simp: pga_insert_def row_id_def split: if_splits)
  ultimately have "pga_good s'"
    using assms(1) record_versioned [OF assms(2)] by (auto simp: pga_good_def)
  moreover have "pga_by_id t i s' = Inr (Some b)" if "pga_by_id t i s = Inr (Some b)" for t i b
    using that assms(4) by (auto simp: pga_by_id_Some pga_insert_def find_first_append split: if_splits)
  ultimately show ?thesis by (auto simp: changes_account_def same_account_def)
qed

lemma owner_payload_get:
  "get (owner_payload a) ''id'' = get a ''id''" "str_or (owner_payload a) ''tenant_id'' d = str_or a ''tenant_id'' d"
  by (simp_all add: owner_payload_def get_update dict_wf_def str_or_def)

lemmas pga_op_defs = pg_accounts_def pga_set_active_def pga_set_role_def pga_set_password_def pga_set_invitation_def
  pga_set_reset_token_def pga_activate_invitation_def pga_consume_reset_token_def

abbreviation pg_invitation_open :: "(string \<Rightarrow> int option) \<Rightarrow> int \<Rightarrow> string \<Rightarrow> pydict \<Rightarrow> bool" where
  "pg_invitation_open tz clock h a \<equiv> pg_token_open tz clock ''invitation_token_hash'' ''invitation_expires_at'' h a"

abbreviation pg_reset_open :: "(string \<Rightarrow> int option) \<Rightarrow> int \<Rightarrow> string \<Rightarrow> pydict \<Rightarrow> bool" where
  "pg_reset_open tz clock h a \<equiv> pg_token_open tz clock ''reset_token_hash'' ''reset_expires_at'' h a"

lemma pga_step:
  assumes "pga_good s" "op_fresh (pg_accounts tz) op s" "account_step (pg_accounts tz) clock op s = Inr s'"
  shows "changes_account pga_good pga_by_id (op_target op)
    (op_result (pg_invitation_open tz) (pg_reset_open tz) clock op) s s'"
proof (cases op)
  case (OpCreate uid a)
  then show ?thesis using assms(2,3) pga_insert_Inr [OF assms(1)]
    by (auto simp: pga_op_defs new_state_Inr pga_create_def bind_res_Inr_iff split: option.splits)
next
  case (OpFirstOwner uid a)
  then show ?thesis using assms(2,3) pga_insert_Inr [OF assms(1), of uid clock "owner_payload a"]
    by (auto simp: pga_op_defs new_state_Inr pga_first_owner_def bind_res_Inr_iff owner_payload_get
        split: option.splits if_splits)
next
  case (OpAudit uid u action account actor)
  then show ?thesis using assms
    by (auto simp: pga_op_defs new_state_Inr pga_record_audit_def bind_res_Inr_iff Let_def changes_account_def
        same_account_def pga_good_def pga_by_id_def split: if_splits)
qed (use assms(3) in \<open>auto simp: pga_op_defs new_state_Inr
      dest: pga_consume_Inr [OF assms(1) identity_free_values(5)] pga_consume_Inr [OF assms(1) identity_free_values(6)]
        pga_update_Inr [OF assms(1) identity_free_values(1)] pga_update_Inr [OF assms(1) identity_free_values(2)]
        pga_update_Inr [OF assms(1) identity_free_values(3)] pga_update_Inr [OF assms(1) identity_free_values(4)]
        pga_update_Inr [OF assms(1) identity_free_values(7)]\<close>)

interpretation pg: account_store "pg_accounts tz" pga_good "pg_invitation_open tz" "pg_reset_open tz" for tz
proof unfold_locales
  fix s clock op s'
  show "pga_good s \<Longrightarrow> op_fresh (pg_accounts tz) op s \<Longrightarrow> account_step (pg_accounts tz) clock op s = Inr s' \<Longrightarrow>
      changes_account pga_good (ao_by_id (pg_accounts tz)) (op_target op)
        (op_result (pg_invitation_open tz) (pg_reset_open tz) clock op) s s'"
    using pga_step by (simp add: pg_accounts_def)
next
  fix s clock t i h p s' r
  show "pga_good s \<Longrightarrow> ao_activate (pg_accounts tz) clock t i h p s = Inr (s', Some r) \<Longrightarrow>
      \<exists>a. ao_by_id (pg_accounts tz) t i s = Inr (Some a) \<and> pg_invitation_open tz clock h a"
    using pga_consume_Inr [OF _ identity_free_values(5)] by (fastforce simp: pga_op_defs)
  show "pga_good s \<Longrightarrow> ao_consume_reset (pg_accounts tz) clock t i h p s = Inr (s', Some r) \<Longrightarrow>
      \<exists>a. ao_by_id (pg_accounts tz) t i s = Inr (Some a) \<and> pg_reset_open tz clock h a"
    using pga_consume_Inr [OF _ identity_free_values(6)] by (fastforce simp: pga_op_defs)
next
  fix s t i a
  show "pga_good s \<Longrightarrow> ao_by_id (pg_accounts tz) t i s = Inr (Some a) \<Longrightarrow> get a ''session_version'' = PyInt (version a)"
    using find_first_SomeD [of "is_row (strip t) i" "ap_accounts s"]
    by (auto simp: pg_accounts_def pga_by_id_Some pga_good_def versioned_def)
qed (auto simp: pg_token_open_def)
end
