(* ===== verification/TenantProfiles.thy ===== *)
theory TenantProfiles
  imports Accounts
begin

text \<open>
  Profiles of tenants, \<open>src/shelfwise_storage/tenant_profiles.py\<close>: the defaults, the merge of a profile
  into the stored one, and the stores in memory and in Postgres.
\<close>

section \<open>Profiles\<close>

definition default_budgets :: pydict where
  "default_budgets = [(''daily_request_limit'', PyInt 500), (''monthly_token_limit'', PyInt 2000000),
     (''max_cascade_tokens'', PyInt 24000)]"

definition default_model_limits :: pydict where
  "default_model_limits = [(''routine_tier'', PyStr ''small''), (''strong_tier'', PyStr ''strong''),
     (''allow_external_models'', PyBool False)]"

definition default_connector_policy :: pydict where
  "default_connector_policy = [(''mode'', PyStr ''read_only''), (''write_back'', PyStr ''hitl_required''),
     (''allowed_systems'', PyList [PyStr ''csv''])]"

text \<open>\<open>str.isalnum\<close> on one character of Latin-1.\<close>

definition is_alnum_char :: "char \<Rightarrow> bool" where
  "is_alnum_char c = (let n = ord_char c in
     48 \<le> n \<and> n \<le> 57 \<or> 65 \<le> n \<and> n \<le> 90 \<or> 97 \<le> n \<and> n \<le> 122 \<or>
     n \<in> {170, 178, 179, 181, 185, 186, 188, 189, 190} \<or> 192 \<le> n \<and> n \<noteq> 215 \<and> n \<noteq> (247::nat))"

definition clean_profile_tenant :: "string \<Rightarrow> string result" where
  "clean_profile_tenant v =
     (let t = strip v; bare = filter (\<lambda>c. c \<noteq> CHR ''_'' \<and> c \<noteq> CHR ''-'') t in
      if t = [] then Inl (ValueError ''tenant_id is required'')
      else if 128 < length t \<or> bare = [] \<or> \<not> list_all is_alnum_char bare
      then Inl (ValueError ''tenant_id must be a simple identifier'')
      else Inr t)"

definition default_tenant_profile :: "int \<Rightarrow> string \<Rightarrow> string option \<Rightarrow> pydict result" where
  "default_tenant_profile clock tenant name = bind_res (clean_profile_tenant tenant) (\<lambda>t.
     Inr [(''tenant_id'', PyStr t), (''name'', PyStr (case name of Some (c # s) \<Rightarrow> c # s | _ \<Rightarrow> t)),
          (''country'', PyStr ''ZA''), (''currency'', PyStr ''ZAR''), (''timezone'', PyStr ''Africa/Johannesburg''),
          (''status'', PyStr ''active''), (''budgets'', PyDict default_budgets),
          (''model_limits'', PyDict default_model_limits), (''connector_policy'', PyDict default_connector_policy),
          (''created_at'', PyStr (now_iso clock)), (''updated_at'', PyStr (now_iso clock))])"

fun merge_budgets :: "pydict \<Rightarrow> pydict \<Rightarrow> pydict result" where
  "merge_budgets merged [] = Inr merged"
| "merge_budgets merged ((k, raw) # d) = bind_res (py_int raw) (\<lambda>n.
     if n < 0 then Inl (ValueError (''budget must be non-negative: '' @ k))
     else merge_budgets (dict_set k (PyInt n) merged) d)"

definition positive_int_map :: "pyval \<Rightarrow> pydict \<Rightarrow> pydict result" where
  "positive_int_map v defaults = (case v of
       PyNone \<Rightarrow> Inr defaults
     | PyDict d \<Rightarrow> merge_budgets defaults d
     | _ \<Rightarrow> Inl (ValueError ''budgets must be an object''))"

definition profile_mapping :: "pyval \<Rightarrow> pydict \<Rightarrow> pydict result" where
  "profile_mapping v defaults = (case v of
       PyNone \<Rightarrow> Inr defaults
     | PyDict d \<Rightarrow> Inr (dict_update defaults d)
     | _ \<Rightarrow> Inl (ValueError ''profile section must be an object''))"

definition profile_record :: "int \<Rightarrow> pydict \<Rightarrow> pydict option \<Rightarrow> pydict result" where
  "profile_record clock profile existing =
     bind_res (clean_profile_tenant (str_or profile ''tenant_id'' [])) (\<lambda>t.
     bind_res (default_tenant_profile clock t None) (\<lambda>base0.
     let base = dict_set ''tenant_id'' (PyStr t)
           (dict_update (case existing of Some e \<Rightarrow> dict_update base0 e | None \<Rightarrow> base0) profile) in
     bind_res (positive_int_map (get base ''budgets'') default_budgets) (\<lambda>budgets.
     bind_res (profile_mapping (get base ''model_limits'') default_model_limits) (\<lambda>limits.
     bind_res (profile_mapping (get base ''connector_policy'') default_connector_policy) (\<lambda>policy.
     Inr (dict_set ''updated_at'' (PyStr (now_iso clock))
         (dict_set ''created_at'' (PyStr (str_or base ''created_at'' (now_iso clock)))
         (dict_set ''connector_policy'' (PyDict policy) (dict_set ''model_limits'' (PyDict limits)
         (dict_set ''budgets'' (PyDict budgets) base))))))))))"

section \<open>The store in memory\<close>

type_synonym profile_store = "(string, pydict) dict"

definition tp_get :: "string \<Rightarrow> profile_store \<Rightarrow> pydict option result" where
  "tp_get tenant s = bind_res (clean_profile_tenant tenant) (\<lambda>t. Inr (dict_get s t))"

definition tp_upsert :: "int \<Rightarrow> pydict \<Rightarrow> profile_store \<Rightarrow> (profile_store \<times> pydict) result" where
  "tp_upsert clock profile s =
     bind_res (tp_get (str_or profile ''tenant_id'' []) s) (\<lambda>existing.
     bind_res (profile_record clock profile existing) (\<lambda>r.
     Inr (dict_set (py_str (get r ''tenant_id'')) r s, r)))"

definition tp_list :: "profile_store \<Rightarrow> pydict list" where
  "tp_list s = sorted_by (\<lambda>p. py_str (get_or p ''tenant_id'' (PyStr []))) (map snd s)"

definition tp_clear :: "profile_store \<Rightarrow> profile_store" where
  "tp_clear s = []"

section \<open>The store in Postgres\<close>

record profile_row =
  bp_tenant :: string
  bp_payload :: pydict

definition pgp_get :: "string \<Rightarrow> profile_row list \<Rightarrow> pydict option result" where
  "pgp_get tenant tbl = bind_res (clean_profile_tenant tenant) (\<lambda>t.
     Inr (map_option bp_payload (find_first (\<lambda>r. bp_tenant r = t) tbl)))"

definition pgp_write :: "string \<Rightarrow> pydict \<Rightarrow> profile_row list \<Rightarrow> profile_row list" where
  "pgp_write t p tbl =
     (if \<exists>r \<in> set tbl. bp_tenant r = t
      then map (\<lambda>r. if bp_tenant r = t then r\<lparr>bp_payload := p\<rparr> else r) tbl
      else tbl @ [\<lparr>bp_tenant = t, bp_payload = p\<rparr>])"

definition pgp_upsert :: "int \<Rightarrow> pydict \<Rightarrow> profile_row list \<Rightarrow> (profile_row list \<times> pydict) result" where
  "pgp_upsert clock profile tbl =
     bind_res (clean_profile_tenant (str_or profile ''tenant_id'' [])) (\<lambda>t.
     bind_res (pgp_get t tbl) (\<lambda>existing.
     bind_res (profile_record clock profile existing) (\<lambda>r.
     let tbl' = pgp_write t r tbl in
     bind_res (pgp_get t tbl') (\<lambda>stored. Inr (tbl', case stored of Some p \<Rightarrow> p | None \<Rightarrow> r)))))"

text \<open>Both run under the ambient tenant, whose rows alone are visible.\<close>

definition pgp_list :: "environ \<Rightarrow> string option \<Rightarrow> profile_row list \<Rightarrow> pydict list result" where
  "pgp_list env ctx tbl = bind_res (session_tenant env ctx None) (\<lambda>t.
     Inr (map bp_payload (sorted_by bp_tenant (filter (\<lambda>r. bp_tenant r = t) tbl))))"

definition pgp_clear :: "environ \<Rightarrow> string option \<Rightarrow> profile_row list \<Rightarrow> profile_row list result" where
  "pgp_clear env ctx tbl = bind_res (session_tenant env ctx None) (\<lambda>t. Inr (filter (\<lambda>r. bp_tenant r \<noteq> t) tbl))"

section \<open>What an upsert stores\<close>

text \<open>The Postgres table as the dictionary of the store in memory.\<close>

definition profiles_of :: "profile_row list \<Rightarrow> profile_store" where
  "profiles_of tbl = map (\<lambda>r. (bp_tenant r, bp_payload r)) tbl"

lemma clean_profile_tenant_Inr: "clean_profile_tenant v = Inr t \<Longrightarrow> strip t = t \<and> clean_profile_tenant t = Inr t"
  by (auto simp: clean_profile_tenant_def Let_def split: if_splits)

lemma profile_record_tenant:
  "profile_record clock p e = Inr r \<Longrightarrow> clean_profile_tenant (str_or p ''tenant_id'' []) = Inr t \<Longrightarrow>
   get r ''tenant_id'' = PyStr t"
  by (auto simp: profile_record_def Let_def bind_res_Inr_iff)

lemma merge_budgets_nonneg:
  assumes "merge_budgets m d = Inr b" "\<forall>v \<in> snd ` set m. \<exists>n \<ge> 0. v = PyInt n"
  shows "\<forall>v \<in> snd ` set b. \<exists>n \<ge> 0. v = PyInt n"
  using assms
proof (induction m d rule: merge_budgets.induct)
  case (2 m k raw d)
  from "2.prems"(1) obtain n where n: "py_int raw = Inr n" "0 \<le> n" "merge_budgets (dict_set k (PyInt n) m) d = Inr b"
    by (auto simp: bind_res_Inr_iff split: if_splits)
  have "\<forall>v \<in> snd ` set (dict_set k (PyInt n) m). \<exists>n \<ge> 0. v = PyInt n"
    using "2.prems"(2) n(2) values_dict_set [of k "PyInt n" m] by fastforce
  then show ?case by (rule "2.IH" [OF _ n(3), rotated]) (use n(2) in simp)
qed simp

lemma positive_int_map_nonneg:
  "positive_int_map v default_budgets = Inr b \<Longrightarrow> \<forall>v \<in> snd ` set b. \<exists>n \<ge> 0. v = PyInt n"
  using merge_budgets_nonneg [of default_budgets _ b]
  by (cases v) (auto simp: positive_int_map_def default_budgets_def)

lemma find_profile: "map_option bp_payload (find_first (\<lambda>r. bp_tenant r = t) tbl) = dict_get (profiles_of tbl) t"
  by (induction tbl) (auto simp: profiles_of_def)

lemma pgp_write_refines:
  "distinct (map bp_tenant tbl) \<Longrightarrow> profiles_of (pgp_write t p tbl) = dict_set t p (profiles_of tbl)"
proof (induction tbl)
  case (Cons r tbl)
  then show ?case
    by (auto simp: pgp_write_def profiles_of_def split: if_splits)
qed (simp add: pgp_write_def profiles_of_def)

text \<open>
  The Postgres profile store refines the one in memory: on a table with one row per tenant, an
  upsert raises the same error or stores the same profile, and returns it. What it stores is under
  the cleaned tenant, carries that tenant, and has budgets that are non-negative integers.
\<close>

theorem profile_upsert_refines:
  assumes "distinct (map bp_tenant tbl)"
  shows "bind_res (pgp_upsert clock p tbl) (\<lambda>(tbl', r). Inr (profiles_of tbl', r)) = tp_upsert clock p (profiles_of tbl)
    \<and> (\<forall>s' r. tp_upsert clock p (profiles_of tbl) = Inr (s', r) \<longrightarrow>
        (\<exists>t b. clean_profile_tenant (str_or p ''tenant_id'' []) = Inr t \<and> tp_get t s' = Inr (Some r) \<and>
          get r ''tenant_id'' = PyStr t \<and> get r ''budgets'' = PyDict b \<and> (\<forall>v \<in> snd ` set b. \<exists>n \<ge> 0. v = PyInt n)))"
proof (cases "clean_profile_tenant (str_or p ''tenant_id'' [])")
  case (Inl e)
  then show ?thesis by (simp add: pgp_upsert_def tp_upsert_def tp_get_def)
next
  case (Inr t)
  note t = clean_profile_tenant_Inr [OF Inr, THEN conjunct2]
  have get: "pgp_get t tbl = Inr (dict_get (profiles_of tbl) t)" for tbl
    by (simp add: pgp_get_def t find_profile)
  show ?thesis
  proof (cases "profile_record clock p (dict_get (profiles_of tbl) t)")
    case (Inl e)
    then show ?thesis by (simp add: pgp_upsert_def tp_upsert_def tp_get_def Inr get)
  next
    case r: (Inr r)
    obtain v b where b: "get r ''budgets'' = PyDict b" "positive_int_map v default_budgets = Inr b"
      using r by (auto simp: profile_record_def bind_res_Inr_iff Let_def)
    from positive_int_map_nonneg [OF b(2)] have "\<forall>v \<in> snd ` set b. \<exists>n \<ge> 0. v = PyInt n" .
    then show ?thesis
      using r b(1) profile_record_tenant [OF r Inr] pgp_write_refines [OF assms]
      by (simp add: pgp_upsert_def tp_upsert_def tp_get_def Inr get t Let_def)
  qed
qed

theorem profile_upsert_refines_witness:
  "bind_res (pgp_upsert 0 [(''tenant_id'', PyStr ''acme'')] [\<lparr>bp_tenant = ''other'', bp_payload = []\<rparr>])
     (\<lambda>(tbl', r). Inr (profiles_of tbl', r)) =
   tp_upsert 0 [(''tenant_id'', PyStr ''acme'')] [(''other'', [])]"
  using profile_upsert_refines [of "[\<lparr>bp_tenant = ''other'', bp_payload = []\<rparr>]" 0 "[(''tenant_id'', PyStr ''acme'')]"]
  by (simp add: profiles_of_def)

end
