(* ===== verification/AccountRoutes.thy ===== *)
theory AccountRoutes
  imports TenantProfiles
begin

text \<open>
  Who a request is from and what it may do to an account: the session check and the role gate of
  \<open>src/shelfwise_backend/deps.py\<close>, and every route of \<open>src/shelfwise_backend/routes_accounts.py\<close> over either
  account store. A request reads one clock and draws its identifiers, its nonce and its salt from a
  record; \<open>rq_delivered\<close> says whether the mail server took the message. A handler is a function of the
  state that returns the new state and a result, so what it wrote before it raised is kept.
\<close>

section \<open>Handlers\<close>

definition hbind :: "('s \<Rightarrow> 's \<times> 'a result) \<Rightarrow> ('a \<Rightarrow> 's \<Rightarrow> 's \<times> 'b result) \<Rightarrow> 's \<Rightarrow> 's \<times> 'b result" where
  "hbind m f s = (case m s of (s', Inl e) \<Rightarrow> (s', Inl e) | (s', Inr x) \<Rightarrow> f x s')"

definition hret :: "'a \<Rightarrow> 's \<Rightarrow> 's \<times> 'a result" where
  "hret x s = (s, Inr x)"

definition hraise :: "py_exn \<Rightarrow> 's \<Rightarrow> 's \<times> 'a result" where
  "hraise e s = (s, Inl e)"

definition hres :: "'a result \<Rightarrow> 's \<Rightarrow> 's \<times> 'a result" where
  "hres r s = (s, r)"

definition hguard :: "bool \<Rightarrow> nat \<Rightarrow> string \<Rightarrow> 's \<Rightarrow> 's \<times> unit result" where
  "hguard b code m s = (s, if b then Inr () else Inl (HTTPException code m))"

text \<open>A \<open>ValueError\<close> becomes an HTTP error with its message.\<close>

definition hcatch :: "nat \<Rightarrow> ('s \<Rightarrow> 's \<times> 'a result) \<Rightarrow> 's \<Rightarrow> 's \<times> 'a result" where
  "hcatch code m s = (case m s of (s', Inl (ValueError msg)) \<Rightarrow> (s', Inl (HTTPException code msg)) | r \<Rightarrow> r)"

record 's account_state =
  st_store :: 's
  st_profiles :: profile_store
  st_outbox :: "(string \<times> string \<times> string) list"

text \<open>A call of the account store, and a read of it.\<close>

definition scall :: "('s \<Rightarrow> ('s \<times> 'a) result) \<Rightarrow> 's account_state \<Rightarrow> 's account_state \<times> 'a result" where
  "scall f st = (case f (st_store st) of Inl e \<Rightarrow> (st, Inl e) | Inr (s, x) \<Rightarrow> (st\<lparr>st_store := s\<rparr>, Inr x))"

definition sread :: "('s \<Rightarrow> 'a result) \<Rightarrow> 's account_state \<Rightarrow> 's account_state \<times> 'a result" where
  "sread f st = (st, f (st_store st))"

record request_env =
  rq_env :: environ
  rq_crypto :: crypto
  rq_clock :: int
  rq_uid :: string
  rq_audit_uid :: string
  rq_nonce :: string
  rq_salt :: string
  rq_delivered :: bool

section \<open>Sessions\<close>

definition env_positive_int :: "environ \<Rightarrow> string \<Rightarrow> int \<Rightarrow> int" where
  "env_positive_int env name dflt = (case parse_int (getenv env name (str_int dflt)) of
       None \<Rightarrow> dflt | Some n \<Rightarrow> if 0 < n then n else dflt)"

definition auth_secret :: "environ \<Rightarrow> string" where
  "auth_secret env = getenv env ''TENANT_AUTH_SECRET'' []"

definition verified_tenant_context ::
  "'s account_ops \<Rightarrow> environ \<Rightarrow> crypto \<Rightarrow> int \<Rightarrow> string option \<Rightarrow> 's \<Rightarrow> session_context result" where
  "verified_tenant_context ao env cr clock auth s =
     bind_res (verify_bearer_token cr clock auth (auth_secret env)) (\<lambda>c.
     case sc_version c of
       None \<Rightarrow> Inr c
     | Some v \<Rightarrow>
         bind_res (ao_by_id ao (tc_tenant_id c) (tc_user_id c) s) (\<lambda>found. case found of
           None \<Rightarrow> Inl (ValueError ''account session is no longer current'')
         | Some a \<Rightarrow>
             if \<not> truthy (get a ''active'') then Inl (ValueError ''account session is no longer current'')
             else bind_res (py_int (get_or a ''session_version'' (PyInt (- 1)))) (\<lambda>cur.
               if cur \<noteq> v then Inl (ValueError ''account session is no longer current'')
               else Inr (c\<lparr>sc_password_change := truthy (get a ''must_change_password'')\<rparr>))))"

text \<open>The header wins over the cookie.\<close>

definition request_authorization :: "string option \<Rightarrow> string option \<Rightarrow> string option" where
  "request_authorization header cookie = (case header of
       Some (c # s) \<Rightarrow> Some (c # s)
     | _ \<Rightarrow> (case cookie of Some (c # s) \<Rightarrow> Some (''Bearer '' @ c # s) | _ \<Rightarrow> None))"

definition default_session :: "environ \<Rightarrow> session_context" where
  "default_session env = (let c = default_tenant_context env in
     \<lparr>tc_tenant_id = tc_tenant_id c, tc_user_id = tc_user_id c, tc_role = tc_role c, sc_version = None,
      sc_password_change = False\<rparr>)"

definition current_tenant_context ::
  "'s account_ops \<Rightarrow> environ \<Rightarrow> crypto \<Rightarrow> int \<Rightarrow> string \<Rightarrow> string option \<Rightarrow> string option \<Rightarrow> 's \<Rightarrow> session_context result" where
  "current_tenant_context ao env cr clock path header cookie s =
     (if auth_mode env = ''off'' then Inr (default_session env)
      else if auth_mode env \<noteq> ''jwt'' then Inl (HTTPException 500 ''Unsupported auth mode'')
      else (case verified_tenant_context ao env cr clock (request_authorization header cookie) s of
          Inl (ValueError m) \<Rightarrow> Inl (HTTPException 401 ''Invalid tenant token'')
        | Inl e \<Rightarrow> Inl e
        | Inr c \<Rightarrow>
            if sc_version c \<noteq> None \<and> path \<noteq> ''/auth/change-password'' \<and> sc_password_change c
            then Inl (HTTPException 403 ''Password change is required'') else Inr c))"

definition unauthenticated_tenant_id :: string where
  "unauthenticated_tenant_id = ''__unauthenticated__''"

definition tenant_id_from_request ::
  "'s account_ops \<Rightarrow> environ \<Rightarrow> crypto \<Rightarrow> int \<Rightarrow> string option \<Rightarrow> string option \<Rightarrow> 's \<Rightarrow> string result" where
  "tenant_id_from_request ao env cr clock header cookie s =
     (if auth_mode env \<noteq> ''jwt'' then Inr (tc_tenant_id (default_tenant_context env))
      else (case verified_tenant_context ao env cr clock (request_authorization header cookie) s of
          Inl (ValueError m) \<Rightarrow> Inr unauthenticated_tenant_id
        | Inl e \<Rightarrow> Inl e
        | Inr c \<Rightarrow> Inr (tc_tenant_id c)))"

definition require_role :: "role list \<Rightarrow> session_context \<Rightarrow> session_context result" where
  "require_role allowed c =
     (if tc_role c \<in> set allowed then Inr c else Inl (HTTPException 403 ''Role is not allowed for this action''))"

definition ingest_auth :: "role list" where
  "ingest_auth = [OWNER, MANAGER, INVENTORY]"

definition approval_auth :: "role list" where
  "approval_auth = [OWNER, EXECUTIVE, MANAGER]"

definition worker_auth :: "role list" where
  "worker_auth = [OWNER, MANAGER]"

definition owner_auth :: "role list" where
  "owner_auth = [OWNER]"

definition write_path_guard :: "environ \<Rightarrow> string option \<Rightarrow> unit result" where
  "write_path_guard env key = (let expected = getenv env ''API_KEY'' [] in
     if expected \<noteq> [] \<and> key \<noteq> Some expected then Inl (HTTPException 401 ''Invalid or missing API key'') else Inr ())"

definition is_production_deployment :: "environ \<Rightarrow> bool" where
  "is_production_deployment env \<longleftrightarrow>
     lower (strip (getenv env ''APP_ENV'' ''local'')) \<in> {''production'', ''prod'', ''staging'', ''stage''}"

definition worker_internal_guard :: "environ \<Rightarrow> string option \<Rightarrow> unit result" where
  "worker_internal_guard env key =
     (if \<not> is_production_deployment env then Inr ()
      else (let expected = getenv env ''SHELFWISE_WORKER_API_KEY'' [] in
        if expected = [] then Inl (HTTPException 503 ''Worker control plane is unavailable'')
        else (case key of
            Some (c # s) \<Rightarrow> bind_res (compare_digest (c # s) expected) (\<lambda>same.
              if same then Inr () else Inl (HTTPException 401 ''Invalid worker credential''))
          | _ \<Rightarrow> Inl (HTTPException 401 ''Invalid worker credential''))))"

definition cookie_secure_setting :: "environ \<Rightarrow> bool result" where
  "cookie_secure_setting env =
     (let raw = lower (strip (getenv env ''SHELFWISE_COOKIE_SECURE'' ''true'')) in
      if raw \<in> {''1'', ''true'', ''yes'', ''on''} then Inr True
      else if raw \<in> {''0'', ''false'', ''no'', ''off''} then Inr False
      else Inl (RuntimeError ''SHELFWISE_COOKIE_SECURE must be a boolean value: true or false''))"

section \<open>Bodies\<close>

definition text_field :: "nat \<Rightarrow> nat \<Rightarrow> string \<Rightarrow> bool" where
  "text_field lo hi s \<longleftrightarrow> lo \<le> length s \<and> length s \<le> hi"

record login_body =
  lb_email :: string
  lb_password :: string

definition login_body_valid :: "login_body \<Rightarrow> bool" where
  "login_body_valid b \<longleftrightarrow> text_field 3 200 (lb_email b) \<and> text_field 1 500 (lb_password b)"

record identity_body =
  ib_email :: string
  ib_given :: string
  ib_surname :: string
  ib_position :: string

definition identity_valid :: "'x identity_body_scheme \<Rightarrow> bool" where
  "identity_valid b \<longleftrightarrow> text_field 3 200 (ib_email b) \<and> text_field 1 100 (ib_given b) \<and>
     text_field 1 100 (ib_surname b) \<and> text_field 1 120 (ib_position b)"

record invite_body = identity_body +
  iv_role :: role

record create_body = invite_body +
  cb_password :: string

definition create_body_valid :: "create_body \<Rightarrow> bool" where
  "create_body_valid b \<longleftrightarrow> identity_valid b \<and> text_field 12 500 (cb_password b)"

definition password_pair_valid :: "string \<Rightarrow> string \<Rightarrow> bool" where
  "password_pair_valid p q \<longleftrightarrow> text_field 12 500 p \<and> text_field 12 500 q \<and> p = q"

record activate_body = identity_body +
  ab_token :: string
  ab_password :: string
  ab_confirmation :: string

definition activate_body_valid :: "activate_body \<Rightarrow> bool" where
  "activate_body_valid b \<longleftrightarrow> identity_valid b \<and> text_field 20 4096 (ab_token b) \<and>
     password_pair_valid (ab_password b) (ab_confirmation b)"

record bootstrap_body = identity_body +
  bb_company :: string
  bb_password :: string
  bb_confirmation :: string

definition bootstrap_body_valid :: "bootstrap_body \<Rightarrow> bool" where
  "bootstrap_body_valid b \<longleftrightarrow> identity_valid b \<and> text_field 1 120 (bb_company b) \<and>
     password_pair_valid (bb_password b) (bb_confirmation b)"

section \<open>Shared steps of the routes\<close>

definition account_payload ::
  "request_env \<Rightarrow> string \<Rightarrow> 'x identity_body_scheme \<Rightarrow> role \<Rightarrow> string \<Rightarrow> pydict result" where
  "account_payload rq tenant b rl password =
     bind_res (scrypt_password_hash (rq_crypto rq) password (rq_salt rq)) (\<lambda>h.
     Inr [(''tenant_id'', PyStr tenant), (''email'', PyStr (ib_email b)), (''given_name'', PyStr (ib_given b)),
          (''surname'', PyStr (ib_surname b)), (''position'', PyStr (ib_position b)), (''role'', PyStr (role_value rl)),
          (''password_hash'', PyStr h), (''active'', PyBool True), (''status'', PyStr ''active'')])"

record session_response =
  sr_session :: pydict
  sr_token :: string
  sr_lifetime :: int
  sr_secure :: bool

definition account_session_response :: "request_env \<Rightarrow> pydict \<Rightarrow> session_response result" where
  "account_session_response rq a =
     (let secret = auth_secret (rq_env rq) in
      if secret = [] then Inl (HTTPException 503 ''Tenant authentication is unavailable'')
      else bind_res (role_of (py_str (get a ''role''))) (\<lambda>rl.
        bind_res (py_int (get a ''session_version'')) (\<lambda>v.
        let c = \<lparr>tc_tenant_id = py_str (get a ''tenant_id''), tc_user_id = py_str (get a ''id''), tc_role = rl,
                 sc_version = Some v, sc_password_change = False\<rparr>;
            lifetime = env_positive_int (rq_env rq) ''SHELFWISE_LOGIN_SESSION_SECONDS'' 43200;
            token = encode_hs256_token (rq_crypto rq)
              (token_claims c @ [(''exp'', PyInt (unix_time (rq_clock rq) + lifetime))]) secret
        in bind_res (cookie_secure_setting (rq_env rq)) (\<lambda>secure.
           Inr \<lparr>sr_session = session_dict c @ [(''must_change_password'', PyBool (truthy (get_or a ''must_change_password'' (PyBool False))))],
                sr_token = token, sr_lifetime = lifetime, sr_secure = secure\<rparr>))))"

definition email_configured :: "environ \<Rightarrow> bool" where
  "email_configured env \<longleftrightarrow>
     list_all (\<lambda>k. strip (getenv env k []) \<noteq> []) [''SHELFWISE_SMTP_HOST'', ''SHELFWISE_SMTP_FROM'', ''SHELFWISE_PUBLIC_APP_URL'']"

definition require_email_delivery :: "request_env \<Rightarrow> 's \<Rightarrow> 's \<times> unit result" where
  "require_email_delivery rq = hguard (email_configured (rq_env rq)) 503 ''Work-account email delivery is not configured''"

text \<open>A message that was handed to the mail server is in the outbox: recipient, purpose, token.\<close>

definition send_account_link ::
  "request_env \<Rightarrow> string \<Rightarrow> string \<Rightarrow> string \<Rightarrow> 's account_state \<Rightarrow> 's account_state \<times> unit result" where
  "send_account_link rq recipient purpose token st =
     (if \<not> email_configured (rq_env rq)
      then (st, Inl (HTTPException 503 ''Work-account email delivery is not configured''))
      else if \<not> rq_delivered rq then (st, Inl (HTTPException 503 ''Work-account email could not be delivered''))
      else (st\<lparr>st_outbox := st_outbox st @ [(recipient, purpose, token)]\<rparr>, Inr ()))"

definition issue_and_send_account_link ::
  "'s account_ops \<Rightarrow> request_env \<Rightarrow> pydict \<Rightarrow> bool \<Rightarrow> 's account_state \<Rightarrow> 's account_state \<times> unit result" where
  "issue_and_send_account_link ao rq a activation =
     (let tenant = py_str (get a ''tenant_id''); i = py_str (get a ''id'');
          purpose = (if activation then ''activation'' else ''password_reset'');
          lifetime = (if activation then env_positive_int (rq_env rq) ''SHELFWISE_INVITATION_SECONDS'' 86400
                      else env_positive_int (rq_env rq) ''SHELFWISE_PASSWORD_RESET_SECONDS'' 3600)
      in hbind (hres (issue_account_token (rq_crypto rq) (rq_clock rq) (rq_nonce rq) purpose tenant i
           (auth_secret (rq_env rq)) lifetime)) (\<lambda>it.
         hbind (scall (if activation then ao_set_invitation ao (rq_clock rq) tenant i (it_hash it) (it_expires_at it)
                       else ao_set_reset ao (rq_clock rq) tenant i (it_hash it) (it_expires_at it))) (\<lambda>stored.
         hbind (hguard (stored \<noteq> None) 404 ''Work account not found'') (\<lambda>_.
         send_account_link rq (py_str (get a ''email'')) (if activation then ''activate'' else ''reset-password'') (it_token it)))))"

definition verified_token :: "request_env \<Rightarrow> string \<Rightarrow> bool \<Rightarrow> (string \<times> string) result" where
  "verified_token rq token activation =
     (case verify_account_token (rq_crypto rq) (rq_clock rq) token
         (if activation then ''activation'' else ''password_reset'') (auth_secret (rq_env rq)) of
        Inl (ValueError m) \<Rightarrow> Inl (HTTPException 400
          (if activation then ''Invalid or expired invitation'' else ''Invalid or expired password reset''))
      | r \<Rightarrow> r)"

definition identity_matches :: "pydict \<Rightarrow> 'x identity_body_scheme \<Rightarrow> bool result" where
  "identity_matches a b =
     bind_res (compare_digest (py_str (get a ''email'')) (lower (strip (ib_email b)))) (\<lambda>x1. if \<not> x1 then Inr False else
     bind_res (compare_digest (py_str (get a ''given_name'')) (strip (ib_given b))) (\<lambda>x2. if \<not> x2 then Inr False else
     bind_res (compare_digest (py_str (get a ''surname'')) (strip (ib_surname b))) (\<lambda>x3. if \<not> x3 then Inr False else
     compare_digest (py_str (get a ''position'')) (strip (ib_position b)))))"

definition reject_owner_role :: "role \<Rightarrow> 's \<Rightarrow> 's \<times> unit result" where
  "reject_owner_role rl = hguard (rl \<noteq> OWNER) 422 ''Additional owners require an operator-reviewed recovery process''"

definition audit ::
  "'s account_ops \<Rightarrow> request_env \<Rightarrow> string \<Rightarrow> string \<Rightarrow> string \<Rightarrow> string \<Rightarrow> 's account_state \<Rightarrow> 's account_state \<times> pydict result" where
  "audit ao rq tenant action account actor =
     scall (ao_record_audit ao (rq_audit_uid rq) (rq_clock rq) tenant action account actor)"

text \<open>Reads the account back with its private fields and answers with a session.\<close>

definition respond_with_session ::
  "'s account_ops \<Rightarrow> request_env \<Rightarrow> string \<Rightarrow> string \<Rightarrow> string \<Rightarrow> 's account_state \<Rightarrow> 's account_state \<times> session_response result" where
  "respond_with_session ao rq tenant i failure =
     hbind (sread (ao_by_id ao tenant i)) (\<lambda>found. case found of
         None \<Rightarrow> hraise (HTTPException 500 failure)
       | Some a \<Rightarrow> hres (account_session_response rq a))"

section \<open>Signing in\<close>

definition account_setup_status :: "'s account_ops \<Rightarrow> environ \<Rightarrow> 's \<Rightarrow> bool result" where
  "account_setup_status ao env s =
     bind_res (ao_list ao (tc_tenant_id (default_tenant_context env)) s) (\<lambda>rows. Inr (rows = []))"

definition upsert_profile :: "int \<Rightarrow> pydict \<Rightarrow> 's account_state \<Rightarrow> 's account_state \<times> pydict result" where
  "upsert_profile clock p st = (case tp_upsert clock p (st_profiles st) of
       Inl e \<Rightarrow> (st, Inl e) | Inr (ps, r) \<Rightarrow> (st\<lparr>st_profiles := ps\<rparr>, Inr r))"

definition bootstrap_client_owner ::
  "'s account_ops \<Rightarrow> request_env \<Rightarrow> bootstrap_body \<Rightarrow> string option \<Rightarrow> 's account_state \<Rightarrow>
   's account_state \<times> session_response result" where
  "bootstrap_client_owner ao rq b key =
     (let expected = getenv (rq_env rq) ''SHELFWISE_PLATFORM_BOOTSTRAP_KEY'' [];
          tenant = tc_tenant_id (default_tenant_context (rq_env rq)) in
      hbind (hguard (expected \<noteq> []) 503 ''Platform bootstrap is not configured'') (\<lambda>_.
      hbind (hres (case key of
          Some (c # s) \<Rightarrow> compare_digest (c # s) expected
        | _ \<Rightarrow> Inr False)) (\<lambda>same.
      hbind (hguard same 401 ''Invalid platform bootstrap credential'') (\<lambda>_.
      hbind (hguard (auth_secret (rq_env rq) \<noteq> []) 503 ''Tenant authentication is unavailable'') (\<lambda>_.
      hbind (hcatch 409
        (hbind (hres (account_payload rq tenant b OWNER (bb_password b))) (\<lambda>payload.
         hbind (scall (ao_first_owner ao (rq_uid rq) (rq_clock rq) payload)) (\<lambda>account.
         hbind (hres (default_tenant_profile (rq_clock rq) tenant (Some (bb_company b)))) (\<lambda>profile.
         hbind (upsert_profile (rq_clock rq) (dict_set ''name'' (PyStr (bb_company b)) profile)) (\<lambda>_.
         hret account)))))) (\<lambda>account.
      hbind (audit ao rq tenant ''platform_owner_bootstrapped'' (py_str (get account ''id'')) ''platform_bootstrap'') (\<lambda>_.
      respond_with_session ao rq tenant (py_str (get account ''id'')) ''Platform bootstrap could not be completed'')))))))"

definition legacy_credentials :: "request_env \<Rightarrow> login_body \<Rightarrow> bool result" where
  "legacy_credentials rq b =
     (let env = rq_env rq; email = lower (strip (getenv env ''SHELFWISE_LOGIN_EMAIL'' []));
          h = strip (getenv env ''SHELFWISE_LOGIN_PASSWORD_HASH'' []) in
      if auth_secret env = [] \<or> email = [] \<or> h = [] then Inr False
      else login_credentials_valid (rq_crypto rq) (lb_email b) (lb_password b) email h)"

definition legacy_identity :: "environ \<Rightarrow> identity_body" where
  "legacy_identity env = \<lparr>ib_email = lower (strip (getenv env ''SHELFWISE_LOGIN_EMAIL'' [])),
     ib_given = getenv env ''SHELFWISE_LOGIN_GIVEN_NAME'' ''Legacy'', ib_surname = getenv env ''SHELFWISE_LOGIN_SURNAME'' ''Owner'',
     ib_position = getenv env ''SHELFWISE_LOGIN_POSITION'' ''Business Owner''\<rparr>"

text \<open>The account that the \<open>try\<close> block creates or, when the creation raises \<open>ValueError\<close>, finds.\<close>

definition legacy_create_or_find ::
  "'s account_ops \<Rightarrow> request_env \<Rightarrow> login_body \<Rightarrow> string \<Rightarrow> bool \<Rightarrow> 's account_state \<Rightarrow> 's account_state \<times> pydict option result" where
  "legacy_create_or_find ao rq b tenant others st =
     (case hbind (hres (account_payload rq tenant (legacy_identity (rq_env rq)) OWNER (lb_password b))) (\<lambda>payload.
         scall (if others then ao_create ao (rq_uid rq) (rq_clock rq) payload
                else ao_first_owner ao (rq_uid rq) (rq_clock rq) payload)) st of
        (st', Inr account) \<Rightarrow> (st', Inr (Some account))
      | (st', Inl (ValueError m)) \<Rightarrow> sread (ao_by_email ao tenant (ib_email (legacy_identity (rq_env rq)))) st'
      | (st', Inl e) \<Rightarrow> (st', Inl e))"

definition migrate_or_recover_legacy_owner ::
  "'s account_ops \<Rightarrow> request_env \<Rightarrow> login_body \<Rightarrow> string \<Rightarrow> 's account_state \<Rightarrow> 's account_state \<times> pydict option result" where
  "migrate_or_recover_legacy_owner ao rq b tenant =
     hbind (hres (legacy_credentials rq b)) (\<lambda>valid.
     if \<not> valid then hret None
     else hbind (sread (ao_list ao tenant)) (\<lambda>existing.
       if existing \<noteq> [] \<and> lower (strip (getenv (rq_env rq) ''SHELFWISE_LEGACY_OWNER_RECOVERY_ENABLED'' [])) \<noteq> ''true''
       then hret None
       else hbind (legacy_create_or_find ao rq b tenant (existing \<noteq> [])) (\<lambda>found. case found of
           None \<Rightarrow> hret None
         | Some account \<Rightarrow>
             hbind (audit ao rq tenant ''legacy_owner_migrated'' (py_str (get account ''id'')) ''system:legacy_migration'') (\<lambda>_.
             sread (ao_by_id ao tenant (py_str (get account ''id'')))))))"

definition company_login ::
  "'s account_ops \<Rightarrow> request_env \<Rightarrow> login_body \<Rightarrow> 's account_state \<Rightarrow> 's account_state \<times> session_response result" where
  "company_login ao rq b =
     (let tenant = tc_tenant_id (default_tenant_context (rq_env rq)) in
      hbind (sread (ao_by_email ao tenant (lb_email b))) (\<lambda>found. case found of
        Some a \<Rightarrow>
          if \<not> truthy (get a ''active'') then hraise (HTTPException 401 ''Invalid credentials'')
          else hbind (hres (login_credentials_valid (rq_crypto rq) (lb_email b) (lb_password b)
                 (py_str (get a ''email'')) (py_str (get a ''password_hash'')))) (\<lambda>valid.
               if \<not> valid then hraise (HTTPException 401 ''Invalid credentials'')
               else hres (account_session_response rq a))
      | None \<Rightarrow>
          hbind (migrate_or_recover_legacy_owner ao rq b tenant) (\<lambda>legacy. case legacy of
            Some a \<Rightarrow> hres (account_session_response rq a)
          | None \<Rightarrow>
              hbind (sread (ao_list ao tenant)) (\<lambda>rows.
              if rows = [] \<and> strip (getenv (rq_env rq) ''SHELFWISE_LOGIN_EMAIL'' []) = []
              then hraise (HTTPException 503 ''Company login is not configured'')
              else hraise (HTTPException 401 ''Invalid credentials'')))))"

definition activate_invitation ::
  "'s account_ops \<Rightarrow> request_env \<Rightarrow> activate_body \<Rightarrow> 's account_state \<Rightarrow> 's account_state \<times> session_response result" where
  "activate_invitation ao rq b =
     hbind (hres (verified_token rq (ab_token b) True)) (\<lambda>(tenant, i).
     hbind (sread (ao_by_id ao tenant i)) (\<lambda>found.
     hbind (hres (case found of None \<Rightarrow> Inr False | Some a \<Rightarrow> identity_matches a b)) (\<lambda>same.
     hbind (hguard same 400 ''Invalid or expired invitation'') (\<lambda>_.
     hbind (hres (scrypt_password_hash (rq_crypto rq) (ab_password b) (rq_salt rq))) (\<lambda>ph.
     hbind (scall (ao_activate ao (rq_clock rq) tenant i (token_digest (rq_crypto rq) (ab_token b)) ph)) (\<lambda>activated.
     hbind (hguard (activated \<noteq> None) 400 ''Invalid or expired invitation'') (\<lambda>_.
     hbind (audit ao rq tenant ''invitation_activated'' i i) (\<lambda>_.
     respond_with_session ao rq tenant i ''Account activation could not be completed''))))))))"

definition request_password_reset ::
  "'s account_ops \<Rightarrow> request_env \<Rightarrow> string \<Rightarrow> 's account_state \<Rightarrow> 's account_state \<times> string result" where
  "request_password_reset ao rq email =
     (let tenant = tc_tenant_id (default_tenant_context (rq_env rq)) in
      hbind (require_email_delivery rq) (\<lambda>_.
      hbind (sread (ao_by_email ao tenant email)) (\<lambda>found. case found of
        None \<Rightarrow> hret ''accepted''
      | Some a \<Rightarrow>
          if \<not> truthy (get a ''active'') then hret ''accepted''
          else hbind (issue_and_send_account_link ao rq a False) (\<lambda>_.
               hbind (audit ao rq tenant ''password_reset_requested'' (py_str (get a ''id'')) (py_str (get a ''id''))) (\<lambda>_.
               hret ''accepted'')))))"

definition consume_password_reset ::
  "'s account_ops \<Rightarrow> request_env \<Rightarrow> string \<Rightarrow> string \<Rightarrow> 's account_state \<Rightarrow> 's account_state \<times> session_response result" where
  "consume_password_reset ao rq token password =
     hbind (hres (verified_token rq token False)) (\<lambda>(tenant, i).
     hbind (hres (scrypt_password_hash (rq_crypto rq) password (rq_salt rq))) (\<lambda>ph.
     hbind (scall (ao_consume_reset ao (rq_clock rq) tenant i (token_digest (rq_crypto rq) token) ph)) (\<lambda>account.
     hbind (hguard (account \<noteq> None) 400 ''Invalid or expired password reset'') (\<lambda>_.
     hbind (audit ao rq tenant ''password_reset_completed'' i i) (\<lambda>_.
     respond_with_session ao rq tenant i ''Password reset could not be completed'')))))"

definition change_own_password ::
  "'s account_ops \<Rightarrow> request_env \<Rightarrow> string \<Rightarrow> string \<Rightarrow> session_context \<Rightarrow> 's account_state \<Rightarrow>
   's account_state \<times> session_response result" where
  "change_own_password ao rq current password c =
     hbind (sread (ao_by_id ao (tc_tenant_id c) (tc_user_id c))) (\<lambda>found.
     hbind (hres (case found of
         None \<Rightarrow> Inr False
       | Some a \<Rightarrow> login_credentials_valid (rq_crypto rq) (py_str (get a ''email'')) current
           (py_str (get a ''email'')) (py_str (get a ''password_hash'')))) (\<lambda>valid.
     hbind (hguard valid 401 ''Invalid credentials'') (\<lambda>_.
     hbind (hres (scrypt_password_hash (rq_crypto rq) password (rq_salt rq))) (\<lambda>ph.
     hbind (scall (ao_set_password ao (rq_clock rq) (tc_tenant_id c) (tc_user_id c) ph)) (\<lambda>updated.
     hbind (hguard (updated \<noteq> None) 404 ''Work account not found'') (\<lambda>_.
     hbind (audit ao rq (tc_tenant_id c) ''password_changed'' (tc_user_id c) (tc_user_id c)) (\<lambda>_.
     respond_with_session ao rq (tc_tenant_id c) (tc_user_id c) ''Password change could not be completed'')))))))"

section \<open>Routes of the owner\<close>

definition list_work_accounts :: "'s account_ops \<Rightarrow> session_context \<Rightarrow> 's \<Rightarrow> pydict list result" where
  "list_work_accounts ao c s = ao_list ao (tc_tenant_id c) s"

definition list_account_audit :: "'s account_ops \<Rightarrow> session_context \<Rightarrow> 's \<Rightarrow> pydict list result" where
  "list_account_audit ao c s = ao_list_audit ao 100 (tc_tenant_id c) s"

definition create_work_account ::
  "'s account_ops \<Rightarrow> request_env \<Rightarrow> create_body \<Rightarrow> session_context \<Rightarrow> 's account_state \<Rightarrow> 's account_state \<times> pydict result" where
  "create_work_account ao rq b c =
     hbind (reject_owner_role (iv_role b)) (\<lambda>_.
     hbind (hcatch 422
       (hbind (hres (account_payload rq (tc_tenant_id c) b (iv_role b) (cb_password b))) (\<lambda>payload.
        scall (ao_create ao (rq_uid rq) (rq_clock rq) (dict_set ''must_change_password'' (PyBool True) payload))))) (\<lambda>account.
     hbind (audit ao rq (tc_tenant_id c) ''account_created'' (py_str (get account ''id'')) (tc_user_id c)) (\<lambda>_.
     hret account)))"

definition invite_payload :: "string \<Rightarrow> invite_body \<Rightarrow> pydict" where
  "invite_payload tenant b =
     [(''tenant_id'', PyStr tenant), (''email'', PyStr (ib_email b)), (''given_name'', PyStr (ib_given b)),
      (''surname'', PyStr (ib_surname b)), (''position'', PyStr (ib_position b)),
      (''role'', PyStr (role_value (iv_role b))), (''active'', PyBool False), (''status'', PyStr ''invited'')]"

definition invite_work_account ::
  "'s account_ops \<Rightarrow> request_env \<Rightarrow> invite_body \<Rightarrow> session_context \<Rightarrow> 's account_state \<Rightarrow> 's account_state \<times> pydict result" where
  "invite_work_account ao rq b c =
     hbind (reject_owner_role (iv_role b)) (\<lambda>_.
     hbind (require_email_delivery rq) (\<lambda>_.
     hbind (hcatch 422 (scall (ao_create ao (rq_uid rq) (rq_clock rq) (invite_payload (tc_tenant_id c) b)))) (\<lambda>account.
     hbind (sread (ao_by_id ao (tc_tenant_id c) (py_str (get account ''id'')))) (\<lambda>found. case found of
       None \<Rightarrow> hraise (HTTPException 500 ''Invitation could not be created'')
     | Some a \<Rightarrow>
         hbind (issue_and_send_account_link ao rq a True) (\<lambda>_.
         hbind (audit ao rq (tc_tenant_id c) ''account_invited'' (py_str (get account ''id'')) (tc_user_id c)) (\<lambda>_.
         hret account))))))"

text \<open>The account a route is for, or 404.\<close>

definition find_account ::
  "'s account_ops \<Rightarrow> string \<Rightarrow> session_context \<Rightarrow> (pydict \<Rightarrow> 's account_state \<Rightarrow> 's account_state \<times> 'b result) \<Rightarrow>
   's account_state \<Rightarrow> 's account_state \<times> 'b result" where
  "find_account ao i c k =
     hbind (sread (ao_by_id ao (tc_tenant_id c) i)) (\<lambda>found. case found of
         None \<Rightarrow> hraise (HTTPException 404 ''Work account not found'')
       | Some a \<Rightarrow> k a)"

definition resend_work_account_invitation ::
  "'s account_ops \<Rightarrow> request_env \<Rightarrow> string \<Rightarrow> session_context \<Rightarrow> 's account_state \<Rightarrow> 's account_state \<times> string result" where
  "resend_work_account_invitation ao rq i c =
     hbind (require_email_delivery rq) (\<lambda>_.
     find_account ao i c (\<lambda>a.
     hbind (hguard (get a ''status'' = PyStr ''invited'') 409 ''Only pending invitations can be resent'') (\<lambda>_.
     hbind (issue_and_send_account_link ao rq a True) (\<lambda>_.
     hbind (audit ao rq (tc_tenant_id c) ''invitation_resent'' i (tc_user_id c)) (\<lambda>_.
     hret ''sent'')))))"

definition owner_password_reset ::
  "'s account_ops \<Rightarrow> request_env \<Rightarrow> string \<Rightarrow> session_context \<Rightarrow> 's account_state \<Rightarrow> 's account_state \<times> string result" where
  "owner_password_reset ao rq i c =
     hbind (require_email_delivery rq) (\<lambda>_.
     find_account ao i c (\<lambda>a.
     hbind (issue_and_send_account_link ao rq a False) (\<lambda>_.
     hbind (audit ao rq (tc_tenant_id c) ''password_reset_requested_by_owner'' i (tc_user_id c)) (\<lambda>_.
     hret ''sent''))))"

definition active_owner :: "pydict \<Rightarrow> bool" where
  "active_owner a \<longleftrightarrow> get a ''role'' = PyStr ''owner'' \<and> truthy (get a ''active'')"

definition deactivate_work_account ::
  "'s account_ops \<Rightarrow> request_env \<Rightarrow> string \<Rightarrow> session_context \<Rightarrow> 's account_state \<Rightarrow> 's account_state \<times> pydict option result" where
  "deactivate_work_account ao rq i c =
     hbind (hguard (i \<noteq> tc_user_id c) 409 ''Owners cannot deactivate their own account'') (\<lambda>_.
     find_account ao i c (\<lambda>a.
     hbind (if get a ''role'' = PyStr ''owner''
            then hbind (sread (ao_list ao (tc_tenant_id c))) (\<lambda>rows.
                 hguard (1 < length (filter active_owner rows)) 409 ''The last active owner cannot be deactivated'')
            else hret ()) (\<lambda>_.
     hbind (scall (ao_set_active ao (rq_clock rq) (tc_tenant_id c) i False)) (\<lambda>account.
     hbind (audit ao rq (tc_tenant_id c) ''account_deactivated'' i (tc_user_id c)) (\<lambda>_.
     hret account)))))"

definition reactivate_work_account ::
  "'s account_ops \<Rightarrow> request_env \<Rightarrow> string \<Rightarrow> session_context \<Rightarrow> 's account_state \<Rightarrow> 's account_state \<times> pydict option result" where
  "reactivate_work_account ao rq i c =
     find_account ao i c (\<lambda>a.
     hbind (hguard (get a ''status'' \<noteq> PyStr ''invited'') 409 ''Resend the pending invitation instead'') (\<lambda>_.
     hbind (scall (ao_set_active ao (rq_clock rq) (tc_tenant_id c) i True)) (\<lambda>account.
     hbind (audit ao rq (tc_tenant_id c) ''account_reactivated'' i (tc_user_id c)) (\<lambda>_.
     hret account))))"

definition change_work_account_role ::
  "'s account_ops \<Rightarrow> request_env \<Rightarrow> string \<Rightarrow> role \<Rightarrow> session_context \<Rightarrow> 's account_state \<Rightarrow> 's account_state \<times> pydict option result" where
  "change_work_account_role ao rq i rl c =
     hbind (reject_owner_role rl) (\<lambda>_.
     find_account ao i c (\<lambda>a.
     hbind (hguard (get a ''role'' \<noteq> PyStr ''owner'') 409 ''The bootstrap owner role cannot be changed'') (\<lambda>_.
     hbind (scall (ao_set_role ao (rq_clock rq) (tc_tenant_id c) i (role_value rl))) (\<lambda>account.
     hbind (audit ao rq (tc_tenant_id c) ''account_role_changed'' i (tc_user_id c)) (\<lambda>_.
     hret account)))))"

section \<open>Handlers that go through\<close>

lemma h_Inr [simp]:
  "hret x s = (s', Inr y) \<longleftrightarrow> s' = s \<and> y = x"
  "\<not> hraise e s = (s', Inr y)"
  "hres r s = (s', Inr y) \<longleftrightarrow> s' = s \<and> r = Inr y"
  "hguard b code m s = (s', Inr u) \<longleftrightarrow> s' = s \<and> b"
  "sread f st = (st', Inr y) \<longleftrightarrow> st' = st \<and> f (st_store st) = Inr y"
  by (auto simp: hret_def hraise_def hres_def hguard_def sread_def)

lemma hbind_Inr: "hbind m f s = (s', Inr y) \<longleftrightarrow> (\<exists>s1 x. m s = (s1, Inr x) \<and> f x s1 = (s', Inr y))"
  by (auto simp: hbind_def split: prod.splits sum.splits)

lemma scall_Inr: "scall f st = (st', Inr y) \<longleftrightarrow> (\<exists>s. f (st_store st) = Inr (s, y) \<and> st' = st\<lparr>st_store := s\<rparr>)"
  by (auto simp: scall_def split: sum.splits)

lemma find_account_Inr:
  "find_account ao i c k st = (st', Inr y) \<longleftrightarrow>
   (\<exists>a. ao_by_id ao (tc_tenant_id c) i (st_store st) = Inr (Some a) \<and> k a st = (st', Inr y))"
  by (auto simp: find_account_def hbind_Inr split: option.splits)

lemmas h_through = hbind_Inr scall_Inr find_account_Inr

lemma audit_Inr:
  "audit ao rq t action i actor st = (st', Inr y) \<Longrightarrow>
   st_store st' = account_run ao [(rq_clock rq, OpAudit (rq_audit_uid rq) t action i actor)] (st_store st)"
  by (auto simp: audit_def scall_Inr new_state_def)

lemma session_response_same:
  "respond_with_session ao rq t i m st = (st', Inr r) \<Longrightarrow> st' = st"
  by (auto simp: respond_with_session_def hbind_Inr split: option.splits)

text \<open>The three routes that end an account's sessions change the account first and write the audit trail after.\<close>

definition ends_sessions ::
  "'s account_ops \<Rightarrow> request_env \<Rightarrow> session_context \<Rightarrow> string \<Rightarrow> 's account_state \<Rightarrow> 's account_state \<Rightarrow> bool" where
  "ends_sessions ao rq c i st st' \<longleftrightarrow>
     (\<exists>r. deactivate_work_account ao rq i c st = (st', Inr r)) \<or>
     (\<exists>rl r. change_work_account_role ao rq i rl c st = (st', Inr r)) \<or>
     (\<exists>cur new r. i = tc_user_id c \<and> change_own_password ao rq cur new c st = (st', Inr r))"

lemma ends_sessions_step:
  assumes "ends_sessions ao rq c i st st'"
  obtains op a s1 action where "account_step ao (rq_clock rq) op (st_store st) = Inr s1"
    "op_target op = Some (strip (tc_tenant_id c), i)"
    "op_revokes op"
    "ao_by_id ao (tc_tenant_id c) i (st_store st) = Inr (Some a)"
    "st_store st' = account_run ao [(rq_clock rq, OpAudit (rq_audit_uid rq) (tc_tenant_id c) action i (tc_user_id c))] s1"
proof -
  from assms consider (off) r where "deactivate_work_account ao rq i c st = (st', Inr r)"
    | (role) rl r where "change_work_account_role ao rq i rl c st = (st', Inr r)"
    | (own) cur new r where "i = tc_user_id c" "change_own_password ao rq cur new c st = (st', Inr r)"
    unfolding ends_sessions_def by blast
  then show thesis
  proof cases
    case off
    then obtain a s1 out r' where a: "ao_by_id ao (tc_tenant_id c) i (st_store st) = Inr (Some a)"
      and s1: "ao_set_active ao (rq_clock rq) (tc_tenant_id c) i False (st_store st) = Inr (s1, out)"
      and fin: "audit ao rq (tc_tenant_id c) ''account_deactivated'' i (tc_user_id c) (st\<lparr>st_store := s1\<rparr>) = (st', Inr r')"
      by (auto simp: deactivate_work_account_def h_through split: if_splits)
    show thesis
      by (rule that [of "OpActive (tc_tenant_id c) i False" s1 a "''account_deactivated''"])
        (use a s1 audit_Inr [OF fin] in \<open>simp_all add: new_state_def\<close>)
  next
    case role
    then obtain a s1 out r' where a: "ao_by_id ao (tc_tenant_id c) i (st_store st) = Inr (Some a)"
      and s1: "ao_set_role ao (rq_clock rq) (tc_tenant_id c) i (role_value rl) (st_store st) = Inr (s1, out)"
      and fin: "audit ao rq (tc_tenant_id c) ''account_role_changed'' i (tc_user_id c) (st\<lparr>st_store := s1\<rparr>) = (st', Inr r')"
      by (auto simp: change_work_account_role_def reject_owner_role_def h_through)
    show thesis
      by (rule that [of "OpRole (tc_tenant_id c) i (role_value rl)" s1 a "''account_role_changed''"])
        (use a s1 audit_Inr [OF fin] in \<open>simp_all add: new_state_def\<close>)
  next
    case own
    from own(2) obtain a s1 out ph r' where a: "ao_by_id ao (tc_tenant_id c) (tc_user_id c) (st_store st) = Inr (Some a)"
      and s1: "ao_set_password ao (rq_clock rq) (tc_tenant_id c) (tc_user_id c) ph (st_store st) = Inr (s1, out)"
      and fin: "audit ao rq (tc_tenant_id c) ''password_changed'' (tc_user_id c) (tc_user_id c) (st\<lparr>st_store := s1\<rparr>) = (st', Inr r')"
      by (auto simp: change_own_password_def h_through split: option.splits dest!: session_response_same)
    show thesis
      by (rule that [of "OpPassword (tc_tenant_id c) (tc_user_id c) ph" s1 a "''password_changed''"])
        (use a s1 audit_Inr [OF fin] own(1) in \<open>simp_all add: new_state_def\<close>)
  qed
qed

lemma account_run_append: "account_run ao (xs @ ys) s = account_run ao ys (account_run ao xs s)"
  by (induction xs arbitrary: s) auto

lemma fresh_run_append: "fresh_run ao (xs @ ys) s \<longleftrightarrow> fresh_run ao xs s \<and> fresh_run ao ys (account_run ao xs s)"
  by (induction xs arbitrary: s) auto

lemma consume_goes_through:
  assumes "consume_password_reset ao rq token pw st = (st', Inr r)"
  obtains t i ph s1 acc z where "verified_token rq token False = Inr (t, i)"
    "ao_consume_reset ao (rq_clock rq) t i (token_digest (rq_crypto rq) token) ph (st_store st) = Inr (s1, Some acc)"
    "audit ao rq t ''password_reset_completed'' i i (st\<lparr>st_store := s1\<rparr>) = (st', Inr z)"
  using assms by (auto simp: consume_password_reset_def h_through dest!: session_response_same)

lemma activate_goes_through:
  assumes "activate_invitation ao rq b st = (st', Inr r)"
  obtains t i ph s1 acc z where "verified_token rq (ab_token b) True = Inr (t, i)"
    "ao_activate ao (rq_clock rq) t i (token_digest (rq_crypto rq) (ab_token b)) ph (st_store st) = Inr (s1, Some acc)"
    "audit ao rq t ''invitation_activated'' i i (st\<lparr>st_store := s1\<rparr>) = (st', Inr z)"
  using assms by (auto simp: activate_invitation_def h_through dest!: session_response_same)

lemma decode_same:
  "decode_hs256_claims cr c1 token secret = Inr p \<Longrightarrow> decode_hs256_claims cr c2 token secret = Inr q \<Longrightarrow> p = q"
  by (auto simp: decode_hs256_claims_def bind_res_Inr_iff split: if_splits list.splits)

lemma verified_token_same:
  assumes "rq_crypto rq' = rq_crypto rq" "auth_secret (rq_env rq') = auth_secret (rq_env rq)"
    and "verified_token rq token b = Inr x" "verified_token rq' token b = Inr y"
  shows "y = x"
proof -
  have "x = y" if 1: "verify_account_token cr c1 token p secret = Inr x"
    and 2: "verify_account_token cr c2 token p secret = Inr y" for cr c1 c2 p secret
  proof -
    from 1 obtain d where d: "decode_hs256_claims cr c1 token secret = Inr d"
      by (auto simp: verify_account_token_def bind_res_Inr_iff)
    from 2 obtain e where e: "decode_hs256_claims cr c2 token secret = Inr e"
      by (auto simp: verify_account_token_def bind_res_Inr_iff)
    show ?thesis using 1 2 d e decode_same [OF d e] by (auto simp: verify_account_token_def bind_res_Inr_iff split: if_splits)
  qed
  moreover have "verify_account_token (rq_crypto rq) (rq_clock rq) token (if b then ''activation'' else ''password_reset'')
      (auth_secret (rq_env rq)) = Inr x"
    "verify_account_token (rq_crypto rq) (rq_clock rq') token (if b then ''activation'' else ''password_reset'')
      (auth_secret (rq_env rq)) = Inr y"
    using assms by (auto simp: verified_token_def split: sum.splits py_exn.splits)
  ultimately show ?thesis by metis
qed

context account_store
begin

lemma sessions_end:
  assumes "good (st_store st)" "ends_sessions ao rq c i st st'" "fresh_run ao ops (st_store st')"
    and "ao_by_id ao (tc_tenant_id c) i (st_store st) = Inr (Some a)"
    and "verify_bearer_token cr now auth (auth_secret env) = Inr d" "sc_version d = Some v" "v \<le> version a"
    and "tc_tenant_id d = tc_tenant_id c" "tc_user_id d = i"
  shows "verified_tenant_context ao env cr now auth (account_run ao ops (st_store st')) =
    Inl (ValueError ''account session is no longer current'')"
proof -
  obtain op a' s1 action where op: "account_step ao (rq_clock rq) op (st_store st) = Inr s1"
    "op_target op = Some (strip (tc_tenant_id c), i)"
    "op_revokes op"
    and fin: "st_store st' = account_run ao [(rq_clock rq, OpAudit (rq_audit_uid rq) (tc_tenant_id c) action i (tc_user_id c))] s1"
    using ends_sessions_step [OF assms(2)] by blast
  let ?all = "(rq_clock rq, OpAudit (rq_audit_uid rq) (tc_tenant_id c) action i (tc_user_id c)) # ops"
  have all: "account_run ao ?all s1 = account_run ao ops (st_store st')" and fr: "fresh_run ao ?all s1"
    using assms(3) fin by simp_all
  obtain b where b: "ao_by_id ao (tc_tenant_id c) i (account_run ao ops (st_store st')) = Inr (Some b)" "version a < version b"
    using version_outdated [OF assms(1,4) op(1) fr op(2,3)] all by auto
  have "op_fresh ao op (st_store st)" using op(3) by (cases op) auto
  then have g: "good (account_run ao ?all s1)" by (intro run_keeps step_keeps [OF assms(1) _ op(1)] fr)
  have "get b ''session_version'' = PyInt (version b)" using has_version b(1) g all by simp
  then have "py_int (get_or b ''session_version'' (PyInt (- 1))) = Inr (version b)"
    by (simp add: versioned_next versioned_def)
  then show ?thesis
    using assms(5-9) b by (auto simp: verified_tenant_context_def)
qed

lemma reset_link_single_use:
  assumes "good (st_store st)" "consume_password_reset ao rq token pw st = (st', Inr r)"
    and "rq_crypto rq' = rq_crypto rq" "auth_secret (rq_env rq') = auth_secret (rq_env rq)"
    and "fresh_run ao ops (st_store st')" "\<forall>(c, op) \<in> set ops. \<forall>u i e. op \<noteq> OpReset u i (token_digest (rq_crypto rq) token) e"
    and "st_store st2 = account_run ao ops (st_store st')"
  shows "snd (consume_password_reset ao rq' token pw' st2) \<noteq> Inr r'"
proof
  assume "snd (consume_password_reset ao rq' token pw' st2) = Inr r'"
  then obtain st3 where st3: "consume_password_reset ao rq' token pw' st2 = (st3, Inr r')" by (metis prod.collapse)
  let ?h = "token_digest (rq_crypto rq) token"
  obtain t i ph s1 acc z where v: "verified_token rq token False = Inr (t, i)"
    and c1: "ao_consume_reset ao (rq_clock rq) t i ?h ph (st_store st) = Inr (s1, Some acc)"
    and fin: "audit ao rq t ''password_reset_completed'' i i (st\<lparr>st_store := s1\<rparr>) = (st', Inr z)"
    by (rule consume_goes_through [OF assms(2)])
  obtain t' i' ph' s2 acc' where v': "verified_token rq' token False = Inr (t', i')"
    and c2: "ao_consume_reset ao (rq_clock rq') t' i' (token_digest (rq_crypto rq') token) ph' (st_store st2) = Inr (s2, Some acc')"
    by (rule consume_goes_through [OF st3]) (erule (1) that)
  have same: "(t', i') = (t, i)" using verified_token_same [OF assms(3,4) v v'] by simp
  let ?all = "(rq_clock rq, OpAudit (rq_audit_uid rq) t ''password_reset_completed'' i i) # ops"
  have all: "account_run ao ?all s1 = st_store st2" and fr: "fresh_run ao ?all s1"
    using assms(5,7) audit_Inr [OF fin] by simp_all
  have "\<forall>(c, op) \<in> set ?all. \<forall>u e. op \<noteq> OpReset u i ?h e" using assms(6) by auto
  from reset_token_single_use [OF assms(1) c1 fr this] show False
    using c2 unfolding assms(3) all [symmetric] same [simplified, THEN conjunct1] same [simplified, THEN conjunct2] by blast
qed

lemma invitation_link_single_use:
  assumes "good (st_store st)" "activate_invitation ao rq b st = (st', Inr r)"
    and "rq_crypto rq' = rq_crypto rq" "auth_secret (rq_env rq') = auth_secret (rq_env rq)" "ab_token b' = ab_token b"
    and "fresh_run ao ops (st_store st')" "\<forall>(c, op) \<in> set ops. \<forall>u i e. op \<noteq> OpInvite u i (token_digest (rq_crypto rq) (ab_token b)) e"
    and "st_store st2 = account_run ao ops (st_store st')"
  shows "snd (activate_invitation ao rq' b' st2) \<noteq> Inr r'"
proof
  assume "snd (activate_invitation ao rq' b' st2) = Inr r'"
  then obtain st3 where st3: "activate_invitation ao rq' b' st2 = (st3, Inr r')" by (metis prod.collapse)
  let ?h = "token_digest (rq_crypto rq) (ab_token b)"
  obtain t i ph s1 acc z where v: "verified_token rq (ab_token b) True = Inr (t, i)"
    and c1: "ao_activate ao (rq_clock rq) t i ?h ph (st_store st) = Inr (s1, Some acc)"
    and fin: "audit ao rq t ''invitation_activated'' i i (st\<lparr>st_store := s1\<rparr>) = (st', Inr z)"
    by (rule activate_goes_through [OF assms(2)])
  obtain t' i' ph' s2 acc' where v': "verified_token rq' (ab_token b') True = Inr (t', i')"
    and c2: "ao_activate ao (rq_clock rq') t' i' (token_digest (rq_crypto rq') (ab_token b')) ph' (st_store st2) = Inr (s2, Some acc')"
    by (rule activate_goes_through [OF st3]) (erule (1) that)
  have same: "(t', i') = (t, i)" using verified_token_same [OF assms(3,4) v] v' assms(5) by simp
  let ?all = "(rq_clock rq, OpAudit (rq_audit_uid rq) t ''invitation_activated'' i i) # ops"
  have all: "account_run ao ?all s1 = st_store st2" and fr: "fresh_run ao ?all s1"
    using assms(6,8) audit_Inr [OF fin] by simp_all
  have "\<forall>(c, op) \<in> set ?all. \<forall>u e. op \<noteq> OpInvite u i ?h e" using assms(7) by auto
  from invitation_single_use [OF assms(1) c1 fr this] show False
    using c2 unfolding assms(3,5) all [symmetric] same [simplified, THEN conjunct1] same [simplified, THEN conjunct2] by blast
qed

end

section \<open>A store with one account\<close>

definition demo_account :: pydict where
  "demo_account = [(''tenant_id'', PyStr ''acme''), (''email'', PyStr ''a@b''), (''given_name'', PyStr ''A''),
     (''surname'', PyStr ''B''), (''position'', PyStr ''C''), (''role'', PyStr ''manager''), (''id'', PyStr ''a1''),
     (''active'', PyBool True), (''status'', PyStr ''active''), (''password_hash'', PyStr ''h''),
     (''must_change_password'', PyBool False), (''session_version'', PyInt 3), (''invitation_token_hash'', PyNone),
     (''invitation_expires_at'', PyNone), (''reset_token_hash'', PyStr ''digest''), (''reset_expires_at'', PyStr ''soon''),
     (''created_at'', PyStr ''t''), (''updated_at'', PyStr ''t'')]"

definition demo_state :: "account_pg account_state" where
  "demo_state = \<lparr>st_store = \<lparr>ap_accounts = [\<lparr>wa_tenant = ''acme'', wa_email = ''a@b'', wa_payload = demo_account\<rparr>],
     ap_audit = []\<rparr>, st_profiles = [], st_outbox = []\<rparr>"

definition demo_rq :: "pydict \<Rightarrow> request_env" where
  "demo_rq claims = \<lparr>rq_env = (\<lambda>k. if k = ''TENANT_AUTH_SECRET'' then Some ''k'' else None),
     rq_crypto = demo_crypto claims, rq_clock = epoch, rq_uid = ''u'', rq_audit_uid = ''x'', rq_nonce = ''n'', rq_salt = ''s'',
     rq_delivered = True\<rparr>"

definition demo_owner :: session_context where
  "demo_owner = \<lparr>tc_tenant_id = ''acme'', tc_user_id = ''o1'', tc_role = OWNER, sc_version = Some 1, sc_password_change = False\<rparr>"

definition demo_holder :: session_context where
  "demo_holder = \<lparr>tc_tenant_id = ''acme'', tc_user_id = ''a1'', tc_role = MANAGER, sc_version = Some 3, sc_password_change = False\<rparr>"

abbreviation demo_tz :: "string \<Rightarrow> int option" where
  "demo_tz \<equiv> \<lambda>e. Some (epoch + 1)"

lemma demo_strips:
  "strip ''acme'' = ''acme''" "strip ''a1'' = ''a1''" "strip ''o1'' = ''o1''" "strip ''n'' = ''n''"
  "strip ''account_role_changed'' = ''account_role_changed''"
  "strip ''password_reset_completed'' = ''password_reset_completed''"
  "lower (strip ''true'') = ''true''"
  by code_simp+

lemma demo_secret: "auth_secret (rq_env (demo_rq claims)) = ''k''"
  by (simp add: demo_rq_def auth_secret_def getenv_def)

lemma demo_rq_sel [simp]:
  "rq_crypto (demo_rq claims) = demo_crypto claims" "rq_clock (demo_rq claims) = epoch"
  "rq_audit_uid (demo_rq claims) = ''x''" "rq_salt (demo_rq claims) = ''s''"
  by (simp_all add: demo_rq_def)

lemma demo_good: "pga_good (st_store demo_state)"
  by (simp add: pga_good_def demo_state_def demo_account_def versioned_def version_def)

lemma demo_found: "pga_by_id ''acme'' ''a1'' (st_store demo_state) = Inr (Some demo_account)"
  by (simp add: pga_by_id_def acc_tenant_def demo_strips demo_state_def demo_account_def is_row_def)

lemmas demo_eval = pga_by_id_def acc_tenant_def demo_strips pga_modify_def pga_update_payload_def pga_consume_token_def
  pg_next_version_def pga_record_audit_def audit_record_def is_row_def pg_cast_fails_def pg_token_open_def Let_def

lemma demo_role_changes:
  "\<exists>st' r. change_work_account_role (pg_accounts demo_tz) (demo_rq claims) ''a1'' ANALYST demo_owner demo_state = (st', Inr r)"
  by (simp add: change_work_account_role_def reject_owner_role_def h_through audit_def pga_op_defs demo_found
      demo_owner_def demo_state_def demo_account_def demo_eval)

abbreviation demo_claimed :: pydict where
  "demo_claimed \<equiv> token_claims demo_holder @ [(''exp'', PyInt 100)]"

abbreviation demo_bearer :: string where
  "demo_bearer \<equiv> ''Bearer '' @ encode_hs256_token (demo_crypto demo_claimed) demo_claimed ''k''"

lemma demo_session_valid:
  "verify_bearer_token (demo_crypto demo_claimed) epoch (Some demo_bearer) (auth_secret (rq_env (demo_rq demo_claimed))) =
     Inr demo_holder"
proof -
  have "demo_claimed \<noteq> jwt_header" by (simp add: token_claims_def demo_holder_def session_dict_def jwt_header_def)
  then have "verify_bearer_token (demo_crypto demo_claimed) epoch (Some demo_bearer) ''k'' =
      (if 100 < unix_time epoch then Inl (ValueError ''token expired'') else Inr (demo_holder\<lparr>sc_password_change := False\<rparr>))"
    by (intro session_token_read_back demo_codec) (simp_all add: demo_holder_def plain_text_def demo_strips)
  then show ?thesis by (simp add: unix_time_def demo_holder_def demo_secret)
qed

abbreviation demo_claims_for :: "string \<Rightarrow> pydict" where
  "demo_claims_for purpose \<equiv> [(''purpose'', PyStr purpose), (''tenant_id'', PyStr ''acme''), (''account_id'', PyStr ''a1''),
     (''nonce'', PyStr ''n''), (''exp'', PyInt 3600)]"

abbreviation demo_reset :: pydict where
  "demo_reset \<equiv> demo_claims_for ''password_reset''"

definition demo_link_for :: "string \<Rightarrow> string" where
  "demo_link_for purpose = encode_hs256_token (demo_crypto (demo_claims_for purpose)) (demo_claims_for purpose) ''k''"

abbreviation demo_link :: string where
  "demo_link \<equiv> demo_link_for ''password_reset''"

lemma demo_links_verify:
  assumes "p = (if b then ''activation'' else ''password_reset'')"
  shows "verified_token (demo_rq (demo_claims_for p)) (demo_link_for p) b = Inr (''acme'', ''a1'')"
proof -
  have "\<exists>t. of_instant (epoch + (unix_time epoch + 3600) * 1000000) = Some t"
    by (simp add: of_instant_def unix_time_def epoch_def day_us_def Let_def split: prod.splits)
  then obtain it where it: "issue_account_token (demo_crypto (demo_claims_for p)) epoch ''n'' p ''acme'' ''a1'' ''k'' 3600 = Inr it"
    "it_token it = demo_link_for p"
    by (auto simp: issue_account_token_def Let_def demo_link_for_def unix_time_def)
  have "codec_ok (demo_crypto (demo_claims_for p)) jwt_header" "codec_ok (demo_crypto (demo_claims_for p))
      [(''purpose'', PyStr p), (''tenant_id'', PyStr ''acme''), (''account_id'', PyStr ''a1''),
       (''nonce'', PyStr ''n''), (''exp'', PyInt (unix_time epoch + 3600))]"
    using demo_codec [of "demo_claims_for p"] by (simp_all add: jwt_header_def unix_time_def)
  from account_token_verifies [OF it(1) this, of epoch p] show ?thesis
    unfolding it(2) verified_token_def demo_secret
    by (simp add: plain_text_def demo_strips unix_time_def assms [symmetric])
qed

lemmas demo_link_verifies = demo_links_verify [of "''password_reset''" False, simplified]

lemma demo_reset_consumed:
  "\<exists>st' r. consume_password_reset (pg_accounts demo_tz) (demo_rq demo_reset) demo_link ''new password'' demo_state = (st', Inr r)"
proof -
  have "scrypt_password_hash (demo_crypto c) p x \<noteq> Inl e" for c p x e
    by (simp add: scrypt_password_hash_def demo_crypto_def)
  then obtain ph where ph: "scrypt_password_hash (demo_crypto demo_reset) ''new password'' ''s'' = Inr ph"
    by (metis old.sum.exhaust)
  have "token_digest (demo_crypto demo_reset) demo_link = ''digest''"
    by (simp add: token_digest_def demo_crypto_def)
  moreover have "role_of ''manager'' = Inr MANAGER" using role_value_plain [of MANAGER] by simp
  moreover have "getenv (rq_env (demo_rq demo_reset)) ''SHELFWISE_COOKIE_SECURE'' ''true'' = ''true''"
    by (simp add: getenv_def demo_rq_def)
  ultimately show ?thesis
    by (simp add: consume_password_reset_def demo_link_verifies ph h_through audit_def pga_op_defs respond_with_session_def
        demo_state_def demo_account_def demo_eval consumed_values_def dict_update_def account_session_response_def
        demo_secret cookie_secure_setting_def)
qed

section \<open>Sessions and links\<close>

text \<open>
  C20. Sessions that were ended stay ended. Once the owner has deactivated an account or changed its role,
  or its holder has changed the password, no bearer token made for an earlier version of the account
  is accepted again, whatever the Postgres store is asked to do afterwards: the session check answers
  that the session is no longer current. Reactivation does not bring old sessions back.
\<close>

theorem ended_sessions_stay_ended:
  assumes "pga_good (st_store st)" and "ends_sessions (pg_accounts tz) rq c i st st'"
    and "fresh_run (pg_accounts tz) ops (st_store st')"
    and "pga_by_id (tc_tenant_id c) i (st_store st) = Inr (Some a)"
    and "verify_bearer_token cr now auth (auth_secret env) = Inr d" and "sc_version d = Some v" and "v \<le> version a"
    and "tc_tenant_id d = tc_tenant_id c" and "tc_user_id d = i"
  shows "verified_tenant_context (pg_accounts tz) env cr now auth (account_run (pg_accounts tz) ops (st_store st')) =
    Inl (ValueError ''account session is no longer current'')"
proof -
  have "ao_by_id (pg_accounts tz) (tc_tenant_id c) i (st_store st) = Inr (Some a)"
    using assms(4) by (simp add: pg_accounts_def)
  from pg.sessions_end [OF assms(1-3) this assms(5-9)] show ?thesis .
qed

theorem ended_sessions_stay_ended_witness:
  "\<exists>st'. ends_sessions (pg_accounts demo_tz) (demo_rq demo_claimed) demo_owner ''a1'' demo_state st' \<and>
    verified_tenant_context (pg_accounts demo_tz) (rq_env (demo_rq demo_claimed)) (demo_crypto demo_claimed) epoch
      (Some demo_bearer) (account_run (pg_accounts demo_tz) [(epoch, OpActive ''acme'' ''a1'' True)] (st_store st')) =
    Inl (ValueError ''account session is no longer current'')"
proof -
  obtain st' where e: "ends_sessions (pg_accounts demo_tz) (demo_rq demo_claimed) demo_owner ''a1'' demo_state st'"
    using demo_role_changes unfolding ends_sessions_def by blast
  have f: "fresh_run (pg_accounts demo_tz) [(epoch, OpActive ''acme'' ''a1'' True)] (st_store st')" by simp
  have g: "pga_by_id (tc_tenant_id demo_owner) ''a1'' (st_store demo_state) = Inr (Some demo_account)"
    using demo_found by (simp add: demo_owner_def)
  have "sc_version demo_holder = Some 3" "3 \<le> version demo_account" "tc_tenant_id demo_holder = tc_tenant_id demo_owner"
    "tc_user_id demo_holder = ''a1''"
    by (simp_all add: demo_holder_def demo_owner_def version_def demo_account_def)
  from ended_sessions_stay_ended [OF demo_good e f g demo_session_valid this] e show ?thesis by blast
qed

text \<open>
  C21. A password-reset link works once. After a request has consumed it, every later request with the same
  link is refused, with whatever password and at whatever time, unless the very same digest has been
  issued to that account again; this holds over any operations of the Postgres store in between.
\<close>

theorem reset_links_work_once:
  assumes "pga_good (st_store st)" and "consume_password_reset (pg_accounts tz) rq token pw st = (st', Inr r)"
    and "rq_crypto rq' = rq_crypto rq" and "auth_secret (rq_env rq') = auth_secret (rq_env rq)"
    and "fresh_run (pg_accounts tz) ops (st_store st')"
    and "\<forall>(c, op) \<in> set ops. \<forall>u i e. op \<noteq> OpReset u i (token_digest (rq_crypto rq) token) e"
    and "st_store st2 = account_run (pg_accounts tz) ops (st_store st')"
  shows "snd (consume_password_reset (pg_accounts tz) rq' token pw' st2) \<noteq> Inr r'"
  by (rule pg.reset_link_single_use [OF assms])

theorem reset_links_work_once_witness:
  "\<exists>st' r. consume_password_reset (pg_accounts demo_tz) (demo_rq demo_reset) demo_link ''new password'' demo_state = (st', Inr r) \<and>
    (\<forall>r'. snd (consume_password_reset (pg_accounts demo_tz) (demo_rq demo_reset) demo_link ''another one'' st') \<noteq> Inr r')"
proof -
  obtain st' r where d: "consume_password_reset (pg_accounts demo_tz) (demo_rq demo_reset) demo_link ''new password'' demo_state = (st', Inr r)"
    using demo_reset_consumed by blast
  have "snd (consume_password_reset (pg_accounts demo_tz) (demo_rq demo_reset) demo_link ''another one'' st') \<noteq> Inr r'" for r'
    by (rule reset_links_work_once [OF demo_good d refl refl, of "[]"]) simp_all
  then show ?thesis using d by blast
qed

lemma changes_accountD:
  assumes "changes_account good by_id (Some (strip t, i)) f s s'" "by_id t i s = Inr (Some a)"
  shows "\<exists>b. by_id t i s' = Inr (Some b) \<and> get b = get (f a)"
proof -
  have "\<exists>b. by_id t i s' = Inr (Some b) \<and> same_account b (if Some (strip t, i) = Some (strip t, i) then f a else a)"
    using assms unfolding changes_account_def by blast
  then show ?thesis by (simp add: same_account_def)
qed

section \<open>Where the account code does not do what it means to\<close>

text \<open>
  C25. The two stores disagree on an invitation whose account was deactivated. In memory the outstanding
  link is dead; in Postgres, whose token statement does not look at the status, the same link still
  activates the account, undoing the owner's deactivation.
\<close>

theorem deactivated_invitation_still_activates:
  assumes "pga_good p" and "pga_by_id t i p = Inr (Some a)" and "get a ''invitation_token_hash'' = PyStr h"
    and "get a ''invitation_expires_at'' = PyStr e" and "tz e = Some x" and "later \<le> x"
    and "pga_set_active clock t i False p = Inr (p1, r)" and "pga_activate_invitation tz later t i h ph p1 = Inr (p2, r2)"
    and "mem_good m" and "mem_by_id t i m = Inr (Some a)" and "mem_set_active clock t i False m = Inr (m1, rm)"
  shows "(\<exists>b. pga_by_id t i p2 = Inr (Some b) \<and> get b ''active'' = PyBool True) \<and>
    mem_activate_invitation later t i h ph m1 = Inr (m1, None)"
proof
  have off: "changes_account pga_good pga_by_id (Some (strip t, i)) (bumped clock (active_values False)) p p1"
    using pga_update_Inr [OF assms(1) identity_free_values(1) assms(7) [unfolded pga_set_active_def]] by simp
  obtain b where b: "pga_by_id t i p1 = Inr (Some b)" "get b = get (bumped clock (active_values False) a)"
    using changes_accountD [where by_id = pga_by_id, OF off assms(2)] by blast
  have "pg_invitation_open tz later h b"
    using assms(3-6) b(2) by (simp add: pg_token_open_def get_changed)
  moreover have on: "changes_account pga_good pga_by_id (Some (strip t, i))
      (\<lambda>c. if pg_invitation_open tz later h c then bumped later (activated_values ph) c else c) p1 p2"
    using pga_consume_Inr [OF _ identity_free_values(5)] off assms(8)
    unfolding pga_activate_invitation_def changes_account_def by blast
  ultimately obtain d where "pga_by_id t i p2 = Inr (Some d)" "get d = get (bumped later (activated_values ph) b)"
    using changes_accountD [where by_id = pga_by_id, OF on b(1)] by auto
  then show "\<exists>b. pga_by_id t i p2 = Inr (Some b) \<and> get b ''active'' = PyBool True"
    by (auto simp: get_changed)
next
  have off: "changes_account mem_good mem_by_id (Some (strip t, i)) (bumped clock (active_values False)) m m1"
    using mem_update_Inr [OF assms(9) identity_free_values(1) assms(11) [unfolded mem_set_active_def]] by simp
  obtain b where b: "mem_by_id t i m1 = Inr (Some b)" "get b = get (bumped clock (active_values False) a)"
    using changes_accountD [where by_id = mem_by_id, OF off assms(10)] by blast
  have "\<not> mem_invitation_open later h b" using b(2) by (simp add: mem_invitation_open_def get_changed)
  moreover obtain k where "strip t \<noteq> []" "find_first (\<lambda>(k, a). is_account (strip t) i a) (am_accounts m1) = Some (k, b)"
    using b(1) by (auto simp: mem_by_id_Some)
  ultimately show "mem_activate_invitation later t i h ph m1 = Inr (m1, None)"
    by (simp add: mem_activate_invitation_def mem_consume_def acc_tenant_def)
qed

definition demo_invited :: "string \<Rightarrow> pydict" where
  "demo_invited given = [(''tenant_id'', PyStr ''acme''), (''email'', PyStr ''a@b''), (''given_name'', PyStr given),
     (''surname'', PyStr ''B''), (''position'', PyStr ''C''), (''role'', PyStr ''manager''), (''id'', PyStr ''a1''),
     (''active'', PyBool False), (''status'', PyStr ''invited''), (''password_hash'', PyStr []),
     (''must_change_password'', PyBool False), (''session_version'', PyInt 1), (''invitation_token_hash'', PyStr ''digest''),
     (''invitation_expires_at'', PyStr ''soon''), (''reset_token_hash'', PyNone), (''reset_expires_at'', PyNone),
     (''created_at'', PyStr ''t''), (''updated_at'', PyStr ''t'')]"

definition demo_pg :: "string \<Rightarrow> account_pg" where
  "demo_pg given = \<lparr>ap_accounts = [\<lparr>wa_tenant = ''acme'', wa_email = ''a@b'', wa_payload = demo_invited given\<rparr>], ap_audit = []\<rparr>"

definition demo_mem :: "string \<Rightarrow> account_mem" where
  "demo_mem given = \<lparr>am_accounts = [((''acme'', ''a@b''), demo_invited given)], am_audit = []\<rparr>"

theorem deactivated_invitation_still_activates_witness:
  "\<exists>p1 r p2 r2 b m1 rm. pga_set_active epoch ''acme'' ''a1'' False (demo_pg ''A'') = Inr (p1, r) \<and>
    pga_activate_invitation demo_tz epoch ''acme'' ''a1'' ''digest'' ''h'' p1 = Inr (p2, r2) \<and>
    pga_by_id ''acme'' ''a1'' p2 = Inr (Some b) \<and> get b ''active'' = PyBool True \<and>
    mem_set_active epoch ''acme'' ''a1'' False (demo_mem ''A'') = Inr (m1, rm) \<and>
    mem_activate_invitation epoch ''acme'' ''a1'' ''digest'' ''h'' m1 = Inr (m1, None)"
proof -
  have good: "pga_good (demo_pg ''A'')" "mem_good (demo_mem ''A'')"
    by (simp_all add: pga_good_def mem_good_def demo_pg_def demo_mem_def demo_invited_def versioned_def version_def dict_wf_def)
  have found: "pga_by_id ''acme'' ''a1'' (demo_pg ''A'') = Inr (Some (demo_invited ''A''))"
    "mem_by_id ''acme'' ''a1'' (demo_mem ''A'') = Inr (Some (demo_invited ''A''))"
    by (simp_all add: demo_eval mem_by_id_def demo_pg_def demo_mem_def is_account_def demo_invited_def)
  have tok: "get (demo_invited ''A'') ''invitation_token_hash'' = PyStr ''digest''"
    "get (demo_invited ''A'') ''invitation_expires_at'' = PyStr ''soon''" "demo_tz ''soon'' = Some (epoch + 1)" "epoch \<le> epoch + 1"
    by (simp_all add: demo_invited_def)
  obtain p1 r p2 r2 where p: "pga_set_active epoch ''acme'' ''a1'' False (demo_pg ''A'') = Inr (p1, r)"
    "pga_activate_invitation demo_tz epoch ''acme'' ''a1'' ''digest'' ''h'' p1 = Inr (p2, r2)"
    by (simp add: pga_op_defs demo_eval demo_pg_def demo_invited_def value_defs dict_update_def)
  obtain m1 rm where m: "mem_set_active epoch ''acme'' ''a1'' False (demo_mem ''A'') = Inr (m1, rm)"
    by (simp add: mem_op_defs mem_update_def demo_eval demo_mem_def demo_invited_def is_account_def get_or_def value_defs)
  from deactivated_invitation_still_activates [OF good(1) found(1) tok p good(2) found(2) m] p m show ?thesis by blast
qed

text \<open>
  An invited worker whose given name has a letter outside ASCII cannot activate the account: with the
  right token, e-mail and name, the comparison of the names raises \<open>TypeError\<close>, which no handler turns
  into a response, and the invitation stays unused.
\<close>

theorem accented_names_cannot_activate:
  assumes "verified_token rq (ab_token b) True = Inr (t, i)"
    and "ao_by_id ao t i (st_store st) = Inr (Some a)"
    and "get a ''email'' = PyStr (lower (strip (ib_email b)))" and "is_ascii (lower (strip (ib_email b)))"
    and "get a ''given_name'' = PyStr (strip (ib_given b))" and "\<not> is_ascii (strip (ib_given b))"
  shows "activate_invitation ao rq b st =
    (st, Inl (TypeError ''comparing strings with non-ASCII characters is not supported''))"
proof -
  have "identity_matches a b = Inl (TypeError ''comparing strings with non-ASCII characters is not supported'')"
    using assms(3-6) by (simp add: identity_matches_def compare_digest_def)
  then show ?thesis
    using assms(1,2) by (simp add: activate_invitation_def hbind_def hres_def sread_def)
qed

text \<open>The name of the demonstration is Zo\"e, with its last letter outside ASCII.\<close>

definition demo_zoe :: string where
  "demo_zoe = [CHR ''Z'', CHR ''o'', CHR 0xEB]"

definition demo_activation :: activate_body where
  "demo_activation = \<lparr>ib_email = ''a@b'', ib_given = demo_zoe, ib_surname = ''B'', ib_position = ''C'',
     ab_token = demo_link_for ''activation'', ab_password = ''new password'', ab_confirmation = ''new password''\<rparr>"

theorem accented_names_cannot_activate_witness:
  "activate_invitation (pg_accounts demo_tz) (demo_rq (demo_claims_for ''activation'')) demo_activation
     (demo_state\<lparr>st_store := demo_pg demo_zoe\<rparr>) =
   (demo_state\<lparr>st_store := demo_pg demo_zoe\<rparr>,
    Inl (TypeError ''comparing strings with non-ASCII characters is not supported''))"
proof (rule accented_names_cannot_activate)
  show "verified_token (demo_rq (demo_claims_for ''activation'')) (ab_token demo_activation) True = Inr (''acme'', ''a1'')"
    using demo_links_verify [of "''activation''" True] by (simp add: demo_activation_def)
  show "ao_by_id (pg_accounts demo_tz) ''acme'' ''a1'' (st_store (demo_state\<lparr>st_store := demo_pg demo_zoe\<rparr>)) =
      Inr (Some (demo_invited demo_zoe))"
    by (simp add: pg_accounts_def demo_eval demo_pg_def demo_invited_def)
  have "strip demo_zoe = demo_zoe" "\<not> is_ascii demo_zoe" "lower (strip ''a@b'') = ''a@b''" "is_ascii ''a@b''" by code_simp+
  then show "get (demo_invited demo_zoe) ''email'' = PyStr (lower (strip (ib_email demo_activation)))"
    "is_ascii (lower (strip (ib_email demo_activation)))"
    "get (demo_invited demo_zoe) ''given_name'' = PyStr (strip (ib_given demo_activation))"
    "\<not> is_ascii (strip (ib_given demo_activation))"
    by (simp_all add: demo_invited_def demo_activation_def)
qed
end
