(* ===== verification/Owners.thy ===== *)
theory Owners imports AccountRoutes begin

text \<open>
  The requests of \<open>src/shelfwise_backend/routes_accounts.py\<close> as a datatype, handled one after the other over the
  store in memory, and the invariant that a tenant which has an active owner keeps one: the guards of the
  deactivation and role routes, and the states the other routes create, hold it together.
\<close>

section \<open>Requests\<close>

datatype account_request =
    RqLogin login_body
  | RqBootstrap bootstrap_body "string option"
  | RqActivate activate_body
  | RqResetRequest string
  | RqResetConsume string string
  | RqChangePassword string string session_context
  | RqCreate create_body session_context
  | RqInvite invite_body session_context
  | RqResend string session_context
  | RqOwnerReset string session_context
  | RqDeactivate string session_context
  | RqReactivate string session_context
  | RqRole string role session_context

fun handle_request :: "'s account_ops \<Rightarrow> request_env \<Rightarrow> account_request \<Rightarrow> 's account_state \<Rightarrow> 's account_state" where
  "handle_request ao rq (RqLogin b) st = fst (company_login ao rq b st)"
| "handle_request ao rq (RqBootstrap b key) st = fst (bootstrap_client_owner ao rq b key st)"
| "handle_request ao rq (RqActivate b) st = fst (activate_invitation ao rq b st)"
| "handle_request ao rq (RqResetRequest e) st = fst (request_password_reset ao rq e st)"
| "handle_request ao rq (RqResetConsume token pw) st = fst (consume_password_reset ao rq token pw st)"
| "handle_request ao rq (RqChangePassword cur pw c) st = fst (change_own_password ao rq cur pw c st)"
| "handle_request ao rq (RqCreate b c) st = fst (create_work_account ao rq b c st)"
| "handle_request ao rq (RqInvite b c) st = fst (invite_work_account ao rq b c st)"
| "handle_request ao rq (RqResend i c) st = fst (resend_work_account_invitation ao rq i c st)"
| "handle_request ao rq (RqOwnerReset i c) st = fst (owner_password_reset ao rq i c st)"
| "handle_request ao rq (RqDeactivate i c) st = fst (deactivate_work_account ao rq i c st)"
| "handle_request ao rq (RqReactivate i c) st = fst (reactivate_work_account ao rq i c st)"
| "handle_request ao rq (RqRole i rl c) st = fst (change_work_account_role ao rq i rl c st)"

definition handle_requests ::
  "'s account_ops \<Rightarrow> (request_env \<times> account_request) list \<Rightarrow> 's account_state \<Rightarrow> 's account_state" where
  "handle_requests ao rs st = fold (\<lambda>(rq, r). handle_request ao rq r) rs st"

text \<open>\<open>uuid4\<close> draws an identifier no account has.\<close>

definition uid_new :: "string \<Rightarrow> account_mem \<Rightarrow> bool" where
  "uid_new uid s = list_all (\<lambda>(k, a). get a ''id'' \<noteq> PyStr uid) (am_accounts s)"

fun uids_new :: "(request_env \<times> account_request) list \<Rightarrow> account_mem account_state \<Rightarrow> bool" where
  "uids_new [] st = True"
| "uids_new ((rq, r) # rs) st =
     (uid_new (rq_uid rq) (st_store st) \<and> uids_new rs (handle_request mem_accounts rq r st))"

section \<open>The last active owner\<close>

definition owner_kept :: "string \<Rightarrow> account_mem \<Rightarrow> bool" where
  "owner_kept t s \<longleftrightarrow> mem_good s \<and>
     (\<exists>k a. (k, a) \<in> set (am_accounts s) \<and> get a ''tenant_id'' = PyStr t \<and> active_owner a) \<and>
     (\<forall>k a. (k, a) \<in> set (am_accounts s) \<longrightarrow> get a ''role'' = PyStr ''owner'' \<longrightarrow> get a ''status'' \<noteq> PyStr ''invited'')"

text \<open>A step at a state leaves such a state; the second rule remembers what a guard has seen.\<close>

definition kept :: "string \<Rightarrow> (account_mem account_state \<Rightarrow> account_mem account_state \<times> 'a result) \<Rightarrow>
    account_mem account_state \<Rightarrow> bool" where
  "kept t m st \<longleftrightarrow> owner_kept t (st_store (fst (m st)))"

lemma kept_basic:
  assumes "owner_kept t (st_store st)"
  shows "kept t (hret x) st" "kept t (hraise e) st" "kept t (hres r) st" "kept t (hguard b code m) st"
    "kept t (sread f) st" "kept t (send_account_link rq to purpose token) st" "kept t (upsert_profile clock p) st"
    "kept t (require_email_delivery rq) st" "kept t (reject_owner_role rl) st"
  using assms
  by (auto simp: kept_def hret_def hraise_def hres_def hguard_def sread_def send_account_link_def upsert_profile_def
      require_email_delivery_def reject_owner_role_def split: sum.splits)

lemma kept_hbind:
  "kept t m st \<Longrightarrow> (\<And>st' x. m st = (st', Inr x) \<Longrightarrow> owner_kept t (st_store st') \<Longrightarrow> kept t (f x) st') \<Longrightarrow> kept t (hbind m f) st"
  by (auto simp: kept_def hbind_def split: prod.splits sum.splits)

lemma hcatch_Inr: "hcatch code m st = (st', Inr x) \<longleftrightarrow> m st = (st', Inr x)"
  by (auto simp: hcatch_def split: prod.splits sum.splits py_exn.splits)

lemma kept_hcatch: "kept t m st \<Longrightarrow> kept t (hcatch code m) st"
  by (auto simp: kept_def hcatch_def split: prod.splits sum.splits py_exn.splits)

lemma kept_scall:
  "owner_kept t (st_store st) \<Longrightarrow> (\<And>s' x. f (st_store st) = Inr (s', x) \<Longrightarrow> owner_kept t s') \<Longrightarrow> kept t (scall f) st"
  by (auto simp: kept_def scall_def split: sum.splits)

lemma kept_find:
  "owner_kept t (st_store st) \<Longrightarrow>
   (\<And>a. mem_by_id (tc_tenant_id c) i (st_store st) = Inr (Some a) \<Longrightarrow> kept t (k a) st) \<Longrightarrow>
   kept t (find_account mem_accounts i c k) st"
  by (auto simp: kept_def find_account_def hbind_def sread_def hraise_def mem_accounts_def split: sum.splits option.splits)

lemma owner_keptE:
  assumes "owner_kept t s"
  obtains k a where "mem_good s" "(k, a) \<in> set (am_accounts s)" "get a ''tenant_id'' = PyStr t" "active_owner a"
    "\<And>k a. (k, a) \<in> set (am_accounts s) \<Longrightarrow> get a ''role'' = PyStr ''owner'' \<Longrightarrow> get a ''status'' \<noteq> PyStr ''invited''"
  using assms unfolding owner_kept_def by blast

lemma owner_keptI:
  assumes "mem_good s" "(k, a) \<in> set (am_accounts s)" "get a ''tenant_id'' = PyStr t" "active_owner a"
    "\<And>k a. (k, a) \<in> set (am_accounts s) \<Longrightarrow> get a ''role'' = PyStr ''owner'' \<Longrightarrow> get a ''status'' \<noteq> PyStr ''invited''"
  shows "owner_kept t s"
  using assms unfolding owner_kept_def by blast

text \<open>An entry may be replaced when its active owner, if it was one, is one still or is not the only one.\<close>

lemma owner_kept_replace:
  assumes s: "owner_kept t s" and ka: "(k, a) \<in> set (am_accounts s)"
    and good: "mem_good (s\<lparr>am_accounts := dict_set k b (am_accounts s)\<rparr>)" and same: "get b ''tenant_id'' = get a ''tenant_id''"
    and keep: "active_owner a \<Longrightarrow> get a ''tenant_id'' = PyStr t \<Longrightarrow> active_owner b \<or>
      (\<exists>j c. (j, c) \<in> set (am_accounts s) \<and> j \<noteq> k \<and> get c ''tenant_id'' = PyStr t \<and> active_owner c)"
    and inv: "get b ''role'' = PyStr ''owner'' \<Longrightarrow> get b ''status'' \<noteq> PyStr ''invited''"
  shows "owner_kept t (s\<lparr>am_accounts := dict_set k b (am_accounts s)\<rparr>)"
proof -
  from s obtain k0 a0 where o: "mem_good s" "(k0, a0) \<in> set (am_accounts s)" "get a0 ''tenant_id'' = PyStr t" "active_owner a0"
    and old: "\<And>k a. (k, a) \<in> set (am_accounts s) \<Longrightarrow> get a ''role'' = PyStr ''owner'' \<Longrightarrow> get a ''status'' \<noteq> PyStr ''invited''"
    by (rule owner_keptE) blast
  have set: "set (dict_set k b (am_accounts s)) = insert (k, b) {p \<in> set (am_accounts s). fst p \<noteq> k}"
    by (rule set_dict_set [OF mem_goodD(1) [OF o(1)]])
  have uniq: "a0 = a" if "k0 = k"
    using that o(2) ka mem_goodD(1) [OF o(1)] by (auto simp: dict_wf_def intro: eq_key_imp_eq_value)
  have "\<exists>j c. (j, c) \<in> set (dict_set k b (am_accounts s)) \<and> get c ''tenant_id'' = PyStr t \<and> active_owner c"
  proof (cases "k0 = k")
    case True
    then have "active_owner a" "get a ''tenant_id'' = PyStr t" using uniq o by auto
    from keep [OF this] show ?thesis using same \<open>get a ''tenant_id'' = PyStr t\<close> unfolding set by fastforce
  next
    case False
    then have "(k0, a0) \<in> set (dict_set k b (am_accounts s))" using o(2) by (simp add: set)
    then show ?thesis using o(3,4) by blast
  qed
  moreover have "get c ''status'' \<noteq> PyStr ''invited''"
    if "(j, c) \<in> set (dict_set k b (am_accounts s))" "get c ''role'' = PyStr ''owner''" for j c
  proof (cases "(j, c) = (k, b)")
    case False
    then have "(j, c) \<in> set (am_accounts s)" using that(1) by (auto simp: set)
    then show ?thesis using old that(2) by blast
  qed (use that inv in auto)
  ultimately show ?thesis using good unfolding owner_kept_def by auto
qed

lemma owner_kept_update:
  assumes s: "owner_kept t s" and u: "mem_update clock u j values invalidate s = Inr (s', x)" and v: "identity_free values"
    and b: "\<And>k a b. find_first (\<lambda>(k, a). is_account (strip u) j a) (am_accounts s) = Some (k, a) \<Longrightarrow>
      b = (if invalidate then bumped clock values a else stamped clock values a) \<Longrightarrow>
      (get a ''role'' = PyStr ''owner'' \<longrightarrow> get a ''status'' \<noteq> PyStr ''invited'') \<Longrightarrow>
      (active_owner a \<longrightarrow> get a ''tenant_id'' = PyStr t \<longrightarrow> active_owner b \<or>
        (\<exists>j c. (j, c) \<in> set (am_accounts s) \<and> j \<noteq> k \<and> get c ''tenant_id'' = PyStr t \<and> active_owner c)) \<and>
      (get b ''role'' = PyStr ''owner'' \<longrightarrow> get b ''status'' \<noteq> PyStr ''invited'')"
  shows "owner_kept t s'"
proof (cases "find_first (\<lambda>(k, a). is_account (strip u) j a) (am_accounts s)")
  case None
  then have "s' = s" using u by (auto simp: mem_update_def acc_tenant_def split: if_splits)
  then show ?thesis using s by simp
next
  case (Some p)
  obtain k a where p: "p = (k, a)" by (rule prod.exhaust)
  note found = Some [unfolded p]
  have good: "mem_good s" using s by (simp add: owner_kept_def)
  note va = mem_found(1) [OF good found]
  let ?b = "if invalidate then bumped clock values a else stamped clock values a"
  have s': "s' = s\<lparr>am_accounts := dict_set k ?b (am_accounts s)\<rparr>"
    using u found va by (auto simp: mem_update_def acc_tenant_def stamped_then versioned_next bumped_def Let_def split: if_splits)
  have i: "get ?b ''tenant_id'' = get a ''tenant_id''" "get ?b ''id'' = get a ''id''" "versioned ?b"
    using changed_identity [OF v, where clock = clock and a = a] va by simp_all
  have ka: "(k, a) \<in> set (am_accounts s)" using find_first_SomeD [OF found] by simp
  then have "get a ''role'' = PyStr ''owner'' \<longrightarrow> get a ''status'' \<noteq> PyStr ''invited''"
    using s unfolding owner_kept_def by blast
  note b = b [OF found refl this]
  show ?thesis
    unfolding s' by (rule owner_kept_replace [OF s ka mem_replace(1) [OF good found i] i(1)]) (use b in blast)+
qed

text \<open>Changes that neither take an owner's role nor the activity away.\<close>

definition owner_neutral :: "pydict \<Rightarrow> bool" where
  "owner_neutral values \<longleftrightarrow> identity_free values \<and> map_of values ''role'' = None \<and>
     map_of values ''active'' \<in> {None, Some (PyBool True)} \<and> map_of values ''status'' \<in> {None, Some (PyStr ''active'')}"

lemma neutral_values:
  "owner_neutral (password_values h)" "owner_neutral (reset_values h e)" "owner_neutral (activated_values h)"
  "owner_neutral (consumed_values h)" "owner_neutral (active_values True)"
  by (simp_all add: owner_neutral_def identity_free_values) (simp_all add: value_defs)

lemma neutral_change:
  assumes "owner_neutral values" "get b = get (bumped clock values a) \<or> get b = get (stamped clock values a)"
  shows "active_owner a \<longrightarrow> active_owner b"
    and "(get a ''role'' = PyStr ''owner'' \<longrightarrow> get a ''status'' \<noteq> PyStr ''invited'') \<Longrightarrow>
      (get b ''role'' = PyStr ''owner'' \<longrightarrow> get b ''status'' \<noteq> PyStr ''invited'')"
proof -
  have v: "dict_wf values" "''updated_at'' \<notin> fst ` set values"
    using assms(1) by (auto simp: owner_neutral_def identity_free_def)
  have "get b ''role'' = get a ''role''" "get b ''active'' = get a ''active'' \<or> get b ''active'' = PyBool True"
    "get b ''status'' = get a ''status'' \<or> get b ''status'' = PyStr ''active''"
    using assms v by (auto simp: owner_neutral_def get_stamped get_bumped)
  then show "active_owner a \<longrightarrow> active_owner b"
    "(get a ''role'' = PyStr ''owner'' \<longrightarrow> get a ''status'' \<noteq> PyStr ''invited'') \<Longrightarrow>
      (get b ''role'' = PyStr ''owner'' \<longrightarrow> get b ''status'' \<noteq> PyStr ''invited'')"
    by (auto simp: active_owner_def)
qed

lemma owner_kept_neutral:
  assumes "owner_kept t s" "mem_update clock u j values invalidate s = Inr (s', x)" "owner_neutral values"
  shows "owner_kept t s'"
proof (rule owner_kept_update [OF assms(1,2)])
  show "identity_free values" using assms(3) by (simp add: owner_neutral_def)
  fix k a b
  assume b: "b = (if invalidate then bumped clock values a else stamped clock values a)"
    and old: "get a ''role'' = PyStr ''owner'' \<longrightarrow> get a ''status'' \<noteq> PyStr ''invited''"
  have "get b = get (bumped clock values a) \<or> get b = get (stamped clock values a)" using b by auto
  from neutral_change [OF assms(3) this] old
  show "(active_owner a \<longrightarrow> get a ''tenant_id'' = PyStr t \<longrightarrow> active_owner b \<or>
        (\<exists>j c. (j, c) \<in> set (am_accounts s) \<and> j \<noteq> k \<and> get c ''tenant_id'' = PyStr t \<and> active_owner c)) \<and>
      (get b ''role'' = PyStr ''owner'' \<longrightarrow> get b ''status'' \<noteq> PyStr ''invited'')" by blast
qed

lemma owner_kept_insert:
  assumes "owner_kept t s" "account_record uid clock a = Inr r" "dict_get (am_accounts s) (account_key r) = None"
    and "get r ''role'' = PyStr ''owner'' \<Longrightarrow> get r ''status'' \<noteq> PyStr ''invited''"
  shows "owner_kept t (s\<lparr>am_accounts := dict_set (account_key r) r (am_accounts s)\<rparr>)"
proof -
  from assms(1) obtain k0 a0 where o: "mem_good s" "(k0, a0) \<in> set (am_accounts s)" "get a0 ''tenant_id'' = PyStr t" "active_owner a0"
    and old: "\<And>k a. (k, a) \<in> set (am_accounts s) \<Longrightarrow> get a ''role'' = PyStr ''owner'' \<Longrightarrow> get a ''status'' \<noteq> PyStr ''invited''"
    by (rule owner_keptE) blast
  show ?thesis
    using o assms(4) old mem_insert(1) [OF o(1) assms(2,3)]
    by (intro owner_keptI [of _ k0 a0]) (auto simp: dict_set_fresh [OF assms(3)])
qed

lemma owner_kept_create:
  assumes "owner_kept t s" "mem_create uid clock a s = Inr (s', x)"
    and "\<And>r. account_record uid clock a = Inr r \<Longrightarrow> get r ''role'' = PyStr ''owner'' \<Longrightarrow> get r ''status'' \<noteq> PyStr ''invited''"
  shows "owner_kept t s'"
  using assms owner_kept_insert [OF assms(1)]
  by (auto simp: mem_create_def bind_res_Inr_iff dict_has_def split: if_splits)

lemma owner_record_status: "account_record uid clock (owner_payload a) = Inr r \<Longrightarrow> get r ''status'' = PyStr ''active''"
proof -
  have "str_or (owner_payload a) ''status'' d = ''active''" for d
    by (simp add: str_or_def owner_payload_def get_update dict_wf_def py_or_def)
  moreover have "strip ''active'' = ''active''" by code_simp
  ultimately show "account_record uid clock (owner_payload a) = Inr r \<Longrightarrow> get r ''status'' = PyStr ''active''"
    by (auto simp: account_record_def Let_def bind_res_Inr_iff split: if_splits)
qed

lemma owner_kept_first_owner:
  assumes "owner_kept t s" "mem_first_owner uid clock a s = Inr (s', x)"
  shows "owner_kept t s'"
proof -
  obtain r where r: "account_record uid clock (owner_payload a) = Inr r"
    "\<not> list_ex (\<lambda>(k, b). get b ''tenant_id'' = get r ''tenant_id'') (am_accounts s)"
    "s' = s\<lparr>am_accounts := dict_set (account_key r) r (am_accounts s)\<rparr>"
    using assms(2) by (auto simp: mem_first_owner_def bind_res_Inr_iff split: if_splits)
  have good: "mem_good s" using assms(1) by (simp add: owner_kept_def)
  have "dict_get (am_accounts s) (account_key r) = None" by (rule first_owner_key [OF good r(1,2)])
  then show ?thesis using owner_kept_insert [OF assms(1) r(1)] owner_record_status [OF r(1)] r(3) by simp
qed

lemma owner_kept_cong: "am_accounts s' = am_accounts s \<Longrightarrow> owner_kept t s' = owner_kept t s"
  by (simp only: owner_kept_def mem_good_def)

lemma owner_kept_audit:
  "owner_kept t s \<Longrightarrow> mem_record_audit uid clock u action i actor s = Inr (s', x) \<Longrightarrow> owner_kept t s'"
  using owner_kept_cong [of s' s t] by (auto simp: mem_record_audit_def bind_res_Inr_iff)

lemma owner_kept_consume:
  assumes s: "owner_kept t s" and c: "mem_consume clock u j accepts values s = Inr (s', x)" and n: "owner_neutral values"
  shows "owner_kept t s'"
proof -
  have good: "mem_good s" using s by (simp add: owner_kept_def)
  have v: "identity_free values" using n by (simp add: owner_neutral_def)
  have u: "strip u \<noteq> []" using c by (auto simp: mem_consume_def acc_tenant_def split: if_splits)
  show ?thesis
  proof (cases "find_first (\<lambda>(k, a). is_account (strip u) j a) (am_accounts s)")
    case None
    then have "s' = s" using c u by (auto simp: mem_consume_def acc_tenant_def)
    then show ?thesis using s by simp
  next
    case (Some p)
    obtain k a where p: "p = (k, a)" by (rule prod.exhaust)
    note found = Some [unfolded p]
    note va = mem_found(1) [OF good found]
    have ka: "(k, a) \<in> set (am_accounts s)" using find_first_SomeD [OF found] by simp
    show ?thesis
    proof (cases "accepts a")
      case False
      then have "s' = s" using c u found by (auto simp: mem_consume_def acc_tenant_def)
      then show ?thesis using s by simp
    next
      case True
      let ?b = "dict_update a (values @ [(''session_version'', PyInt (version a + 1)), (''updated_at'', PyStr (now_iso clock))])"
      have s': "s' = s\<lparr>am_accounts := dict_set k ?b (am_accounts s)\<rparr>"
        using c u found va True by (simp add: mem_consume_def acc_tenant_def versioned_next Let_def)
      have g: "get ?b = get (bumped clock values a)"
        by (rule ext) (simp add: bumped_def stamped_def dict_update_def)
      then have i: "get ?b ''tenant_id'' = get a ''tenant_id''" "get ?b ''id'' = get a ''id''" "versioned ?b"
        using changed_identity(3,4,6) [OF v, where clock = clock and a = a] by (simp_all add: versioned_def version_def)
      have old: "get a ''role'' = PyStr ''owner'' \<Longrightarrow> get a ''status'' \<noteq> PyStr ''invited''"
        using s ka unfolding owner_kept_def by blast
      show ?thesis
        unfolding s'
        by (rule owner_kept_replace [OF s ka mem_replace(1) [OF good found i] i(1)])
          (use neutral_change [OF n, of ?b clock a] g old in blast)+
    qed
  qed
qed

subsection \<open>Calls\<close>

lemma kept_audit: "owner_kept t (st_store st) \<Longrightarrow> kept t (audit mem_accounts rq u action i actor) st"
  unfolding audit_def by (rule kept_scall) (auto simp: mem_accounts_def intro: owner_kept_audit)

lemma kept_respond: "owner_kept t (st_store st) \<Longrightarrow> kept t (respond_with_session mem_accounts rq u i m) st"
  by (auto simp: respond_with_session_def kept_def hbind_def sread_def hraise_def hres_def split: sum.splits option.splits)

lemma kept_calls:
  assumes "owner_kept t (st_store st)"
  shows "kept t (scall (ao_set_password mem_accounts clock u j h)) st"
    and "kept t (scall (ao_set_reset mem_accounts clock u j h e)) st"
    and "kept t (scall (ao_activate mem_accounts clock u j h p)) st"
    and "kept t (scall (ao_consume_reset mem_accounts clock u j h p)) st"
    and "kept t (scall (ao_set_active mem_accounts clock u j True)) st"
    and "kept t (scall (ao_first_owner mem_accounts uid clock a)) st"
  using owner_kept_neutral [OF assms _ neutral_values(1)] owner_kept_neutral [OF assms _ neutral_values(2)]
    owner_kept_consume [OF assms _ neutral_values(3)] owner_kept_consume [OF assms _ neutral_values(4)]
    owner_kept_neutral [OF assms _ neutral_values(5)] owner_kept_first_owner [OF assms]
  by (auto intro!: kept_scall [OF assms] simp: mem_op_defs)

lemma record_status:
  "account_record uid clock a = Inr r \<Longrightarrow> get a ''status'' = PyStr ''active'' \<Longrightarrow> get r ''status'' = PyStr ''active''"
proof -
  have "strip ''active'' = ''active''" by code_simp
  then show "account_record uid clock a = Inr r \<Longrightarrow> get a ''status'' = PyStr ''active'' \<Longrightarrow> get r ''status'' = PyStr ''active''"
    by (auto simp: account_record_def Let_def bind_res_Inr_iff str_or_def [of a "''status''"] py_or_def split: if_splits)
qed

lemma record_role:
  "account_record uid clock a = Inr r \<Longrightarrow> get a ''role'' = PyStr (role_value rl) \<Longrightarrow> get r ''role'' = PyStr (role_value rl)"
  using role_value_plain [of rl]
  by (auto simp: account_record_def Let_def bind_res_Inr_iff str_or_def [of a "''role''"] py_or_def split: if_splits)

lemma role_value_owner: "role_value rl = ''owner'' \<longleftrightarrow> rl = OWNER"
  by (cases rl) simp_all

lemma kept_create:
  assumes "owner_kept t (st_store st)"
    and "get a ''status'' = PyStr ''active'' \<or> (\<exists>rl. rl \<noteq> OWNER \<and> get a ''role'' = PyStr (role_value rl))"
  shows "kept t (scall (ao_create mem_accounts uid clock a)) st"
proof (rule kept_scall [OF assms(1)])
  fix s' x assume "ao_create mem_accounts uid clock a (st_store st) = Inr (s', x)"
  then have "mem_create uid clock a (st_store st) = Inr (s', x)" by (simp add: mem_accounts_def)
  then show "owner_kept t s'"
    by (rule owner_kept_create [OF assms(1)])
      (use assms(2) record_status [of uid clock a] record_role [of uid clock a] role_value_owner in auto)
qed

text \<open>The calls that a guard has to protect.\<close>

lemma mem_found_by_id:
  "find_first (\<lambda>(k, a). is_account (strip u) j a) (am_accounts s) = Some (k, a) \<Longrightarrow> mem_by_id u j s = Inr (Some c) \<Longrightarrow> a = c"
  by (auto simp: mem_by_id_Some)

lemma kept_set_role:
  assumes "owner_kept t (st_store st)" "mem_by_id u j (st_store st) = Inr (Some c)" "get c ''role'' \<noteq> PyStr ''owner''" "rl \<noteq> OWNER"
  shows "kept t (scall (ao_set_role mem_accounts clock u j (role_value rl))) st"
proof (rule kept_scall [OF assms(1)])
  fix s' x assume "ao_set_role mem_accounts clock u j (role_value rl) (st_store st) = Inr (s', x)"
  then have u: "mem_update clock u j [(''role'', PyStr (role_value rl))] True (st_store st) = Inr (s', x)"
    by (simp add: mem_op_defs)
  show "owner_kept t s'"
    by (rule owner_kept_update [OF assms(1) u identity_free_values(7)])
      (use assms(2-4) role_value_owner [of rl] in \<open>auto simp: active_owner_def get_changed dest!: mem_found_by_id\<close>)
qed

lemma kept_set_invitation:
  assumes "owner_kept t (st_store st)" "mem_by_id u j (st_store st) = Inr (Some c)"
    and "get c ''status'' = PyStr ''invited'' \<or> get c ''role'' \<noteq> PyStr ''owner''"
  shows "kept t (scall (ao_set_invitation mem_accounts clock u j h e)) st"
proof (rule kept_scall [OF assms(1)])
  fix s' x assume "ao_set_invitation mem_accounts clock u j h e (st_store st) = Inr (s', x)"
  then have u: "mem_update clock u j (invitation_values h e) False (st_store st) = Inr (s', x)"
    by (simp add: mem_op_defs)
  show "owner_kept t s'"
    by (rule owner_kept_update [OF assms(1) u identity_free_values(3)])
      (use assms(2,3) in \<open>auto simp: active_owner_def get_changed dest!: mem_found_by_id\<close>)
qed

lemma public_fields: "get (public_account a) k = (if k \<in> set private_account_fields then PyNone else get a k)"
  by (induction a) (auto simp: public_account_def split: if_splits)

lemma active_owner_public: "active_owner (public_account a) = active_owner a"
  by (simp add: active_owner_def public_fields private_account_fields_def)

lemma another_key:
  assumes "distinct (map fst d)" "1 < length (filter Q d)"
  shows "\<exists>j c. (j, c) \<in> set d \<and> Q (j, c) \<and> j \<noteq> k"
proof (rule ccontr)
  assume "\<not> ?thesis"
  then have "set (map fst (filter Q d)) \<subseteq> {k}" by auto
  then have "card (set (map fst (filter Q d))) \<le> 1" using card_mono [of "{k}"] by simp
  moreover have "distinct (map fst (filter Q d))" by (rule distinct_map_filter [OF assms(1)])
  ultimately show False using assms(2) distinct_card by fastforce
qed

lemma listed_owners:
  assumes "mem_list u s = Inr rows" "1 < length (filter active_owner rows)" "mem_good s"
  shows "\<exists>j c. (j, c) \<in> set (am_accounts s) \<and> j \<noteq> k \<and> get c ''tenant_id'' = PyStr (strip u) \<and> active_owner c"
proof -
  let ?Q = "\<lambda>x. get (snd x) ''tenant_id'' = PyStr (strip u) \<and> active_owner (snd x)"
  have "rows = sorted_by (\<lambda>a. (py_str (get a ''surname''), py_str (get a ''given_name'')))
      (map public_account (filter (\<lambda>a. get a ''tenant_id'' = PyStr (strip u)) (map snd (am_accounts s))))"
    using assms(1) by (auto simp: mem_list_def acc_tenant_def split: if_splits)
  then have "length (filter active_owner rows) = length (filter ?Q (am_accounts s))"
    by (simp add: sorted_by_def filter_sort filter_map o_def active_owner_public)
  then show ?thesis
    using another_key [of "am_accounts s" ?Q k] assms(2) mem_goodD(1) [OF assms(3)]
    unfolding dict_wf_def by auto
qed

lemma kept_deactivate:
  assumes "owner_kept t (st_store st)" "mem_by_id u j (st_store st) = Inr (Some c)"
    and "get c ''role'' = PyStr ''owner'' \<Longrightarrow> \<exists>rows. mem_list u (st_store st) = Inr rows \<and> 1 < length (filter active_owner rows)"
  shows "kept t (scall (ao_set_active mem_accounts clock u j False)) st"
proof (rule kept_scall [OF assms(1)])
  fix s' x assume "ao_set_active mem_accounts clock u j False (st_store st) = Inr (s', x)"
  then have u: "mem_update clock u j (active_values False) True (st_store st) = Inr (s', x)"
    by (simp add: mem_op_defs)
  have good: "mem_good (st_store st)" using assms(1) by (simp add: owner_kept_def)
  show "owner_kept t s'"
  proof (rule owner_kept_update [OF assms(1) u identity_free_values(1)])
    fix k a b
    assume found: "find_first (\<lambda>(k, a). is_account (strip u) j a) (am_accounts (st_store st)) = Some (k, a)"
      and b: "b = (if True then bumped clock (active_values False) a else stamped clock (active_values False) a)"
    have "a = c" by (rule mem_found_by_id [OF found assms(2)])
    have "get b ''status'' = PyStr ''inactive''" using b by (simp add: get_changed)
    moreover have "\<exists>j c. (j, c) \<in> set (am_accounts (st_store st)) \<and> j \<noteq> k \<and> get c ''tenant_id'' = PyStr t \<and> active_owner c"
      if ao: "active_owner a" and te: "get a ''tenant_id'' = PyStr t"
    proof -
      have "strip u = t" using find_first_SomeD [OF found] te by (auto simp: is_account_def)
      moreover obtain rows where "mem_list u (st_store st) = Inr rows" "1 < length (filter active_owner rows)"
        using assms(3) ao \<open>a = c\<close> by (auto simp: active_owner_def)
      ultimately show ?thesis using listed_owners [OF _ _ good, of u rows k] by simp
    qed
    ultimately show "(active_owner a \<longrightarrow> get a ''tenant_id'' = PyStr t \<longrightarrow> active_owner b \<or>
        (\<exists>j c. (j, c) \<in> set (am_accounts (st_store st)) \<and> j \<noteq> k \<and> get c ''tenant_id'' = PyStr t \<and> active_owner c)) \<and>
      (get b ''role'' = PyStr ''owner'' \<longrightarrow> get b ''status'' \<noteq> PyStr ''invited'')" by auto
  qed
qed

subsection \<open>Routes\<close>

lemmas kept_rules = kept_hbind kept_hcatch kept_basic kept_audit kept_respond kept_calls

lemma kept_issue:
  assumes "owner_kept t (st_store st)"
    and "b \<Longrightarrow> mem_by_id (py_str (get a ''tenant_id'')) (py_str (get a ''id'')) (st_store st) = Inr (Some c) \<and>
      (get c ''status'' = PyStr ''invited'' \<or> get c ''role'' \<noteq> PyStr ''owner'')"
  shows "kept t (issue_and_send_account_link mem_accounts rq a b) st"
proof -
  have "kept t (scall (if b then ao_set_invitation mem_accounts clock (py_str (get a ''tenant_id'')) (py_str (get a ''id'')) h e
      else ao_set_reset mem_accounts clock (py_str (get a ''tenant_id'')) (py_str (get a ''id'')) h e)) st" for clock h e
    using kept_set_invitation [OF assms(1), of _ _ c] assms(2) kept_calls(2) [OF assms(1)] by (cases b) auto
  then show ?thesis
    unfolding issue_and_send_account_link_def Let_def
    by (intro kept_hbind kept_basic assms(1)) (auto intro: kept_basic)
qed

lemma mem_list_op: "ao_list mem_accounts = mem_list" "ao_by_id mem_accounts = mem_by_id"
  by (simp_all add: mem_accounts_def)

lemma kept_issue_reset: "owner_kept t (st_store st) \<Longrightarrow> kept t (issue_and_send_account_link mem_accounts rq a False) st"
  by (rule kept_issue) simp_all

lemma kept_activate_route: "owner_kept t (st_store st) \<Longrightarrow> kept t (activate_invitation mem_accounts rq b) st"
  unfolding activate_invitation_def by (auto intro!: kept_rules split: option.splits)

lemma kept_consume_route: "owner_kept t (st_store st) \<Longrightarrow> kept t (consume_password_reset mem_accounts rq token pw) st"
  unfolding consume_password_reset_def by (auto intro!: kept_rules)

lemma kept_password_route: "owner_kept t (st_store st) \<Longrightarrow> kept t (change_own_password mem_accounts rq cur pw c) st"
  unfolding change_own_password_def by (auto intro!: kept_rules)

lemma kept_request_route: "owner_kept t (st_store st) \<Longrightarrow> kept t (request_password_reset mem_accounts rq e) st"
  unfolding request_password_reset_def Let_def by (auto intro!: kept_rules kept_issue_reset split: option.splits)

lemma kept_owner_reset_route: "owner_kept t (st_store st) \<Longrightarrow> kept t (owner_password_reset mem_accounts rq i c) st"
  unfolding owner_password_reset_def by (auto intro!: kept_rules kept_issue_reset kept_find)

lemma kept_reactivate_route: "owner_kept t (st_store st) \<Longrightarrow> kept t (reactivate_work_account mem_accounts rq i c) st"
  unfolding reactivate_work_account_def by (auto intro!: kept_rules kept_find)

lemma owner_check_Inr:
  "(if own then hbind (sread f) (\<lambda>rows. hguard (P rows) code m) else hret ()) st = (st', Inr ()) \<longleftrightarrow>
   st' = st \<and> (own \<longrightarrow> (\<exists>rows. f (st_store st) = Inr rows \<and> P rows))"
  by (auto simp: hbind_Inr)

lemma kept_deactivate_route: "owner_kept t (st_store st) \<Longrightarrow> kept t (deactivate_work_account mem_accounts rq i c) st"
  unfolding deactivate_work_account_def
  by (auto intro!: kept_rules kept_find kept_deactivate simp: owner_check_Inr hbind_Inr mem_list_op)

lemma kept_role_route: "owner_kept t (st_store st) \<Longrightarrow> kept t (change_work_account_role mem_accounts rq i rl c) st"
  unfolding change_work_account_role_def reject_owner_role_def
  by (auto intro!: kept_rules kept_find kept_set_role)

lemma mem_by_id_self:
  assumes "mem_by_id u j s = Inr (Some a)"
  shows "mem_by_id (py_str (get a ''tenant_id'')) (py_str (get a ''id'')) s = Inr (Some a)"
proof -
  obtain k where "find_first (\<lambda>(k, a). is_account (strip u) j a) (am_accounts s) = Some (k, a)" "strip u \<noteq> []"
    using assms by (auto simp: mem_by_id_Some)
  moreover from this have "is_account (strip u) j a" by (auto dest: find_first_SomeD)
  ultimately show ?thesis by (simp add: mem_by_id_Some is_account_def)
qed

lemma kept_resend_route: "owner_kept t (st_store st) \<Longrightarrow> kept t (resend_work_account_invitation mem_accounts rq i c) st"
  unfolding resend_work_account_invitation_def
  by (auto intro!: kept_rules kept_find kept_issue simp: require_email_delivery_def dest: mem_by_id_self)

lemma kept_create_route: "owner_kept t (st_store st) \<Longrightarrow> kept t (create_work_account mem_accounts rq b c) st"
  unfolding create_work_account_def
  by (auto intro!: kept_rules kept_create simp: reject_owner_role_def account_payload_def bind_res_Inr_iff)

lemma kept_legacy:
  assumes "owner_kept t (st_store st)"
  shows "kept t (legacy_create_or_find mem_accounts rq b tenant others) st"
proof -
  let ?m = "hbind (hres (account_payload rq tenant (legacy_identity (rq_env rq)) OWNER (lb_password b))) (\<lambda>payload.
      scall (if others then ao_create mem_accounts (rq_uid rq) (rq_clock rq) payload
             else ao_first_owner mem_accounts (rq_uid rq) (rq_clock rq) payload))"
  have "kept t ?m st"
    using assms by (auto intro!: kept_rules kept_create simp: account_payload_def bind_res_Inr_iff)
  then show ?thesis
    by (auto simp: kept_def legacy_create_or_find_def sread_def split: prod.splits sum.splits py_exn.splits)
qed

lemma kept_login_route: "owner_kept t (st_store st) \<Longrightarrow> kept t (company_login mem_accounts rq b) st"
  unfolding company_login_def migrate_or_recover_legacy_owner_def Let_def
  by (auto intro!: kept_rules kept_legacy split: option.splits)

lemma kept_bootstrap_route: "owner_kept t (st_store st) \<Longrightarrow> kept t (bootstrap_client_owner mem_accounts rq b key) st"
  unfolding bootstrap_client_owner_def Let_def by (auto intro!: kept_rules)

lemma created_by_id:
  assumes "uid_new uid s" "mem_create uid clock p s = Inr (s', x)" "get p ''id'' = PyNone"
    and "mem_by_id u (py_str (get x ''id'')) s' = Inr (Some a)" "get p ''role'' = PyStr (role_value rl)"
  shows "get a ''role'' = PyStr (role_value rl)"
proof -
  obtain r where r: "account_record uid clock p = Inr r" "dict_get (am_accounts s) (account_key r) = None"
    "am_accounts s' = am_accounts s @ [(account_key r, r)]" "x = public_account r"
    using assms(2) by (auto simp: mem_create_def bind_res_Inr_iff dict_has_def dict_set_fresh split: if_splits)
  have "get x ''id'' = PyStr uid"
    using record_id [OF r(1) assms(3)] by (simp add: r(4) public_fields private_account_fields_def)
  then obtain k where "(k, a) \<in> set (am_accounts s')" "get a ''id'' = PyStr uid"
    using assms(4) by (auto simp: mem_by_id_Some is_account_def dest!: find_first_SomeD)
  then have "a = r" using assms(1) by (auto simp: r(3) uid_new_def list_all_iff)
  then show ?thesis using record_role [OF r(1) assms(5)] by simp
qed

lemma kept_invite_route:
  assumes "owner_kept t (st_store st)" "uid_new (rq_uid rq) (st_store st)"
  shows "kept t (invite_work_account mem_accounts rq b c) st"
proof -
  have created: "get a ''role'' \<noteq> PyStr ''owner''"
    if "hcatch 422 (scall (ao_create mem_accounts (rq_uid rq) (rq_clock rq) (invite_payload (tc_tenant_id c) b))) st = (st', Inr x)"
      "iv_role b \<noteq> OWNER" "mem_by_id (tc_tenant_id c) (py_str (get x ''id'')) (st_store st') = Inr (Some a)" for st' x a
  proof -
    have "mem_create (rq_uid rq) (rq_clock rq) (invite_payload (tc_tenant_id c) b) (st_store st) = Inr (st_store st', x)"
      using that(1) by (auto simp: hcatch_Inr scall_Inr mem_accounts_def)
    then have "get a ''role'' = PyStr (role_value (iv_role b))"
      using created_by_id [OF assms(2) _ _ that(3)] by (simp add: invite_payload_def)
    then show ?thesis using that(2) role_value_owner by simp
  qed
  have role: "get (invite_payload u b) ''role'' = PyStr (role_value (iv_role b))" for u
    by (simp add: invite_payload_def)
  show ?thesis
    unfolding invite_work_account_def
    by (auto intro!: kept_rules kept_create kept_issue dest: mem_by_id_self created
        simp: assms(1) reject_owner_role_def require_email_delivery_def mem_list_op role split: option.splits)
qed

lemma kept_request:
  assumes "owner_kept t (st_store st)" "uid_new (rq_uid rq) (st_store st)"
  shows "owner_kept t (st_store (handle_request mem_accounts rq r st))"
  using kept_login_route [OF assms(1)] kept_bootstrap_route [OF assms(1)] kept_activate_route [OF assms(1)]
    kept_request_route [OF assms(1)] kept_consume_route [OF assms(1)] kept_password_route [OF assms(1)]
    kept_create_route [OF assms(1)] kept_invite_route [OF assms] kept_resend_route [OF assms(1)]
    kept_owner_reset_route [OF assms(1)] kept_deactivate_route [OF assms(1)] kept_reactivate_route [OF assms(1)]
    kept_role_route [OF assms(1)]
  by (cases r) (simp_all add: kept_def)

text \<open>
  C19. A tenant with an active owner never loses its last one: after any sequence of requests to the account
  routes, whoever sends them, in whatever order and whether they succeed or fail half way, the tenant still has
  an account with the role of owner that is active, provided each request draws an identifier no account has.
\<close>

theorem last_owner_survives:
  assumes "owner_kept t (st_store st)" and "uids_new rs st"
  shows "owner_kept t (st_store (handle_requests mem_accounts rs st))"
  using assms
proof (induction rs arbitrary: st)
  case (Cons p rs)
  obtain rq r where p: "p = (rq, r)" by (rule prod.exhaust)
  show ?case
    using Cons.IH [of "handle_request mem_accounts rq r st"] kept_request [of t st rq r] Cons.prems
    by (simp add: p handle_requests_def)
qed (simp add: handle_requests_def)

definition owner_account :: pydict where
  "owner_account = [(''tenant_id'', PyStr ''acme''), (''email'', PyStr ''a@b''), (''given_name'', PyStr ''A''),
     (''surname'', PyStr ''B''), (''position'', PyStr ''C''), (''role'', PyStr ''owner''), (''id'', PyStr ''a1''),
     (''active'', PyBool True), (''status'', PyStr ''active''), (''password_hash'', PyStr ''h''),
     (''session_version'', PyInt 1)]"

definition owner_state :: "account_mem account_state" where
  "owner_state = \<lparr>st_store = \<lparr>am_accounts = [((''acme'', ''a@b''), owner_account)], am_audit = []\<rparr>,
     st_profiles = [], st_outbox = []\<rparr>"

lemma owner_state_kept: "owner_kept ''acme'' (st_store owner_state)"
  unfolding owner_state_def owner_kept_def active_owner_def mem_good_def
  by (simp add: owner_account_def versioned_def version_def dict_wf_def)

theorem last_owner_survives_witness:
  "uids_new [(demo_rq [], RqDeactivate ''a1'' demo_owner)] owner_state \<and>
   owner_kept ''acme'' (st_store (handle_requests mem_accounts [(demo_rq [], RqDeactivate ''a1'' demo_owner)] owner_state))"
proof -
  have "uids_new [(demo_rq [], RqDeactivate ''a1'' demo_owner)] owner_state"
    by (simp add: uid_new_def owner_state_def owner_account_def demo_rq_def)
  then show ?thesis using last_owner_survives [OF owner_state_kept] by blast
qed

end
