(* ===== verification/PyDec.thy ===== *)
theory PyDec
  imports PyVal
begin

text \<open>
  \<open>decimal.Decimal\<close> with its coefficient and exponent, which \<open>str\<close> shows: reading a literal, \<open>str\<close>,
  \<open>to_integral_value\<close>, \<open>int\<close>, \<open>normalize\<close> and \<open>format(x, 'f')\<close>, with the round trip between the first two.
  The default context rounds to 28 significant digits.
\<close>

section \<open>Reading\<close>

text \<open>Sign, coefficient and exponent; the flag of a NaN says that it signals.\<close>

datatype decimal = DFin bool nat int | DInf bool | DNaN bool

definition dec_unsigned :: "bool \<Rightarrow> string \<Rightarrow> decimal option" where
  "dec_unsigned neg s =
     (let l = lower s in
      if l = ''inf'' \<or> l = ''infinity'' then Some (DInf neg)
      else if startswith l ''nan'' \<and> list_all is_dec_digit (drop 3 l) then Some (DNaN False)
      else if startswith l ''snan'' \<and> list_all is_dec_digit (drop 4 l) then Some (DNaN True)
      else
        (let ip = takeWhile is_dec_digit s; r = dropWhile is_dec_digit s;
             dot = (r \<noteq> [] \<and> hd r = CHR ''.'');
             fp = (if dot then takeWhile is_dec_digit (tl r) else []);
             q = (if dot then dropWhile is_dec_digit (tl r) else r)
         in if ip = [] \<and> fp = [] then None
            else map_option (\<lambda>e. DFin neg (nat_of_digits (ip @ fp)) (e - int (length fp))) (parse_exponent q)))"

definition dec_of :: "string \<Rightarrow> decimal option" where
  "dec_of s =
     (let t = filter (\<lambda>c. c \<noteq> CHR ''_'') (strip s) in
      case t of
        [] \<Rightarrow> None
      | c # r \<Rightarrow>
          if c = CHR ''-'' then dec_unsigned True r
          else if c = CHR ''+'' then dec_unsigned False r
          else dec_unsigned False t)"

definition dec_rat :: "bool \<Rightarrow> nat \<Rightarrow> int \<Rightarrow> rat" where
  "dec_rat neg m e = (if neg then - scale10 m e else scale10 m e)"

fun dec_lit_of :: "decimal \<Rightarrow> dec_lit" where
  "dec_lit_of (DFin neg m e) = DecFin (dec_rat neg m e)"
| "dec_lit_of (DInf neg) = DecInf"
| "dec_lit_of (DNaN sig) = DecNaN"

lemma unsigned_lit:
  "map_option dec_lit_of (dec_unsigned neg s) =
   map_option (\<lambda>d. case d of DecFin q \<Rightarrow> DecFin (if neg then - q else q) | x \<Rightarrow> x) (parse_unsigned_decimal s)"
  by (auto simp: dec_unsigned_def parse_unsigned_decimal_def dec_rat_def Let_def map_option_case split: option.splits)

text \<open>The value of a literal is the one that \<open>parse_decimal\<close> reads.\<close>

lemma dec_lit_of_dec_of: "parse_decimal s = map_option dec_lit_of (dec_of s)"
proof -
  have pos: "map_option dec_lit_of (dec_unsigned False r) = parse_unsigned_decimal r" for r
    by (cases "parse_unsigned_decimal r") (simp_all add: unsigned_lit split: dec_lit.splits)
  have neg: "map_option dec_lit_of (dec_unsigned True r) =
      map_option (\<lambda>d. case d of DecFin q \<Rightarrow> DecFin (- q) | x \<Rightarrow> x) (parse_unsigned_decimal r)" for r
    by (cases "parse_unsigned_decimal r") (simp_all add: unsigned_lit split: dec_lit.splits)
  show ?thesis
    by (simp add: parse_decimal_def dec_of_def Let_def pos neg split: list.splits)
qed

section \<open>Writing\<close>

text \<open>The digits before and after the point, when the point stands after \<open>dp\<close> of the digits \<open>s\<close>.\<close>

definition int_part :: "int \<Rightarrow> string \<Rightarrow> string" where
  "int_part dp s = (if dp \<le> 0 then ''0''
     else if int (length s) \<le> dp then s @ replicate (nat dp - length s) (CHR ''0'') else take (nat dp) s)"

definition frac_part :: "int \<Rightarrow> string \<Rightarrow> string" where
  "frac_part dp s = (if dp \<le> 0 then replicate (nat (- dp)) (CHR ''0'') @ s
     else if int (length s) \<le> dp then [] else drop (nat dp) s)"

definition point_text :: "string \<Rightarrow> string \<Rightarrow> string" where
  "point_text ip fp = ip @ (if fp = [] then [] else CHR ''.'' # fp)"

definition exp_text :: "int \<Rightarrow> string" where
  "exp_text x = (if x = 0 then []
     else CHR ''E'' # (if x < 0 then CHR ''-'' else CHR ''+'') # str_nat (nat \<bar>x\<bar>))"

fun dec_str :: "decimal \<Rightarrow> string" where
  "dec_str (DFin neg m e) =
     (let s = str_nat m; left = e + int (length s); dp = (if e \<le> 0 \<and> - 6 < left then left else 1)
      in (if neg then ''-'' else []) @ point_text (int_part dp s) (frac_part dp s) @ exp_text (left - dp))"
| "dec_str (DInf neg) = (if neg then ''-Infinity'' else ''Infinity'')"
| "dec_str (DNaN sig) = (if sig then ''sNaN'' else ''NaN'')"

section \<open>Operations\<close>

fun dec_finite :: "decimal \<Rightarrow> bool" where
  "dec_finite (DFin neg m e) = True"
| "dec_finite _ = False"

fun dec_value :: "decimal \<Rightarrow> rat" where
  "dec_value (DFin neg m e) = dec_rat neg m e"
| "dec_value _ = 0"

text \<open>\<open>x == x.to_integral_value()\<close> of a finite \<open>x\<close>.\<close>

definition dec_integral :: "decimal \<Rightarrow> bool" where
  "dec_integral d \<longleftrightarrow> of_int \<lfloor>dec_value d\<rfloor> = dec_value d"

definition dec_int :: "decimal \<Rightarrow> int" where
  "dec_int d = trunc_rat (dec_value d)"

fun strip_zeros :: "nat \<Rightarrow> int \<Rightarrow> nat \<times> int" where
  "strip_zeros m e = (if m \<noteq> 0 \<and> m mod 10 = 0 then strip_zeros (m div 10) (e + 1) else (m, e))"

declare strip_zeros.simps [simp del]

fun dec_normalize :: "decimal \<Rightarrow> decimal" where
  "dec_normalize (DFin neg m e) =
     (let k = length (str_nat m) - 28;
          c = (if k = 0 then m else nat (round_half_even (of_nat m / 10 ^ k)));
          p = strip_zeros c (e + int k)
      in DFin neg (fst p) (if c = 0 then 0 else snd p))"
| "dec_normalize d = d"

text \<open>\<open>format(x, 'f')\<close>.\<close>

fun dec_format_f :: "decimal \<Rightarrow> string" where
  "dec_format_f (DFin neg m e) =
     (let m' = (if 0 < e then m * 10 ^ nat e else m); e' = min e 0;
          s = str_nat m'; dp = e' + int (length s)
      in (if neg then ''-'' else []) @ point_text (int_part dp s) (frac_part dp s))"
| "dec_format_f d = dec_str d"

section \<open>The round trip\<close>

lemma digit_zero [simp]: "is_dec_digit (CHR ''0'')"
  by (simp add: is_dec_digit_def)

lemma nat_of_digits_zeros: "nat_of_digits (replicate n (CHR ''0'') @ s) = nat_of_digits s"
proof -
  have "foldl (\<lambda>a c. 10 * a + digit_val c) 0 (replicate n (CHR ''0'')) = 0"
    by (induction n) (simp_all add: digit_val_def)
  then show ?thesis by (simp add: nat_of_digits_def)
qed

lemma parse_exp_text: "parse_exponent (exp_text x) = Some x"
  using str_nat_digits by (auto simp: exp_text_def parse_exponent_def list_all_iff)

lemma exp_text_head: "exp_text x = [] \<or> (\<exists>r. exp_text x = CHR ''E'' # r)"
  by (simp add: exp_text_def)

lemma dec_unsigned_parts:
  assumes ip: "list_all is_dec_digit ip" "ip \<noteq> []" and fp: "list_all is_dec_digit fp"
  shows "dec_unsigned neg (point_text ip fp @ exp_text x) = Some (DFin neg (nat_of_digits (ip @ fp)) (x - int (length fp)))"
proof -
  obtain c r where cr: "ip = c # r" using ip(2) by (cases ip) auto
  have c: "is_dec_digit c" using ip(1) cr by simp
  have lc: "lower_char c = c" using c by (auto simp: lower_char_def is_dec_digit_def Let_def)
  have ne: "c \<noteq> CHR ''i''" "c \<noteq> CHR ''n''" "c \<noteq> CHR ''s''" using c by (auto simp: is_dec_digit_def)
  have nd: "\<not> is_dec_digit (CHR ''.'')" "\<not> is_dec_digit (CHR ''E'')" by (simp_all add: is_dec_digit_def)
  let ?t = "(if fp = [] then [] else CHR ''.'' # fp) @ exp_text x"
  have hd: "?t = [] \<or> \<not> is_dec_digit (hd ?t)" using exp_text_head [of x] nd by auto
  have s: "point_text ip fp @ exp_text x = ip @ ?t" by (simp add: point_text_def)
  have tw: "takeWhile is_dec_digit (ip @ ?t) = ip" and dw: "dropWhile is_dec_digit (ip @ ?t) = ?t"
    using ip(1) hd by (auto simp: list_all_iff takeWhile_append2 dropWhile_append2 takeWhile_eq_Nil_iff dropWhile_eq_self_iff)
  have he: "exp_text x = [] \<or> \<not> is_dec_digit (hd (exp_text x))" "exp_text x \<noteq> [] \<longrightarrow> hd (exp_text x) \<noteq> CHR ''.''"
    using exp_text_head [of x] nd by auto
  have tw2: "takeWhile is_dec_digit (fp @ exp_text x) = fp" and dw2: "dropWhile is_dec_digit (fp @ exp_text x) = exp_text x"
    using fp he by (auto simp: list_all_iff takeWhile_append2 dropWhile_append2 takeWhile_eq_Nil_iff dropWhile_eq_self_iff)
  have low: "lower (ip @ ?t) = c # lower (r @ ?t)" by (simp add: cr lower_def lc)
  show ?thesis
    unfolding s dec_unsigned_def low Let_def tw dw using ne ip(2) he(2)
    by (cases "fp = []") (auto simp: tw2 dw2 parse_exp_text)
qed

lemma str_parts:
  fixes m e defines "s \<equiv> str_nat m" and "left \<equiv> e + int (length (str_nat m))"
  defines "dp \<equiv> (if e \<le> 0 \<and> - 6 < left then left else 1)"
  shows "list_all is_dec_digit (int_part dp s)" "int_part dp s \<noteq> []" "list_all is_dec_digit (frac_part dp s)"
    "nat_of_digits (int_part dp s @ frac_part dp s) = m" "left - dp - int (length (frac_part dp s)) = e"
proof -
  have s: "list_all is_dec_digit s" "s \<noteq> []" "nat_of_digits s = m"
    using str_nat_digits by (auto simp: s_def list_all_iff)
  then have len: "1 \<le> length s" by (cases s) auto
  show "list_all is_dec_digit (int_part dp s)" "list_all is_dec_digit (frac_part dp s)"
    using s(1) by (auto simp: int_part_def frac_part_def list_all_iff dest: in_set_takeD in_set_dropD)
  show "int_part dp s \<noteq> []" using s(2) by (auto simp: int_part_def)
  have full: "int (length s) \<le> dp \<Longrightarrow> nat dp = length s"
    using len by (auto simp: dp_def left_def s_def split: if_splits)
  show "nat_of_digits (int_part dp s @ frac_part dp s) = m"
    using s(3) full nat_of_digits_zeros [of 1] nat_of_digits_zeros
    by (auto simp: int_part_def frac_part_def)
  show "left - dp - int (length (frac_part dp s)) = e"
    using len full by (auto simp: frac_part_def dp_def left_def s_def)
qed

lemma dec_of_str: "dec_of (dec_str (DFin neg m e)) = Some (DFin neg m e)"
proof -
  define s where "s = str_nat m"
  define left where "left = e + int (length s)"
  define dp where "dp = (if e \<le> 0 \<and> - 6 < left then left else 1)"
  note p = str_parts [of e m, folded s_def, folded left_def, folded dp_def]
  let ?b = "point_text (int_part dp s) (frac_part dp s) @ exp_text (left - dp)"
  have b: "dec_unsigned neg ?b = Some (DFin neg m e)" for neg
    using dec_unsigned_parts [OF p(1-3), of neg "left - dp"] p(4,5) by simp
  obtain c r where cr: "int_part dp s = c # r" using p(2) by (cases "int_part dp s") auto
  then have c: "is_dec_digit c" using p(1) by simp
  have chars: "x \<in> set ?b \<Longrightarrow> x \<noteq> CHR ''_'' \<and> \<not> is_space x" for x
    using p(1,3) str_nat_digits dec_digit_not_space dec_digit_not_sign
    by (fastforce simp: point_text_def exp_text_def list_all_iff is_space_def split: if_splits)
  have str: "dec_str (DFin neg m e) = (if neg then ''-'' else []) @ ?b"
    by (simp add: s_def left_def dp_def Let_def)
  have all: "x \<in> set ((if neg then ''-'' else []) @ ?b) \<Longrightarrow> x \<noteq> CHR ''_'' \<and> \<not> is_space x" for x
    using chars by (auto simp: is_space_def split: if_splits)
  have "strip ((if neg then ''-'' else []) @ ?b) = (if neg then ''-'' else []) @ ?b"
    by (rule strip_hd_last) (meson all hd_in_set last_in_set)
  moreover have "filter (\<lambda>c. c \<noteq> CHR ''_'') ((if neg then ''-'' else []) @ ?b) = (if neg then ''-'' else []) @ ?b"
    using all by (intro filter_True) blast
  moreover have "?b = c # r @ (if frac_part dp s = [] then [] else CHR ''.'' # frac_part dp s) @ exp_text (left - dp)"
    by (simp add: point_text_def cr)
  moreover have "c \<noteq> CHR ''-''" "c \<noteq> CHR ''+''" using dec_digit_not_sign [OF c] by auto
  ultimately show ?thesis
    unfolding str dec_of_def using b by (cases neg) (simp_all del: filter.simps)
qed

lemma parse_dec_str: "parse_decimal (dec_str (DFin neg m e)) = Some (DecFin (dec_rat neg m e))"
  by (simp only: dec_lit_of_dec_of dec_of_str) simp

end
