(* ===== verification/Inbound.thy ===== *)
theory Inbound
  imports Contracts PyDec PyJson
begin

text \<open>
  What a source system reports, made canonical: the records of \<open>src/shelfwise_connectors/canonical.py\<close>,
  their validation (\<open>validation.py\<close>), the inbound record with its provenance (\<open>provenance.py\<close>), the helpers
  of the mappers (\<open>connectors/systems/_common.py\<close>), and the event an inbound record becomes
  (\<open>normalize.py\<close>). \<open>sha\<close> is the hexadecimal SHA-256 of a text; \<open>now\<close> is the clock reading.
\<close>

section \<open>Canonical records\<close>

datatype source_system = CSV | SAP | SYSPRO | ODOO | DYNAMICS | SHOPIFY | SQUARE | LIGHTSPEED | YOCO

fun system_value :: "source_system \<Rightarrow> string" where
  "system_value CSV = ''csv''"
| "system_value SAP = ''sap''"
| "system_value SYSPRO = ''syspro''"
| "system_value ODOO = ''odoo''"
| "system_value DYNAMICS = ''dynamics''"
| "system_value SHOPIFY = ''shopify''"
| "system_value SQUARE = ''square''"
| "system_value LIGHTSPEED = ''lightspeed''"
| "system_value YOCO = ''yoco''"

definition all_systems :: "source_system list" where
  "all_systems = [CSV, SAP, SYSPRO, ODOO, DYNAMICS, SHOPIFY, SQUARE, LIGHTSPEED, YOCO]"

definition source_system_of :: "string \<Rightarrow> source_system option" where
  "source_system_of s = find_first (\<lambda>x. system_value x = s) all_systems"

lemma source_system_of_value [simp]: "source_system_of (system_value x) = Some x"
  by (cases x) (simp_all add: source_system_of_def all_systems_def)

lemma system_value_inj [simp]: "system_value x = system_value y \<longleftrightarrow> x = y"
  using source_system_of_value by (metis option.inject)

datatype stock_state = ON_HAND | RESERVED | DAMAGED | EXPIRED | IN_TRANSIT

fun stock_state_value :: "stock_state \<Rightarrow> string" where
  "stock_state_value ON_HAND = ''on_hand''"
| "stock_state_value RESERVED = ''reserved''"
| "stock_state_value DAMAGED = ''damaged''"
| "stock_state_value EXPIRED = ''expired''"
| "stock_state_value IN_TRANSIT = ''in_transit''"

definition stock_state_of :: "string \<Rightarrow> stock_state result" where
  "stock_state_of s = (case find_first (\<lambda>x. stock_state_value x = s)
       [ON_HAND, RESERVED, DAMAGED, EXPIRED, IN_TRANSIT] of
     Some x \<Rightarrow> Inr x
   | None \<Rightarrow> Inl (ValueError (repr_str s @ '' is not a valid StockState'')))"

text \<open>A quantity is an \<open>int\<close> or a \<open>Decimal\<close>.\<close>

datatype quantity = QInt int | QDec decimal

record product_master =
  pm_tenant :: string
  pm_system :: source_system
  pm_source_id :: string
  pm_sku :: "string option"
  pm_gtin :: "string option"
  pm_barcode :: "string option"
  pm_name :: "string option"
  pm_category :: "string option"

record sales_line =
  sl_tenant :: string
  sl_order :: string
  sl_line :: string
  sl_sku :: string
  sl_location :: string
  sl_quantity :: quantity
  sl_price :: money
  sl_sold_at :: datetime

record stock_item =
  sk_tenant :: string
  sk_sku :: string
  sk_location :: string
  sk_quantity :: decimal
  sk_state :: stock_state
  sk_time :: "datetime option"
  sk_gtin :: "string option"
  sk_barcode :: "string option"

section \<open>Provenance\<close>

record validation =
  vr_ok :: bool
  vr_errors :: "string list"
  vr_warnings :: "string list"

definition vr_empty :: validation where
  "vr_empty = \<lparr>vr_ok = True, vr_errors = [], vr_warnings = []\<rparr>"

definition vr_fail :: "string \<Rightarrow> validation \<Rightarrow> validation" where
  "vr_fail m v = v\<lparr>vr_ok := False, vr_errors := vr_errors v @ [m]\<rparr>"

definition vr_warn :: "string \<Rightarrow> validation \<Rightarrow> validation" where
  "vr_warn m v = v\<lparr>vr_warnings := vr_warnings v @ [m]\<rparr>"

definition vr_to_dict :: "validation \<Rightarrow> pydict" where
  "vr_to_dict v = [(''ok'', PyBool (vr_ok v)), (''errors'', PyList (map PyStr (vr_errors v))),
     (''warnings'', PyList (map PyStr (vr_warnings v)))]"

record inbound_record =
  rb_tenant :: string
  rb_system :: source_system
  rb_object_type :: string
  rb_object_id :: string
  rb_event_time :: datetime
  rb_raw :: pydict
  rb_canonical_type :: string
  rb_correlation :: string
  rb_canonical :: pydict
  rb_validation :: validation
  rb_quality :: string
  rb_actor :: "string option"

definition raw_payload_hash :: "(string \<Rightarrow> string) \<Rightarrow> pydict \<Rightarrow> string" where
  "raw_payload_hash sha payload = sha (json_dumps (PyDict payload))"

definition payload_hash :: "(string \<Rightarrow> string) \<Rightarrow> inbound_record \<Rightarrow> string" where
  "payload_hash sha r = raw_payload_hash sha (rb_raw r)"

definition rb_to_dict :: "(string \<Rightarrow> string) \<Rightarrow> inbound_record \<Rightarrow> pydict" where
  "rb_to_dict sha r =
     [(''tenant_id'', PyStr (rb_tenant r)), (''source_system'', PyStr (system_value (rb_system r))),
      (''source_object_type'', PyStr (rb_object_type r)), (''source_object_id'', PyStr (rb_object_id r)),
      (''event_time'', PyStr (isoformat (rb_event_time r))), (''raw_payload_hash'', PyStr (payload_hash sha r)),
      (''canonical_type'', PyStr (rb_canonical_type r)), (''canonical_payload'', PyDict (rb_canonical r)),
      (''correlation_id'', PyStr (rb_correlation r)), (''validation'', PyDict (vr_to_dict (rb_validation r))),
      (''source_quality'', PyFloat (rb_quality r)), (''actor'', opt_str (rb_actor r))]"

section \<open>Reading values\<close>

definition conversion_error :: py_exn where
  "conversion_error = ArithmeticError ''[<class 'decimal.ConversionSyntax'>]''"

definition invalid_operation :: py_exn where
  "invalid_operation = ArithmeticError ''[<class 'decimal.InvalidOperation'>]''"

text \<open>\<open>Decimal(s)\<close>: \<open>InvalidOperation\<close> is an \<open>ArithmeticError\<close>.\<close>

definition dec_read :: "string \<Rightarrow> decimal result" where
  "dec_read s = (case dec_of s of None \<Rightarrow> Inl conversion_error | Some d \<Rightarrow> Inr d)"

text \<open>\<open>d < 0\<close>, which signals on a NaN.\<close>

fun dec_negative :: "decimal \<Rightarrow> bool result" where
  "dec_negative (DFin neg m e) = Inr (dec_rat neg m e < 0)"
| "dec_negative (DInf neg) = Inr neg"
| "dec_negative (DNaN sig) = Inl invalid_operation"

text \<open>\<open>Money.zar(v)\<close> with its failures.\<close>

definition money_zar :: "pyval \<Rightarrow> money result" where
  "money_zar v = bind_res (dec_read (py_str v)) (\<lambda>d. case d of
       DFin neg m e \<Rightarrow>
         if \<bar>round_half_up (dec_rat neg m e * 100)\<bar> < 10 ^ 28 then Inr (zar (dec_rat neg m e)) else Inl invalid_operation
     | DInf neg \<Rightarrow> Inl invalid_operation
     | DNaN sig \<Rightarrow> Inl (if sig then invalid_operation else ValueError ''cannot convert NaN to integer''))"

text \<open>\<open>str(money.amount)\<close>.\<close>

definition money_amount :: "money \<Rightarrow> string result" where
  "money_amount m = (if \<bar>minor_units m\<bar> < 10 ^ 28 then Inr (amount_str (minor_units m)) else Inl invalid_operation)"

definition aware :: "datetime \<Rightarrow> datetime" where
  "aware t = (if dt_offset t = None then t\<lparr>dt_offset := Some 0\<rparr> else t)"

definition parse_time :: "datetime \<Rightarrow> pyval \<Rightarrow> datetime result" where
  "parse_time now v = (case v of
       PyStr (c # s) \<Rightarrow> (case fromisoformat (replace_char (CHR ''Z'') ''+00:00'' (c # s)) of
           None \<Rightarrow> Inl (ValueError (''Invalid isoformat string: '' @ repr_str (replace_char (CHR ''Z'') ''+00:00'' (c # s))))
         | Some t \<Rightarrow> Inr (aware t))
     | _ \<Rightarrow> Inr (aware now))"

definition parse_quantity :: "pyval \<Rightarrow> quantity result" where
  "parse_quantity v = (case dec_of (py_str (py_or v (PyStr ''0''))) of
       None \<Rightarrow> Inl (ValueError ''quantity is not numeric'')
     | Some d \<Rightarrow>
         if \<not> dec_finite d then Inl (ValueError ''quantity must be finite'')
         else Inr (if dec_integral d then QInt (dec_int d) else QDec d))"

fun quantity_num :: "quantity \<Rightarrow> rat" where
  "quantity_num (QInt i) = of_int i"
| "quantity_num (QDec d) = dec_value d"

text \<open>The message of an exception, \<open>str(exc)\<close>, for the kinds the mappers catch.\<close>

fun exc_text :: "py_exn \<Rightarrow> string" where
  "exc_text (ValueError m) = m"
| "exc_text (TypeError m) = m"
| "exc_text (KeyError m) = m"
| "exc_text (OverflowError m) = m"
| "exc_text (RuntimeError m) = m"
| "exc_text (AttributeError m) = m"
| "exc_text (ArithmeticError m) = m"
| "exc_text (DatabaseError m) = m"
| "exc_text (DataDomainBoundaryError m) = m"
| "exc_text (HTTPException code m) = m"

text \<open>\<open>except (TypeError, ValueError, InvalidOperation)\<close>.\<close>

fun is_malformed :: "py_exn \<Rightarrow> bool" where
  "is_malformed (ValueError m) = True"
| "is_malformed (TypeError m) = True"
| "is_malformed (ArithmeticError m) = True"
| "is_malformed _ = False"

section \<open>Validation\<close>

definition fail_if :: "bool \<Rightarrow> string \<Rightarrow> validation \<Rightarrow> validation" where
  "fail_if b m v = (if b then vr_fail m v else v)"

definition none_or_empty :: "string option \<Rightarrow> bool" where
  "none_or_empty x \<longleftrightarrow> x = None \<or> x = Some []"

definition validate_inventory :: "stock_item \<Rightarrow> validation result" where
  "validate_inventory i = bind_res (dec_negative (sk_quantity i)) (\<lambda>neg.
     Inr (fail_if neg ''inventory quantity cannot be negative''
         (fail_if (sk_location i = []) ''inventory missing location_id''
         (fail_if (sk_sku i = [] \<and> none_or_empty (sk_gtin i) \<and> none_or_empty (sk_barcode i))
            ''inventory has no resolvable product identifier''
         (fail_if (sk_tenant i = []) ''inventory missing tenant_id'' vr_empty)))))"

definition validate_product :: "product_master \<Rightarrow> validation" where
  "validate_product p =
     (let v = fail_if (none_or_empty (pm_sku p) \<and> none_or_empty (pm_gtin p) \<and> none_or_empty (pm_barcode p))
            ''product has no resolvable identifier''
         (fail_if (pm_source_id p = []) ''product missing source_product_id''
         (fail_if (pm_tenant p = []) ''product missing tenant_id'' vr_empty))
      in if none_or_empty (pm_name p) then vr_warn ''product missing name'' v else v)"

definition validate_sales :: "sales_line \<Rightarrow> validation" where
  "validate_sales i =
     fail_if (minor_units (sl_price i) < 0) ''sales line unit_price cannot be negative''
     (fail_if (quantity_num (sl_quantity i) \<le> 0) ''sales line quantity must be positive''
     (fail_if (sl_sku i = []) ''sales line missing sku''
     (fail_if (sl_line i = []) ''sales line missing line_id''
     (fail_if (sl_order i = []) ''sales line missing order_id''
     (fail_if (sl_tenant i = []) ''sales line missing tenant_id'' vr_empty)))))"

lemma vr_ok_fail_if [simp]: "vr_ok (fail_if b m v) \<longleftrightarrow> \<not> b \<and> vr_ok v"
  by (simp add: fail_if_def vr_fail_def)

lemma vr_ok_empty [simp]: "vr_ok vr_empty"
  by (simp add: vr_empty_def)

lemma validate_sales_ok:
  "vr_ok (validate_sales i) \<longleftrightarrow> sl_tenant i \<noteq> [] \<and> sl_order i \<noteq> [] \<and> sl_line i \<noteq> [] \<and> sl_sku i \<noteq> [] \<and>
     0 < quantity_num (sl_quantity i) \<and> 0 \<le> minor_units (sl_price i)"
  by (auto simp: validate_sales_def)

lemma validate_inventory_ok:
  "validate_inventory i = Inr v \<Longrightarrow> vr_ok v \<Longrightarrow> sk_tenant i \<noteq> [] \<and> sk_location i \<noteq> [] \<and>
     (sk_sku i \<noteq> [] \<or> \<not> none_or_empty (sk_gtin i) \<or> \<not> none_or_empty (sk_barcode i)) \<and> dec_negative (sk_quantity i) = Inr False"
  by (auto simp: validate_inventory_def bind_res_Inr_iff)

section \<open>Serialisation\<close>

text \<open>
  \<open>serialise\<close> of a canonical record: \<open>asdict\<close> turns the nested price into a dictionary first, so it has no
  \<open>amount\<close>; decimals and datetimes become text, enumerations their value.
\<close>

fun quantity_val :: "quantity \<Rightarrow> pyval" where
  "quantity_val (QInt i) = PyInt i"
| "quantity_val (QDec d) = PyStr (dec_str d)"

definition sales_payload :: "sales_line \<Rightarrow> pydict" where
  "sales_payload s =
     [(''tenant_id'', PyStr (sl_tenant s)), (''order_id'', PyStr (sl_order s)), (''line_id'', PyStr (sl_line s)),
      (''sku'', PyStr (sl_sku s)), (''location_id'', PyStr (sl_location s)), (''quantity'', quantity_val (sl_quantity s)),
      (''unit_price'', PyDict [(''minor_units'', PyInt (minor_units (sl_price s))), (''currency'', PyStr (currency (sl_price s)))]),
      (''sold_at'', PyStr (isoformat (sl_sold_at s)))]"

definition stock_payload :: "stock_item \<Rightarrow> pydict" where
  "stock_payload i =
     [(''tenant_id'', PyStr (sk_tenant i)), (''sku'', PyStr (sk_sku i)), (''location_id'', PyStr (sk_location i)),
      (''quantity'', PyStr (dec_str (sk_quantity i))), (''stock_state'', PyStr (stock_state_value (sk_state i))),
      (''event_time'', (case sk_time i of None \<Rightarrow> PyNone | Some t \<Rightarrow> PyStr (isoformat t))),
      (''gtin'', opt_str (sk_gtin i)), (''barcode'', opt_str (sk_barcode i))]"

definition product_payload :: "product_master \<Rightarrow> pydict" where
  "product_payload p =
     [(''tenant_id'', PyStr (pm_tenant p)), (''source_system'', PyStr (system_value (pm_system p))),
      (''source_product_id'', PyStr (pm_source_id p)), (''sku'', opt_str (pm_sku p)), (''gtin'', opt_str (pm_gtin p)),
      (''barcode'', opt_str (pm_barcode p)), (''name'', opt_str (pm_name p)), (''category'', opt_str (pm_category p))]"

definition source_quality :: "validation \<Rightarrow> string" where
  "source_quality v = (if \<not> vr_ok v then ''0.3'' else if vr_warnings v \<noteq> [] then ''0.6'' else ''1.0'')"

definition wrap ::
  "(string \<Rightarrow> string) \<Rightarrow> string \<Rightarrow> source_system \<Rightarrow> string \<Rightarrow> string \<Rightarrow> datetime \<Rightarrow> string \<Rightarrow> pydict \<Rightarrow> validation \<Rightarrow>
   pydict \<Rightarrow> inbound_record" where
  "wrap sha tenant sys otype oid t ctype canonical v raw =
     \<lparr>rb_tenant = tenant, rb_system = sys, rb_object_type = otype, rb_object_id = oid, rb_event_time = t,
      rb_raw = raw, rb_canonical_type = ctype, rb_correlation = take 16 (raw_payload_hash sha raw),
      rb_canonical = canonical, rb_validation = v, rb_quality = source_quality v, rb_actor = None\<rparr>"

section \<open>From a record to an event\<close>

fun system_event_source :: "source_system \<Rightarrow> event_source" where
  "system_event_source SQUARE = POS_CSV"
| "system_event_source SHOPIFY = POS_CSV"
| "system_event_source LIGHTSPEED = POS_CSV"
| "system_event_source YOCO = POS_CSV"
| "system_event_source CSV = WMS_CSV"
| "system_event_source SAP = WMS_CSV"
| "system_event_source SYSPRO = WMS_CSV"
| "system_event_source DYNAMICS = WMS_CSV"
| "system_event_source ODOO = WMS_CSV"

definition record_event_id :: "inbound_record \<Rightarrow> string" where
  "record_event_id r = ''evt_'' @ system_value (rb_system r) @ ''_'' @ rb_object_type r @ ''_'' @ rb_object_id r"

text \<open>The call of the constructor of \<open>Event\<close>, with the fields the three kinds of record share.\<close>

definition record_event :: "inbound_record \<Rightarrow> event_type \<Rightarrow> datetime \<Rightarrow> string \<Rightarrow> pydict \<Rightarrow> event result" where
  "record_event r ty ts actor payload =
     post_init (record_event_id r) (PyStr (event_type_value ty)) (PyStr (isoformat ts)) actor (PyDict payload)
       (PyStr (event_source_value (system_event_source (rb_system r)))) (rb_tenant r)
       (PyStr (domain_value OPERATIONAL_TWIN)) (rb_correlation r) None ''v1''"

definition item :: "pydict \<Rightarrow> string \<Rightarrow> pyval result" where
  "item d k = (case map_of d k of None \<Rightarrow> Inl (KeyError k) | Some v \<Rightarrow> Inr v)"

text \<open>\<open>_datetime_value\<close> is \<open>parse_time\<close> with another fallback.\<close>

definition datetime_value :: "pyval \<Rightarrow> datetime \<Rightarrow> datetime result" where
  "datetime_value v fallback = parse_time fallback v"

definition text_or_none :: "pyval \<Rightarrow> string option" where
  "text_or_none v = (if truthy v then Some (py_str v) else None)"

definition inventory_from_payload :: "inbound_record \<Rightarrow> stock_item result" where
  "inventory_from_payload r =
     (let p = rb_canonical r in
      bind_res (item p ''sku'') (\<lambda>sku.
      bind_res (item p ''location_id'') (\<lambda>loc.
      bind_res (dec_read (py_str (get_or p ''quantity'' (PyStr ''0'')))) (\<lambda>q.
      bind_res (stock_state_of (str_or p ''stock_state'' ''on_hand'')) (\<lambda>st.
      bind_res (datetime_value (get p ''event_time'') (rb_event_time r)) (\<lambda>t.
      Inr \<lparr>sk_tenant = rb_tenant r, sk_sku = py_str sku, sk_location = py_str loc, sk_quantity = q, sk_state = st,
           sk_time = Some t, sk_gtin = text_or_none (get p ''gtin''), sk_barcode = text_or_none (get p ''barcode'')\<rparr>))))))"

definition inventory_to_event :: "(string \<Rightarrow> string) \<Rightarrow> stock_item \<Rightarrow> inbound_record \<Rightarrow> event result" where
  "inventory_to_event sha i r =
     record_event r STOCK_UPDATE (aware (case sk_time i of Some t \<Rightarrow> t | None \<Rightarrow> rb_event_time r)) (system_value (rb_system r))
       [(''sku'', PyStr (sk_sku i)), (''location_id'', PyStr (sk_location i)), (''quantity'', PyStr (dec_str (sk_quantity i))),
        (''stock_state'', PyStr (stock_state_value (sk_state i))), (''source_object_id'', PyStr (rb_object_id r)),
        (''raw_payload_hash'', PyStr (payload_hash sha r))]"

definition quantity_value :: "pyval \<Rightarrow> pyval result" where
  "quantity_value v = (case dec_of (py_str (py_or v (PyStr ''0''))) of
       None \<Rightarrow> Inl (ValueError ''sales quantity is not numeric'')
     | Some d \<Rightarrow>
         if \<not> dec_finite d then Inl (ValueError ''sales quantity must be finite'')
         else Inr (if dec_integral d then PyInt (dec_int d) else PyStr (dec_format_f (dec_normalize d))))"

definition unit_price_money :: "pyval \<Rightarrow> money result" where
  "unit_price_money v = (case v of
       PyDict d \<Rightarrow>
         if get d ''minor_units'' \<noteq> PyNone then
           (case dec_of (py_str (get d ''minor_units'')) of
              None \<Rightarrow> Inl (ValueError ''sales unit price minor_units is not numeric'')
            | Some x \<Rightarrow>
                if \<not> dec_finite x \<or> \<not> dec_integral x
                then Inl (ValueError ''sales unit price minor_units must be a finite integer'')
                else Inr \<lparr>minor_units = dec_int x, currency = str_or d ''currency'' ''ZAR''\<rparr>)
         else money_zar (py_or (get d ''amount'') (PyStr ''0''))
     | _ \<Rightarrow> money_zar (py_or v (PyStr ''0'')))"

definition sales_line_to_event :: "(string \<Rightarrow> string) \<Rightarrow> inbound_record \<Rightarrow> event result" where
  "sales_line_to_event sha r =
     (let p = rb_canonical r; loc = str_or p ''location_id'' ''online'' in
      bind_res (quantity_value (get p ''quantity'')) (\<lambda>q.
      bind_res (unit_price_money (get p ''unit_price'')) (\<lambda>price.
      bind_res (datetime_value (get p ''sold_at'') (rb_event_time r)) (\<lambda>ts.
      bind_res (money_amount price) (\<lambda>amt.
      record_event r SALE ts loc
        [(''sku'', PyStr (str_or p ''sku'' [])), (''location'', PyStr loc), (''location_id'', PyStr loc), (''quantity'', q),
         (''unit_price'', PyStr amt), (''unit_price_minor_units'', PyInt (minor_units price)),
         (''unit_price_currency'', PyStr (currency price)), (''order_id'', PyStr (str_or p ''order_id'' (rb_object_id r))),
         (''line_id'', PyStr (str_or p ''line_id'' (rb_object_id r))), (''source_object_id'', PyStr (rb_object_id r)),
         (''raw_payload_hash'', PyStr (payload_hash sha r))])))))"

definition expiry_to_event :: "(string \<Rightarrow> string) \<Rightarrow> inbound_record \<Rightarrow> event result" where
  "expiry_to_event sha r =
     (let p = rb_canonical r; loc = str_or p ''location_id'' [] in
      bind_res (item p ''sku'') (\<lambda>sku.
      bind_res (quantity_value (get p ''quantity'')) (\<lambda>q.
      bind_res (item p ''expiry_date'') (\<lambda>d.
      record_event r EXPIRY_ENTRY (aware (rb_event_time r)) (if loc = [] then system_value (rb_system r) else loc)
        [(''sku'', PyStr (py_str sku)), (''location'', PyStr loc), (''location_id'', PyStr loc), (''on_hand'', q),
         (''expiry_date'', PyStr (py_str d)), (''source_object_id'', PyStr (rb_object_id r)),
         (''raw_payload_hash'', PyStr (payload_hash sha r))]))))"

fun is_key_error :: "py_exn \<Rightarrow> bool" where
  "is_key_error (KeyError k) = True"
| "is_key_error _ = False"

text \<open>A handler that turns the exceptions \<open>c\<close> into \<open>None\<close>.\<close>

definition or_none :: "(py_exn \<Rightarrow> bool) \<Rightarrow> 'a result \<Rightarrow> 'a option result" where
  "or_none c x = (case x of Inr v \<Rightarrow> Inr (Some v) | Inl e \<Rightarrow> if c e then Inr None else Inl e)"

definition record_to_event :: "(string \<Rightarrow> string) \<Rightarrow> inbound_record \<Rightarrow> event option result" where
  "record_to_event sha r =
     (if \<not> vr_ok (rb_validation r) then Inr None
      else if rb_canonical_type r = ''inventory_state'' then
        bind_res (inventory_from_payload r) (\<lambda>i. bind_res (inventory_to_event sha i r) (\<lambda>e. Inr (Some e)))
      else if rb_canonical_type r = ''sales_line'' then or_none is_malformed (sales_line_to_event sha r)
      else if rb_canonical_type r = ''expiry_entry''
      then or_none (\<lambda>e. is_malformed e \<or> is_key_error e) (expiry_to_event sha r)
      else Inr None)"

end
