(* ===== verification/Mappers.thy ===== *)
theory Mappers
  imports Inbound
begin

text \<open>
  The mappers of \<open>src/shelfwise_connectors/connectors/systems\<close>: how the payload of each source system
  becomes inbound records, and \<open>map_for\<close> of \<open>registry.py\<close>. A payload is any JSON object, so a mapper also meets
  lists, texts and numbers where it expects objects. Quotients of prices are exact rationals.
\<close>

section \<open>Helpers\<close>

text \<open>\<open>for x in v\<close> and \<open>v.get\<close>.\<close>

definition py_iter :: "pyval \<Rightarrow> pyval list result" where
  "py_iter v = (case v of
       PyList xs \<Rightarrow> Inr xs
     | PyStr s \<Rightarrow> Inr (map (\<lambda>c. PyStr [c]) s)
     | PyDict d \<Rightarrow> Inr (map (\<lambda>(k, x). PyStr k) d)
     | _ \<Rightarrow> Inl (TypeError ''object is not iterable''))"

definition with_get :: "pyval \<Rightarrow> pydict result" where
  "with_get v = (case v of PyDict d \<Rightarrow> Inr d | _ \<Rightarrow> Inl (AttributeError ''object has no attribute 'get' ''))"

text \<open>\<open>str(a or b or ... or default)\<close>.\<close>

definition str_first :: "pydict \<Rightarrow> string list \<Rightarrow> string \<Rightarrow> string" where
  "str_first d ks dflt = py_str (foldr (\<lambda>k v. py_or (get d k) v) ks (PyStr dflt))"

text \<open>The \<open>try\<close> block around a canonical record and its validation.\<close>

definition or_invalid :: "string \<Rightarrow> (pydict \<times> validation) result \<Rightarrow> (pydict \<times> validation) result" where
  "or_invalid prefix x = (case x of
       Inr p \<Rightarrow> Inr p
     | Inl e \<Rightarrow> if is_malformed e then Inr ([], vr_fail (prefix @ exc_text e) vr_empty) else Inl e)"

definition validated_sale :: "sales_line \<Rightarrow> pydict \<times> validation" where
  "validated_sale s = (sales_payload s, validate_sales s)"

definition validated_stock :: "stock_item \<Rightarrow> (pydict \<times> validation) result" where
  "validated_stock i = bind_res (validate_inventory i) (\<lambda>v. Inr (stock_payload i, v))"

section \<open>Sales: Shopify, Lightspeed, Yoco\<close>

definition shopify_line ::
  "(string \<Rightarrow> string) \<Rightarrow> pydict \<Rightarrow> string \<Rightarrow> string \<Rightarrow> string \<Rightarrow> datetime \<Rightarrow> pyval \<Rightarrow> inbound_record result" where
  "shopify_line sha payload tenant order loc sold_at line =
     (let line_id = (case line of PyDict d \<Rightarrow> py_str (get_or d ''id'' (PyStr ''unknown'')) | _ \<Rightarrow> ''unknown'') in
      bind_res (or_invalid ''shopify line item is malformed: ''
        (bind_res (with_get line) (\<lambda>d.
         bind_res (parse_quantity (get_or d ''quantity'' (PyInt 0))) (\<lambda>q.
         bind_res (money_zar (get_or d ''price'' (PyStr ''0''))) (\<lambda>price.
         Inr (validated_sale \<lparr>sl_tenant = tenant, sl_order = order, sl_line = line_id,
           sl_sku = str_first d [''sku'', ''product_id''] [], sl_location = loc, sl_quantity = q, sl_price = price,
           sl_sold_at = sold_at\<rparr>)))))) (\<lambda>(canonical, v).
      Inr (wrap sha tenant SHOPIFY ''sales_line'' (order @ '':'' @ line_id) sold_at ''sales_line'' canonical v payload)))"

definition map_shopify_order ::
  "(string \<Rightarrow> string) \<Rightarrow> datetime \<Rightarrow> pydict \<Rightarrow> string \<Rightarrow> inbound_record list result" where
  "map_shopify_order sha now payload tenant =
     (let order = py_str (get_or payload ''id'' (PyStr ''unknown''));
          lines = py_or (get payload ''line_items'') (PyList []) in
      bind_res (parse_time now (get payload ''created_at'')) (\<lambda>sold_at.
      if \<not> truthy lines then
        Inr [wrap sha tenant SHOPIFY ''sales_line'' order sold_at ''sales_line'' []
               (vr_fail ''shopify order has no line_items'' vr_empty) payload]
      else bind_res (py_iter lines)
        (map_res (shopify_line sha payload tenant order (str_or payload ''location_id'' ''online'') sold_at))))"

definition lightspeed_lines :: "pydict \<Rightarrow> pyval list" where
  "lightspeed_lines payload =
     (case py_or (get payload ''line_items'') (py_or (get payload ''lines'') (py_or (get payload ''saleLines'') (PyList []))) of
        PyList xs \<Rightarrow> xs | _ \<Rightarrow> [])"

definition lightspeed_line ::
  "(string \<Rightarrow> string) \<Rightarrow> pydict \<Rightarrow> string \<Rightarrow> string \<Rightarrow> string \<Rightarrow> datetime \<Rightarrow> pyval \<Rightarrow> inbound_record result" where
  "lightspeed_line sha payload tenant order loc sold_at line =
     (let line_id = (case line of PyDict d \<Rightarrow> str_first d [''id'', ''line_id'', ''product_id''] ''unknown'' | _ \<Rightarrow> ''unknown'') in
      bind_res (or_invalid ''lightspeed line item is malformed: ''
        (bind_res (with_get line) (\<lambda>d.
         bind_res (parse_quantity (py_or (get d ''quantity'') (py_or (get d ''qty'') (PyInt 0)))) (\<lambda>q.
         bind_res (money_zar (py_or (get d ''price'') (py_or (get d ''unit_price'') (PyStr ''0'')))) (\<lambda>price.
         Inr (validated_sale \<lparr>sl_tenant = tenant, sl_order = order, sl_line = line_id,
           sl_sku = str_first d [''sku'', ''custom_sku'', ''product_id''] [], sl_location = loc, sl_quantity = q,
           sl_price = price, sl_sold_at = sold_at\<rparr>)))))) (\<lambda>(canonical, v).
      Inr (wrap sha tenant LIGHTSPEED ''sales_line'' (order @ '':'' @ line_id) sold_at ''sales_line'' canonical v payload)))"

definition map_lightspeed_sale ::
  "(string \<Rightarrow> string) \<Rightarrow> datetime \<Rightarrow> pydict \<Rightarrow> string \<Rightarrow> inbound_record list result" where
  "map_lightspeed_sale sha now payload tenant =
     (let order = str_first payload [''id'', ''sale_id''] ''unknown'' in
      bind_res (parse_time now (py_or (get payload ''created_at'') (get payload ''sale_time''))) (\<lambda>sold_at.
      let lines = lightspeed_lines payload in
      if lines = [] then
        Inr [wrap sha tenant LIGHTSPEED ''sales_line'' order sold_at ''sales_line'' []
               (vr_fail ''lightspeed sale has no line_items'' vr_empty) payload]
      else map_res (lightspeed_line sha payload tenant order
             (str_first payload [''location_id'', ''shop_id'', ''register_id''] ''store'') sold_at) lines))"

definition checkout_object :: "pydict \<Rightarrow> pydict" where
  "checkout_object payload = (case get payload ''data'' of
       PyDict data \<Rightarrow> (case get data ''object'' of PyDict x \<Rightarrow> x | _ \<Rightarrow> payload)
     | _ \<Rightarrow> payload)"

text \<open>The whole amount split into equal unit prices, when they are whole cents.\<close>

definition exact_unit_price_minor :: "int \<Rightarrow> rat \<Rightarrow> int result" where
  "exact_unit_price_minor amount_minor q =
     (let p = of_int amount_minor / q in
      if of_int \<lfloor>p\<rfloor> = p \<and> \<bar>\<lfloor>p\<rfloor>\<bar> < 10 ^ 28 then Inr \<lfloor>p\<rfloor>
      else Inl (ValueError ''checkout total cannot be represented as an exact unit price''))"

definition yoco_sale :: "pydict \<Rightarrow> pydict \<Rightarrow> string \<Rightarrow> string \<Rightarrow> string \<Rightarrow> datetime \<Rightarrow> (pydict \<times> validation) result" where
  "yoco_sale checkout metadata tenant checkout_id sku sold_at =
     bind_res (py_int (get checkout ''amount'')) (\<lambda>amt.
     if amt < 0 then Inl (ValueError ''amount must be non-negative'')
     else bind_res (parse_quantity (get_or metadata ''quantity'' (PyInt 1))) (\<lambda>q.
       if quantity_num q \<le> 0 then Inl (ValueError ''quantity must be positive'')
       else bind_res (exact_unit_price_minor amt (quantity_num q)) (\<lambda>unit.
         Inr (validated_sale \<lparr>sl_tenant = tenant, sl_order = str_or metadata ''order_id'' checkout_id,
           sl_line = str_or metadata ''line_id'' checkout_id, sl_sku = sku, sl_location = str_or metadata ''location_id'' ''online'',
           sl_quantity = q, sl_price = \<lparr>minor_units = unit, currency = str_or checkout ''currency'' ''ZAR''\<rparr>,
           sl_sold_at = sold_at\<rparr>))))"

definition map_yoco_checkout ::
  "(string \<Rightarrow> string) \<Rightarrow> datetime \<Rightarrow> pydict \<Rightarrow> string \<Rightarrow> inbound_record list result" where
  "map_yoco_checkout sha now payload tenant =
     (let checkout = checkout_object payload;
          checkout_id = py_str (py_or (get checkout ''id'') (py_or (get payload ''id'') (PyStr ''unknown'')));
          put = (\<lambda>t (canonical, v). wrap sha tenant YOCO ''sales_line'' checkout_id t ''sales_line'' canonical v payload);
          invalid = (\<lambda>t m. Inr [put t ([], vr_fail m vr_empty)]) in
      case parse_time now (py_or (get checkout ''createdDate'') (get checkout ''created_at'')) of
        Inl e \<Rightarrow> invalid (aware now) ''yoco checkout timestamp is malformed''
      | Inr sold_at \<Rightarrow> (case get checkout ''metadata'' of
          PyDict metadata \<Rightarrow>
            if lower (strip (str_or checkout ''status'' [])) \<notin> {''succeeded'', ''completed''}
            then invalid sold_at ''yoco checkout is not succeeded''
            else if strip (str_or metadata ''sku'' []) = []
            then invalid sold_at ''yoco checkout metadata has no sku''
            else bind_res (or_invalid ''yoco checkout is malformed: ''
                  (yoco_sale checkout metadata tenant checkout_id (strip (str_or metadata ''sku'' [])) sold_at)) (\<lambda>p.
                 Inr [put sold_at p])
        | _ \<Rightarrow> invalid sold_at ''yoco checkout has no metadata''))"

section \<open>Stock: Square, SAP, SYSPRO, Dynamics\<close>

definition square_count ::
  "(string \<Rightarrow> string) \<Rightarrow> datetime \<Rightarrow> pydict \<Rightarrow> string \<Rightarrow> pyval \<Rightarrow> inbound_record result" where
  "square_count sha now payload tenant count =
     bind_res (with_get count) (\<lambda>d.
     let obj = str_or d ''catalog_object_id'' ''unknown''; loc = str_or d ''location_id'' ''unknown'' in
     bind_res (or_invalid ''square inventory count is malformed: ''
       (bind_res (dec_read (py_str (get_or d ''quantity'' (PyInt 0)))) (\<lambda>q.
        validated_stock \<lparr>sk_tenant = tenant, sk_sku = obj, sk_location = loc, sk_quantity = q, sk_state = ON_HAND,
          sk_time = Some now, sk_gtin = None, sk_barcode = None\<rparr>))) (\<lambda>(canonical, v).
     Inr (wrap sha tenant SQUARE ''inventory_state'' (obj @ ''@'' @ loc) now ''inventory_state'' canonical v payload)))"

definition square_counts :: "pydict \<Rightarrow> pyval result" where
  "square_counts payload =
     bind_res (with_get (py_or (get payload ''data'') (PyDict []))) (\<lambda>data.
     bind_res (with_get (py_or (get data ''object'') (PyDict []))) (\<lambda>obj.
     Inr (py_or (get obj ''inventory_counts'') (PyList []))))"

definition map_square_inventory ::
  "(string \<Rightarrow> string) \<Rightarrow> datetime \<Rightarrow> pydict \<Rightarrow> string \<Rightarrow> inbound_record list result" where
  "map_square_inventory sha now payload tenant =
     bind_res (square_counts payload) (\<lambda>counts.
     if \<not> truthy counts then
       Inr [wrap sha tenant SQUARE ''inventory_state'' (str_or payload ''event_id'' ''unknown'') now ''inventory_state'' []
              (vr_fail ''square webhook has no inventory_counts'' vr_empty) payload]
     else bind_res (py_iter counts) (map_res (square_count sha now payload tenant)))"

text \<open>The record of a stock row, shared by the poll mappers.\<close>

definition stock_record ::
  "(string \<Rightarrow> string) \<Rightarrow> source_system \<Rightarrow> string \<Rightarrow> datetime \<Rightarrow> pydict \<Rightarrow> stock_item \<Rightarrow> inbound_record result" where
  "stock_record sha sys oid t row i =
     bind_res (validated_stock i) (\<lambda>(canonical, v).
     Inr (wrap sha (sk_tenant i) sys ''inventory_state'' oid t ''inventory_state'' canonical v row))"

definition map_sap_inventory ::
  "(string \<Rightarrow> string) \<Rightarrow> datetime \<Rightarrow> pydict \<Rightarrow> string \<Rightarrow> inbound_record result" where
  "map_sap_inventory sha now row tenant =
     bind_res (item row ''Material'') (\<lambda>m.
     bind_res (item row ''StorageLocation'') (\<lambda>l.
     bind_res (dec_read (py_str (get_or row ''MatlWrhsStkQtyInMatlBaseUnit'' (PyInt 0)))) (\<lambda>q.
     stock_record sha SAP (py_str m @ ''@'' @ py_str l) now row
       \<lparr>sk_tenant = tenant, sk_sku = py_str m, sk_location = py_str l, sk_quantity = q, sk_state = ON_HAND,
        sk_time = Some now, sk_gtin = None, sk_barcode = None\<rparr>)))"

definition syspro_first :: "pydict \<Rightarrow> string list \<Rightarrow> pyval \<Rightarrow> pyval" where
  "syspro_first row ks dflt = (case find_first (\<lambda>k. get row k \<notin> {PyNone, PyStr []}) ks of
       Some k \<Rightarrow> get row k | None \<Rightarrow> dflt)"

definition map_syspro_inventory ::
  "(string \<Rightarrow> string) \<Rightarrow> datetime \<Rightarrow> pydict \<Rightarrow> string \<Rightarrow> inbound_record result" where
  "map_syspro_inventory sha now row tenant =
     (let sku = syspro_first row [''StockCode'', ''stock_code'', ''stockCode'', ''sku''] (PyStr []);
          loc = syspro_first row [''Warehouse'', ''warehouse'', ''WarehouseToUse'', ''location_id''] (PyStr []) in
      if \<not> truthy sku \<or> \<not> truthy loc then
        Inr (wrap sha tenant SYSPRO ''inventory_state'' (str_first row [''id'', ''StockCode''] ''unknown'') now ''inventory_state'' []
          (vr_fail ''syspro inventory row has no stock code or warehouse'' vr_empty) row)
      else bind_res (dec_read (py_str (syspro_first row [''QtyOnHand'', ''QtyAvailable'', ''quantity''] (PyStr ''0'')))) (\<lambda>q.
        stock_record sha SYSPRO (py_str sku @ ''@'' @ py_str loc) now row
          \<lparr>sk_tenant = tenant, sk_sku = py_str sku, sk_location = py_str loc, sk_quantity = q, sk_state = ON_HAND,
           sk_time = Some now, sk_gtin = None, sk_barcode = None\<rparr>))"

definition map_dynamics_inventory ::
  "(string \<Rightarrow> string) \<Rightarrow> datetime \<Rightarrow> pydict \<Rightarrow> string \<Rightarrow> string \<Rightarrow> inbound_record result" where
  "map_dynamics_inventory sha now row tenant loc =
     (let sku = strip (str_or row ''number'' []);
          item_id = py_str (py_or (get row ''id'') (py_or (PyStr sku) (PyStr ''unknown'')));
          invalid = (\<lambda>t m. Inr (wrap sha tenant DYNAMICS ''inventory_state'' item_id t ''inventory_state'' []
            (vr_fail m vr_empty) row)) in
      case parse_time now (get row ''lastModifiedDateTime'') of
        Inl e \<Rightarrow> invalid now ''dynamics item lastModifiedDateTime is malformed''
      | Inr observed \<Rightarrow>
          if sku = [] then invalid observed ''dynamics item has no number''
          else (case dec_read (py_str (get_or row ''inventory'' (PyStr ''0''))) of
            Inl e \<Rightarrow> invalid observed (''dynamics item inventory is malformed: '' @ exc_text e)
          | Inr q \<Rightarrow> stock_record sha DYNAMICS (item_id @ ''@'' @ loc) observed row
              \<lparr>sk_tenant = tenant, sk_sku = sku, sk_location = loc, sk_quantity = q, sk_state = ON_HAND,
               sk_time = Some observed, sk_gtin = text_or_none (get row ''gtin''),
               sk_barcode = text_or_none (get row ''gtin'')\<rparr>))"

section \<open>Products: Odoo\<close>

definition map_odoo_product ::
  "(string \<Rightarrow> string) \<Rightarrow> datetime \<Rightarrow> pydict \<Rightarrow> string \<Rightarrow> inbound_record result" where
  "map_odoo_product sha now row tenant =
     bind_res (item row ''id'') (\<lambda>i.
     let p = \<lparr>pm_tenant = tenant, pm_system = ODOO, pm_source_id = py_str i,
           pm_sku = Some (py_str (py_or (get row ''default_code'') i)), pm_gtin = text_or_none (get row ''barcode''),
           pm_barcode = text_or_none (get row ''barcode''), pm_name = Some (str_or row ''name'' ''unknown''),
           pm_category = text_or_none (get row ''category'')\<rparr> in
     Inr (wrap sha tenant ODOO ''product'' (py_str i) now ''product'' (product_payload p) (validate_product p) row))"

section \<open>The registry\<close>

definition single :: "'a result \<Rightarrow> 'a list result" where
  "single x = bind_res x (\<lambda>v. Inr [v])"

fun map_for ::
  "(string \<Rightarrow> string) \<Rightarrow> datetime \<Rightarrow> source_system \<Rightarrow> pydict \<Rightarrow> string \<Rightarrow> inbound_record list result" where
  "map_for sha now LIGHTSPEED payload tenant = map_lightspeed_sale sha now payload tenant"
| "map_for sha now SHOPIFY payload tenant = map_shopify_order sha now payload tenant"
| "map_for sha now SQUARE payload tenant = map_square_inventory sha now payload tenant"
| "map_for sha now YOCO payload tenant = map_yoco_checkout sha now payload tenant"
| "map_for sha now DYNAMICS payload tenant =
     single (map_dynamics_inventory sha now payload tenant (strip (str_or payload ''location_id'' [])))"
| "map_for sha now ODOO payload tenant = single (map_odoo_product sha now payload tenant)"
| "map_for sha now SAP payload tenant = single (map_sap_inventory sha now payload tenant)"
| "map_for sha now SYSPRO payload tenant = single (map_syspro_inventory sha now payload tenant)"
| "map_for sha now CSV payload tenant = Inl (ValueError ''no connector mapper registered for csv'')"

section \<open>Canonical payloads normalise\<close>

definition good_time :: "datetime \<Rightarrow> bool" where
  "good_time t \<longleftrightarrow> valid_datetime t \<and> dt_offset t \<noteq> None"

lemma aware_good [simp]: "good_time t \<Longrightarrow> aware t = t"
  by (simp add: good_time_def aware_def)

lemma parse_time_good:
  assumes "parse_time now v = Inr t" "good_time now"
  shows "good_time t"
proof -
  have "good_time (aware u)" if "valid_datetime u" for u
    using that by (auto simp: good_time_def aware_def valid_datetime_def valid_offset_def day_us_def)
  then show ?thesis
    using assms by (auto simp: parse_time_def good_time_def split: pyval.splits list.splits option.splits dest: fromisoformat_valid)
qed

lemma isoformat_nonempty: "isoformat t \<noteq> []"
  by (simp add: isoformat_def four_def)

lemma parse_time_isoformat [simp]:
  assumes "good_time t"
  shows "parse_time now (PyStr (isoformat t)) = Inr t"
proof -
  obtain c s where cs: "isoformat t = c # s" using isoformat_nonempty by (meson neq_Nil_conv)
  have "replace_char (CHR ''Z'') ''+00:00'' (c # s) = c # s"
    unfolding cs [symmetric] by (simp add: replace_char_absent isoformat_no_Z)
  moreover have "fromisoformat (c # s) = Some t"
    unfolding cs [symmetric] using assms by (simp add: good_time_def)
  ultimately show ?thesis using assms by (simp add: cs parse_time_def del: replace_char.simps)
qed

lemma record_event_good:
  assumes "good_time ts" "actor \<noteq> []" "rb_tenant r \<noteq> []" "get payload ''data_domain'' = PyNone"
    "get payload ''synthetic'' = PyNone" "get payload ''synthetic_probe'' = PyNone"
  shows "record_event r ty ts actor payload = Inr
    \<lparr>ev_id = record_event_id r, ev_type = ty, ev_ts = ts, ev_actor = actor, ev_payload = payload,
     ev_source = system_event_source (rb_system r), ev_tenant_id = rb_tenant r, ev_data_domain = OPERATIONAL_TWIN,
     ev_correlation_id = (if rb_correlation r = [] then record_event_id r else rb_correlation r),
     ev_causation_id = None, ev_schema_version = ''v1''\<rparr>"
  using assms
  by (simp add: record_event_def post_init_def require_nonempty_def record_event_id_def good_time_def
      payload_domain_check_def synthetic_check_def del: domain_value.simps)

lemma dec_int_of_str: "dec_of (str_int i) = Some d \<Longrightarrow> dec_finite d \<and> dec_integral d \<and> dec_int d = i"
  using parse_decimal_str_int [of i]
  by (cases d) (auto simp: dec_lit_of_dec_of dec_integral_def dec_int_def trunc_rat_def)

lemma dec_of_str_int: "\<exists>d. dec_of (str_int i) = Some d"
  using parse_decimal_str_int [of i] by (auto simp: dec_lit_of_dec_of)

definition sale_good :: "sales_line \<Rightarrow> bool" where
  "sale_good s \<longleftrightarrow> good_time (sl_sold_at s) \<and> sl_location s \<noteq> [] \<and> currency (sl_price s) \<noteq> [] \<and>
     \<bar>minor_units (sl_price s)\<bar> < 10 ^ 28 \<and>
     (case sl_quantity s of QInt i \<Rightarrow> True | QDec d \<Rightarrow> dec_finite d \<and> \<not> dec_integral d)"

lemma quantity_value_of:
  assumes "case q of QInt i \<Rightarrow> True | QDec d \<Rightarrow> dec_finite d \<and> \<not> dec_integral d"
  shows "\<exists>v. quantity_value (quantity_val q) = Inr v \<and> (\<forall>i. q = QInt i \<longrightarrow> v = PyInt i)"
proof (cases q)
  case (QInt i)
  obtain d where d: "dec_of (str_int i) = Some d" using dec_of_str_int by blast
  have "dec_of ''0'' = Some (DFin False 0 0)" by code_simp
  then show ?thesis
    using dec_int_of_str [OF d] d QInt
    by (cases "i = 0") (simp_all add: quantity_value_def py_or_def dec_integral_def dec_int_def dec_rat_def scale10_def trunc_rat_def)
next
  case (QDec d)
  then obtain neg m e where d: "d = DFin neg m e" using assms by (cases d) auto
  have "dec_str d \<noteq> []" using dec_of_str [of neg m e] by (auto simp: d dec_of_def Let_def strip_def lstrip_def simp del: dec_str.simps)
  then show ?thesis
    using QDec assms dec_of_str [of neg m e] by (simp add: d quantity_value_def py_or_def del: dec_str.simps)
qed

lemma unit_price_money_of:
  assumes "currency p \<noteq> []"
  shows "unit_price_money (PyDict [(''minor_units'', PyInt (minor_units p)), (''currency'', PyStr (currency p))]) = Inr p"
proof -
  obtain d where d: "dec_of (str_int (minor_units p)) = Some d" using dec_of_str_int by blast
  show ?thesis
    using dec_int_of_str [OF d] d assms by (simp add: unit_price_money_def str_or_def py_or_def)
qed

text \<open>A valid sale becomes a sale event with the same product, place, quantity and price.\<close>

lemma sales_record_event:
  assumes "rb_canonical_type r = ''sales_line''" "vr_ok (rb_validation r)" "rb_canonical r = sales_payload s"
    "sale_good s" "rb_tenant r \<noteq> []" "good_time (rb_event_time r)"
  shows "\<exists>e q. record_to_event sha r = Inr (Some e) \<and> ev_type e = SALE \<and> ev_id e = record_event_id r \<and> ev_tenant_id e = rb_tenant r \<and>
    get (ev_payload e) ''sku'' = PyStr (sl_sku s) \<and> get (ev_payload e) ''location_id'' = PyStr (sl_location s) \<and>
    get (ev_payload e) ''quantity'' = q \<and> (\<forall>i. sl_quantity s = QInt i \<longrightarrow> q = PyInt i) \<and>
    get (ev_payload e) ''unit_price_minor_units'' = PyInt (minor_units (sl_price s))"
proof -
  have s: "good_time (sl_sold_at s)" "sl_location s \<noteq> []" "currency (sl_price s) \<noteq> []" "\<bar>minor_units (sl_price s)\<bar> < 10 ^ 28"
    using assms(4) by (auto simp: sale_good_def)
  obtain v where v: "quantity_value (quantity_val (sl_quantity s)) = Inr v" "\<forall>i. sl_quantity s = QInt i \<longrightarrow> v = PyInt i"
    using quantity_value_of [of "sl_quantity s"] assms(4) by (auto simp: sale_good_def)
  have g: "get (sales_payload s) ''quantity'' = quantity_val (sl_quantity s)"
    "get (sales_payload s) ''unit_price'' =
       PyDict [(''minor_units'', PyInt (minor_units (sl_price s))), (''currency'', PyStr (currency (sl_price s)))]"
    "get (sales_payload s) ''sold_at'' = PyStr (isoformat (sl_sold_at s))"
    "str_or (sales_payload s) ''location_id'' ''online'' = sl_location s" "str_or (sales_payload s) ''sku'' [] = sl_sku s"
    using s(2) by (simp_all add: sales_payload_def str_or_def py_or_def)
  show ?thesis
    using assms(1,2,3,5) s v
    by (simp add: record_to_event_def sales_line_to_event_def Let_def g unit_price_money_of datetime_value_def
        money_amount_def record_event_good or_none_def)
qed

definition stock_good :: "stock_item \<Rightarrow> bool" where
  "stock_good i \<longleftrightarrow> sk_state i = ON_HAND \<and> dec_negative (sk_quantity i) = Inr False \<and> (\<exists>t. sk_time i = Some t \<and> good_time t)"

lemma dec_read_str: "dec_negative d = Inr False \<Longrightarrow> dec_read (dec_str d) = Inr d"
proof (cases d)
  case (DFin neg m e)
  then show ?thesis using dec_of_str [of neg m e] by (simp add: dec_read_def del: dec_str.simps)
next
  case (DInf neg)
  have "dec_of ''Infinity'' = Some (DInf False)" by code_simp
  then show "dec_negative d = Inr False \<Longrightarrow> ?thesis" using DInf by (simp add: dec_read_def)
qed simp

text \<open>A valid stock fact becomes a stock update with the same product, place and quantity.\<close>

lemma stock_record_event:
  assumes "rb_canonical_type r = ''inventory_state''" "vr_ok (rb_validation r)" "rb_canonical r = stock_payload i"
    "stock_good i" "rb_tenant r \<noteq> []"
  shows "\<exists>e. record_to_event sha r = Inr (Some e) \<and> ev_type e = STOCK_UPDATE \<and> ev_id e = record_event_id r \<and> ev_tenant_id e = rb_tenant r \<and>
    Some (ev_ts e) = sk_time i \<and> get (ev_payload e) ''sku'' = PyStr (sk_sku i) \<and> get (ev_payload e) ''location_id'' = PyStr (sk_location i) \<and>
    get (ev_payload e) ''quantity'' = PyStr (dec_str (sk_quantity i))"
proof -
  obtain t where t: "sk_time i = Some t" "good_time t" "sk_state i = ON_HAND" "dec_negative (sk_quantity i) = Inr False"
    using assms(4) by (auto simp: stock_good_def)
  have m: "map_of (stock_payload i) ''sku'' = Some (PyStr (sk_sku i))" "map_of (stock_payload i) ''location_id'' = Some (PyStr (sk_location i))"
    "get_or (stock_payload i) ''quantity'' x = PyStr (dec_str (sk_quantity i))"
    "get (stock_payload i) ''event_time'' = PyStr (isoformat t)" "str_or (stock_payload i) ''stock_state'' ''on_hand'' = ''on_hand''" for x
    using t(1,3) by (simp_all add: stock_payload_def get_or_def str_or_def py_or_def)
  have "stock_state_of ''on_hand'' = Inr ON_HAND" by (simp add: stock_state_of_def)
  then have "inventory_from_payload r = Inr \<lparr>sk_tenant = rb_tenant r, sk_sku = sk_sku i, sk_location = sk_location i,
      sk_quantity = sk_quantity i, sk_state = ON_HAND, sk_time = Some t, sk_gtin = text_or_none (get (stock_payload i) ''gtin''),
      sk_barcode = text_or_none (get (stock_payload i) ''barcode'')\<rparr>"
    using t dec_read_str [OF t(4)]
    by (simp add: inventory_from_payload_def assms(3) m item_def datetime_value_def Let_def)
  moreover have "system_value (rb_system r) \<noteq> []" by (cases "rb_system r") simp_all
  ultimately show ?thesis
    using assms(1,2,5) t by (simp add: record_to_event_def inventory_to_event_def record_event_good)
qed

section \<open>What a mapper produces\<close>

lemma get_wf: "val_wf (PyDict d) \<Longrightarrow> val_wf (get d k)"
  by (auto simp: get_def items_wf_iff split: option.splits dest: map_of_SomeD)

lemma py_or_wf: "val_wf x \<Longrightarrow> val_wf y \<Longrightarrow> val_wf (py_or x y)"
  by (simp add: py_or_def)

lemma py_str_nonempty:
  assumes "val_wf v" "truthy v"
  shows "py_str v \<noteq> []"
proof (cases v)
  case (PyFloat r)
  have "parse_decimal [] = None" by code_simp
  then show ?thesis using assms PyFloat by (auto simp: float_num_def)
qed (use assms in auto)

lemma py_or_nonempty: "val_wf v \<Longrightarrow> py_str w \<noteq> [] \<Longrightarrow> py_str (py_or v w) \<noteq> []"
  using py_str_nonempty by (simp add: py_or_def)

lemma str_or_nonempty: "val_wf (PyDict d) \<Longrightarrow> dflt \<noteq> [] \<Longrightarrow> str_or d k dflt \<noteq> []"
  unfolding str_or_def by (rule py_or_nonempty [OF get_wf]) simp_all

lemma str_first_nonempty: "val_wf (PyDict d) \<Longrightarrow> dflt \<noteq> [] \<Longrightarrow> str_first d ks dflt \<noteq> []"
  unfolding str_first_def using get_wf py_or_nonempty by (induction ks) (simp_all del: val_wf.simps)

definition good_canonical :: "string \<Rightarrow> inbound_record \<Rightarrow> bool" where
  "good_canonical tenant r \<longleftrightarrow>
     (rb_canonical_type r = ''sales_line'' \<and> (\<exists>s. rb_canonical r = sales_payload s \<and> sale_good s \<and>
        vr_ok (validate_sales s) \<and> sl_tenant s = tenant)) \<or>
     (rb_canonical_type r = ''inventory_state'' \<and> (\<exists>i v. rb_canonical r = stock_payload i \<and> stock_good i \<and>
        validate_inventory i = Inr v \<and> vr_ok v \<and> sk_tenant i = tenant)) \<or>
     (rb_canonical_type r = ''product'' \<and> tenant \<noteq> [])"

definition mapped :: "source_system \<Rightarrow> pydict \<Rightarrow> string \<Rightarrow> inbound_record \<Rightarrow> bool" where
  "mapped sys payload tenant r \<longleftrightarrow> rb_tenant r = tenant \<and> rb_system r = sys \<and> rb_raw r = payload \<and>
     good_time (rb_event_time r) \<and> (vr_ok (rb_validation r) \<longrightarrow> good_canonical tenant r)"

lemma wrap_simps [simp]:
  "rb_tenant (wrap sha tenant sys otype oid t ctype c v raw) = tenant"
  "rb_system (wrap sha tenant sys otype oid t ctype c v raw) = sys"
  "rb_object_type (wrap sha tenant sys otype oid t ctype c v raw) = otype"
  "rb_object_id (wrap sha tenant sys otype oid t ctype c v raw) = oid"
  "rb_raw (wrap sha tenant sys otype oid t ctype c v raw) = raw"
  "rb_event_time (wrap sha tenant sys otype oid t ctype c v raw) = t"
  "rb_canonical_type (wrap sha tenant sys otype oid t ctype c v raw) = ctype"
  "rb_canonical (wrap sha tenant sys otype oid t ctype c v raw) = c"
  "rb_validation (wrap sha tenant sys otype oid t ctype c v raw) = v"
  by (simp_all add: wrap_def)

lemma vr_fail_not_ok [simp]: "\<not> vr_ok (vr_fail m v)"
  by (simp add: vr_fail_def)

lemma mapped_invalid: "good_time t \<Longrightarrow> mapped sys raw tenant (wrap sha tenant sys otype oid t ctype c (vr_fail m v) raw)"
  by (simp add: mapped_def)

text \<open>Inside the \<open>try\<close> block, only what a sale computes can be valid.\<close>

lemma or_invalid_Inr:
  "or_invalid prefix x = Inr (c, v) \<Longrightarrow> vr_ok v \<Longrightarrow> x = Inr (c, v)"
  by (auto simp: or_invalid_def split: sum.splits if_splits)

lemma parse_quantity_good: "parse_quantity v = Inr q \<Longrightarrow> case q of QInt i \<Rightarrow> True | QDec d \<Rightarrow> dec_finite d \<and> \<not> dec_integral d"
  by (auto simp: parse_quantity_def split: option.splits if_splits)

lemma money_zar_good: "money_zar v = Inr m \<Longrightarrow> currency m = ''ZAR'' \<and> \<bar>minor_units m\<bar> < 10 ^ 28"
proof -
  assume m: "money_zar v = Inr m"
  then obtain d where d: "dec_read (py_str v) = Inr d" by (auto simp: money_zar_def bind_res_Inr_iff)
  show ?thesis using m d by (cases d) (auto simp: money_zar_def zar_def split: if_splits)
qed

text \<open>The tail that every line of sales and every count of stock ends in.\<close>

lemma tried_sale:
  assumes "bind_res (or_invalid prefix x) (\<lambda>(c, v). Inr (wrap sha tenant sys otype oid t ''sales_line'' c v raw)) = Inr r"
    and "good_time t" and good: "\<And>y. x = Inr y \<Longrightarrow> \<exists>s. y = validated_sale s \<and> sale_good s \<and> sl_tenant s = tenant"
  shows "mapped sys raw tenant r"
proof -
  obtain c v where x: "or_invalid prefix x = Inr (c, v)" "r = wrap sha tenant sys otype oid t ''sales_line'' c v raw"
    using assms(1) by (auto simp: bind_res_Inr_iff)
  have "\<exists>s. c = sales_payload s \<and> sale_good s \<and> vr_ok (validate_sales s) \<and> sl_tenant s = tenant" if "vr_ok v"
    using good [OF or_invalid_Inr [OF x(1) that]] that by (auto simp: validated_sale_def)
  then show ?thesis using assms(2) by (auto simp: x(2) mapped_def good_canonical_def)
qed

lemma stock_recorded:
  assumes "validated_stock i = Inr (c, v)" "sk_tenant i = tenant" "sk_state i = ON_HAND" "sk_time i = Some t" "good_time t"
  shows "mapped sys raw tenant (wrap sha tenant sys otype oid t ''inventory_state'' c v raw)"
  using assms
  by (auto simp: validated_stock_def bind_res_Inr_iff mapped_def good_canonical_def stock_good_def dest: validate_inventory_ok)

lemma tried_stock:
  assumes "bind_res (or_invalid prefix x) (\<lambda>(c, v). Inr (wrap sha tenant sys otype oid t ''inventory_state'' c v raw)) = Inr r"
    and "good_time t"
    and good: "\<And>y. x = Inr y \<Longrightarrow> \<exists>i. validated_stock i = Inr y \<and> sk_tenant i = tenant \<and> sk_state i = ON_HAND \<and> sk_time i = Some t"
  shows "mapped sys raw tenant r"
proof -
  obtain c v where x: "or_invalid prefix x = Inr (c, v)" "r = wrap sha tenant sys otype oid t ''inventory_state'' c v raw"
    using assms(1) by (auto simp: bind_res_Inr_iff)
  show ?thesis
  proof (cases "vr_ok v")
    case True
    then obtain i where "validated_stock i = Inr (c, v)" "sk_tenant i = tenant" "sk_state i = ON_HAND" "sk_time i = Some t"
      using good [OF or_invalid_Inr [OF x(1)]] by blast
    then show ?thesis unfolding x(2) by (rule stock_recorded [OF _ _ _ _ assms(2)])
  qed (use assms(2) in \<open>simp add: x(2) mapped_def\<close>)
qed

lemma sale_goodI:
  assumes "parse_quantity w = Inr q" "good_time t" "loc \<noteq> []" "currency m \<noteq> []" "\<bar>minor_units m\<bar> < 10 ^ 28"
  shows "sale_good \<lparr>sl_tenant = tenant, sl_order = a, sl_line = b, sl_sku = k, sl_location = loc, sl_quantity = q,
    sl_price = m, sl_sold_at = t\<rparr>"
  using parse_quantity_good [OF assms(1)] assms by (simp add: sale_good_def)

lemma validated_saleI:
  assumes "parse_quantity w = Inr q" "money_zar u = Inr m" "good_time t" "loc \<noteq> []"
    and "validated_sale \<lparr>sl_tenant = tenant, sl_order = a, sl_line = b, sl_sku = k, sl_location = loc, sl_quantity = q,
      sl_price = m, sl_sold_at = t\<rparr> = y"
  shows "\<exists>s. y = validated_sale s \<and> sale_good s \<and> sl_tenant s = tenant"
  using assms(5) sale_goodI [OF assms(1,3,4), of m] money_zar_good [OF assms(2)] by force

lemma shopify_line_mapped:
  assumes "shopify_line sha payload tenant order loc sold_at line = Inr r" "good_time sold_at" "loc \<noteq> []"
  shows "mapped SHOPIFY payload tenant r"
  using assms(1) unfolding shopify_line_def Let_def
  by (rule tried_sale) (use assms(2,3) in \<open>auto simp: bind_res_Inr_iff intro: validated_saleI\<close>)

lemma lightspeed_line_mapped:
  assumes "lightspeed_line sha payload tenant order loc sold_at line = Inr r" "good_time sold_at" "loc \<noteq> []"
  shows "mapped LIGHTSPEED payload tenant r"
  using assms(1) unfolding lightspeed_line_def Let_def
  by (rule tried_sale) (use assms(2,3) in \<open>auto simp: bind_res_Inr_iff intro: validated_saleI\<close>)

lemma map_res_mapped:
  assumes "map_res f xs = Inr rs" "\<And>x r. f x = Inr r \<Longrightarrow> P r" "r \<in> set rs"
  shows "P r"
  using assms by (induction xs arbitrary: rs) (auto simp: bind_res_Inr_iff)

lemma py_iter_nonempty: "py_iter v = Inr xs \<Longrightarrow> truthy v \<Longrightarrow> xs \<noteq> []"
  by (auto simp: py_iter_def split: pyval.splits)

lemma lines_mapped:
  assumes "map_res f xs = Inr rs" "xs \<noteq> []" "\<And>x r. f x = Inr r \<Longrightarrow> P r"
  shows "rs \<noteq> [] \<and> (\<forall>r \<in> set rs. P r)"
  using assms map_res_length [OF assms(1)] map_res_mapped [OF assms(1), of P] by auto

lemma shopify_mapped:
  assumes "map_shopify_order sha now payload tenant = Inr rs" "good_time now" "val_wf (PyDict payload)"
  shows "rs \<noteq> [] \<and> (\<forall>r \<in> set rs. mapped SHOPIFY payload tenant r)"
proof -
  obtain t where t: "parse_time now (get payload ''created_at'') = Inr t" "good_time t"
    using assms(1,2) parse_time_good by (auto simp: map_shopify_order_def Let_def bind_res_Inr_iff)
  have loc: "str_or payload ''location_id'' ''online'' \<noteq> []" by (rule str_or_nonempty [OF assms(3)]) simp
  show ?thesis
    using assms(1) t mapped_invalid [OF t(2)]
    by (auto simp: map_shopify_order_def Let_def bind_res_Inr_iff simp del: val_wf.simps split: if_splits
        dest!: lines_mapped [OF _ py_iter_nonempty, where P = "mapped SHOPIFY payload tenant"]
        intro: shopify_line_mapped [OF _ t(2) loc])
qed

lemma lightspeed_mapped:
  assumes "map_lightspeed_sale sha now payload tenant = Inr rs" "good_time now" "val_wf (PyDict payload)"
  shows "rs \<noteq> [] \<and> (\<forall>r \<in> set rs. mapped LIGHTSPEED payload tenant r)"
proof -
  obtain t where t: "parse_time now (py_or (get payload ''created_at'') (get payload ''sale_time'')) = Inr t" "good_time t"
    using assms(1,2) parse_time_good by (auto simp: map_lightspeed_sale_def Let_def bind_res_Inr_iff)
  have loc: "str_first payload [''location_id'', ''shop_id'', ''register_id''] ''store'' \<noteq> []"
    by (rule str_first_nonempty [OF assms(3)]) simp
  show ?thesis
    using assms(1) t mapped_invalid [OF t(2)]
    by (auto simp: map_lightspeed_sale_def Let_def bind_res_Inr_iff simp del: val_wf.simps split: if_splits
        dest!: lines_mapped [where P = "mapped LIGHTSPEED payload tenant"]
        intro: lightspeed_line_mapped [OF _ t(2) loc])
qed

lemma get_dict_wf: "val_wf (PyDict d) \<Longrightarrow> get d k = PyDict e \<Longrightarrow> val_wf (PyDict e)"
  using get_wf by metis

lemma checkout_wf: "val_wf (PyDict payload) \<Longrightarrow> val_wf (PyDict (checkout_object payload))"
  by (auto simp: checkout_object_def simp del: val_wf.simps split: pyval.splits intro: get_dict_wf)

lemma yoco_sale_good:
  assumes "yoco_sale checkout metadata tenant checkout_id sku t = Inr y" "good_time t"
    "val_wf (PyDict checkout)" "val_wf (PyDict metadata)"
  shows "\<exists>s. y = validated_sale s \<and> sale_good s \<and> sl_tenant s = tenant"
proof -
  have "str_or metadata ''location_id'' ''online'' \<noteq> []" "str_or checkout ''currency'' ''ZAR'' \<noteq> []"
    using str_or_nonempty [OF assms(4), of "''online''"] str_or_nonempty [OF assms(3), of "''ZAR''"] by simp_all
  then show ?thesis
    using assms(1,2)
    by (auto simp: yoco_sale_def bind_res_Inr_iff exact_unit_price_minor_def Let_def split: if_splits intro!: sale_goodI exI conjI [OF refl])
qed

lemma yoco_mapped:
  assumes "map_yoco_checkout sha now payload tenant = Inr rs" "good_time now" "val_wf (PyDict payload)"
  shows "rs \<noteq> [] \<and> (\<forall>r \<in> set rs. mapped YOCO payload tenant r)"
proof -
  note wf = checkout_wf [OF assms(3)]
  show ?thesis
  proof (cases "parse_time now (py_or (get (checkout_object payload) ''createdDate'') (get (checkout_object payload) ''created_at''))")
    case (Inl e)
    then show ?thesis using assms(1,2) by (auto simp: map_yoco_checkout_def Let_def intro: mapped_invalid)
  next
    case (Inr t)
    have t: "good_time t" by (rule parse_time_good [OF Inr assms(2)])
    show ?thesis
    proof (cases "get (checkout_object payload) ''metadata''")
      case (PyDict m)
      have m: "val_wf (PyDict m)" by (rule get_dict_wf [OF wf PyDict])
      have tried: "mapped YOCO payload tenant (wrap sha tenant YOCO ''sales_line'' i t ''sales_line'' c v payload)"
        if "or_invalid ''yoco checkout is malformed: '' (yoco_sale (checkout_object payload) m tenant i sku t) = Inr (c, v)"
        for i sku c v
      proof (rule tried_sale [OF _ t])
        show "bind_res (or_invalid ''yoco checkout is malformed: '' (yoco_sale (checkout_object payload) m tenant i sku t))
          (\<lambda>(c, v). Inr (wrap sha tenant YOCO ''sales_line'' i t ''sales_line'' c v payload)) =
          Inr (wrap sha tenant YOCO ''sales_line'' i t ''sales_line'' c v payload)"
          using that by simp
      qed (rule yoco_sale_good [OF _ t wf m])
      show ?thesis
        using assms(1) Inr PyDict mapped_invalid [OF t] tried
        by (auto simp: map_yoco_checkout_def Let_def bind_res_Inr_iff split: if_splits)
    qed (use assms(1) Inr mapped_invalid [OF t] in \<open>auto simp: map_yoco_checkout_def Let_def\<close>)
  qed
qed

lemma square_mapped:
  assumes "map_square_inventory sha now payload tenant = Inr rs" "good_time now"
  shows "rs \<noteq> [] \<and> (\<forall>r \<in> set rs. mapped SQUARE payload tenant r)"
proof -
  have count: "mapped SQUARE payload tenant r" if sq: "square_count sha now payload tenant c = Inr r" for c r
  proof -
    obtain d where d: "with_get c = Inr d" using sq by (cases "with_get c") (auto simp: square_count_def)
    show ?thesis
      using sq unfolding square_count_def d bind_res_simps Let_def
      by (rule tried_stock [OF _ assms(2)]) (auto simp: bind_res_Inr_iff)
  qed
  show ?thesis
    using assms(1) mapped_invalid [OF assms(2)]
    by (auto simp: map_square_inventory_def bind_res_Inr_iff split: if_splits
        dest!: lines_mapped [OF _ py_iter_nonempty, where P = "mapped SQUARE payload tenant"] intro: count)
qed

lemma stock_record_mapped:
  assumes "stock_record sha sys oid t row i = Inr r" "sk_tenant i = tenant" "sk_state i = ON_HAND" "sk_time i = Some t" "good_time t"
  shows "mapped sys row tenant r"
  using assms by (auto simp: stock_record_def bind_res_Inr_iff intro: stock_recorded)

lemma sap_mapped: "map_sap_inventory sha now row tenant = Inr r \<Longrightarrow> good_time now \<Longrightarrow> mapped SAP row tenant r"
  by (auto simp: map_sap_inventory_def bind_res_Inr_iff intro: stock_record_mapped)

lemma syspro_mapped: "map_syspro_inventory sha now row tenant = Inr r \<Longrightarrow> good_time now \<Longrightarrow> mapped SYSPRO row tenant r"
  by (auto simp: map_syspro_inventory_def bind_res_Inr_iff Let_def split: if_splits intro: stock_record_mapped mapped_invalid)

lemma dynamics_mapped: "map_dynamics_inventory sha now row tenant loc = Inr r \<Longrightarrow> good_time now \<Longrightarrow> mapped DYNAMICS row tenant r"
  by (auto simp: map_dynamics_inventory_def Let_def split: sum.splits if_splits
      intro: stock_record_mapped mapped_invalid dest: parse_time_good)

lemma validate_product_ok: "vr_ok (validate_product p) \<Longrightarrow> pm_tenant p \<noteq> []"
  by (auto simp: validate_product_def Let_def vr_warn_def split: if_splits)

lemma odoo_mapped:
  assumes "map_odoo_product sha now row tenant = Inr r" "good_time now"
  shows "mapped ODOO row tenant r"
proof -
  obtain p oid where "r = wrap sha tenant ODOO ''product'' oid now ''product'' (product_payload p) (validate_product p) row"
    "pm_tenant p = tenant"
    using assms(1) by (auto simp: map_odoo_product_def bind_res_Inr_iff Let_def)
  then show ?thesis using assms(2) validate_product_ok [of p] by (simp add: mapped_def good_canonical_def)
qed

lemma map_for_mapped:
  assumes "map_for sha now sys payload tenant = Inr rs" "good_time now" "val_wf (PyDict payload)"
  shows "rs \<noteq> [] \<and> (\<forall>r \<in> set rs. mapped sys payload tenant r)"
  using assms shopify_mapped lightspeed_mapped yoco_mapped square_mapped sap_mapped syspro_mapped dynamics_mapped odoo_mapped
  by (cases sys) (auto simp: single_def bind_res_Inr_iff simp del: val_wf.simps)

lemma mapped_event:
  assumes "mapped sys payload tenant r" "vr_ok (rb_validation r)" "rb_canonical_type r \<noteq> ''product''"
  shows "\<exists>e. record_to_event sha r = Inr (Some e) \<and> ev_tenant_id e = tenant \<and> ev_id e = record_event_id r \<and>
    ev_type e = (if rb_canonical_type r = ''sales_line'' then SALE else STOCK_UPDATE) \<and>
    get (ev_payload e) ''sku'' = get (rb_canonical r) ''sku'' \<and>
    get (ev_payload e) ''location_id'' = get (rb_canonical r) ''location_id''"
proof -
  have r: "rb_tenant r = tenant" "good_time (rb_event_time r)" "good_canonical tenant r"
    using assms(1,2) by (simp_all add: mapped_def)
  from r(3) assms(3) consider
      (sale) s where "rb_canonical_type r = ''sales_line''" "rb_canonical r = sales_payload s" "sale_good s"
        "vr_ok (validate_sales s)" "sl_tenant s = tenant"
    | (stock) i v where "rb_canonical_type r = ''inventory_state''" "rb_canonical r = stock_payload i" "stock_good i"
        "validate_inventory i = Inr v" "vr_ok v" "sk_tenant i = tenant"
    unfolding good_canonical_def by blast
  then show ?thesis
  proof cases
    case sale
    then have "rb_tenant r \<noteq> []" using r(1) by (simp add: validate_sales_ok)
    then show ?thesis
      using sales_record_event [OF sale(1) assms(2) sale(2,3) _ r(2), of sha] sale(1,2) r(1) by (auto simp: sales_payload_def)
  next
    case stock
    then have "rb_tenant r \<noteq> []" using r(1) validate_inventory_ok [OF stock(4,5)] by simp
    then show ?thesis
      using stock_record_event [OF stock(1) assms(2) stock(2,3), of sha] stock(1,2) r(1) by (auto simp: stock_payload_def)
  qed
qed


definition demo_order :: pydict where
  "demo_order = [(''id'', PyInt 7), (''location_id'', PyStr ''shop''), (''line_items'', PyList
     [PyDict [(''id'', PyInt 1), (''sku'', PyStr ''4011''), (''quantity'', PyInt 2), (''price'', PyStr ''19.99'')]])]"

lemma demo_order_maps:
  "\<exists>r. map_for (\<lambda>_. ''h'') example_ts SHOPIFY demo_order ''acme'' = Inr [r] \<and> vr_ok (rb_validation r) \<and>
     rb_canonical_type r = ''sales_line''"
proof -
  have d: "dec_of ''2'' = Some (DFin False 2 0)" "dec_of ''19.99'' = Some (DFin False 1999 (- 2))" "str_int 2 = ''2''" by code_simp+
  show ?thesis
    by (simp add: demo_order_def map_shopify_order_def shopify_line_def Let_def parse_time_def or_invalid_def with_get_def
        parse_quantity_def get_or_def py_or_def d dec_read_def money_zar_def dec_rat_def scale10_def zar_def py_iter_def
        validated_sale_def validate_sales_ok dec_integral_def dec_int_def trunc_rat_def round_half_up_def str_or_def str_first_def)
qed


end
