(* ===== verification/Intake.thy ===== *)
theory Intake
  imports Mappers Ingest
begin

text \<open>
  Inbound records and their intake: both inbound record stores
  (\<open>src/shelfwise_connectors/inbound_store.py\<close>), and \<open>_process_inbound_record\<close> and \<open>intake_connector_payload\<close> of
  \<open>src/shelfwise_backend/app.py\<close>, which persist a record once and hand its event to the ingest pipeline. The
  store is an argument of the intake; the locale \<open>inbound_store\<close> holds what the intake relies on.
\<close>

section \<open>The stores\<close>

type_synonym inbound_key = "string \<times> string \<times> string \<times> string"

definition record_key :: "(string \<Rightarrow> string) \<Rightarrow> inbound_record \<Rightarrow> inbound_key" where
  "record_key sha r = (rb_tenant r, system_value (rb_system r), payload_hash sha r, rb_object_id r)"

definition record_id :: "(string \<Rightarrow> string) \<Rightarrow> inbound_record \<Rightarrow> string" where
  "record_id sha r = ''inbound_'' @ take 16 (sha (rb_tenant r @ '':'' @ system_value (rb_system r) @ '':'' @
     payload_hash sha r @ '':'' @ rb_object_id r))"

definition inbound_payload :: "(string \<Rightarrow> string) \<Rightarrow> string \<Rightarrow> inbound_record \<Rightarrow> string option \<Rightarrow> pydict" where
  "inbound_payload sha now r eid = dict_update (rb_to_dict sha r)
     [(''id'', PyStr (record_id sha r)), (''event_id'', opt_str eid), (''ingested_at'', PyStr now),
      (''raw_payload'', PyDict (rb_raw r)), (''has_raw_payload'', PyBool True)]"

definition public_payload :: "pydict \<Rightarrow> pydict" where
  "public_payload p = dict_set ''has_raw_payload'' (PyBool (truthy (get p ''raw_payload''))) (dict_del ''raw_payload'' p)"

text \<open>An operation \<open>record\<close> returns the new store, whether the record was new, and the public payload.\<close>

type_synonym 'i record_op =
  "string \<Rightarrow> inbound_record \<Rightarrow> string option \<Rightarrow> 'i \<Rightarrow> ('i \<times> bool \<times> pydict) result"

type_synonym inbound_mem = "(inbound_key, pydict) dict"

definition ib_record :: "(string \<Rightarrow> string) \<Rightarrow> inbound_mem record_op" where
  "ib_record sha now r eid s =
     (let key = record_key sha r; payload = inbound_payload sha now r eid in
      case dict_get s key of
        Some existing \<Rightarrow> Inr (s, False, public_payload existing)
      | None \<Rightarrow> Inr (dict_set key payload s, True, public_payload payload))"

definition ib_list :: "string option \<Rightarrow> int \<Rightarrow> inbound_mem \<Rightarrow> pydict list result" where
  "ib_list tenant limit s =
     bind_res (validate_limit limit) (\<lambda>_.
     let rows = filter (\<lambda>p. case tenant of None \<Rightarrow> True | Some t \<Rightarrow> get p ''tenant_id'' = PyStr t) (map snd s) in
     Inr (map public_payload (take (nat limit) (sorted_by_desc (\<lambda>p. py_str (get p ''ingested_at'')) rows))))"

definition ib_clear :: "inbound_mem \<Rightarrow> inbound_mem" where
  "ib_clear s = []"

record inbound_row =
  bw_id :: string
  bw_tenant :: string
  bw_system :: string
  bw_object_type :: string
  bw_object_id :: string
  bw_hash :: string
  bw_event :: "string option"
  bw_payload :: pydict
  bw_ingested :: string
  bw_time :: string

definition bw_key :: "inbound_row \<Rightarrow> inbound_key" where
  "bw_key w = (bw_tenant w, bw_system w, bw_hash w, bw_object_id w)"

definition inbound_row_of :: "(string \<Rightarrow> string) \<Rightarrow> string \<Rightarrow> inbound_record \<Rightarrow> string option \<Rightarrow> inbound_row" where
  "inbound_row_of sha now r eid =
     \<lparr>bw_id = record_id sha r, bw_tenant = rb_tenant r, bw_system = system_value (rb_system r),
      bw_object_type = rb_object_type r, bw_object_id = rb_object_id r, bw_hash = payload_hash sha r, bw_event = eid,
      bw_payload = inbound_payload sha now r eid, bw_ingested = now, bw_time = isoformat (rb_event_time r)\<rparr>"

text \<open>
  The attempts left: an insert that meets the dedup key does nothing, one that meets only the primary key
  violates it; both fall through to the select, which sees the rows of the session's tenant.
\<close>

fun pgb_attempts :: "nat \<Rightarrow> string \<Rightarrow> inbound_row \<Rightarrow> inbound_row list \<Rightarrow> (inbound_row list \<times> bool \<times> pydict) result" where
  "pgb_attempts 0 session w tbl = Inl (RuntimeError ''inbound record insert failed without existing row'')"
| "pgb_attempts (Suc n) session w tbl =
     (if bw_key w \<notin> bw_key ` set tbl \<and> bw_id w \<notin> bw_id ` set tbl
      then Inr (tbl @ [w], True, public_payload (bw_payload w))
      else case find_first (\<lambda>x. bw_tenant x = session \<and> bw_key x = bw_key w) tbl of
        Some x \<Rightarrow> Inr (tbl, False, public_payload (bw_payload x))
      | None \<Rightarrow> pgb_attempts n session w tbl)"

definition pgb_record ::
  "environ \<Rightarrow> string option \<Rightarrow> (string \<Rightarrow> string) \<Rightarrow> (inbound_row list) record_op" where
  "pgb_record env ctx sha now r eid tbl =
     bind_res (session_tenant env ctx (Some (rb_tenant r))) (\<lambda>session.
     if rb_tenant r \<noteq> session then Inl (DatabaseError ''new row violates row-level security policy'')
     else pgb_attempts 2 session (inbound_row_of sha now r eid) tbl)"

definition pgb_list ::
  "environ \<Rightarrow> string option \<Rightarrow> string option \<Rightarrow> int \<Rightarrow> inbound_row list \<Rightarrow> pydict list result" where
  "pgb_list env ctx tenant limit tbl =
     bind_res (validate_limit limit) (\<lambda>_.
     bind_res (session_tenant env ctx tenant) (\<lambda>session.
     let rows = filter (\<lambda>w. bw_tenant w = session \<and> (tenant = None \<or> tenant = Some (bw_tenant w))) tbl in
     Inr (map (\<lambda>w. public_payload (bw_payload w)) (take (nat limit) (sorted_by_desc bw_ingested (sorted_by bw_id rows))))))"

definition pgb_clear :: "environ \<Rightarrow> string option \<Rightarrow> inbound_row list \<Rightarrow> inbound_row list result" where
  "pgb_clear env ctx tbl =
     bind_res (session_tenant env ctx None) (\<lambda>session. Inr (filter (\<lambda>w. bw_tenant w \<noteq> session) tbl))"

section \<open>Intake\<close>

record ('i, 's, 'w) intake_state =
  it_inbound :: 'i
  it_pipe :: "('s, 'w) ingest_state"

record intake_outcome =
  oc_status :: string
  oc_record :: pydict
  oc_event :: "event option"
  oc_pipeline :: "ingest_result option"

text \<open>\<open>_process_inbound_record\<close>, with the pipeline running the stages \<open>gs\<close>: a prefix of them when it is interrupted.\<close>

definition intake_record ::
  "(string \<Rightarrow> string) \<Rightarrow> 'i record_op \<Rightarrow> 's log_ops \<Rightarrow> 'w ingest_effects \<Rightarrow> stage list \<Rightarrow> string \<Rightarrow> inbound_record \<Rightarrow>
   ('i, 's, 'w) intake_state \<Rightarrow> ('i, 's, 'w) intake_state \<times> intake_outcome result" where
  "intake_record sha rec ops fx gs now r st = (case record_to_event sha r of
       Inl x \<Rightarrow> (st, Inl x)
     | Inr eo \<Rightarrow> (case rec now r (map_option ev_id eo) (it_inbound st) of
         Inl x \<Rightarrow> (st, Inl x)
       | Inr (s, new, stored) \<Rightarrow>
           (let st1 = st\<lparr>it_inbound := s\<rparr>;
                plain = (\<lambda>status. (st1, Inr \<lparr>oc_status = status, oc_record = stored, oc_event = None, oc_pipeline = None\<rparr>)) in
            if \<not> new then plain ''duplicate''
            else if \<not> vr_ok (rb_validation r) then plain ''invalid''
            else (case eo of
                None \<Rightarrow> plain ''recorded''
              | Some e \<Rightarrow> (case ingest ops fx now e gs (it_pipe st1) of
                  (p, Inl x) \<Rightarrow> (st1\<lparr>it_pipe := p\<rparr>, Inl x)
                | (p, Inr res) \<Rightarrow> (st1\<lparr>it_pipe := p\<rparr>, Inr \<lparr>oc_status = ir_status res, oc_record = stored,
                    oc_event = Some e, oc_pipeline = Some res\<rparr>))))))"

definition process_inbound_record ::
  "(string \<Rightarrow> string) \<Rightarrow> 'i record_op \<Rightarrow> 's log_ops \<Rightarrow> 'w ingest_effects \<Rightarrow> bool \<Rightarrow> string \<Rightarrow> inbound_record \<Rightarrow>
   ('i, 's, 'w) intake_state \<Rightarrow> ('i, 's, 'w) intake_state \<times> intake_outcome result" where
  "process_inbound_record sha rec ops fx worker_on now r st = intake_record sha rec ops fx (stages worker_on) now r st"

fun process_records ::
  "(inbound_record \<Rightarrow> 'st \<Rightarrow> 'st \<times> intake_outcome result) \<Rightarrow> inbound_record list \<Rightarrow> 'st \<Rightarrow> 'st \<times> intake_outcome list result" where
  "process_records process [] st = (st, Inr [])"
| "process_records process (r # rs) st = (case process r st of
       (st1, Inl x) \<Rightarrow> (st1, Inl x)
     | (st1, Inr oc) \<Rightarrow> (case process_records process rs st1 of
         (st2, Inl x) \<Rightarrow> (st2, Inl x)
       | (st2, Inr ocs) \<Rightarrow> (st2, Inr (oc # ocs))))"

text \<open>The two handlers around \<open>map_for\<close>; \<open>InvalidOperation\<close> and \<open>AttributeError\<close> are caught by neither.\<close>

fun mapped_or_422 :: "source_system \<Rightarrow> 'a result \<Rightarrow> 'a result" where
  "mapped_or_422 sys (Inl (ValueError m)) = Inl (HTTPException 422 m)"
| "mapped_or_422 sys (Inl (KeyError m)) = Inl (HTTPException 422 (''Invalid '' @ system_value sys @ '' connector payload''))"
| "mapped_or_422 sys (Inl (TypeError m)) = Inl (HTTPException 422 (''Invalid '' @ system_value sys @ '' connector payload''))"
| "mapped_or_422 sys x = x"

definition intake_connector_payload ::
  "(string \<Rightarrow> string) \<Rightarrow> (inbound_record \<Rightarrow> 'st \<Rightarrow> 'st \<times> intake_outcome result) \<Rightarrow> datetime \<Rightarrow> string \<Rightarrow> pydict \<Rightarrow> string \<Rightarrow>
   'st \<Rightarrow> 'st \<times> (intake_outcome \<times> intake_outcome list) result" where
  "intake_connector_payload sha process clock system payload tenant st =
     (case source_system_of (lower (strip system)) of
        None \<Rightarrow> (st, Inl (HTTPException 404 ''Unknown connector system''))
      | Some sys \<Rightarrow> (case mapped_or_422 sys (map_for sha clock sys payload tenant) of
          Inl x \<Rightarrow> (st, Inl x)
        | Inr rs \<Rightarrow> (case process_records process rs st of
            (st1, Inl x) \<Rightarrow> (st1, Inl x)
          | (st1, Inr ocs) \<Rightarrow> (st1, Inr (hd ocs, ocs)))))"

section \<open>The contract of an inbound store\<close>

locale inbound_store =
  fixes inv :: "'i \<Rightarrow> bool"
    and sha :: "string \<Rightarrow> string"
    and ok :: "inbound_record \<Rightarrow> bool"
    and held :: "'i \<Rightarrow> inbound_key set"
    and record_op :: "'i record_op"
  assumes record_spec: "inv s \<Longrightarrow> ok r \<Longrightarrow> record_op now r eid s = Inr (s', new, p) \<Longrightarrow>
      inv s' \<and> held s' = insert (record_key sha r) (held s) \<and> (new \<longleftrightarrow> record_key sha r \<notin> held s)"
    and record_held: "inv s \<Longrightarrow> ok r \<Longrightarrow> record_key sha r \<in> held s \<Longrightarrow>
      \<exists>p. record_op now r eid s = Inr (s, False, p)"
begin

text \<open>A record that is held is answered as a duplicate and changes nothing, whatever became of its event.\<close>

lemma held_is_duplicate:
  assumes "inv (it_inbound st)" "ok r" "record_key sha r \<in> held (it_inbound st)" "record_to_event sha r = Inr eo"
  shows "\<exists>oc. intake_record sha record_op ops fx gs now r st = (st, Inr oc) \<and> oc_status oc = ''duplicate''"
proof -
  obtain p where "record_op now r (map_option ev_id eo) (it_inbound st) = Inr (it_inbound st, False, p)"
    using record_held [OF assms(1-3)] by blast
  then show ?thesis using assms(4) by (simp add: intake_record_def Let_def)
qed

text \<open>A record is held as soon as its intake went past the store, however it ends.\<close>

lemma intake_holds:
  assumes "inv (it_inbound st)" "ok r" "intake_record sha record_op ops fx gs now r st = (st', res)" "st' \<noteq> st"
  shows "inv (it_inbound st') \<and> record_key sha r \<in> held (it_inbound st')"
proof -
  obtain eo where eo: "record_to_event sha r = Inr eo"
    using assms(3,4) by (cases "record_to_event sha r") (auto simp: intake_record_def)
  obtain s new p where rec: "record_op now r (map_option ev_id eo) (it_inbound st) = Inr (s, new, p)"
    using assms(3,4) eo
    by (cases "record_op now r (map_option ev_id eo) (it_inbound st)") (auto simp: intake_record_def)
  have "it_inbound st' = s"
    using assms(3) eo rec
    by (auto simp: intake_record_def Let_def split: if_splits option.splits prod.splits sum.splits)
  then show ?thesis using record_spec [OF assms(1,2) rec] by simp
qed

end

section \<open>Both stores provide it\<close>

interpretation mem_inbound: inbound_store "\<lambda>s. True" sha "\<lambda>r. True" "\<lambda>s. dom (map_of s)" "ib_record sha"
  for sha
proof (unfold_locales, goal_cases)
  case (1 s r now eid s' new p)
  then show ?case
    by (cases "map_of s (record_key sha r)") (auto simp: ib_record_def Let_def domIff simp del: split_paired_All)
next
  case (2 s r now eid)
  then show ?case by (auto simp: ib_record_def Let_def)
qed

definition inbound_clean :: "inbound_record \<Rightarrow> bool" where
  "inbound_clean r \<longleftrightarrow> rb_tenant r \<noteq> [] \<and> strip (rb_tenant r) = rb_tenant r"

lemma inbound_session: "inbound_clean r \<Longrightarrow> session_tenant env ctx (Some (rb_tenant r)) = Inr (rb_tenant r)"
  by (simp add: inbound_clean_def session_tenant_def clean_tenant_id_def)

lemma row_of_key [simp]:
  "bw_key (inbound_row_of sha now r eid) = record_key sha r" "bw_tenant (inbound_row_of sha now r eid) = rb_tenant r"
  by (simp_all add: bw_key_def inbound_row_of_def record_key_def)

lemma pgb_attempts_Inr:
  assumes "pgb_attempts n session w tbl = Inr (tbl', new, p)"
  shows "bw_key ` set tbl' = insert (bw_key w) (bw_key ` set tbl) \<and> (new \<longleftrightarrow> bw_key w \<notin> bw_key ` set tbl)"
  using assms
proof (induction n)
  case (Suc n)
  then show ?case
    by (auto split: if_splits option.splits dest!: find_first_SomeD intro: rev_image_eqI [OF _ sym])
qed simp

lemma pgb_attempts_held:
  assumes "bw_key w \<in> bw_key ` set tbl" "bw_tenant w = session"
  shows "\<exists>p. pgb_attempts (Suc n) session w tbl = Inr (tbl, False, p)"
proof -
  obtain x where "x \<in> set tbl" "bw_key x = bw_key w" using assms(1) by (metis imageE)
  moreover from this have "bw_tenant x = session" using assms(2) by (simp add: bw_key_def)
  ultimately have "find_first (\<lambda>x. bw_tenant x = session \<and> bw_key x = bw_key w) tbl \<noteq> None"
    by (auto simp: find_first_None_iff)
  then show ?thesis using assms(1) by auto
qed

interpretation pg_inbound: inbound_store "\<lambda>tbl. True" sha inbound_clean "\<lambda>tbl. bw_key ` set tbl" "pgb_record env ctx sha"
  for env ctx sha
proof (unfold_locales, goal_cases)
  case (1 tbl r now eid tbl' new p)
  then show ?case
    using pgb_attempts_Inr [of 2 "rb_tenant r" "inbound_row_of sha now r eid" tbl tbl' new p]
    by (simp add: pgb_record_def inbound_session)
next
  case (2 tbl r now eid)
  then show ?case
    using pgb_attempts_held [of "inbound_row_of sha now r eid" tbl "rb_tenant r" 1]
    by (simp add: pgb_record_def inbound_session numeral_2_eq_2)
qed

section \<open>An intake that was interrupted\<close>

text \<open>The source delivers the record \<open>r\<close> again, at the times and with the worker settings \<open>ds\<close>.\<close>

definition redeliver ::
  "(string \<Rightarrow> string) \<Rightarrow> 'i record_op \<Rightarrow> 's log_ops \<Rightarrow> 'w ingest_effects \<Rightarrow> inbound_record \<Rightarrow> (string \<times> bool) list \<Rightarrow>
   ('i, 's, 'w) intake_state \<Rightarrow> ('i, 's, 'w) intake_state" where
  "redeliver sha rec ops fx r ds st =
     fold (\<lambda>(now, worker_on) st. fst (process_inbound_record sha rec ops fx worker_on now r st)) ds st"

context inbound_store
begin

lemma held_redelivered:
  assumes "inv (it_inbound st)" "ok r" "record_key sha r \<in> held (it_inbound st)" "record_to_event sha r = Inr eo"
  shows "redeliver sha record_op ops fx r ds st = st"
proof -
  have "fst (process_inbound_record sha record_op ops fx w now r st) = st" for w now
    using held_is_duplicate [OF assms, of ops fx "stages w" now] by (auto simp: process_inbound_record_def)
  then show ?thesis unfolding redeliver_def by (induction ds) auto
qed

end

text \<open>
  C28. An intake that is interrupted after the record was stored loses its event. The record is in the Postgres
  store, its event never reached the bus: however often the source delivers the record again, every
  delivery is answered \<open>duplicate\<close>, changes nothing, and the event stays off the bus. The pipeline heals an
  interrupted ingest on a retry, but no retry of the record reaches it.
\<close>

theorem interrupted_intake_is_lost:
  assumes "intake_record sha (pgb_record env ctx sha) ops fx gs now r st = (st1, res)" "st1 \<noteq> st"
    and "record_to_event sha r = Inr (Some e)" "inbound_clean r" "\<not> on_bus (in_bus (it_pipe st1)) (event_key e)"
  shows "redeliver sha (pgb_record env ctx sha) ops fx r ds st1 = st1 \<and>
    \<not> on_bus (in_bus (it_pipe (redeliver sha (pgb_record env ctx sha) ops fx r ds st1))) (event_key e) \<and>
    (\<exists>oc. process_inbound_record sha (pgb_record env ctx sha) ops fx worker_on now2 r st1 = (st1, Inr oc) \<and>
      oc_status oc = ''duplicate'')"
proof -
  have held: "record_key sha r \<in> bw_key ` set (it_inbound st1)"
    using pg_inbound.intake_holds [OF TrueI assms(4,1,2)] by simp
  have "redeliver sha (pgb_record env ctx sha) ops fx r ds st1 = st1"
    by (rule pg_inbound.held_redelivered [OF TrueI assms(4) held assms(3)])
  moreover have "\<exists>oc. process_inbound_record sha (pgb_record env ctx sha) ops fx worker_on now2 r st1 = (st1, Inr oc) \<and>
      oc_status oc = ''duplicate''"
    unfolding process_inbound_record_def by (rule pg_inbound.held_is_duplicate [OF TrueI assms(4) held assms(3)])
  ultimately show ?thesis using assms(5) by simp
qed

section \<open>A second snapshot of the same stock\<close>

lemma post_init_fields:
  "post_init i ty ts actor (PyDict p) src tenant (PyStr (domain_value OPERATIONAL_TWIN)) corr caus schema = Inr e \<Longrightarrow>
     ev_id e = i \<and> ev_tenant_id e = tenant \<and> ev_payload e = p \<and> ev_data_domain e = OPERATIONAL_TWIN"
  by (auto simp: post_init_def bind_res_Inr_iff simp del: domain_value.simps)

lemma record_event_fields:
  "record_event r ty ts actor p = Inr e \<Longrightarrow>
     ev_id e = record_event_id r \<and> ev_tenant_id e = rb_tenant r \<and> ev_payload e = p \<and> ev_data_domain e = OPERATIONAL_TWIN"
  unfolding record_event_def by (rule post_init_fields)

lemma stock_event_fields:
  assumes "record_to_event sha r = Inr (Some e)" "rb_canonical_type r = ''inventory_state''"
  shows "event_key e = (rb_tenant r, domain_value OPERATIONAL_TWIN, record_event_id r) \<and>
    (\<exists>q. map_of (ev_payload e) ''quantity'' = Some (PyStr q))"
proof -
  obtain i where "inventory_to_event sha i r = Inr e"
    using assms by (auto simp: record_to_event_def bind_res_Inr_iff split: if_splits)
  then show ?thesis
    unfolding inventory_to_event_def by (auto dest!: record_event_fields simp: event_key_def)
qed

lemma py_eq_items_member: "py_eq_items d d' \<Longrightarrow> (k, v) \<in> set d \<Longrightarrow> \<exists>u. map_of d' k = Some u \<and> py_eq v u"
  by (induction d) (auto split: option.splits)

lemma other_quantity:
  assumes "map_of (ev_payload e1) ''quantity'' = Some (PyStr a)" "map_of (ev_payload e2) ''quantity'' = Some (PyStr b)" "a \<noteq> b"
  shows "\<not> same_event_payload (Some (stored_payload t e1)) e2"
proof
  assume "same_event_payload (Some (stored_payload t e1)) e2"
  then have "py_eq_items (ev_payload e1) (ev_payload e2)"
    by (simp add: same_event_payload_def stored_payload_def get_setdefault event_to_dict_def)
  then show False using py_eq_items_member [OF _ map_of_SomeD [OF assms(1)]] assms(2,3) by fastforce
qed

lemma es_get_event: "es_get (ev_tenant_id e) (ev_domain_arg e) (ev_id e) s = Inr (map_of (es_events s) (event_key e))"
  by (simp add: es_get_def event_key_def)

text \<open>
  C27. The second snapshot of a product's stock at a location is refused. The identifier of a stock event names
  the product and the location but not the time, so a later snapshot with another quantity meets the first one
  in the event log: the intake answers a 409, nothing of the pipeline's state changes, and as the record is
  kept, sending it again is answered \<open>duplicate\<close>: the new quantity never reaches the inventory.
\<close>

theorem second_stock_snapshot_is_refused:
  assumes "rb_canonical_type r1 = ''inventory_state''" "rb_canonical_type r2 = ''inventory_state''"
    and "rb_tenant r2 = rb_tenant r1" "record_event_id r2 = record_event_id r1"
    and "record_to_event sha r1 = Inr (Some e1)" "record_to_event sha r2 = Inr (Some e2)"
    and "get (ev_payload e2) ''quantity'' \<noteq> get (ev_payload e1) ''quantity''"
    and "map_of (es_events (in_log (it_pipe st))) (event_key e1) = Some (stored_payload t e1)"
    and "record_key sha r2 \<notin> dom (map_of (it_inbound st))"
  shows "\<exists>st'. process_inbound_record sha (ib_record sha) mem_ops fx won now r2 st =
      (st', Inl (HTTPException 409 ''Event id already has different content'')) \<and> it_pipe st' = it_pipe st \<and>
    (\<exists>oc. process_inbound_record sha (ib_record sha) mem_ops fx won2 now2 r2 st' = (st', Inr oc) \<and>
      oc_status oc = ''duplicate'')"
proof -
  obtain a b where q: "map_of (ev_payload e1) ''quantity'' = Some (PyStr a)" "map_of (ev_payload e2) ''quantity'' = Some (PyStr b)"
    and key: "event_key e2 = event_key e1"
    using stock_event_fields [OF assms(5,1)] stock_event_fields [OF assms(6,2)] assms(3,4) by auto
  have "a \<noteq> b" using assms(7) q by (simp add: get_def)
  then have other: "\<not> same_event_payload (Some (stored_payload t e1)) e2" by (rule other_quantity [OF q])
  have ok: "vr_ok (rb_validation r2)" using assms(6) by (auto simp: record_to_event_def split: if_splits)
  have ing: "ingest mem_ops fx now e2 (stages won) (it_pipe st) =
      (it_pipe st, Inl (HTTPException 409 ''Event id already has different content''))"
    using assms(8) other key
    by (simp add: ingest_def mem_ops_def es_record_def dict_has_def es_get_event Let_def)
  obtain s p where s: "ib_record sha now r2 (Some (ev_id e2)) (it_inbound st) = Inr (s, True, p)" "record_key sha r2 \<in> dom (map_of s)"
    using assms(9) by (auto simp: ib_record_def Let_def domIff)
  let ?st = "st\<lparr>it_inbound := s\<rparr>"
  have "process_inbound_record sha (ib_record sha) mem_ops fx won now r2 st =
      (?st, Inl (HTTPException 409 ''Event id already has different content''))"
    using assms(6) s(1) ok ing by (simp add: process_inbound_record_def intake_record_def Let_def)
  moreover have "\<exists>oc. process_inbound_record sha (ib_record sha) mem_ops fx won2 now2 r2 ?st = (?st, Inr oc) \<and> oc_status oc = ''duplicate''"
    unfolding process_inbound_record_def
    by (rule mem_inbound.held_is_duplicate [OF TrueI TrueI _ assms(6)]) (use s(2) in simp)
  ultimately show ?thesis by auto
qed

section \<open>Examples: two SAP stock rows, an order of Shopify\<close>

definition sap_row :: "nat \<Rightarrow> pydict" where
  "sap_row n = [(''Material'', PyStr ''4011''), (''StorageLocation'', PyStr ''0001''),
     (''MatlWrhsStkQtyInMatlBaseUnit'', PyInt (int n))]"

definition sap_stock :: "nat \<Rightarrow> stock_item" where
  "sap_stock n = \<lparr>sk_tenant = ''acme'', sk_sku = ''4011'', sk_location = ''0001'', sk_quantity = DFin False n 0,
     sk_state = ON_HAND, sk_time = Some example_ts, sk_gtin = None, sk_barcode = None\<rparr>"

definition sap_record :: "nat \<Rightarrow> inbound_record" where
  "sap_record n = wrap (\<lambda>s. s) ''acme'' SAP ''inventory_state'' ''4011@0001'' example_ts ''inventory_state''
     (stock_payload (sap_stock n)) vr_empty (sap_row n)"

lemma example_time: "good_time example_ts"
  by (simp add: good_time_def example_ts_def valid_datetime_def valid_date_def valid_time_def valid_offset_def
      days_in_month_def day_us_def)

lemma sap_maps:
  assumes "dec_of (str_int (int n)) = Some (DFin False n 0)"
  shows "map_for (\<lambda>s. s) example_ts SAP (sap_row n) ''acme'' = Inr [sap_record n]"
  using assms
  by (simp add: single_def map_sap_inventory_def sap_row_def item_def get_or_def dec_read_def stock_record_def
      validated_stock_def validate_inventory_def dec_rat_def scale10_def fail_if_def none_or_empty_def sap_record_def sap_stock_def)

lemma sap_event:
  "\<exists>e. record_to_event (\<lambda>s. s) (sap_record n) = Inr (Some e) \<and> get (ev_payload e) ''quantity'' = PyStr (dec_str (DFin False n 0))"
  using stock_record_event [of "sap_record n" "sap_stock n" "\<lambda>s. s"] example_time
  by (auto simp: sap_record_def stock_good_def sap_stock_def dec_rat_def scale10_def simp del: dec_str.simps)

theorem second_stock_snapshot_is_refused_witness:
  "\<exists>r1 r2 e1 st st'. map_for (\<lambda>s. s) example_ts SAP (sap_row 10) ''acme'' = Inr [r1] \<and>
     map_for (\<lambda>s. s) example_ts SAP (sap_row 7) ''acme'' = Inr [r2] \<and> record_to_event (\<lambda>s. s) r1 = Inr (Some e1) \<and>
     map_of (es_events (in_log (it_pipe st))) (event_key e1) = Some (stored_payload ''t1'' e1) \<and>
     process_inbound_record (\<lambda>s. s) (ib_record (\<lambda>s. s)) mem_ops no_effects True ''t2'' r2 st =
       (st', Inl (HTTPException 409 ''Event id already has different content''))"
proof -
  have maps: "map_for (\<lambda>s. s) example_ts SAP (sap_row 10) ''acme'' = Inr [sap_record 10]"
    "map_for (\<lambda>s. s) example_ts SAP (sap_row 7) ''acme'' = Inr [sap_record 7]"
    by (rule sap_maps, code_simp)+
  obtain e1 e2 where e: "record_to_event (\<lambda>s. s) (sap_record 10) = Inr (Some e1)" "record_to_event (\<lambda>s. s) (sap_record 7) = Inr (Some e2)"
    "get (ev_payload e2) ''quantity'' \<noteq> get (ev_payload e1) ''quantity''"
  proof -
    have "dec_str (DFin False 7 0) \<noteq> dec_str (DFin False 10 0)" by code_simp
    then show thesis using that sap_event [of 10] sap_event [of 7] by (metis pyval.inject(4))
  qed
  have same: "rb_canonical_type (sap_record n) = ''inventory_state''" "rb_tenant (sap_record n) = ''acme''"
    "record_event_id (sap_record n) = ''evt_sap_inventory_state_4011@0001''" for n
    by (simp_all add: sap_record_def record_event_id_def)
  have "json_dumps (PyDict (sap_row 7)) \<noteq> json_dumps (PyDict (sap_row 10))" by code_simp
  then have fresh: "record_key (\<lambda>s. s) (sap_record 7) \<noteq> record_key (\<lambda>s. s) (sap_record 10)"
    by (simp add: record_key_def payload_hash_def raw_payload_hash_def sap_record_def del: json_dumps.simps)
  let ?st = "\<lparr>it_inbound = [(record_key (\<lambda>s. s) (sap_record 10),
      inbound_payload (\<lambda>s. s) ''t1'' (sap_record 10) (Some (ev_id e1)))],
    it_pipe = empty_pipeline \<lparr>es_events = [(event_key e1, stored_payload ''t1'' e1)], es_published = [event_key e1]\<rparr>\<rparr>"
  have log: "map_of (es_events (in_log (it_pipe ?st))) (event_key e1) = Some (stored_payload ''t1'' e1)"
    by (simp add: empty_pipeline_def)
  have "record_key (\<lambda>s. s) (sap_record 7) \<notin> dom (map_of (it_inbound ?st))" using fresh by simp
  from second_stock_snapshot_is_refused [OF same(1) same(1) _ _ e log this, of no_effects True "''t2''"]
  obtain st' where "process_inbound_record (\<lambda>s. s) (ib_record (\<lambda>s. s)) mem_ops no_effects True ''t2'' (sap_record 7) ?st =
      (st', Inl (HTTPException 409 ''Event id already has different content''))"
    by (auto simp: same)
  with maps e(1) log show ?thesis by blast
qed

abbreviation demo_pg :: "(inbound_row list) record_op" where
  "demo_pg \<equiv> pgb_record Map.empty None (\<lambda>_. ''h'')"

theorem interrupted_intake_is_lost_witness:
  "\<exists>r e st1 res. map_for (\<lambda>_. ''h'') example_ts SHOPIFY demo_order ''acme'' = Inr [r] \<and>
     record_to_event (\<lambda>_. ''h'') r = Inr (Some e) \<and>
     intake_record (\<lambda>_. ''h'') demo_pg (pg_ops Map.empty None) no_effects [Observe] ''t1'' r
       \<lparr>it_inbound = [], it_pipe = empty_pipeline []\<rparr> = (st1, res) \<and>
     redeliver (\<lambda>_. ''h'') demo_pg (pg_ops Map.empty None) no_effects r [(''t2'', True), (''t3'', True)] st1 = st1 \<and>
     \<not> on_bus (in_bus (it_pipe st1)) (event_key e)"
proof -
  obtain r where r: "map_for (\<lambda>_. ''h'') example_ts SHOPIFY demo_order ''acme'' = Inr [r]" "vr_ok (rb_validation r)"
    "rb_canonical_type r = ''sales_line''" using demo_order_maps by blast
  have "mapped SHOPIFY demo_order ''acme'' r"
    using map_for_mapped [OF r(1) example_time] by (auto simp: demo_order_def dict_wf_def)
  then obtain e where e: "record_to_event (\<lambda>_. ''h'') r = Inr (Some e)" and tenant: "rb_tenant r = ''acme''"
    using mapped_event [of SHOPIFY demo_order "''acme''" r] r(2,3) by (auto simp: mapped_def)
  have clean: "inbound_clean r" by (simp add: inbound_clean_def tenant) code_simp
  let ?st = "\<lparr>it_inbound = [], it_pipe = empty_pipeline []\<rparr>"
  obtain st1 res where run: "intake_record (\<lambda>_. ''h'') demo_pg (pg_ops Map.empty None) no_effects [Observe] ''t1'' r ?st = (st1, res)"
    by (rule prod.exhaust)
  have pg: "\<exists>p. demo_pg ''t1'' r eid [] = Inr ([inbound_row_of (\<lambda>_. ''h'') ''t1'' r eid], True, p)" for eid
    using inbound_session [OF clean] by (simp add: pgb_record_def numeral_2_eq_2)
  have "it_inbound st1 \<noteq> [] \<and> in_bus (it_pipe st1) = bus_init 3"
    using run e r(2) pg [of "Some (ev_id e)"]
    by (auto simp: intake_record_def Let_def ingest_def run_stage_def empty_pipeline_def pg_ops_def
        split: prod.splits sum.splits bool.splits option.splits if_splits)
  then have st1: "st1 \<noteq> ?st" "\<not> on_bus (in_bus (it_pipe st1)) (event_key e)"
    by (auto simp: on_bus_def bus_init_def)
  from interrupted_intake_is_lost [OF run st1(1) e clean st1(2), of "[(''t2'', True), (''t3'', True)]"] r(1) e run st1(2)
  show ?thesis by blast
qed

end
