(* ===== verification/Spec2Isabelle.thy ===== *)
theory Spec2Isabelle
  imports Ingest Plans Worker Writeback DecisionStore Learning Approvals Edge TwinService Owners Intake
begin

text \<open>
  ShelfWise is a retail operations backend: store events come in, are recorded, projected on the
  inventory and the open orders, published on a bus, worked into decisions by a cascade, reviewed by
  a manager and written back as tasks. This development models the Python code under \<open>src/\<close>
  that carries that flow, and proves what each part promises and what the parts promise together.

  \<^bold>\<open>Parts and theories.\<close> Each theory names its files; state and operations keep the names of the code
  with a short prefix per component.

  \<^item> \<open>Prelude\<close>, \<open>PyText\<close>, \<open>PyNum\<close>, \<open>PyVal\<close>, \<open>PyTime\<close>, \<open>PyCal\<close>, \<open>PyDec\<close>, \<open>PyJson\<close>: what the sources use of the language: results
    and errors, insertion-ordered dictionaries, \<open>str\<close> methods, decimal numbers and \<open>repr\<close>, JSON-like values
    with truth and equality, ISO timestamps with \<open>fromisoformat\<close> and \<open>isoformat\<close>, and the civil calendar with
    instants.
  \<^item> \<open>Provenance\<close>: \<open>shelfwise_runtime/provenance.py\<close> and \<open>shelfwise_storage/pagination.py\<close>.
  \<^item> \<open>Contracts\<close>: \<open>shelfwise_contracts/__init__.py\<close> (money, events, evidence, decisions). Lemmas: the wire
    round trip, the event invariant, the decimal round trip of money.
  \<^item> \<open>Storage\<close>: \<open>shelfwise_storage/postgres.py\<close>, \<open>rls.py\<close> (tenant sessions and row-level security).
  \<^item> \<open>DecisionStore\<close>: \<open>shelfwise_action/store.py\<close>, both backends. Lemmas: verdicts are final, the first review
    decides, the Postgres review refines the in-memory one, tenants are isolated.
  \<^item> \<open>EventBus\<close>: the in-memory bus of \<open>shelfwise_backend/event_bus.py\<close> with its consumers as a step relation.
    Lemmas: conservation of messages, the exact retry budget, first-in first-out delivery. The locale
    \<open>delivery_queue\<close> is what the worker relies on.
  \<^item> \<open>EventStore\<close>: \<open>event_store.py\<close>, both backends, interpreting the locale \<open>event_log\<close>.
  \<^item> \<open>Inventory\<close>: \<open>shelfwise_inventory/store.py\<close> (projection of sales and stock updates on positions).
  \<^item> \<open>OpenOrders\<close>: \<open>open_orders.py\<close> (receiving progress and replenishment coverage).
  \<^item> \<open>Ingest\<close>: \<open>ingest_pipeline.py\<close> over any event log, with a crash possible after every stage.
  \<^item> \<open>Journal\<close>: \<open>worker/journal.py\<close>, both backends, interpreting the locale \<open>step_journal\<close>.
  \<^item> \<open>Worker\<close>: \<open>worker/worker.py\<close>, one delivery from consume to ack or nack over any \<open>delivery_queue\<close>.
  \<^item> \<open>Writeback\<close>: \<open>shelfwise_connectors/writeback.py\<close>, both sinks.
  \<^item> \<open>Plans\<close>: \<open>worker/plans.py\<close>, \<open>worker/schedules.py\<close> and the capabilities of \<open>governed_execution.py\<close>.
  \<^item> \<open>Learning\<close>: \<open>shelfwise_memory/__init__.py\<close>, both backends, interpreting the locale \<open>learning_memory\<close>. Lemmas:
    learnt thresholds never fall, events are kept, a raced approval reports the committed threshold.
  \<^item> \<open>Approvals\<close>: the review and completion handlers of \<open>app.py\<close> over the decision store, the task sink, the
    learning memory and the inventory, with \<open>decision_access.py\<close>, \<open>decision_assignment.py\<close>, \<open>tenant.py\<close>. Lemmas:
    no task without an approval, an approval takes effect once, reviews stay inside the tenant.
  \<^item> \<open>Edge\<close>: \<open>shelfwise_edge\<close> and the device routes of \<open>routes_twin.py\<close>; both registries interpret the locale
    \<open>device_registry\<close>, and requests in flight are a step relation. Lemmas: a batch is projected at most once,
    an admitted batch is authentic, revocation is final.
  \<^item> \<open>Twin\<close>: the digital twin (\<open>shelfwise_twin/models.py\<close>, \<open>store.py\<close>, \<open>projector.py\<close>): validation of observations, both
    twin stores, and the projector over the locale \<open>twin_projection\<close> that both stores interpret. Lemmas: which
    values are accepted, convergence under any order of delivery, the fate of an interrupted projection.
  \<^item> \<open>TwinService\<close>: \<open>shelfwise_twin/service.py\<close>, the onboarding manifests of \<open>onboarding_store.py\<close> and
    \<open>twin_projection.py\<close>: events become observations, stores are onboarded, a twin is rebuilt from its events and
    summed up in a snapshot. Lemmas: entity identifiers are stable, replaying an event changes nothing, a rebuild
    restores every property.
  \<^item> \<open>Tokens\<close>: \<open>tenant.py\<close>, \<open>account_tokens.py\<close>, \<open>auth_credentials.py\<close>: HS256 session and account tokens and
    password credentials over a record of the digests and the JSON codec. Lemmas: what was issued reads back,
    a token serves one purpose, a credential check accepts exactly its password.
  \<^item> \<open>Accounts\<close>: \<open>shelfwise_storage/accounts.py\<close>; both account stores interpret the locale \<open>account_store\<close>: operations
    change one account, versions only grow, a token is used up. \<open>TenantProfiles\<close>: \<open>tenant_profiles.py\<close>.
  \<^item> \<open>AccountRoutes\<close>: the session check, role gates and guards of \<open>deps.py\<close> and every route of \<open>routes_accounts.py\<close> over
    either store. Lemmas: an ended session stays ended, a reset link works once.
  \<^item> \<open>Owners\<close>: sequences of those requests over the store in memory, and the invariant that a tenant with an
    active owner keeps one.
  \<^item> \<open>Inbound\<close>, \<open>Mappers\<close>: \<open>shelfwise_connectors\<close>: canonical records, validation and provenance, the mapper of each
    source system with \<open>map_for\<close>, and \<open>normalize.py\<close>. Lemmas: every record a mapper calls valid becomes an event
    with its product and place. \<open>sha\<close> stands for the hexadecimal SHA-256 and the clock is an argument.
  \<^item> \<open>Intake\<close>: \<open>inbound_store.py\<close>, \<open>_process_inbound_record\<close> and \<open>intake_connector_payload\<close> of \<open>app.py\<close>; both inbound stores
    interpret the locale \<open>inbound_store\<close>. Lemmas: a held record is a duplicate whatever became of its event, a
    second stock snapshot is refused, an interrupted intake is lost.

  \<^bold>\<open>Conventions.\<close> A raise is an \<open>Inl\<close> of the datatype \<open>exn\<close> and a return an \<open>Inr\<close>; mutable stores are
  records or dictionaries passed explicitly, returned also when an operation raises after changing
  them. Strings are lists of 8-bit characters, so \<open>str\<close> methods are the ones of Latin-1 text.
  Timestamps that the code keeps as strings are strings, and clock readings and generated ids are
  arguments. A Postgres table is a list of rows; a session sees the rows of its tenant, which is what
  the policies of \<open>rls.py\<close> say. Locks are not modelled: an operation under the lock is one step, and an
  interleaving is a sequence of steps. Where a Postgres operation runs several statements outside a
  lock, the statements are separate definitions (\<open>pgo_get\<close> and \<open>pgo_write\<close>).

  \<^bold>\<open>Bounds.\<close> There is no fuel: every loop of the modelled code runs over a list. Python integers
  are \<open>int\<close>; floats keep their literal and are compared as the decimal they print.

  \<^bold>\<open>Not modelled.\<close> The Redis Streams bus and the psycopg driver are third-party calls; the cascades,
  chat, inference, multimodal and evaluation packages build prompts around a language model or
  compute in binary floating point; the twin projection and the cascade are parameters of the
  pipeline and the worker; of the connectors, polling, webhook signatures and the CSV intake; FastAPI
  wiring, threads and environment lookups outside the modelled functions are left out.
\<close>

end
